(* ===== verification/Prelude.thy ===== *)
theory Prelude
  imports Main "HOL-Library.State_Monad" "HOL-Library.Multiset" "HOL-Library.Sublist"
    "HOL-Library.List_Lexorder" "HOL-Library.Char_ord"
begin

text \<open>
  Shared material: the fact collections of the development, Go's instants, the stable sort of
  Go's \<^verbatim>\<open>sort.SliceStable\<close>, and the calculus for programs that thread a state and return an
  error (\<^verbatim>\<open>(T, error)\<close> in Go, \<open>'e + 'a\<close> here).
\<close>

named_theorems law_intros \<open>introduction rules for two-state laws of stateful programs\<close>
named_theorems run_simps \<open>evaluation rules for stateful programs\<close>

section \<open>Instants\<close>

text \<open>
  A \<^verbatim>\<open>time.Time\<close> is its number of nanoseconds since the Unix epoch; \<^verbatim>\<open>IsZero\<close> is the first
  of January of year 1.
\<close>

type_synonym instant = int

abbreviation second_ns :: int where "second_ns \<equiv> 1000000000"
abbreviation minute_ns :: int where "minute_ns \<equiv> 60000000000"

definition zero_time :: instant where
  "zero_time = - 62135596800000000000"

definition coalesce :: "'a option \<Rightarrow> 'a option \<Rightarrow> 'a option" where
  "coalesce a b = (case a of None \<Rightarrow> b | Some x \<Rightarrow> Some x)"

lemma coalesce_simps [simp]: "coalesce None b = b" "coalesce (Some x) b = Some x"
  by (simp_all add: coalesce_def)

lemma coalesce_idem [simp]: "coalesce b b = b" "coalesce (coalesce a b) c = coalesce a (coalesce b c)"
  by (cases b; simp) (cases a; simp)

text \<open>A loop that returns from its body: the first result that is one.\<close>

fun first_some :: "('a \<Rightarrow> 'b option) \<Rightarrow> 'a list \<Rightarrow> 'b option" where
  "first_some f [] = None"
| "first_some f (x # xs) = (case f x of None \<Rightarrow> first_some f xs | Some y \<Rightarrow> Some y)"

lemma first_some_None: "first_some f xs = None \<longleftrightarrow> (\<forall>x \<in> set xs. f x = None)"
  by (induction xs) (auto split: option.splits)

lemma first_some_SomeE:
  assumes "first_some f xs = Some y"
  obtains us x vs where "xs = us @ x # vs" and "f x = Some y" and "\<forall>u \<in> set us. f u = None"
  using assms
proof (induction xs arbitrary: thesis)
  case (Cons a xs)
  show ?case
  proof (cases "f a")
    case None
    with Cons.prems(2) obtain us x vs
      where "xs = us @ x # vs" "f x = Some y" "\<forall>u \<in> set us. f u = None"
      using Cons.IH by auto
    with None show ?thesis using Cons.prems(1) [of "a # us" x vs] by simp
  next
    case (Some z)
    with Cons.prems(2) show ?thesis using Cons.prems(1) [of "[]" a xs] by simp
  qed
qed simp

lemma first_some_append:
  "\<forall>u \<in> set us. f u = None \<Longrightarrow> f x = Some y \<Longrightarrow> first_some f (us @ x # vs) = Some y"
  by (induction us) auto

text \<open>The same over a range of numbers, \<^verbatim>\<open>for x := i; x <= j; x++\<close>.\<close>

function first_upto :: "(int \<Rightarrow> 'b option) \<Rightarrow> int \<Rightarrow> int \<Rightarrow> 'b option" where
  "first_upto f i j = (if j < i then None
     else case f i of None \<Rightarrow> first_upto f (i + 1) j | Some y \<Rightarrow> Some y)"
  by pat_completeness auto
termination
  by (relation "measure (\<lambda>(f, i, j). nat (j + 1 - i))") auto

declare first_upto.simps [simp del]

lemma first_upto_some [simp]: "first_upto f i j = first_some f [i..j]"
proof (induction f i j rule: first_upto.induct)
  case (1 f i j)
  then show ?case
    by (subst first_upto.simps) (auto simp: upto_rec1 split: option.split)
qed

section \<open>Stable sorting by a comparison\<close>

fun insert_by :: "('a \<Rightarrow> 'a \<Rightarrow> bool) \<Rightarrow> 'a \<Rightarrow> 'a list \<Rightarrow> 'a list" where
  "insert_by lt x [] = [x]"
| "insert_by lt x (y # ys) = (if lt y x then y # insert_by lt x ys else x # y # ys)"

definition slice_stable :: "('a \<Rightarrow> 'a \<Rightarrow> bool) \<Rightarrow> 'a list \<Rightarrow> 'a list" where
  "slice_stable lt xs = foldr (insert_by lt) xs []"

lemma slice_stable_simps [simp]:
  "slice_stable lt [] = []"
  "slice_stable lt (x # xs) = insert_by lt x (slice_stable lt xs)"
  by (simp_all add: slice_stable_def)

lemma mset_insert_by [simp]: "mset (insert_by lt x ys) = add_mset x (mset ys)"
  by (induction ys) auto

lemma set_insert_by [simp]: "set (insert_by lt x ys) = insert x (set ys)"
  by (induction ys) auto

lemma mset_slice_stable [simp]: "mset (slice_stable lt xs) = mset xs"
  by (induction xs) auto

lemma set_slice_stable [simp]: "set (slice_stable lt xs) = set xs"
  by (induction xs) auto

lemma length_slice_stable [simp]: "length (slice_stable lt xs) = length xs"
  by (metis mset_slice_stable size_mset)

lemma slice_stable_Nil_iff [simp]: "slice_stable lt xs = [] \<longleftrightarrow> xs = []"
  by (metis length_0_conv length_slice_stable)

text \<open>What a comparison owes to a stable sort: it is a strict weak order.\<close>

locale strict_weak_order =
  fixes lt :: "'a \<Rightarrow> 'a \<Rightarrow> bool"
  assumes asym: "lt a b \<Longrightarrow> \<not> lt b a"
    and neg_trans: "\<not> lt a b \<Longrightarrow> \<not> lt b c \<Longrightarrow> \<not> lt a c"
begin

lemma irrefl [simp]: "\<not> lt a a"
  using asym by blast

lemma less_trans: "lt a b \<Longrightarrow> lt b c \<Longrightarrow> lt a c"
  using asym neg_trans by blast

lemma sorted_insert_by:
  "sorted_wrt (\<lambda>a b. \<not> lt b a) ys \<Longrightarrow> sorted_wrt (\<lambda>a b. \<not> lt b a) (insert_by lt x ys)"
proof (induction ys)
  case Nil
  then show ?case by simp
next
  case (Cons y ys)
  then have "\<forall>z \<in> set ys. \<not> lt z y" by simp
  then have "\<not> lt y x \<Longrightarrow> \<forall>z \<in> set ys. \<not> lt z x"
    using neg_trans by blast
  moreover have "lt y x \<Longrightarrow> \<not> lt x y" by (rule asym)
  ultimately show ?case using Cons by simp
qed

lemma sorted_slice_stable: "sorted_wrt (\<lambda>a b. \<not> lt b a) (slice_stable lt xs)"
  by (induction xs) (simp_all add: sorted_insert_by)

lemma hd_minimal: "y \<in> set xs \<Longrightarrow> \<not> lt y (hd (slice_stable lt xs))"
  using sorted_slice_stable [of xs]
  by (cases "slice_stable lt xs") (auto simp flip: set_slice_stable [of lt xs])

text \<open>Elements the comparison cannot tell apart keep the order they came in.\<close>

lemma filter_insert_by:
  assumes "sorted_wrt (\<lambda>a b. \<not> lt b a) ys"
  shows "filter (\<lambda>y. \<not> lt y z \<and> \<not> lt z y) (insert_by lt x ys)
       = filter (\<lambda>y. \<not> lt y z \<and> \<not> lt z y) (x # ys)"
  using assms
proof (induction ys)
  case Nil
  then show ?case by simp
next
  case (Cons y ys)
  have "\<not> lt y z \<Longrightarrow> \<not> lt z y \<Longrightarrow> \<not> lt x z \<Longrightarrow> \<not> lt z x \<Longrightarrow> \<not> lt y x"
    using neg_trans by blast
  with Cons show ?case by (cases "lt y x") auto
qed

lemma slice_stable_stable:
  "filter (\<lambda>y. \<not> lt y z \<and> \<not> lt z y) (slice_stable lt xs)
   = filter (\<lambda>y. \<not> lt y z \<and> \<not> lt z y) xs"
  by (induction xs) (simp_all add: filter_insert_by sorted_slice_stable)

end

text \<open>Ordering by a key into a linear order is such a comparison; so is its reverse.\<close>

interpretation key_less: strict_weak_order "\<lambda>a b. key a < (key b :: 'k::linorder)" for key
  by unfold_locales auto

section \<open>Searching a table\<close>

lemma find_unique:
  assumes "x \<in> set xs" "P x" "\<And>y. y \<in> set xs \<Longrightarrow> P y \<Longrightarrow> y = x"
  shows "find P xs = Some x"
proof (cases "find P xs")
  case None
  then show ?thesis using assms(1,2) unfolding find_None_iff by blast
next
  case (Some y)
  then have "y \<in> set xs \<and> P y" by (auto simp: find_Some_iff)
  with Some assms(3) show ?thesis by blast
qed

section \<open>Tables that only grow\<close>

text \<open>Every row of \<open>xs\<close> is still there, in its place, changed at most as \<open>P\<close> allows; rows may be added.\<close>

definition evolves :: "('a \<Rightarrow> 'a \<Rightarrow> bool) \<Rightarrow> 'a list \<Rightarrow> 'a list \<Rightarrow> bool" where
  "evolves P xs ys \<longleftrightarrow> (\<exists>old added. ys = old @ added \<and> list_all2 P xs old)"

lemma evolves_refl: "(\<And>x. P x x) \<Longrightarrow> evolves P xs xs"
  unfolding evolves_def by (rule exI [of _ xs]) (simp add: list.rel_refl)

lemma evolves_map: "(\<And>x. P x (f x)) \<Longrightarrow> evolves P xs (map f xs)"
  unfolding evolves_def by (rule exI [of _ "map f xs"]) (simp add: list_all2_conv_all_nth)

lemma evolves_snoc: "(\<And>x. P x x) \<Longrightarrow> evolves P xs (xs @ ys)"
  unfolding evolves_def by (rule exI [of _ xs]) (simp add: list.rel_refl)

lemma evolves_trans:
  assumes P: "\<And>x y z. P x y \<Longrightarrow> P y z \<Longrightarrow> P x z" and "evolves P xs ys" "evolves P ys zs"
  shows "evolves P xs zs"
proof -
  obtain o1 n1 where ys: "ys = o1 @ n1" and 1: "list_all2 P xs o1" using assms(2) by (auto simp: evolves_def)
  obtain o2 n2 where zs: "zs = o2 @ n2" and 2: "list_all2 P (o1 @ n1) o2"
    using assms(3) by (auto simp: evolves_def ys)
  then obtain a b where o2: "o2 = a @ b" and a: "list_all2 P o1 a" by (auto simp: list_all2_append1)
  have "list_all2 P xs a" using list_all2_trans [of P P P, OF _ 1 a] P by blast
  then show ?thesis unfolding evolves_def zs o2 by auto
qed

lemma evolves_member: "evolves P xs ys \<Longrightarrow> x \<in> set xs \<Longrightarrow> \<exists>y \<in> set ys. P x y"
  by (fastforce simp: evolves_def list_all2_conv_all_nth in_set_conv_nth)

section \<open>Programs over a state\<close>

abbreviation ret :: "'a \<Rightarrow> ('s, 'a) state" where "ret \<equiv> State_Monad.return"

text \<open>
  Loops of the source, with the error of the body ending the loop (\<open>for_each\<close>) or an accumulator
  carried through it (\<open>fold_state\<close>).
\<close>

fun for_each :: "('a \<Rightarrow> ('s, 'e + unit) state) \<Rightarrow> 'a list \<Rightarrow> ('s, 'e + unit) state" where
  "for_each f [] = State_Monad.return (Inr ())"
| "for_each f (x # xs) =
     do { r \<leftarrow> f x;
          case r of Inl e \<Rightarrow> State_Monad.return (Inl e) | Inr _ \<Rightarrow> for_each f xs }"

fun fold_state :: "('b \<Rightarrow> 'a \<Rightarrow> ('s, 'b) state) \<Rightarrow> 'b \<Rightarrow> 'a list \<Rightarrow> ('s, 'b) state" where
  "fold_state f b [] = State_Monad.return b"
| "fold_state f b (x # xs) = do { b' \<leftarrow> f b x; fold_state f b' xs }"

fun map_state :: "('a \<Rightarrow> ('s, 'b) state) \<Rightarrow> 'a list \<Rightarrow> ('s, 'b list) state" where
  "map_state f [] = State_Monad.return []"
| "map_state f (x # xs) = do { y \<leftarrow> f x; ys \<leftarrow> map_state f xs; State_Monad.return (y # ys) }"

text \<open>
  A two-state law relates the state before a program to the state after it: \<open>state_io_rel R m\<close>.
  A law that is reflexive and transitive passes through sequencing and loops, so it is checked
  once per primitive operation and then composed. An invariant \<open>P\<close> is the law
  \<open>\<lambda>s t. P s \<longrightarrow> P t\<close>.
\<close>

lemma law_if [law_intros]:
  "\<lbrakk>b \<Longrightarrow> state_io_rel R m; \<not> b \<Longrightarrow> state_io_rel R n\<rbrakk> \<Longrightarrow> state_io_rel R (if b then m else n)"
  by simp

lemma law_sum [law_intros]:
  "\<lbrakk>\<And>e. r = Inl e \<Longrightarrow> state_io_rel R (f e); \<And>x. r = Inr x \<Longrightarrow> state_io_rel R (g x)\<rbrakk>
   \<Longrightarrow> state_io_rel R (case r of Inl e \<Rightarrow> f e | Inr x \<Rightarrow> g x)"
  by (cases r) simp_all

lemma law_option [law_intros]:
  "\<lbrakk>r = None \<Longrightarrow> state_io_rel R m; \<And>x. r = Some x \<Longrightarrow> state_io_rel R (g x)\<rbrakk>
   \<Longrightarrow> state_io_rel R (case r of None \<Rightarrow> m | Some x \<Rightarrow> g x)"
  by (cases r) simp_all

lemma law_list [law_intros]:
  "\<lbrakk>r = [] \<Longrightarrow> state_io_rel R m; \<And>x xs. r = x # xs \<Longrightarrow> state_io_rel R (g x xs)\<rbrakk>
   \<Longrightarrow> state_io_rel R (case r of [] \<Rightarrow> m | x # xs \<Rightarrow> g x xs)"
  by (cases r) simp_all

lemma law_prod [law_intros]:
  "(\<And>x y. r = (x, y) \<Longrightarrow> state_io_rel R (f x y)) \<Longrightarrow> state_io_rel R (case r of (x, y) \<Rightarrow> f x y)"
  by (cases r) simp

lemma law_Let [law_intros]:
  "(\<And>x. x = t \<Longrightarrow> state_io_rel R (f x)) \<Longrightarrow> state_io_rel R (let x = t in f x)"
  by simp

text \<open>\<open>yields Q m\<close>: every result of \<open>m\<close> satisfies \<open>Q\<close>, whatever the state.\<close>

definition yields :: "('a \<Rightarrow> bool) \<Rightarrow> ('s, 'a) state \<Rightarrow> bool" where
  "yields Q m \<longleftrightarrow> (\<forall>s. Q (fst (run_state m s)))"

lemma yieldsI: "(\<And>s. Q (fst (run_state m s))) \<Longrightarrow> yields Q m"
  by (simp add: yields_def)

lemma yields_any: "yields (\<lambda>_. True) m"
  by (simp add: yields_def)

lemma yields_ret: "Q x \<Longrightarrow> yields Q (State_Monad.return x)"
  by (simp add: yields_def)

lemma yields_bind: "yields P m \<Longrightarrow> (\<And>x. P x \<Longrightarrow> yields Q (f x)) \<Longrightarrow> yields Q (State_Monad.bind m f)"
  by (simp add: yields_def split: prod.splits) (metis fst_conv)

lemma yields_bind_any: "(\<And>x. yields Q (f x)) \<Longrightarrow> yields Q (State_Monad.bind m f)"
  by (rule yields_bind [OF yields_any])

lemma yields_if: "(b \<Longrightarrow> yields Q m) \<Longrightarrow> (\<not> b \<Longrightarrow> yields Q n) \<Longrightarrow> yields Q (if b then m else n)"
  by simp

lemma yields_sum:
  "(\<And>e. r = Inl e \<Longrightarrow> yields Q (f e)) \<Longrightarrow> (\<And>x. r = Inr x \<Longrightarrow> yields Q (g x))
   \<Longrightarrow> yields Q (case r of Inl e \<Rightarrow> f e | Inr x \<Rightarrow> g x)"
  by (cases r) simp_all

lemma yields_prod: "(\<And>x y. r = (x, y) \<Longrightarrow> yields Q (f x y)) \<Longrightarrow> yields Q (case r of (x, y) \<Rightarrow> f x y)"
  by (cases r) simp

lemma yields_Let: "(\<And>x. x = t \<Longrightarrow> yields Q (f x)) \<Longrightarrow> yields Q (let x = t in f x)"
  by simp

lemmas yields_intros = yields_if yields_sum yields_prod yields_Let

locale step_law =
  fixes R :: "'s \<Rightarrow> 's \<Rightarrow> bool"
  assumes law_refl: "R s s"
    and law_trans: "R s t \<Longrightarrow> R t u \<Longrightarrow> R s u"
begin

lemma return: "state_io_rel R (State_Monad.return x)"
  by (rule state_io_relI) (simp add: law_refl)

lemma get: "state_io_rel R State_Monad.get"
  by (rule state_io_relI) (simp add: law_refl)

lemma bind:
  assumes "state_io_rel R m" and "\<And>x. state_io_rel R (f x)"
  shows "state_io_rel R (State_Monad.bind m f)"
proof (rule state_io_relI)
  fix a s u
  assume "run_state (State_Monad.bind m f) s = (a, u)"
  then obtain x t where "run_state m s = (x, t)" and "run_state (f x) t = (a, u)"
    by (auto split: prod.splits)
  with assms show "R s u" by (blast intro: law_trans)
qed

text \<open>Sequencing that remembers what every result of the first program satisfies.\<close>

lemma bind_result:
  assumes "state_io_rel R m" and "yields Q m" and "\<And>x. Q x \<Longrightarrow> state_io_rel R (f x)"
  shows "state_io_rel R (State_Monad.bind m f)"
proof (rule state_io_relI)
  fix a s u
  assume "run_state (State_Monad.bind m f) s = (a, u)"
  then obtain x t where m: "run_state m s = (x, t)" and f: "run_state (f x) t = (a, u)"
    by (auto split: prod.splits)
  have "Q x" using assms(2) m by (metis fst_conv yields_def)
  with m f assms(1,3) show "R s u" by (blast intro: law_trans)
qed

lemma for_each_set: "(\<And>x. x \<in> set xs \<Longrightarrow> state_io_rel R (f x)) \<Longrightarrow> state_io_rel R (Prelude.for_each f xs)"
  by (induction xs) (auto intro!: bind return law_intros)

lemma fold_state_set:
  "(\<And>b x. x \<in> set xs \<Longrightarrow> state_io_rel R (f b x)) \<Longrightarrow> state_io_rel R (Prelude.fold_state f b xs)"
  by (induction xs arbitrary: b) (auto intro!: bind return)

lemma for_each: "(\<And>x. state_io_rel R (f x)) \<Longrightarrow> state_io_rel R (Prelude.for_each f xs)"
  by (induction xs) (auto intro!: bind return law_intros)

lemma fold_state: "(\<And>b x. state_io_rel R (f b x)) \<Longrightarrow> state_io_rel R (Prelude.fold_state f b xs)"
  by (induction xs arbitrary: b) (auto intro!: bind return)

lemma map_state: "(\<And>x. state_io_rel R (f x)) \<Longrightarrow> state_io_rel R (Prelude.map_state f xs)"
  by (induction xs) (auto intro!: bind return)

lemmas laws = return get bind for_each fold_state map_state

end

end
