(* ===== verification/Go_Text.thy ===== *)
theory Go_Text
  imports Prelude
begin

text \<open>
  The functions of Go's \<^verbatim>\<open>strings\<close>, \<^verbatim>\<open>strconv\<close> and \<^verbatim>\<open>unicode/utf8\<close> that the modelled code calls. A Go
  string is its list of bytes. \<^verbatim>\<open>ToLower\<close> and \<^verbatim>\<open>EqualFold\<close> fold the ASCII letters only; white space
  is the full Unicode set, by its UTF-8 encodings.
\<close>

section \<open>Characters\<close>

abbreviation byte :: "char \<Rightarrow> nat" where "byte c \<equiv> of_char c"

definition bytes :: "nat list \<Rightarrow> string" where
  "bytes ns = map char_of ns"

definition is_digit :: "char \<Rightarrow> bool" where
  "is_digit c \<longleftrightarrow> 48 \<le> byte c \<and> byte c \<le> 57"

definition lower_char :: "char \<Rightarrow> char" where
  "lower_char c = (if 65 \<le> byte c \<and> byte c \<le> 90 then char_of (byte c + 32) else c)"

definition upper_char :: "char \<Rightarrow> char" where
  "upper_char c = (if 97 \<le> byte c \<and> byte c \<le> 122 then char_of (byte c - 32) else c)"

definition to_lower :: "string \<Rightarrow> string" where "to_lower = map lower_char"
definition to_upper :: "string \<Rightarrow> string" where "to_upper = map upper_char"

definition equal_fold :: "string \<Rightarrow> string \<Rightarrow> bool" where
  "equal_fold s t \<longleftrightarrow> to_lower s = to_lower t"

section \<open>White space\<close>

text \<open>The encodings of the code points \<^verbatim>\<open>unicode.IsSpace\<close> accepts.\<close>

definition space_encodings :: "string list" where
  "space_encodings =
     map bytes [[9], [10], [11], [12], [13], [32], [194, 133], [194, 160], [225, 154, 128],
       [226, 128, 128], [226, 128, 129], [226, 128, 130], [226, 128, 131], [226, 128, 132],
       [226, 128, 133], [226, 128, 134], [226, 128, 135], [226, 128, 136], [226, 128, 137],
       [226, 128, 138], [226, 128, 168], [226, 128, 169], [226, 128, 175], [226, 129, 159],
       [227, 128, 128]]"

fun leading_space :: "string list \<Rightarrow> string \<Rightarrow> nat" where
  "leading_space [] s = 0"
| "leading_space (w # ws) s = (if prefix w s then length w else leading_space ws s)"

fun trailing_space :: "string list \<Rightarrow> string \<Rightarrow> nat" where
  "trailing_space [] s = 0"
| "trailing_space (w # ws) s = (if suffix w s then length w else trailing_space ws s)"

function trim_left :: "string \<Rightarrow> string" where
  "trim_left s = (let n = leading_space space_encodings s
     in if n = 0 \<or> s = [] then s else trim_left (drop n s))"
  by pat_completeness auto
termination
  by (relation "measure length") auto

function trim_right :: "string \<Rightarrow> string" where
  "trim_right s = (let n = trailing_space space_encodings s
     in if n = 0 \<or> s = [] then s else trim_right (take (length s - n) s))"
  by pat_completeness auto
termination
  by (relation "measure length") auto

declare trim_left.simps [simp del] trim_right.simps [simp del]

definition trim_space :: "string \<Rightarrow> string" where
  "trim_space s = trim_right (trim_left s)"

text \<open>\<^verbatim>\<open>strings.Fields\<close>: the maximal runs between white space; \<open>w\<close> is the current run.\<close>

function fields_from :: "string \<Rightarrow> string \<Rightarrow> string list" where
  "fields_from w [] = (if w = [] then [] else [w])"
| "fields_from w (c # cs) =
     (let n = leading_space space_encodings (c # cs)
      in if n = 0 then fields_from (w @ [c]) cs
         else (if w = [] then [] else [w]) @ fields_from [] (drop n (c # cs)))"
  by pat_completeness auto
termination
  by (relation "measure (\<lambda>(w, s). length s)") auto

definition fields :: "string \<Rightarrow> string list" where
  "fields s = fields_from [] s"

section \<open>Searching, splitting and joining\<close>

definition contains :: "string \<Rightarrow> string \<Rightarrow> bool" where
  "contains s sub \<longleftrightarrow> sublist sub s"

abbreviation has_prefix :: "string \<Rightarrow> string \<Rightarrow> bool" where
  "has_prefix s p \<equiv> prefix p s"

definition trim_suffix :: "string \<Rightarrow> string \<Rightarrow> string" where
  "trim_suffix s p = (if suffix p s then take (length s - length p) s else s)"

text \<open>Splitting at a one-byte separator, at every occurrence and at the first one.\<close>

fun split_on :: "char \<Rightarrow> string \<Rightarrow> string list" where
  "split_on d [] = [[]]"
| "split_on d (c # cs) =
     (if c = d then [] # split_on d cs
      else case split_on d cs of [] \<Rightarrow> [[c]] | w # ws \<Rightarrow> (c # w) # ws)"

fun cut_at :: "char \<Rightarrow> string \<Rightarrow> (string \<times> string) option" where
  "cut_at d [] = None"
| "cut_at d (c # cs) =
     (if c = d then Some ([], cs) else map_option (\<lambda>(a, b). (c # a, b)) (cut_at d cs))"

text \<open>What follows the last byte of \<open>s\<close> that is in \<open>ds\<close>.\<close>

fun after_last :: "char list \<Rightarrow> string \<Rightarrow> string" where
  "after_last ds s = (if (\<exists>c \<in> set s. c \<in> set ds)
     then rev (takeWhile (\<lambda>c. c \<notin> set ds) (rev s)) else s)"

fun join :: "string \<Rightarrow> string list \<Rightarrow> string" where
  "join sep [] = []"
| "join sep [s] = s"
| "join sep (s # t # ts) = s @ sep @ join sep (t # ts)"

definition trim_right_slash :: "string \<Rightarrow> string" where
  "trim_right_slash s = rev (dropWhile (\<lambda>c. c = CHR ''/'') (rev s))"

section \<open>Numbers\<close>

definition digit_value :: "char \<Rightarrow> int" where
  "digit_value c = int (byte c) - 48"

definition digits_value :: "string \<Rightarrow> int" where
  "digits_value ds = foldl (\<lambda>n c. 10 * n + digit_value c) 0 ds"

text \<open>\<^verbatim>\<open>strconv.Atoi\<close> on a 64-bit platform: \<open>None\<close> is its error.\<close>

definition atoi :: "string \<Rightarrow> int option" where
  "atoi s =
     (let neg = (s \<noteq> [] \<and> hd s = CHR ''-'');
          ds = (if s \<noteq> [] \<and> (hd s = CHR ''-'' \<or> hd s = CHR ''+'') then tl s else s);
          v = (if neg then - digits_value ds else digits_value ds)
      in if ds = [] \<or> \<not> list_all is_digit ds then None
         else if v < - (2 ^ 63) \<or> 2 ^ 63 - 1 < v then None
         else Some v)"

text \<open>Printing a non-negative number in decimal (\<^verbatim>\<open>%d\<close>).\<close>

fun itoa :: "nat \<Rightarrow> string" where
  "itoa n = (if n < 10 then [char_of (48 + n)] else itoa (n div 10) @ [char_of (48 + n mod 10)])"

declare itoa.simps [simp del]

text \<open>\<^verbatim>\<open>strconv.Itoa\<close> of any \<^verbatim>\<open>int\<close>.\<close>

definition decimal :: "int \<Rightarrow> string" where
  "decimal n = (if n < 0 then ''-'' @ itoa (nat (- n)) else itoa (nat n))"

text \<open>\<^verbatim>\<open>%q\<close>, for a text without characters that Go would escape.\<close>

definition quoted :: "string \<Rightarrow> string" where
  "quoted s = bytes [34] @ s @ bytes [34]"

section \<open>UTF-8\<close>

text \<open>
  For a first byte: how many continuation bytes follow, and the range of the first of them (the
  tables \<^verbatim>\<open>first\<close> and \<^verbatim>\<open>acceptRanges\<close> of \<^verbatim>\<open>unicode/utf8\<close>).
\<close>

definition utf8_lead :: "nat \<Rightarrow> (nat \<times> nat \<times> nat) option" where
  "utf8_lead b =
     (if b < 128 then Some (0, 128, 191)
      else if b < 194 then None
      else if b < 224 then Some (1, 128, 191)
      else if b = 224 then Some (2, 160, 191)
      else if b = 237 then Some (2, 128, 159)
      else if b < 240 then Some (2, 128, 191)
      else if b = 240 then Some (3, 144, 191)
      else if b < 244 then Some (3, 128, 191)
      else if b = 244 then Some (3, 128, 143)
      else None)"

definition is_cont :: "char \<Rightarrow> bool" where
  "is_cont c \<longleftrightarrow> 128 \<le> byte c \<and> byte c \<le> 191"

function valid_utf8 :: "string \<Rightarrow> bool" where
  "valid_utf8 [] = True"
| "valid_utf8 (c # cs) =
     (case utf8_lead (byte c) of
        None \<Rightarrow> False
      | Some (n, lo, hi) \<Rightarrow>
          n \<le> length cs \<and> (n = 0 \<or> lo \<le> byte (hd cs) \<and> byte (hd cs) \<le> hi)
          \<and> list_all is_cont (take n cs) \<and> valid_utf8 (drop n cs))"
  by pat_completeness auto
termination
  by (relation "measure length") auto

definition ellipsis :: string where
  "ellipsis = bytes [226, 128, 166]"

section \<open>Facts about text\<close>

lemma contains_refl [simp]: "contains s s"
  by (simp add: contains_def)

lemma contains_append [simp]: "contains (a @ s @ b) s"
  by (simp add: contains_def sublist_appendI)

lemma contains_append_left: "contains s sub \<Longrightarrow> contains (a @ s) sub"
  by (auto simp: contains_def intro: sublist_order.order.trans)

lemma contains_append_right: "contains s sub \<Longrightarrow> contains (s @ b) sub"
  by (auto simp: contains_def intro: sublist_order.order.trans)

lemma valid_utf8_append: "valid_utf8 s \<Longrightarrow> valid_utf8 (s @ t) \<longleftrightarrow> valid_utf8 t"
proof (induction s rule: valid_utf8.induct)
  case 1
  then show ?case by simp
next
  case (2 c cs)
  then obtain n lo hi where lead: "utf8_lead (byte c) = Some (n, lo, hi)" and len: "n \<le> length cs"
    and rest: "valid_utf8 (drop n cs)"
    by (auto split: option.splits)
  have "valid_utf8 (drop n cs @ t) \<longleftrightarrow> valid_utf8 t"
    using "2.IH" [OF lead _ _ rest] lead by blast
  moreover have "n \<noteq> 0 \<Longrightarrow> hd (cs @ t) = hd cs"
    using len by (cases cs) auto
  ultimately show ?case using "2.prems" lead len by auto
qed

text \<open>A valid text is a sequence of characters, each a lead byte and its continuation bytes.\<close>

definition utf8_char :: "char \<Rightarrow> string \<Rightarrow> bool" where
  "utf8_char c w = (case utf8_lead (byte c) of
     None \<Rightarrow> False
   | Some (n, lo, hi) \<Rightarrow> length w = n \<and> (w = [] \<or> lo \<le> byte (hd w) \<and> byte (hd w) \<le> hi) \<and> list_all is_cont w)"

lemma valid_utf8_char: "utf8_char c w \<Longrightarrow> valid_utf8 r \<Longrightarrow> valid_utf8 (c # w @ r)"
  by (cases w) (auto simp: utf8_char_def split: option.splits)

lemma utf8_char_ascii: "byte c < 128 \<Longrightarrow> utf8_char c w \<longleftrightarrow> w = []"
  by (auto simp: utf8_char_def utf8_lead_def)

lemma utf8_char_cont: "utf8_char c w \<Longrightarrow> b \<in> set w \<Longrightarrow> \<not> byte b < 128"
  by (auto simp: utf8_char_def list_all_iff is_cont_def split: option.splits)

lemma valid_utf8_induct [consumes 1, case_names Nil Char]:
  assumes "valid_utf8 s" and nil: "P []"
    and char: "\<And>c w r. utf8_char c w \<Longrightarrow> valid_utf8 r \<Longrightarrow> P r \<Longrightarrow> P (c # w @ r)"
  shows "P s"
  using assms(1)
proof (induction s rule: valid_utf8.induct)
  case 1
  show ?case by (rule nil)
next
  case (2 c cs)
  then obtain n lo hi where lead: "utf8_lead (byte c) = Some (n, lo, hi)" and len: "n \<le> length cs"
    and first: "n = 0 \<or> lo \<le> byte (hd cs) \<and> byte (hd cs) \<le> hi"
    and conts: "list_all is_cont (take n cs)" and rest: "valid_utf8 (drop n cs)"
    by (auto split: option.splits)
  have "P (drop n cs)" using "2.IH" [OF lead _ _ rest] by simp
  moreover have "utf8_char c (take n cs)"
    using lead len first conts by (cases n; cases cs) (auto simp: utf8_char_def)
  ultimately have "P (c # take n cs @ drop n cs)" by (intro char rest)
  then show ?case by simp
qed

text \<open>A cut before a byte that starts a code point splits a valid text into two valid texts.\<close>

lemma valid_utf8_cut:
  assumes "t = [] \<or> \<not> is_cont (hd t)"
  shows "valid_utf8 (s @ t) \<longleftrightarrow> valid_utf8 s \<and> valid_utf8 t"
proof
  show "valid_utf8 s \<and> valid_utf8 t \<Longrightarrow> valid_utf8 (s @ t)"
    by (simp add: valid_utf8_append)
  show "valid_utf8 (s @ t) \<Longrightarrow> valid_utf8 s \<and> valid_utf8 t"
  proof (induction s rule: valid_utf8.induct)
    case 1
    then show ?case by simp
  next
    case (2 c cs)
    then obtain n lo hi where lead: "utf8_lead (byte c) = Some (n, lo, hi)"
      and len: "n \<le> length (cs @ t)" and first: "n = 0 \<or> lo \<le> byte (hd (cs @ t)) \<and> byte (hd (cs @ t)) \<le> hi"
      and conts: "list_all is_cont (take n (cs @ t))" and rest: "valid_utf8 (drop n (cs @ t))"
      by (auto split: option.splits)
    have n_le: "n \<le> length cs"
    proof (rule ccontr)
      assume "\<not> n \<le> length cs"
      then obtain k where k: "n - length cs = Suc k" by (metis Suc_diff_Suc not_le)
      with len have "t \<noteq> []" by auto
      then have "hd t \<in> set (take n (cs @ t))"
        using k by (cases t) auto
      with conts assms \<open>t \<noteq> []\<close> show False by (auto simp: list_all_iff)
    qed
    then have "valid_utf8 (drop n cs) \<and> valid_utf8 t"
      using "2.IH" [OF lead] rest by simp
    moreover have "n \<noteq> 0 \<Longrightarrow> hd (cs @ t) = hd cs"
      using n_le by (cases cs) auto
    ultimately show ?case using lead n_le first conts by auto
  qed
qed

lemma space_encodings_whole:
  "w \<in> set space_encodings \<Longrightarrow> w \<noteq> [] \<and> valid_utf8 w \<and> \<not> is_cont (hd w)"
  by (auto simp: space_encodings_def bytes_def utf8_lead_def is_cont_def)

lemma leading_space_pos:
  "leading_space ws s = n \<Longrightarrow> n \<noteq> 0 \<Longrightarrow> \<exists>w \<in> set ws. s = w @ drop n s"
  by (induction ws) (auto simp: prefix_def split: if_splits)

lemma trailing_space_pos:
  "trailing_space ws s = n \<Longrightarrow> n \<noteq> 0 \<Longrightarrow> \<exists>w \<in> set ws. s = take (length s - n) s @ w"
  by (induction ws) (auto simp: suffix_def split: if_splits)

lemma trim_left_split: "\<exists>p. s = p @ trim_left s \<and> valid_utf8 p"
proof (induction s rule: trim_left.induct)
  case (1 s)
  define n where "n = leading_space space_encodings s"
  show ?case
  proof (cases "n = 0 \<or> s = []")
    case True
    then show ?thesis by (subst trim_left.simps) (auto simp: Let_def n_def)
  next
    case False
    then obtain w where w: "w \<in> set space_encodings" "s = w @ drop n s"
      using leading_space_pos [of space_encodings s n] n_def by auto
    obtain p where "drop n s = p @ trim_left (drop n s)" "valid_utf8 p"
      using "1.IH" [OF n_def] False by blast
    with w have "s = (w @ p) @ trim_left s" "valid_utf8 (w @ p)"
      using False space_encodings_whole [OF w(1)]
      by (auto simp: trim_left.simps [of s] Let_def n_def [symmetric] valid_utf8_append)
    then show ?thesis by blast
  qed
qed

lemma trim_right_split:
  "\<exists>q. s = trim_right s @ q \<and> (q = [] \<or> \<not> is_cont (hd q))"
proof (induction s rule: trim_right.induct)
  case (1 s)
  define n where "n = trailing_space space_encodings s"
  show ?case
  proof (cases "n = 0 \<or> s = []")
    case True
    then show ?thesis by (subst trim_right.simps) (auto simp: Let_def n_def)
  next
    case False
    define u where "u = take (length s - n) s"
    obtain w where w: "w \<in> set space_encodings" "s = u @ w"
      using trailing_space_pos [of space_encodings s n] n_def u_def False by auto
    obtain q where q: "u = trim_right u @ q" "q = [] \<or> \<not> is_cont (hd q)"
      using "1.IH" [OF n_def] False u_def by blast
    have "trim_right s = trim_right u"
      using False by (simp add: trim_right.simps [of s] Let_def n_def u_def)
    then have "s = trim_right s @ (q @ w)" using w(2) q(1) by simp
    moreover have "q @ w = [] \<or> \<not> is_cont (hd (q @ w))"
      using q(2) space_encodings_whole [OF w(1)] by (cases q) auto
    ultimately show ?thesis by blast
  qed
qed

lemma trim_space_valid: "valid_utf8 s \<Longrightarrow> valid_utf8 (trim_space s)"
proof -
  assume s: "valid_utf8 s"
  obtain p where "s = p @ trim_left s" "valid_utf8 p" using trim_left_split by blast
  with s have "valid_utf8 (trim_left s)" by (metis valid_utf8_append)
  moreover obtain q where "trim_left s = trim_right (trim_left s) @ q" "q = [] \<or> \<not> is_cont (hd q)"
    using trim_right_split by blast
  ultimately show ?thesis by (metis trim_space_def valid_utf8_cut)
qed

lemma trim_space_sublist: "contains s (trim_space s)"
proof -
  obtain p where p: "s = p @ trim_left s" using trim_left_split by blast
  obtain q where "trim_left s = trim_right (trim_left s) @ q" using trim_right_split by blast
  with p have "s = p @ trim_space s @ q" by (simp add: trim_space_def)
  then show ?thesis by (metis contains_append)
qed

lemma length_trim_space: "length (trim_space s) \<le> length s"
  using trim_space_sublist [of s] by (auto simp: contains_def dest: sublist_length_le)

lemma set_trim_space: "set (trim_space s) \<subseteq> set s"
  using trim_space_sublist [of s] by (auto simp: contains_def dest: set_mono_sublist)

lemma valid_utf8_ellipsis [simp]: "valid_utf8 ellipsis" "length ellipsis = 3"
  by (simp_all add: ellipsis_def bytes_def utf8_lead_def is_cont_def)

text \<open>\<open>split_on\<close> never returns an empty list, and joining its result gives the text back.\<close>

lemma split_on_not_Nil [simp]: "split_on d s \<noteq> []"
  by (induction s) (auto split: list.splits)

lemma join_split_on: "join [d] (split_on d s) = s"
proof (induction s)
  case (Cons c cs)
  then show ?case
    by (cases "split_on d cs"; cases "tl (split_on d cs)") auto
qed simp

section \<open>Decimals are distinct\<close>

lemma digit_char_inj: "a < 10 \<Longrightarrow> b < 10 \<Longrightarrow> char_of (48 + a) = (char_of (48 + b) :: char) \<longleftrightarrow> a = (b::nat)"
  by (auto dest: arg_cong [of _ _ "of_char :: char \<Rightarrow> nat"])

lemma itoa_nonempty: "itoa n \<noteq> []"
  by (subst itoa.simps) simp

lemma itoa_inj: "itoa m = itoa n \<Longrightarrow> m = n"
proof (induction m arbitrary: n rule: itoa.induct)
  case (1 m)
  then have eq: "(if m < 10 then [char_of (48 + m)] else itoa (m div 10) @ [char_of (48 + m mod 10)])
     = (if n < 10 then [char_of (48 + n)] else itoa (n div 10) @ [char_of (48 + n mod 10)])"
    by (metis itoa.simps)
  show ?case
  proof (cases "m < 10")
    case True
    then show ?thesis using eq by (auto simp: digit_char_inj itoa_nonempty itoa_nonempty [symmetric] split: if_splits)
  next
    case False
    then have "\<not> n < 10" using eq by (auto simp: itoa_nonempty)
    with False eq have "itoa (m div 10) = itoa (n div 10)" "m mod 10 = n mod 10"
      by (auto simp: digit_char_inj)
    then show ?thesis using "1.IH" [OF False] by (metis mult_div_mod_eq)
  qed
qed
end
