(* ===== verification/Authz.thy ===== *)
theory Authz
  imports Go_Text
begin

text \<open>
  \<^verbatim>\<open>libs/go-shared/authz/matrix.go\<close>: who may do what. The matrix is the source's table, row for row,
  as an association list keyed by (resource, action); roles, resources and actions are open string
  types in Go and strings here.
\<close>

section \<open>Roles\<close>

type_synonym Role = string

abbreviation RoleViewer :: Role where "RoleViewer \<equiv> ''viewer''"
abbreviation RoleAnalyst :: Role where "RoleAnalyst \<equiv> ''analyst''"
abbreviation RoleAdmin :: Role where "RoleAdmin \<equiv> ''admin''"
abbreviation RoleOwner :: Role where "RoleOwner \<equiv> ''owner''"

definition AllRoles :: "Role list" where
  "AllRoles = [RoleViewer, RoleAnalyst, RoleAdmin, RoleOwner]"

definition Role_Valid :: "Role \<Rightarrow> bool" where
  "Role_Valid r \<longleftrightarrow> r \<in> set AllRoles"

definition rank :: "Role \<Rightarrow> nat" where
  "rank r = (if r = RoleViewer then 1 else if r = RoleAnalyst then 2
     else if r = RoleAdmin then 3 else if r = RoleOwner then 4 else 0)"

definition RoleAtLeast :: "Role \<Rightarrow> Role \<Rightarrow> bool" where
  "RoleAtLeast actor wanted \<longleftrightarrow> rank actor \<ge> rank wanted \<and> rank actor > 0"

section \<open>Resources and actions\<close>

abbreviation ResourceTenant :: string where "ResourceTenant \<equiv> ''tenant''"
abbreviation ResourceMember :: string where "ResourceMember \<equiv> ''member''"
abbreviation ResourceProject :: string where "ResourceProject \<equiv> ''project''"
abbreviation ResourcePractices :: string where "ResourcePractices \<equiv> ''practices''"
abbreviation ResourceRepoConn :: string where "ResourceRepoConn \<equiv> ''repo_connection''"
abbreviation ResourceUpload :: string where "ResourceUpload \<equiv> ''upload''"
abbreviation ResourceWebSource :: string where "ResourceWebSource \<equiv> ''web_source''"
abbreviation ResourceScan :: string where "ResourceScan \<equiv> ''scan''"
abbreviation ResourceDependency :: string where "ResourceDependency \<equiv> ''dependency''"
abbreviation ResourceFinding :: string where "ResourceFinding \<equiv> ''finding''"
abbreviation ResourceVEX :: string where "ResourceVEX \<equiv> ''vex''"
abbreviation ResourceCSAF :: string where "ResourceCSAF \<equiv> ''csaf''"
abbreviation ResourceReport :: string where "ResourceReport \<equiv> ''report''"
abbreviation ResourceShareLink :: string where "ResourceShareLink \<equiv> ''share_link''"
abbreviation ResourceComment :: string where "ResourceComment \<equiv> ''comment''"
abbreviation ResourceCampaign :: string where "ResourceCampaign \<equiv> ''campaign''"
abbreviation ResourceAuditLog :: string where "ResourceAuditLog \<equiv> ''audit_log''"
abbreviation ResourceEngine :: string where "ResourceEngine \<equiv> ''engine''"
abbreviation ResourceHardware :: string where "ResourceHardware \<equiv> ''hardware''"
abbreviation ResourceQuantumDevice :: string where "ResourceQuantumDevice \<equiv> ''quantum_device''"
abbreviation ResourceCryptoAsset :: string where "ResourceCryptoAsset \<equiv> ''crypto_asset''"
abbreviation ResourceAIModel :: string where "ResourceAIModel \<equiv> ''ai_model''"
abbreviation ResourceAPIKey :: string where "ResourceAPIKey \<equiv> ''api_key''"

abbreviation ActionRead :: string where "ActionRead \<equiv> ''read''"
abbreviation ActionList :: string where "ActionList \<equiv> ''list''"
abbreviation ActionCreate :: string where "ActionCreate \<equiv> ''create''"
abbreviation ActionUpdate :: string where "ActionUpdate \<equiv> ''update''"
abbreviation ActionDelete :: string where "ActionDelete \<equiv> ''delete''"
abbreviation ActionRun :: string where "ActionRun \<equiv> ''run''"
abbreviation ActionDownload :: string where "ActionDownload \<equiv> ''download''"
abbreviation ActionShare :: string where "ActionShare \<equiv> ''share''"
abbreviation ActionTriage :: string where "ActionTriage \<equiv> ''triage''"
abbreviation ActionInvite :: string where "ActionInvite \<equiv> ''invite''"
abbreviation ActionCancel :: string where "ActionCancel \<equiv> ''cancel''"
abbreviation ActionEnableRiskyResolution :: string where "ActionEnableRiskyResolution \<equiv> ''enable_risky_resolution''"
abbreviation ActionConfigureEngines :: string where "ActionConfigureEngines \<equiv> ''configure_engines''"

type_synonym Permission = "string \<times> string"

definition Permission_String :: "Permission \<Rightarrow> string" where
  "Permission_String p = fst p @ '':'' @ snd p"

record rule =
  minRole :: Role
  conditional :: bool
  why :: string

section \<open>The matrix\<close>

definition at_least :: "Role \<Rightarrow> rule" where
  "at_least r = \<lparr>minRole = r, conditional = False, why = []\<rparr>"

definition matrix :: "(Permission \<times> rule) list" where
  "matrix = [((ResourceTenant, ActionRead), at_least RoleViewer),
     ((ResourceTenant, ActionUpdate), at_least RoleOwner\<lparr>why := ''billing and SSO settings''\<rparr>),
     ((ResourceTenant, ActionDelete), at_least RoleOwner),
     ((ResourceMember, ActionList), at_least RoleAdmin),
     ((ResourceMember, ActionInvite), at_least RoleAdmin),
     ((ResourceMember, ActionUpdate), at_least RoleAdmin\<lparr>why := ''role changes''\<rparr>),
     ((ResourceMember, ActionDelete), at_least RoleAdmin),
     ((ResourceProject, ActionRead), at_least RoleViewer),
     ((ResourceProject, ActionList), at_least RoleViewer),
     ((ResourceProject, ActionCreate), at_least RoleAnalyst),
     ((ResourceProject, ActionUpdate), at_least RoleAnalyst),
     ((ResourceProject, ActionDelete), at_least RoleAdmin),
     ((ResourcePractices, ActionRead), at_least RoleViewer),
     ((ResourcePractices, ActionUpdate), at_least RoleAnalyst),
     ((ResourceRepoConn, ActionRead), at_least RoleViewer),
     ((ResourceRepoConn, ActionCreate), at_least RoleAnalyst),
     ((ResourceRepoConn, ActionDelete), at_least RoleAnalyst),
     ((ResourceRepoConn, ActionList), at_least RoleAnalyst),
     ((ResourceUpload, ActionCreate), at_least RoleAnalyst),
     ((ResourceUpload, ActionRead), at_least RoleViewer),
     ((ResourceWebSource, ActionCreate), at_least RoleAnalyst),
     ((ResourceWebSource, ActionRead), at_least RoleViewer),
     ((ResourceScan, ActionRead), at_least RoleViewer),
     ((ResourceScan, ActionList), at_least RoleViewer),
     ((ResourceScan, ActionRun), at_least RoleAnalyst),
     ((ResourceScan, ActionCancel), at_least RoleAnalyst),
     ((ResourceScan, ActionDelete), at_least RoleAdmin),
     ((ResourceProject, ActionEnableRiskyResolution), at_least RoleAdmin\<lparr>why := ''executes arbitrary code from the scanned repository''\<rparr>),
     ((ResourceEngine, ActionList), at_least RoleViewer),
     ((ResourceEngine, ActionConfigureEngines), at_least RoleAdmin\<lparr>why := ''changes which engines run for every scan in this family''\<rparr>),
     ((ResourceHardware, ActionRead), at_least RoleViewer),
     ((ResourceHardware, ActionCreate), at_least RoleAnalyst),
     ((ResourceQuantumDevice, ActionRead), at_least RoleViewer),
     ((ResourceQuantumDevice, ActionCreate), at_least RoleAnalyst),
     ((ResourceDependency, ActionRead), at_least RoleViewer),
     ((ResourceDependency, ActionList), at_least RoleViewer),
     ((ResourceCryptoAsset, ActionList), at_least RoleViewer),
     ((ResourceAIModel, ActionList), at_least RoleViewer),
     ((ResourceAIModel, ActionRead), at_least RoleViewer),
     ((ResourceAIModel, ActionUpdate), at_least RoleAnalyst),
     ((ResourceFinding, ActionRead), at_least RoleViewer),
     ((ResourceFinding, ActionList), at_least RoleViewer),
     ((ResourceVEX, ActionRead), at_least RoleViewer),
     ((ResourceVEX, ActionTriage), at_least RoleAnalyst),
     ((ResourceCSAF, ActionRead), at_least RoleViewer),
     ((ResourceCSAF, ActionCreate), at_least RoleAnalyst),
     ((ResourceReport, ActionRead), at_least RoleViewer),
     ((ResourceReport, ActionList), at_least RoleViewer),
     ((ResourceReport, ActionDownload), at_least RoleViewer\<lparr>conditional := True, why := ''viewer may download public reports only''\<rparr>),
     ((ResourceShareLink, ActionShare), at_least RoleAnalyst\<lparr>why := ''minting a share link exposes data outside the tenant''\<rparr>),
     ((ResourceShareLink, ActionDelete), at_least RoleAnalyst),
     ((ResourceComment, ActionRead), at_least RoleViewer),
     ((ResourceComment, ActionCreate), at_least RoleViewer),
     ((ResourceComment, ActionUpdate), at_least RoleViewer\<lparr>why := ''own comments; ownership checked by the handler''\<rparr>),
     ((ResourceComment, ActionDelete), at_least RoleViewer\<lparr>why := ''own comments; ownership checked by the handler''\<rparr>),
     ((ResourceCampaign, ActionRead), at_least RoleViewer),
     ((ResourceCampaign, ActionList), at_least RoleViewer),
     ((ResourceCampaign, ActionCreate), at_least RoleAnalyst),
     ((ResourceCampaign, ActionUpdate), at_least RoleAnalyst),
     ((ResourceCampaign, ActionDelete), at_least RoleAnalyst),
     ((ResourceCampaign, ActionRun), at_least RoleAnalyst),
     ((ResourceAuditLog, ActionList), at_least RoleAdmin\<lparr>why := ''access trails are sensitive''\<rparr>),
     ((ResourceAuditLog, ActionRead), at_least RoleAdmin),
     ((ResourceAPIKey, ActionList), at_least RoleOwner),
     ((ResourceAPIKey, ActionCreate), at_least RoleOwner),
     ((ResourceAPIKey, ActionDelete), at_least RoleOwner)]"

section \<open>Decisions\<close>

record Decision =
  Allowed :: bool
  NeedsResourceCheck :: bool
  Reason :: string

definition deny :: "string \<Rightarrow> Decision" where
  "deny msg = \<lparr>Allowed = False, NeedsResourceCheck = False, Reason = msg\<rparr>"

abbreviation em_dash :: string where "em_dash \<equiv> bytes [226, 128, 148]"
abbreviation section_sign :: string where "section_sign \<equiv> bytes [194, 167]"

definition Allow :: "Role \<Rightarrow> string \<Rightarrow> string \<Rightarrow> Decision" where
  "Allow role resource action =
     (if \<not> Role_Valid role then deny (''unknown role '' @ quoted role)
      else case map_of matrix (resource, action) of
        None \<Rightarrow> deny (''no authorization rule for '' @ Permission_String (resource, action)
           @ '' '' @ em_dash @ '' permissions FAIL CLOSED; add it to libs/go-shared/authz/matrix.go and to ''
           @ ''docs/05-SECURITY-MODEL.md '' @ section_sign @ ''6'')
      | Some r \<Rightarrow>
          if rank role < rank (minRole r) then
            deny (Permission_String (resource, action) @ '' requires at least '' @ minRole r
              @ '', caller is '' @ role)
          else \<lparr>Allowed = True, NeedsResourceCheck = conditional r, Reason = why r\<rparr>)"

abbreviation VisibilityPublic :: string where "VisibilityPublic \<equiv> ''public''"
abbreviation VisibilityPrivate :: string where "VisibilityPrivate \<equiv> ''private''"

definition CanDownloadReport :: "Role \<Rightarrow> string \<Rightarrow> Decision" where
  "CanDownloadReport role visibility =
     (let d = Allow role ResourceReport ActionDownload
      in if \<not> Allowed d then d
         else if visibility = VisibilityPrivate \<and> rank role < rank RoleAnalyst then
           deny (''a private report contains vulnerability detail (CERT-In '' @ section_sign
             @ ''5.3.2); viewer may download public reports only'')
         else \<lparr>Allowed = True, NeedsResourceCheck = False, Reason = []\<rparr>)"

definition Permissions :: "Permission list" where
  "Permissions = slice_stable (\<lambda>a b. Permission_String a < Permission_String b) (map fst matrix)"

definition MinRole :: "Permission \<Rightarrow> Role option" where
  "MinRole p = map_option minRole (map_of matrix p)"

definition ParseRole :: "string \<Rightarrow> string + Role" where
  "ParseRole s = (let r = to_lower (trim_space s)
     in if \<not> Role_Valid r then Inl (''invalid role '' @ quoted s) else Inr r)"

section \<open>The ladder of roles\<close>

lemma rank_pos [simp]: "0 < rank r \<longleftrightarrow> Role_Valid r"
  by (simp add: rank_def Role_Valid_def AllRoles_def)

lemma Role_Valid_cases:
  "Role_Valid r \<Longrightarrow> r = RoleViewer \<or> r = RoleAnalyst \<or> r = RoleAdmin \<or> r = RoleOwner"
  by (auto simp: Role_Valid_def AllRoles_def)

lemma rank_inj: "Role_Valid a \<Longrightarrow> Role_Valid b \<Longrightarrow> rank a = rank b \<Longrightarrow> a = b"
  by (drule Role_Valid_cases)+ (auto simp: rank_def)

text \<open>Two tables with the same facts about every row, checked row by row.\<close>

lemma matrix_roles_valid: "list_all (\<lambda>(p, r). Role_Valid (minRole r)) matrix"
  by (simp add: matrix_def at_least_def Role_Valid_def AllRoles_def)

lemma matrix_conditional:
  "list_all (\<lambda>(p, r). conditional r \<longleftrightarrow> p = (ResourceReport, ActionDownload)) matrix"
  by (simp add: matrix_def at_least_def)

lemma matrix_row: "map_of matrix p = Some r \<Longrightarrow> Role_Valid (minRole r) \<and> (conditional r \<longleftrightarrow> p = (ResourceReport, ActionDownload))"
  using matrix_roles_valid matrix_conditional by (auto simp: list_all_iff dest!: map_of_SomeD)

lemma Allow_iff:
  "Allowed (Allow role resource action) \<longleftrightarrow>
     (case MinRole (resource, action) of None \<Rightarrow> False | Some m \<Rightarrow> RoleAtLeast role m)"
  by (auto simp: Allow_def deny_def MinRole_def RoleAtLeast_def split: option.splits)

text \<open>
  C39. Authorization fails closed: access is granted exactly when the permission has a row and the
  caller is a known role of at least its rank; what is granted to a role is granted to every role
  above it; and a grant leaves the final answer to the resource only for a report download.
\<close>

theorem allow_fails_closed:
  "(Allowed (Allow role resource action) \<longleftrightarrow>
      Role_Valid role \<and> (\<exists>m. MinRole (resource, action) = Some m \<and> rank m \<le> rank role))
   \<and> (Allowed (Allow role resource action) \<longrightarrow> RoleAtLeast higher role
        \<longrightarrow> Allowed (Allow higher resource action))
   \<and> (NeedsResourceCheck (Allow role resource action) \<longleftrightarrow>
        Allowed (Allow role resource action) \<and> (resource, action) = (ResourceReport, ActionDownload))"
proof (intro conjI)
  show "Allowed (Allow role resource action) \<longleftrightarrow>
      Role_Valid role \<and> (\<exists>m. MinRole (resource, action) = Some m \<and> rank m \<le> rank role)"
    by (auto simp: Allow_iff RoleAtLeast_def split: option.splits)
  show "Allowed (Allow role resource action) \<longrightarrow> RoleAtLeast higher role
        \<longrightarrow> Allowed (Allow higher resource action)"
    by (auto simp: Allow_iff RoleAtLeast_def split: option.splits)
  show "NeedsResourceCheck (Allow role resource action) \<longleftrightarrow>
        Allowed (Allow role resource action) \<and> (resource, action) = (ResourceReport, ActionDownload)"
    by (auto simp: Allow_def deny_def dest: matrix_row split: option.splits)
qed

theorem allow_fails_closed_witness:
  "Allowed (Allow RoleOwner ResourceScan ActionRun) \<and> \<not> Allowed (Allow RoleViewer ResourceScan ActionRun)"
  using allow_fails_closed [of RoleAnalyst ResourceScan ActionRun RoleOwner]
    allow_fails_closed [of RoleViewer ResourceScan ActionRun RoleViewer]
  by (simp add: MinRole_def matrix_def at_least_def rank_def RoleAtLeast_def Role_Valid_def AllRoles_def)

text \<open>
  A report download is granted exactly to a viewer or above, and for a private report to an
  analyst or above; a caller who may not download gets no partial grant either.
\<close>

theorem download_report_by_visibility:
  "(Allowed (CanDownloadReport role visibility) \<longleftrightarrow>
      (if visibility = VisibilityPrivate then RoleAtLeast role RoleAnalyst else RoleAtLeast role RoleViewer))
   \<and> \<not> NeedsResourceCheck (CanDownloadReport role visibility)"
proof -
  have row: "map_of matrix (ResourceReport, ActionDownload)
      = Some \<lparr>minRole = RoleViewer, conditional = True, why = ''viewer may download public reports only''\<rparr>"
    by (simp add: matrix_def at_least_def)
  show ?thesis
    by (auto simp: CanDownloadReport_def Let_def Allow_def row deny_def RoleAtLeast_def
        dest: Role_Valid_cases) (auto simp: rank_def dest: Role_Valid_cases)
qed

text \<open>
  Granting a role to somebody else is guarded by a total order on the known roles: it is
  reflexive, antisymmetric, transitive and total there, and an unknown role is never at least
  anything, while any known role is at least an unknown one.
\<close>

theorem role_at_least_is_a_ladder:
  "RoleAtLeast a a = Role_Valid a
   \<and> (RoleAtLeast a b \<and> RoleAtLeast b a \<longleftrightarrow> Role_Valid a \<and> a = b)
   \<and> (RoleAtLeast a b \<and> RoleAtLeast b c \<longrightarrow> RoleAtLeast a c)
   \<and> (RoleAtLeast a b \<or> RoleAtLeast b a \<longleftrightarrow> Role_Valid a \<or> Role_Valid b)"
proof -
  have valid: "Role_Valid r \<longleftrightarrow> rank r \<noteq> 0" for r
    using rank_pos [of r] by linarith
  have inj: "rank a \<noteq> 0 \<Longrightarrow> rank a = rank b \<Longrightarrow> a = b"
    by (rule rank_inj) (simp_all add: valid del: rank_pos)
  have antisym: "RoleAtLeast a b \<and> RoleAtLeast b a \<longleftrightarrow> Role_Valid a \<and> a = b"
  proof (cases "a = b")
    case False
    then have "\<not> (rank a \<noteq> 0 \<and> rank a = rank b)" using inj by blast
    then show ?thesis using False by (auto simp: RoleAtLeast_def valid simp del: rank_pos)
  qed (simp add: RoleAtLeast_def)
  have total: "RoleAtLeast a b \<or> RoleAtLeast b a \<longleftrightarrow> Role_Valid a \<or> Role_Valid b"
    by (auto simp: RoleAtLeast_def valid simp del: rank_pos)
  show ?thesis unfolding antisym total by (auto simp: RoleAtLeast_def)
qed

theorem role_at_least_is_a_ladder_witness:
  "RoleAtLeast RoleOwner RoleViewer \<and> \<not> RoleAtLeast ''superuser'' RoleViewer"
  using role_at_least_is_a_ladder [of RoleOwner RoleAdmin RoleViewer]
    role_at_least_is_a_ladder [of "''superuser''" RoleViewer RoleViewer]
  by (simp add: RoleAtLeast_def rank_def Role_Valid_def AllRoles_def)

end
