(* ===== verification/Errs.thy ===== *)
theory Errs
  imports Go_Text
begin

text \<open>
  \<^verbatim>\<open>libs/go-shared/platform/errs\<close>: the error taxonomy, with the HTTP status of a code, and Go's
  wrapping (\<^verbatim>\<open>errors.Is\<close>, \<^verbatim>\<open>errors.As\<close>). A Go error is a tree: \<open>Coded\<close> is \<^verbatim>\<open>*errs.Error\<close> with its
  cause, \<open>Plain\<close> is \<^verbatim>\<open>errors.New\<close> or \<^verbatim>\<open>fmt.Errorf\<close> with the errors its \<^verbatim>\<open>%w\<close> verbs wrap, and the
  sentinels the modelled code compares with are constructors of their own.
\<close>

type_synonym Code = string

text \<open>A detail is an association list from its keys to their (string) values.\<close>

type_synonym Detail = "(string \<times> string) list"

datatype go_err =
    ErrNotFound
  | ErrRetry
  | ErrNotOwned
  | Plain string "go_err list"
  | Coded Code string "Detail list" "go_err list"

abbreviation AuthTokenExpired :: Code where "AuthTokenExpired \<equiv> ''AUTH_TOKEN_EXPIRED''"
abbreviation AuthTokenInvalid :: Code where "AuthTokenInvalid \<equiv> ''AUTH_TOKEN_INVALID''"
abbreviation AuthInvalidCreds :: Code where "AuthInvalidCreds \<equiv> ''AUTH_INVALID_CREDENTIALS''"
abbreviation AuthRefreshReused :: Code where "AuthRefreshReused \<equiv> ''AUTH_REFRESH_REUSED''"
abbreviation AuthStateMismatch :: Code where "AuthStateMismatch \<equiv> ''AUTH_STATE_MISMATCH''"
abbreviation AuthProviderError :: Code where "AuthProviderError \<equiv> ''AUTH_PROVIDER_ERROR''"
abbreviation AuthTenantContextMiss :: Code where "AuthTenantContextMiss \<equiv> ''AUTH_TENANT_CONTEXT_MISSING''"
abbreviation AuthOrgAmbiguous :: Code where "AuthOrgAmbiguous \<equiv> ''AUTH_ORG_AMBIGUOUS''"
abbreviation AuthOrgNameTaken :: Code where "AuthOrgNameTaken \<equiv> ''AUTH_ORG_NAME_TAKEN''"
abbreviation AuthEmailTaken :: Code where "AuthEmailTaken \<equiv> ''AUTH_EMAIL_TAKEN''"
abbreviation NotFoundScan :: Code where "NotFoundScan \<equiv> ''NOTFOUND_SCAN''"
abbreviation NotFoundResource :: Code where "NotFoundResource \<equiv> ''NOTFOUND_RESOURCE''"
abbreviation NotFoundReport :: Code where "NotFoundReport \<equiv> ''NOTFOUND_REPORT''"
abbreviation PermRoleInsufficient :: Code where "PermRoleInsufficient \<equiv> ''PERM_ROLE_INSUFFICIENT''"
abbreviation PermNoRoleInOrg :: Code where "PermNoRoleInOrg \<equiv> ''PERM_NO_ROLE_IN_ORG''"
abbreviation PermReportPrivate :: Code where "PermReportPrivate \<equiv> ''PERM_REPORT_PRIVATE''"
abbreviation ReportShareExpired :: Code where "ReportShareExpired \<equiv> ''REPORT_SHARE_EXPIRED''"
abbreviation ReportShareRevoked :: Code where "ReportShareRevoked \<equiv> ''REPORT_SHARE_REVOKED''"
abbreviation ValidationFieldRequired :: Code where "ValidationFieldRequired \<equiv> ''VALIDATION_FIELD_REQUIRED''"
abbreviation ValidationFieldInvalid :: Code where "ValidationFieldInvalid \<equiv> ''VALIDATION_FIELD_INVALID''"
abbreviation ScanEngineCombinationInvalid :: Code where
  "ScanEngineCombinationInvalid \<equiv> ''SCAN_ENGINE_COMBINATION_INVALID''"
abbreviation ScanAlreadyRunning :: Code where "ScanAlreadyRunning \<equiv> ''SCAN_ALREADY_RUNNING''"
abbreviation ScanNoEnginesAvailable :: Code where "ScanNoEnginesAvailable \<equiv> ''SCAN_NO_ENGINES_AVAILABLE''"
abbreviation ScanFamilyNotDirectlyScannable :: Code where
  "ScanFamilyNotDirectlyScannable \<equiv> ''SCAN_FAMILY_NOT_DIRECTLY_SCANNABLE''"
abbreviation FetchPrivateAddressBlocked :: Code where "FetchPrivateAddressBlocked \<equiv> ''FETCH_PRIVATE_ADDRESS_BLOCKED''"
abbreviation ReportRenderFailed :: Code where "ReportRenderFailed \<equiv> ''REPORT_RENDER_FAILED''"
abbreviation ReportSignatureFailed :: Code where "ReportSignatureFailed \<equiv> ''REPORT_SIGNATURE_FAILED''"
abbreviation InternalUnexpected :: Code where "InternalUnexpected \<equiv> ''INTERNAL_UNEXPECTED''"
abbreviation InternalDependency :: Code where "InternalDependency \<equiv> ''INTERNAL_DEPENDENCY_UNAVAILABLE''"

section \<open>HTTP statuses\<close>

definition statusOverride :: "(Code \<times> nat) list" where
  "statusOverride =
     [(AuthOrgAmbiguous, 409), (AuthOrgNameTaken, 409), (AuthEmailTaken, 409),
      (ScanAlreadyRunning, 409), (ReportRenderFailed, 500), (ReportSignatureFailed, 500)]"

definition prefixStatus :: "(string \<times> nat) list" where
  "prefixStatus =
     [(''AUTH_'', 401), (''PERM_'', 403), (''NOTFOUND_'', 404), (''VALIDATION_'', 422),
      (''SCAN_'', 422), (''FETCH_'', 422), (''REPORT_'', 422), (''RATE_'', 429),
      (''ENGINE_'', 500), (''NORMALIZE_'', 500), (''INTERNAL_'', 500)]"

definition Code_HTTPStatus :: "Code \<Rightarrow> nat" where
  "Code_HTTPStatus c =
     (case map_of statusOverride c of
        Some s \<Rightarrow> s
      | None \<Rightarrow>
          (case find (\<lambda>(p, s). has_prefix c p) prefixStatus of
             Some (p, s) \<Rightarrow> s
           | None \<Rightarrow> 500))"

section \<open>Building and inspecting errors\<close>

definition errs_New :: "Code \<Rightarrow> string \<Rightarrow> go_err" where
  "errs_New c msg = Coded c msg [] []"

definition errs_Wrap :: "go_err \<Rightarrow> Code \<Rightarrow> string \<Rightarrow> go_err" where
  "errs_Wrap err c msg = Coded c msg [] [err]"

fun WithDetail :: "go_err \<Rightarrow> Detail \<Rightarrow> go_err" where
  "WithDetail (Coded c msg ds cause) d = Coded c msg (ds @ [d]) cause"
| "WithDetail e d = e"

fun errors_Is :: "go_err \<Rightarrow> go_err \<Rightarrow> bool" where
  "errors_Is (Plain m ws) t \<longleftrightarrow> Plain m ws = t \<or> list_ex (\<lambda>w. errors_Is w t) ws"
| "errors_Is (Coded c m ds ws) t \<longleftrightarrow> Coded c m ds ws = t \<or> list_ex (\<lambda>w. errors_Is w t) ws"
| "errors_Is e t \<longleftrightarrow> e = t"

text \<open>\<^verbatim>\<open>errors.As(err, &e)\<close> for \<^verbatim>\<open>e *errs.Error\<close>: the first coded error of the tree, depth first.\<close>

fun errors_As :: "go_err \<Rightarrow> go_err option" where
  "errors_As (Coded c m ds ws) = Some (Coded c m ds ws)"
| "errors_As (Plain m ws) = foldr (\<lambda>w r. coalesce (errors_As w) r) ws None"
| "errors_As e = None"

definition errs_From :: "go_err \<Rightarrow> go_err" where
  "errs_From err = (case errors_As err of
     Some e \<Rightarrow> e
   | None \<Rightarrow> Coded InternalUnexpected ''an unexpected error occurred'' [] [err])"

fun err_code :: "go_err \<Rightarrow> Code option" where
  "err_code (Coded c m ds ws) = Some c"
| "err_code e = None"

fun err_details :: "go_err \<Rightarrow> Detail list" where
  "err_details (Coded c m ds ws) = ds"
| "err_details e = []"

definition errs_Is :: "go_err \<Rightarrow> Code \<Rightarrow> bool" where
  "errs_Is err c = (case errors_As err of Some e \<Rightarrow> err_code e = Some c | None \<Rightarrow> False)"

text \<open>\<^verbatim>\<open>err.Error()\<close>: the message, and those of the wrapped errors after it.\<close>

fun err_text :: "go_err \<Rightarrow> string" where
  "err_text ErrNotFound = ''not found''"
| "err_text ErrRetry = ''retry''"
| "err_text ErrNotOwned = ''not owned''"
| "err_text (Plain m ws) = m @ concat (map (\<lambda>w. '': '' @ err_text w) ws)"
| "err_text (Coded c m ds ws) = c @ '': '' @ m @ concat (map (\<lambda>w. '': '' @ err_text w) ws)"

text \<open>\<^verbatim>\<open>fmt.Errorf("%w: ...: %w", bus.ErrRetry, err)\<close>.\<close>

definition retry :: "string \<Rightarrow> go_err \<Rightarrow> go_err" where
  "retry msg err = Plain msg [ErrRetry, err]"

lemma retry_is [simp]: "errors_Is (retry msg err) ErrRetry"
  by (simp add: retry_def)

lemma retry_not_NotFound [simp]: "errors_Is (retry msg err) ErrNotFound \<longleftrightarrow> errors_Is err ErrNotFound"
  by (simp add: retry_def)

lemma errors_Is_New [simp]: "errors_Is (errs_New c msg) ErrRetry \<longleftrightarrow> False"
  by (simp add: errs_New_def)

lemma foldr_coalesce_SomeD:
  "foldr (\<lambda>w r. coalesce (f w) r) ws None = Some e \<Longrightarrow> \<exists>w \<in> set ws. f w = Some e"
  by (induction ws) (auto simp: coalesce_def split: option.splits)

lemma errors_As_coded: "errors_As err = Some e \<Longrightarrow> \<exists>c m ds ws. e = Coded c m ds ws"
  by (induction err rule: errors_As.induct) (auto dest!: foldr_coalesce_SomeD)

lemma errs_From_coded: "\<exists>c m ds ws. errs_From err = Coded c m ds ws"
  using errors_As_coded by (auto simp: errs_From_def split: option.splits)

text \<open>
  Every code maps to an HTTP error status: a code is never answered with a success or a redirect,
  a registered prefix keeps its class, and a code nobody registered is a 500.
\<close>

theorem code_status_is_an_error:
  "Code_HTTPStatus c \<in> {401, 403, 404, 409, 422, 429, 500}
   \<and> (map_of statusOverride c = None \<longrightarrow> list_all (\<lambda>(p, s). \<not> has_prefix c p) prefixStatus
        \<longrightarrow> Code_HTTPStatus c = 500)
   \<and> (Code_HTTPStatus c = 404 \<longleftrightarrow> has_prefix c ''NOTFOUND_'')
   \<and> (Code_HTTPStatus c = 403 \<longleftrightarrow> has_prefix c ''PERM_'')"
proof (intro conjI impI)
  show "Code_HTTPStatus c \<in> {401, 403, 404, 409, 422, 429, 500}"
    by (simp add: Code_HTTPStatus_def statusOverride_def prefixStatus_def)
  show "map_of statusOverride c = None \<Longrightarrow> list_all (\<lambda>(p, s). \<not> has_prefix c p) prefixStatus
        \<Longrightarrow> Code_HTTPStatus c = 500"
    by (simp add: Code_HTTPStatus_def prefixStatus_def)
  have hit: "has_prefix c p \<Longrightarrow> \<exists>r. c = p @ r" for p by (auto simp: prefix_def)
  show "Code_HTTPStatus c = 404 \<longleftrightarrow> has_prefix c ''NOTFOUND_''"
  proof
    show "Code_HTTPStatus c = 404 \<Longrightarrow> has_prefix c ''NOTFOUND_''"
      by (simp add: Code_HTTPStatus_def statusOverride_def prefixStatus_def split: if_splits)
    show "has_prefix c ''NOTFOUND_'' \<Longrightarrow> Code_HTTPStatus c = 404"
      by (drule hit) (clarsimp simp: Code_HTTPStatus_def statusOverride_def prefixStatus_def)
  qed
  show "Code_HTTPStatus c = 403 \<longleftrightarrow> has_prefix c ''PERM_''"
  proof
    show "Code_HTTPStatus c = 403 \<Longrightarrow> has_prefix c ''PERM_''"
      by (simp add: Code_HTTPStatus_def statusOverride_def prefixStatus_def split: if_splits)
    show "has_prefix c ''PERM_'' \<Longrightarrow> Code_HTTPStatus c = 403"
      by (drule hit) (clarsimp simp: Code_HTTPStatus_def statusOverride_def prefixStatus_def)
  qed
qed

theorem code_status_is_an_error_witness: "Code_HTTPStatus ''PARSE_BAD_INPUT'' = 500"
proof -
  have none: "map_of statusOverride ''PARSE_BAD_INPUT'' = None"
    and prefixes: "list_all (\<lambda>(p, s). \<not> has_prefix ''PARSE_BAD_INPUT'' p) prefixStatus"
    by (simp_all add: statusOverride_def prefixStatus_def)
  show ?thesis using code_status_is_an_error [of "''PARSE_BAD_INPUT''"] none prefixes by blast
qed

end
