(* ===== verification/Sandbox_Policy.thy ===== *)
theory Sandbox_Policy
  imports Errs
begin

text \<open>
  \<^verbatim>\<open>libs/go-shared/sandbox/policy.go\<close>: what a sandbox policy must be before a container is created
  from it, and which commands are refused because they would execute the repository's own build.
  The error \<^verbatim>\<open>ErrUnsafePolicy\<close> is the list of the problems found.
\<close>

section \<open>Policies\<close>

abbreviation NetworkNone :: string where "NetworkNone \<equiv> ''none''"
abbreviation NetworkAllowlist :: string where "NetworkAllowlist \<equiv> ''allowlist''"
abbreviation NetworkEgress :: string where "NetworkEgress \<equiv> ''egress''"

record Policy =
  Network :: string
  AllowlistHosts :: "string list"
  ReadOnlyRootfs :: bool
  NoNewPrivileges :: bool
  DropAllCapabilities :: bool
  User :: string
  SeccompProfile :: string
  WorkspacePath :: string
  TmpfsSizeMB :: int
  ProxyNetwork :: string

definition zero_policy :: Policy where
  "zero_policy = \<lparr>Network = [], AllowlistHosts = [], ReadOnlyRootfs = False, NoNewPrivileges = False,
     DropAllCapabilities = False, User = [], SeccompProfile = [], WorkspacePath = [],
     TmpfsSizeMB = 0, ProxyNetwork = []\<rparr>"

definition DefaultPolicy :: Policy where
  "DefaultPolicy = zero_policy\<lparr>Network := NetworkNone, ReadOnlyRootfs := True,
     NoNewPrivileges := True, DropAllCapabilities := True, User := ''65534:65534'',
     SeccompProfile := [], WorkspacePath := ''/workspace'', TmpfsSizeMB := 2048\<rparr>"

definition atoi_or :: "int \<Rightarrow> string \<Rightarrow> int" where
  "atoi_or d s = (case atoi s of Some v \<Rightarrow> v | None \<Rightarrow> d)"

definition UserIDs :: "Policy \<Rightarrow> int \<times> int" where
  "UserIDs p =
     (case cut_at (CHR '':'') (User p) of
        Some (u, g) \<Rightarrow> (atoi_or 65534 u, atoi_or 65534 g)
      | None \<Rightarrow> let uid = atoi_or 65534 (User p) in (uid, uid))"

datatype policy_problem =
    HostsWithoutNetwork
  | AllowlistWithoutHosts
  | AllowlistWithoutProxy
  | UnknownNetwork string
  | WritableRootfs
  | NewPrivileges
  | Capabilities
  | UserEmpty
  | UserIsRoot
  | SeccompUnconfined
  | WorkspaceNotAbsolute
  | TmpfsUnbounded

definition network_problems :: "Policy \<Rightarrow> policy_problem list" where
  "network_problems p =
     (if Network p = NetworkNone then
        (if AllowlistHosts p \<noteq> [] then [HostsWithoutNetwork] else [])
      else if Network p = NetworkAllowlist then
        (if AllowlistHosts p = [] then [AllowlistWithoutHosts] else [])
        @ (if ProxyNetwork p = [] then [AllowlistWithoutProxy] else [])
      else if Network p = NetworkEgress then []
      else [UnknownNetwork (Network p)])"

definition user_problems :: "Policy \<Rightarrow> policy_problem list" where
  "user_problems p =
     (if User p = [] then [UserEmpty]
      else if User p = ''0'' \<or> User p = ''0:0'' \<or> has_prefix (User p) ''root'' then [UserIsRoot]
      else [])"

definition policy_problems :: "Policy \<Rightarrow> policy_problem list" where
  "policy_problems p =
     network_problems p
     @ (if \<not> ReadOnlyRootfs p then [WritableRootfs] else [])
     @ (if \<not> NoNewPrivileges p then [NewPrivileges] else [])
     @ (if \<not> DropAllCapabilities p then [Capabilities] else [])
     @ user_problems p
     @ (if equal_fold (SeccompProfile p) ''unconfined'' then [SeccompUnconfined] else [])
     @ (if WorkspacePath p = [] \<or> \<not> has_prefix (WorkspacePath p) ''/'' then [WorkspaceNotAbsolute] else [])
     @ (if TmpfsSizeMB p \<le> 0 then [TmpfsUnbounded] else [])"

definition Policy_Validate :: "Policy \<Rightarrow> policy_problem list + unit" where
  "Policy_Validate p = (if policy_problems p \<noteq> [] then Inl (policy_problems p) else Inr ())"

section \<open>Forbidden commands\<close>

text \<open>\<open>None\<close> is the source's \<^verbatim>\<open>nil\<close>: every invocation of the command is forbidden.\<close>

definition forbiddenCommands :: "(string \<times> string list option) list" where
  "forbiddenCommands =
     [(''npm'', Some [''install'', ''ci'', ''update'', ''rebuild'', ''exec'', ''run'']),
      (''yarn'', None),
      (''pnpm'', Some [''install'', ''add'', ''update'', ''exec'', ''run'']),
      (''mvn'', None),
      (''gradle'', None),
      (''pip'', Some [''install'', ''download'', ''wheel'']),
      (''pip3'', Some [''install'', ''download'', ''wheel'']),
      (''python'', Some [''setup.py'']),
      (''make'', None),
      (''cargo'', Some [''build'', ''run'', ''install'', ''test'']),
      (''go'', Some [''generate'', ''run'']),
      (''bundle'', Some [''install'']),
      (''composer'', Some [''install'', ''update''])]"

definition shell_patterns :: "string list" where
  "shell_patterns =
     [''npm install'', ''npm ci'', ''npm run'', ''yarn install'', ''yarn '',
      ''pnpm install'', ''mvn '', ''gradle '', ''gradlew'', ''pip install'',
      ''pip3 install'', ''setup.py'', ''cargo build'', ''go generate'',
      ''bundle install'', ''composer install'', ''make '']"

datatype command_error = EmptyCommand | ForbiddenCommand string

definition checkShellForm :: "string list \<Rightarrow> command_error + unit" where
  "checkShellForm argv =
     (let joined = to_lower (join '' '' argv)
      in case find (\<lambda>pat. contains joined pat) shell_patterns of
           Some pat \<Rightarrow> Inl (ForbiddenCommand (trim_space pat))
         | None \<Rightarrow> Inr ())"

definition command_base :: "string \<Rightarrow> string" where
  "command_base arg0 = trim_suffix (to_lower (after_last [CHR ''/'', char_of (92::nat)] arg0)) ''.exe''"

definition CheckCommand :: "string list \<Rightarrow> command_error + unit" where
  "CheckCommand argv =
     (case argv of
        [] \<Rightarrow> Inl EmptyCommand
      | arg0 # args \<Rightarrow>
          (case map_of forbiddenCommands (command_base arg0) of
             None \<Rightarrow> checkShellForm argv
           | Some None \<Rightarrow> Inl (ForbiddenCommand (command_base arg0))
           | Some (Some subcommands) \<Rightarrow>
               if list_ex (\<lambda>arg. list_ex (equal_fold arg) subcommands) args
               then Inl (ForbiddenCommand (command_base arg0))
               else checkShellForm argv))"

section \<open>What validation guarantees\<close>


text \<open>
  The check of the user compares spellings, not ids: \<^verbatim>\<open>0:65534\<close> is accepted although \<open>UserIDs\<close>
  of the very same policy, which owns the workspace mount, is uid 0; so a validated policy can still
  run as root.
\<close>

theorem accepted_policy_may_run_as_root:
  "Policy_Validate (DefaultPolicy\<lparr>User := ''0:65534''\<rparr>) = Inr ()
   \<and> UserIDs (DefaultPolicy\<lparr>User := ''0:65534''\<rparr>) = (0, 65534)
   \<and> Policy_Validate (DefaultPolicy\<lparr>User := ''00''\<rparr>) = Inr ()
   \<and> UserIDs (DefaultPolicy\<lparr>User := ''00''\<rparr>) = (0, 0)"
  by code_simp

section \<open>What the command check guarantees\<close>

lemma contains_join: "arg \<in> set argv \<Longrightarrow> contains (join sep argv) arg"
proof (induction sep argv rule: join.induct)
  case (3 sep s t ts)
  then show ?case
    using contains_append [of "[]" s] contains_append_left by auto
qed auto

lemma to_lower_contains: "contains s t \<Longrightarrow> contains (to_lower s) (to_lower t)"
  by (auto simp: contains_def to_lower_def sublist_def) blast

lemma find_none_accepted:
  "(case find P xs of Some x \<Rightarrow> Inl (f x) | None \<Rightarrow> Inr ()) = Inr () \<longleftrightarrow> list_all (\<lambda>x. \<not> P x) xs"
  by (induction xs) auto

lemma checkShellForm_iff:
  "checkShellForm argv = Inr () \<longleftrightarrow> list_all (\<lambda>pat. \<not> contains (to_lower (join '' '' argv)) pat) shell_patterns"
  by (simp add: checkShellForm_def find_none_accepted)

text \<open>
  A command is accepted exactly when there is one, its program is not a build tool that is
  forbidden outright, none of its arguments is a forbidden subcommand of its program, and the whole
  command line, in lower case, contains none of the build invocations; the directory and the case
  of the program do not matter, and hiding an invocation inside a shell argument does not help.
\<close>

theorem command_accepted_iff:
  "(CheckCommand argv = Inr () \<longleftrightarrow>
      argv \<noteq> []
      \<and> (case map_of forbiddenCommands (command_base (hd argv)) of
           None \<Rightarrow> True
         | Some None \<Rightarrow> False
         | Some (Some subs) \<Rightarrow> list_all (\<lambda>arg. to_lower arg \<notin> to_lower ` set subs) (tl argv))
      \<and> list_all (\<lambda>pat. \<not> contains (to_lower (join '' '' argv)) pat) shell_patterns)
   \<and> (arg \<in> set argv \<and> pat \<in> set shell_patterns \<and> contains (to_lower arg) pat
        \<longrightarrow> CheckCommand argv \<noteq> Inr ())"
proof (intro conjI impI)
  show iff: "CheckCommand argv = Inr () \<longleftrightarrow>
      argv \<noteq> []
      \<and> (case map_of forbiddenCommands (command_base (hd argv)) of
           None \<Rightarrow> True
         | Some None \<Rightarrow> False
         | Some (Some subs) \<Rightarrow> list_all (\<lambda>arg. to_lower arg \<notin> to_lower ` set subs) (tl argv))
      \<and> list_all (\<lambda>pat. \<not> contains (to_lower (join '' '' argv)) pat) shell_patterns"
    unfolding checkShellForm_iff [symmetric]
    by (auto simp: CheckCommand_def list_all_iff list_ex_iff equal_fold_def split: list.splits option.splits)
  assume hit: "arg \<in> set argv \<and> pat \<in> set shell_patterns \<and> contains (to_lower arg) pat"
  then have "contains (to_lower (join '' '' argv)) (to_lower arg)"
    by (intro to_lower_contains contains_join) blast
  with hit have "contains (to_lower (join '' '' argv)) pat"
    by (auto simp: contains_def intro: sublist_order.order.trans)
  with hit iff show "CheckCommand argv \<noteq> Inr ()" by (auto simp: list_all_iff)
qed

theorem command_accepted_iff_witness:
  "CheckCommand [''sh'', ''-c'', ''cd app; NPM install''] \<noteq> Inr ()
   \<and> CheckCommand [''syft'', ''dir:/workspace''] = Inr ()"
proof
  have "contains (to_lower ''cd app; NPM install'') ''npm install''" by code_simp
  moreover have "''npm install'' \<in> set shell_patterns" by (simp add: shell_patterns_def)
  moreover have "''cd app; NPM install'' \<in> set [''sh'', ''-c'', ''cd app; NPM install'']" by simp
  ultimately show "CheckCommand [''sh'', ''-c'', ''cd app; NPM install''] \<noteq> Inr ()"
    using command_accepted_iff by blast
  show "CheckCommand [''syft'', ''dir:/workspace''] = Inr ()" by code_simp
qed

text \<open>
  The refusal is by name, so a subcommand's alias passes: \<^verbatim>\<open>npm i\<close> is \<^verbatim>\<open>npm install\<close> and
  \<^verbatim>\<open>python -m pip install\<close> is \<^verbatim>\<open>pip install\<close>, yet the first is accepted and the second refused.
\<close>

theorem install_alias_is_accepted:
  "CheckCommand [''npm'', ''i''] = Inr () \<and> CheckCommand [''npm'', ''install''] \<noteq> Inr ()
   \<and> CheckCommand [''python'', ''-m'', ''pip'', ''install'', ''.''] \<noteq> Inr ()"
  by code_simp

end
