(* ===== verification/Vex.thy ===== *)
theory Vex
  imports Errs
begin

text \<open>
  \<^verbatim>\<open>libs/go-shared/vex/vex.go\<close>: exploitability statements, which of them is in force for a finding,
  supersession and the landscape summary. The functions here are the pure ones; \<^verbatim>\<open>Vex_Store\<close> holds
  the table they are stored in.
\<close>

section \<open>Statuses and scopes\<close>

abbreviation StatusNotAffected :: string where "StatusNotAffected \<equiv> ''not_affected''"
abbreviation StatusAffected :: string where "StatusAffected \<equiv> ''affected''"
abbreviation StatusFixed :: string where "StatusFixed \<equiv> ''fixed''"
abbreviation StatusUnderInvestigation :: string where
  "StatusUnderInvestigation \<equiv> ''under_investigation''"

definition Statuses :: "string list" where
  "Statuses = [StatusNotAffected, StatusAffected, StatusFixed, StatusUnderInvestigation]"

definition Status_Valid :: "string \<Rightarrow> bool" where
  "Status_Valid s \<longleftrightarrow> s \<in> set Statuses"

abbreviation ScopeProject :: string where "ScopeProject \<equiv> ''project''"
abbreviation ScopeComponent :: string where "ScopeComponent \<equiv> ''component''"
abbreviation ScopeVersion :: string where "ScopeVersion \<equiv> ''version''"

definition specificity :: "string \<Rightarrow> nat" where
  "specificity s = (if s = ScopeVersion then 0 else if s = ScopeComponent then 1
     else if s = ScopeProject then 2 else 3)"

definition Scope_Valid :: "string \<Rightarrow> bool" where
  "Scope_Valid s \<longleftrightarrow> s = ScopeProject \<or> s = ScopeComponent \<or> s = ScopeVersion"

section \<open>Statements\<close>

record Statement =
  vs_ID :: string
  vs_TenantID :: string
  vs_ProjectID :: string
  vs_ComponentKey :: string
  vs_ClusterID :: string
  vs_Status :: string
  vs_Scope :: string
  vs_Justification :: string
  vs_Remediation :: string
  vs_Workarounds :: string
  vs_Downtime :: string
  vs_Version :: int
  vs_SupersededBy :: string
  vs_AuthorUserID :: string
  vs_CreatedAt :: instant

record Effective =
  ef_Status :: string
  ef_StatementID :: string
  ef_Justification :: string
  ef_Remediation :: string
  ef_Workarounds :: string
  ef_Downtime :: string
  ef_Scope :: string
  ef_History :: "Statement list"
  ef_Reason :: string

definition Justifications :: "string list" where
  "Justifications = [''component_not_present'', ''vulnerable_code_not_present'',
     ''vulnerable_code_not_in_execute_path'', ''vulnerable_code_cannot_be_controlled_by_adversary'',
     ''inline_mitigations_already_exist'']"

definition Statement_Validate :: "Statement \<Rightarrow> go_err + unit" where
  "Statement_Validate s =
     (if \<not> Status_Valid (vs_Status s) then
        Inl (Plain (''status '' @ quoted (vs_Status s) @ '' is not one of CERT-In's four'') [])
      else if \<not> Scope_Valid (vs_Scope s) then
        Inl (Plain (''scope '' @ quoted (vs_Scope s) @ '' is not project, component or version'') [])
      else if vs_ClusterID s = [] then
        Inl (Plain ''a VEX statement must name a vulnerability cluster'' [])
      else if vs_Scope s \<noteq> ScopeProject \<and> vs_ComponentKey s = [] then
        Inl (Plain (''a '' @ vs_Scope s @ ''-scoped statement must name a component'') [])
      else if vs_Status s = StatusNotAffected \<and> trim_space (vs_Justification s) = [] then
        Inl (Plain (''a `not_affected` statement requires a justification. Use one of: ''
          @ join '', '' Justifications) [])
      else Inr ())"

definition Applies :: "Statement \<Rightarrow> string \<Rightarrow> string \<Rightarrow> bool" where
  "Applies s clusterID componentKey \<longleftrightarrow>
     (if vs_ClusterID s \<noteq> clusterID then False
      else if vs_Scope s = ScopeProject then True
      else if vs_Scope s = ScopeComponent \<or> vs_Scope s = ScopeVersion then
        vs_ComponentKey s = componentKey
      else False)"

section \<open>Resolution\<close>

text \<open>The comparisons of the two \<^verbatim>\<open>sort.SliceStable\<close> calls.\<close>

definition newer_first :: "Statement \<Rightarrow> Statement \<Rightarrow> bool" where
  "newer_first a b \<longleftrightarrow>
     (if vs_CreatedAt a \<noteq> vs_CreatedAt b then vs_CreatedAt a > vs_CreatedAt b
      else vs_Version a > vs_Version b)"

definition precedes :: "Statement \<Rightarrow> Statement \<Rightarrow> bool" where
  "precedes a b \<longleftrightarrow>
     (if specificity (vs_Scope a) \<noteq> specificity (vs_Scope b)
      then specificity (vs_Scope a) < specificity (vs_Scope b)
      else newer_first a b)"

definition explain :: "Statement \<Rightarrow> Statement list \<Rightarrow> string" where
  "explain winner live =
     (let sameScope = length (filter (\<lambda>s. vs_Scope s = vs_Scope winner) live)
      in if length live = 1 then
           ''the only statement in force, scoped to the '' @ vs_Scope winner
         else if sameScope = 1 then
           ''the most specific statement in force: '' @ vs_Scope winner
             @ '' scope beats the '' @ itoa (length live - 1) @ '' broader one(s)''
         else ''the most recent of '' @ itoa sameScope @ '' statements at '' @ vs_Scope winner @ '' scope'')"

abbreviation all_superseded_reason :: string where
  "all_superseded_reason \<equiv> ''every applicable statement is superseded; the most recent one stands''"

definition Resolve_VEX :: "Statement list \<Rightarrow> string \<Rightarrow> string \<Rightarrow> Effective option" where
  "Resolve_VEX statements clusterID componentKey =
     (let applicable = filter (\<lambda>s. Applies s clusterID componentKey) statements
      in if applicable = [] then None
         else
           let history = slice_stable newer_first applicable;
               live = filter (\<lambda>s. vs_SupersededBy s = []) applicable;
               (live, reason) = (if live = [] then (applicable, all_superseded_reason) else (live, []));
               live = slice_stable precedes live;
               winner = hd live;
               reason = (if reason = [] then explain winner live else reason)
           in Some \<lparr>ef_Status = vs_Status winner, ef_StatementID = vs_ID winner,
                ef_Justification = vs_Justification winner, ef_Remediation = vs_Remediation winner,
                ef_Workarounds = vs_Workarounds winner, ef_Downtime = vs_Downtime winner,
                ef_Scope = vs_Scope winner, ef_History = history, ef_Reason = reason\<rparr>)"

section \<open>Supersession\<close>

definition Supersede :: "Statement \<Rightarrow> Statement \<Rightarrow> go_err + Statement" where
  "Supersede previous next_st =
     (if vs_ClusterID previous \<noteq> vs_ClusterID next_st then
        Inl (Plain ''a statement can only supersede one about the same vulnerability cluster'' [])
      else if vs_Scope previous \<noteq> vs_Scope next_st \<or> vs_ComponentKey previous \<noteq> vs_ComponentKey next_st then
        Inl (Plain (''a successor must have the same scope and component as the statement it supersedes (''
          @ vs_Scope previous @ ''/'' @ vs_ComponentKey previous @ '' -> ''
          @ vs_Scope next_st @ ''/'' @ vs_ComponentKey next_st @ '')'') [])
      else
        let next_st = next_st\<lparr>vs_Version := vs_Version previous + 1, vs_SupersededBy := []\<rparr>
        in case Statement_Validate next_st of Inl e \<Rightarrow> Inl e | Inr _ \<Rightarrow> Inr next_st)"

definition older_version :: "Statement \<Rightarrow> Statement \<Rightarrow> bool" where
  "older_version a b \<longleftrightarrow>
     (if vs_Version a \<noteq> vs_Version b then vs_Version a < vs_Version b
      else vs_CreatedAt a < vs_CreatedAt b)"

definition Chain :: "Statement list \<Rightarrow> Statement list" where
  "Chain statements = slice_stable older_version statements"

section \<open>Presentation\<close>

definition DeEmphasized :: "Effective option \<Rightarrow> bool" where
  "DeEmphasized e = (case e of None \<Rightarrow> False
     | Some x \<Rightarrow> ef_Status x = StatusNotAffected \<or> ef_Status x = StatusFixed)"

record VexSummary =
  NotAffected :: nat
  Affected :: nat
  Fixed :: nat
  UnderInvestigation :: nat
  Untriaged :: nat

definition Summary_Total :: "VexSummary \<Rightarrow> nat" where
  "Summary_Total s = NotAffected s + Affected s + Fixed s + UnderInvestigation s + Untriaged s"

definition count_effective :: "VexSummary \<Rightarrow> Effective option \<Rightarrow> VexSummary" where
  "count_effective out e =
     (case e of
        None \<Rightarrow> out\<lparr>Untriaged := Untriaged out + 1\<rparr>
      | Some x \<Rightarrow>
          if ef_Status x = StatusNotAffected then out\<lparr>NotAffected := NotAffected out + 1\<rparr>
          else if ef_Status x = StatusAffected then out\<lparr>Affected := Affected out + 1\<rparr>
          else if ef_Status x = StatusFixed then out\<lparr>Fixed := Fixed out + 1\<rparr>
          else if ef_Status x = StatusUnderInvestigation then
            out\<lparr>UnderInvestigation := UnderInvestigation out + 1\<rparr>
          else out)"

definition Summarize :: "Effective option list \<Rightarrow> VexSummary" where
  "Summarize es = foldl count_effective
     \<lparr>NotAffected = 0, Affected = 0, Fixed = 0, UnderInvestigation = 0, Untriaged = 0\<rparr> es"

section \<open>The comparisons are strict weak orders\<close>

interpretation newer: strict_weak_order newer_first
  by unfold_locales (auto simp: newer_first_def split: if_splits)

interpretation precedence: strict_weak_order precedes
  by unfold_locales (auto simp: precedes_def newer_first_def split: if_splits)

interpretation version_order: strict_weak_order older_version
  by unfold_locales (auto simp: older_version_def split: if_splits)

text \<open>The statements the decision is taken over, and the one that wins.\<close>

definition applicable :: "Statement list \<Rightarrow> string \<Rightarrow> string \<Rightarrow> Statement list" where
  "applicable ss c k = filter (\<lambda>s. Applies s c k) ss"

definition in_force :: "Statement list \<Rightarrow> string \<Rightarrow> string \<Rightarrow> Statement list" where
  "in_force ss c k =
     (let live = filter (\<lambda>s. vs_SupersededBy s = []) (applicable ss c k)
      in if live = [] then applicable ss c k else live)"

definition effective_of :: "Statement \<Rightarrow> Statement list \<Rightarrow> string \<Rightarrow> Effective" where
  "effective_of w h r = \<lparr>ef_Status = vs_Status w, ef_StatementID = vs_ID w,
     ef_Justification = vs_Justification w, ef_Remediation = vs_Remediation w,
     ef_Workarounds = vs_Workarounds w, ef_Downtime = vs_Downtime w,
     ef_Scope = vs_Scope w, ef_History = h, ef_Reason = r\<rparr>"

lemma Resolve_alt:
  "Resolve_VEX ss c k =
     (if applicable ss c k = [] then None
      else Some (effective_of (hd (slice_stable precedes (in_force ss c k)))
        (slice_stable newer_first (applicable ss c k))
        (if filter (\<lambda>s. vs_SupersededBy s = []) (applicable ss c k) = [] then all_superseded_reason
         else explain (hd (slice_stable precedes (in_force ss c k))) (slice_stable precedes (in_force ss c k)))))"
  by (simp add: Resolve_VEX_def applicable_def in_force_def effective_of_def Let_def)

lemma in_force_Nil [simp]: "in_force ss c k = [] \<longleftrightarrow> applicable ss c k = []"
  by (auto simp: in_force_def Let_def)

lemma set_in_force: "set (in_force ss c k) \<subseteq> set (applicable ss c k)"
  by (auto simp: in_force_def Let_def)

lemma in_force_live:
  "s \<in> set (applicable ss c k) \<Longrightarrow> vs_SupersededBy s = [] \<Longrightarrow>
   set (in_force ss c k) = {s \<in> set (applicable ss c k). vs_SupersededBy s = []}"
  by (auto simp: in_force_def Let_def filter_empty_conv)

text \<open>
  A finding has an effective status exactly when some statement applies to it. The winner is an
  applicable statement, a live one whenever there is one, and no statement it competes with has a
  narrower scope, nor is newer at the same scope, nor has a higher version at the same time. The
  history holds every applicable statement, the superseded ones included, newest first.
\<close>

theorem vex_resolution:
  "case Resolve_VEX ss c k of
     None \<Rightarrow> list_all (\<lambda>s. \<not> Applies s c k) ss
   | Some e \<Rightarrow>
       (\<exists>w \<in> set ss. Applies w c k
          \<and> ef_StatementID e = vs_ID w \<and> ef_Status e = vs_Status w \<and> ef_Scope e = vs_Scope w
          \<and> ef_Justification e = vs_Justification w
          \<and> (if list_ex (\<lambda>s. Applies s c k \<and> vs_SupersededBy s = []) ss
             then vs_SupersededBy w = []
               \<and> list_all (\<lambda>s. \<not> (Applies s c k \<and> vs_SupersededBy s = [] \<and> precedes s w)) ss
             else list_all (\<lambda>s. \<not> (Applies s c k \<and> precedes s w)) ss))
       \<and> mset (ef_History e) = mset (filter (\<lambda>s. Applies s c k) ss)
       \<and> sorted_wrt (\<lambda>a b. \<not> newer_first b a) (ef_History e)"
proof (cases "applicable ss c k = []")
  case True
  then show ?thesis by (simp add: Resolve_alt) (simp add: applicable_def filter_empty_conv list_all_iff)
next
  case False
  define w where "w = hd (slice_stable precedes (in_force ss c k))"
  have "w \<in> set (slice_stable precedes (in_force ss c k))"
    unfolding w_def by (rule hd_in_set) (simp add: False)
  then have w: "w \<in> set (in_force ss c k)" by simp
  have best: "s \<in> set (in_force ss c k) \<Longrightarrow> \<not> precedes s w" for s
    unfolding w_def by (rule precedence.hd_minimal)
  have w_app: "w \<in> set ss" "Applies w c k"
    using w set_in_force [of ss c k] by (auto simp: applicable_def)
  have fight: "if list_ex (\<lambda>s. Applies s c k \<and> vs_SupersededBy s = []) ss
      then vs_SupersededBy w = []
        \<and> list_all (\<lambda>s. \<not> (Applies s c k \<and> vs_SupersededBy s = [] \<and> precedes s w)) ss
      else list_all (\<lambda>s. \<not> (Applies s c k \<and> precedes s w)) ss"
  proof (cases "list_ex (\<lambda>s. Applies s c k \<and> vs_SupersededBy s = []) ss")
    case True
    then obtain s where "s \<in> set (applicable ss c k)" "vs_SupersededBy s = []"
      by (auto simp: applicable_def list_ex_iff)
    from in_force_live [OF this] True w best show ?thesis by (auto simp: applicable_def list_all_iff)
  next
    case False
    then have "in_force ss c k = applicable ss c k"
      by (auto simp: in_force_def Let_def applicable_def filter_empty_conv list_ex_iff)
    with False best show ?thesis by (auto simp: applicable_def list_all_iff)
  qed
  have hist: "mset (slice_stable newer_first (applicable ss c k)) = mset (filter (\<lambda>s. Applies s c k) ss)"
    by (simp add: applicable_def)
  show ?thesis
    using False w_app fight hist newer.sorted_slice_stable
    by (auto simp: Resolve_alt effective_of_def w_def [symmetric])
qed

definition stale_narrow :: Statement where
  "stale_narrow = \<lparr>vs_ID = ''s1'', vs_TenantID = ''t'', vs_ProjectID = ''p'', vs_ComponentKey = ''lib'',
     vs_ClusterID = ''c'', vs_Status = StatusNotAffected, vs_Scope = ScopeComponent,
     vs_Justification = ''component_not_present'', vs_Remediation = [], vs_Workarounds = [],
     vs_Downtime = [], vs_Version = 1, vs_SupersededBy = ''x'', vs_AuthorUserID = [], vs_CreatedAt = 10\<rparr>"

definition recent_broad :: Statement where
  "recent_broad = stale_narrow\<lparr>vs_ID := ''s2'', vs_ComponentKey := [], vs_Status := StatusAffected,
     vs_Scope := ScopeProject, vs_CreatedAt := 20\<rparr>"

text \<open>
  The statement the reason names is not always the one that wins: with every applicable
  statement superseded, the reason says the most recent one stands, but the winner is the one of
  narrowest scope, here an older statement with the opposite status.
\<close>

theorem superseded_reason_misleads:
  "case Resolve_VEX [stale_narrow, recent_broad] ''c'' ''lib'' of
     None \<Rightarrow> False
   | Some e \<Rightarrow> ef_Reason e = all_superseded_reason
       \<and> ef_StatementID e = ''s1'' \<and> ef_Status e = StatusNotAffected
       \<and> map vs_ID (ef_History e) = [''s2'', ''s1'']
       \<and> DeEmphasized (Some e)"
  by code_simp

section \<open>Supersession and summaries\<close>

lemma Statement_Validate_update [simp]:
  "Statement_Validate (s\<lparr>vs_ID := i\<rparr>) = Statement_Validate s"
  "Statement_Validate (s\<lparr>vs_Version := v\<rparr>) = Statement_Validate s"
  "Statement_Validate (s\<lparr>vs_SupersededBy := x\<rparr>) = Statement_Validate s"
  "Statement_Validate (s\<lparr>vs_CreatedAt := c\<rparr>) = Statement_Validate s"
  by (simp_all add: Statement_Validate_def)

lemma Statement_Validate_Inr:
  "Statement_Validate s = Inr () \<longleftrightarrow>
     Status_Valid (vs_Status s) \<and> Scope_Valid (vs_Scope s) \<and> vs_ClusterID s \<noteq> []
     \<and> (vs_Scope s = ScopeProject \<or> vs_ComponentKey s \<noteq> [])
     \<and> (vs_Status s = StatusNotAffected \<longrightarrow> trim_space (vs_Justification s) \<noteq> [])"
  by (auto simp: Statement_Validate_def)

lemma supersede_step:
  "Supersede p n = Inr m \<Longrightarrow>
     m = n\<lparr>vs_Version := vs_Version p + 1, vs_SupersededBy := []\<rparr>
     \<and> Statement_Validate n = Inr () \<and> vs_ClusterID p = vs_ClusterID n \<and> vs_Scope p = vs_Scope n
     \<and> vs_ComponentKey p = vs_ComponentKey n"
  by (auto simp: Supersede_def Let_def split: sum.splits if_splits)

text \<open>
  A successor is accepted exactly when it is about the same cluster, scope and component as its
  predecessor and is itself a valid statement; it then has the next version, is live, and keeps
  everything else of what the caller asserted.
\<close>

theorem supersede_contract:
  "if vs_ClusterID p = vs_ClusterID n \<and> vs_Scope p = vs_Scope n
      \<and> vs_ComponentKey p = vs_ComponentKey n \<and> Statement_Validate n = Inr ()
   then Supersede p n = Inr (n\<lparr>vs_Version := vs_Version p + 1, vs_SupersededBy := []\<rparr>)
   else isl (Supersede p n)"
  by (auto simp: Supersede_def Let_def split: sum.splits)

lemma Summary_Total_count:
  "Summary_Total (count_effective s e)
   = Summary_Total s + (case e of None \<Rightarrow> 1 | Some x \<Rightarrow> if Status_Valid (ef_Status x) then 1 else 0)"
  by (auto simp: Summary_Total_def count_effective_def Status_Valid_def Statuses_def split: option.splits)

lemma Summary_Total_Summarize:
  "Summary_Total (Summarize es)
   = length (filter (\<lambda>e. case e of None \<Rightarrow> True | Some x \<Rightarrow> Status_Valid (ef_Status x)) es)"
proof -
  have "Summary_Total (foldl count_effective s es) = Summary_Total s
      + length (filter (\<lambda>e. case e of None \<Rightarrow> True | Some x \<Rightarrow> Status_Valid (ef_Status x)) es)" for s
    by (induction es arbitrary: s) (auto simp: Summary_Total_count split: option.splits)
  then show ?thesis by (simp add: Summarize_def Summary_Total_def)
qed

lemma Resolve_None_iff: "Resolve_VEX ss c k = None \<longleftrightarrow> list_all (\<lambda>s. \<not> Applies s c k) ss"
  by (auto simp: Resolve_alt applicable_def filter_empty_conv list_all_iff)

lemma vex_resolution_status:
  assumes "list_all (\<lambda>s. Status_Valid (vs_Status s)) ss"
  shows "Resolve_VEX ss c k = Some e \<Longrightarrow> Status_Valid (ef_Status e)"
proof -
  assume some: "Resolve_VEX ss c k = Some e"
  then have "applicable ss c k \<noteq> []" by (auto simp: Resolve_alt)
  then have "hd (slice_stable precedes (in_force ss c k)) \<in> set (slice_stable precedes (in_force ss c k))"
    by (intro hd_in_set) simp
  then have "hd (slice_stable precedes (in_force ss c k)) \<in> set ss"
    using set_in_force [of ss c k] by (auto simp: applicable_def)
  then show ?thesis
    using some assms by (auto simp: Resolve_alt effective_of_def list_all_iff split: if_splits)
qed

text \<open>
  The landscape summary covers every finding: over statements with the four statuses, the total
  is the number of findings resolved, and the untriaged ones are those no statement applies to.
\<close>

theorem summary_covers_every_finding:
  assumes "list_all (\<lambda>s. Status_Valid (vs_Status s)) ss"
  shows "Summary_Total (Summarize (map (\<lambda>(c, k). Resolve_VEX ss c k) findings)) = length findings
    \<and> Untriaged (Summarize (map (\<lambda>(c, k). Resolve_VEX ss c k) findings))
      = length (filter (\<lambda>(c, k). list_all (\<lambda>s. \<not> Applies s c k) ss) findings)"
proof
  have valid: "case Resolve_VEX ss c k of None \<Rightarrow> True | Some x \<Rightarrow> Status_Valid (ef_Status x)" for c k
    using vex_resolution_status [OF assms, of c k] by (auto split: option.splits)
  show "Summary_Total (Summarize (map (\<lambda>(c, k). Resolve_VEX ss c k) findings)) = length findings"
    by (simp add: Summary_Total_Summarize filter_map comp_def case_prod_unfold valid)
  have "Untriaged (foldl count_effective s es) = Untriaged s + length (filter (\<lambda>e. e = None) es)" for s es
    by (induction es arbitrary: s) (auto simp: count_effective_def split: option.splits)
  then show "Untriaged (Summarize (map (\<lambda>(c, k). Resolve_VEX ss c k) findings))
      = length (filter (\<lambda>(c, k). list_all (\<lambda>s. \<not> Applies s c k) ss) findings)"
    by (simp add: Summarize_def filter_map comp_def case_prod_unfold Resolve_None_iff)
qed

theorem summary_covers_every_finding_witness:
  "Summary_Total (Summarize (map (\<lambda>(c, k). Resolve_VEX [recent_broad] c k) [(''c'', ''lib''), (''d'', ''lib'')])) = 2"
  using summary_covers_every_finding [of "[recent_broad]" "[(''c'', ''lib''), (''d'', ''lib'')]"]
  by (simp add: recent_broad_def stale_narrow_def Status_Valid_def Statuses_def)

end
