(* ===== verification/Go_Time.thy ===== *)
theory Go_Time
  imports Go_Text
begin

text \<open>
  The part of Go's package \<^verbatim>\<open>time\<close> that the schedules use: the proleptic Gregorian calendar,
  \<^verbatim>\<open>time.Date\<close>, \<^verbatim>\<open>AddDate\<close> and the wall clock in a \<^verbatim>\<open>Location\<close>. The zone database is not part of the
  repository, so a zone is any list of transitions, read the way \<^verbatim>\<open>Location.lookup\<close> reads it. Years stay
  unbounded where Go's are 64 bits wide.
\<close>

section \<open>The calendar\<close>

datatype civil = Civil (year_of: int) (month_of: int) (day_of: int)

text \<open>Dates are ordered as calendars print them: by year, month and day.\<close>

instantiation civil :: linorder
begin

definition less_eq_civil :: "civil \<Rightarrow> civil \<Rightarrow> bool" where
  "less_eq_civil a b \<longleftrightarrow> year_of a < year_of b \<or> year_of a = year_of b \<and>
     (month_of a < month_of b \<or> month_of a = month_of b \<and> day_of a \<le> day_of b)"

definition less_civil :: "civil \<Rightarrow> civil \<Rightarrow> bool" where
  "less_civil a b \<longleftrightarrow> year_of a < year_of b \<or> year_of a = year_of b \<and>
     (month_of a < month_of b \<or> month_of a = month_of b \<and> day_of a < day_of b)"

instance
  by standard (auto simp: less_eq_civil_def less_civil_def intro: civil.expand)

end

definition leap_year :: "int \<Rightarrow> bool" where
  "leap_year y \<longleftrightarrow> 4 dvd y \<and> (\<not> 100 dvd y \<or> 400 dvd y)"

text \<open>Days from 1970-01-01 to the first of January, and from there to the first of a month.\<close>

definition year_start :: "int \<Rightarrow> int" where
  "year_start y = 365 * (y - 1) + (y - 1) div 4 - (y - 1) div 100 + (y - 1) div 400 - 719162"

definition days_before :: "int \<Rightarrow> int \<Rightarrow> int" where
  "days_before y m = [0, 31, 59, 90, 120, 151, 181, 212, 243, 273, 304, 334, 365] ! nat (m - 1)
     + (if leap_year y \<and> 2 < m then 1 else 0)"

definition month_length :: "int \<Rightarrow> int \<Rightarrow> int" where
  "month_length y m = days_before y (m + 1) - days_before y m"

text \<open>
  The day a date names, counted from 1970-01-01. As in \<^verbatim>\<open>time.Date\<close>, a day outside the month counts
  on into the next or the previous one.
\<close>

definition day_number :: "civil \<Rightarrow> int" where
  "day_number c = year_start (year_of c) + days_before (year_of c) (month_of c) + day_of c - 1"

definition valid_date :: "civil \<Rightarrow> bool" where
  "valid_date c \<longleftrightarrow> 1 \<le> month_of c \<and> month_of c \<le> 12
     \<and> 1 \<le> day_of c \<and> day_of c \<le> month_length (year_of c) (month_of c)"

text \<open>The other direction guesses the year from its mean length and corrects the guess by one.\<close>

definition year_at :: "int \<Rightarrow> int" where
  "year_at n = (let y = 400 * (n + 719162) div 146097 + 1
     in if n < year_start y then y - 1 else if year_start (y + 1) \<le> n then y + 1 else y)"

fun month_scan :: "int \<Rightarrow> int \<Rightarrow> nat \<Rightarrow> int \<Rightarrow> int" where
  "month_scan y r 0 m = m"
| "month_scan y r (Suc k) m = (if r < days_before y (m + 1) then m else month_scan y r k (m + 1))"

definition month_at :: "int \<Rightarrow> int \<Rightarrow> int" where
  "month_at y r = month_scan y r 11 1"

definition civil_of :: "int \<Rightarrow> civil" where
  "civil_of n = (let y = year_at n; r = n - year_start y; m = month_at y r
     in Civil y m (r - days_before y m + 1))"

text \<open>Sunday is 0; 1970-01-01 was a Thursday.\<close>

definition weekday :: "int \<Rightarrow> int" where
  "weekday n = (n + 4) mod 7"

lemma div_step:
  fixes x k :: int
  assumes "0 < k"
  shows "(x + 1) div k = x div k + (if k dvd x + 1 then 1 else 0)"
proof -
  define q r where "q = x div k" and "r = x mod k"
  have x: "x + 1 = k * q + (r + 1)" and r: "0 \<le> r" "r < k"
    using assms by (simp_all add: q_def r_def)
  show ?thesis
  proof (cases "r + 1 = k")
    case True
    then have "x + 1 = k * (q + 1)" using x by (simp add: algebra_simps)
    then show ?thesis using assms by (simp add: q_def)
  next
    case False
    then have "(x + 1) div k = q" "(x + 1) mod k = r + 1"
      using x r int_div_pos_eq [of "x + 1" k q "r + 1"] int_mod_pos_eq [of "x + 1" k q "r + 1"]
      by auto
    then show ?thesis using r by (auto simp: q_def dvd_eq_mod_eq_0)
  qed
qed

lemma year_length: "year_start (y + 1) = year_start y + (if leap_year y then 366 else 365)"
proof -
  have d: "100 dvd y" if "400 dvd y" using dvd_trans [OF _ that, of 100] by simp
  have e: "4 dvd y" if "100 dvd y" using dvd_trans [OF _ that, of 4] by simp
  have s: "y div 4 = (y - 1) div 4 + (if 4 dvd y then 1 else 0)"
    "y div 100 = (y - 1) div 100 + (if 100 dvd y then 1 else 0)"
    "y div 400 = (y - 1) div 400 + (if 400 dvd y then 1 else 0)"
    using div_step [of 4 "y - 1"] div_step [of 100 "y - 1"] div_step [of 400 "y - 1"] by simp_all
  have "year_start (y + 1) = 365 * y + y div 4 - y div 100 + y div 400 - 719162"
    by (simp add: year_start_def)
  also have "\<dots> = year_start y + (if leap_year y then 366 else 365)"
    unfolding s year_start_def leap_year_def using d e by (cases "4 dvd y"; cases "100 dvd y"; cases "400 dvd y") simp_all
  finally show ?thesis .
qed

text \<open>The mean year has \<open>146097 / 400\<close> days, and the true count is never two days away from it.\<close>

lemma floor_bounds: "0 < k \<Longrightarrow> k * (x div k) \<le> x \<and> x \<le> k * (x div k) + (k - 1)" for x k :: int
  using mult_div_mod_eq [of k x] pos_mod_bound [of k x] pos_mod_sign [of k x] by linarith

lemma year_start_bounds:
  "146097 * (y - 1) - 699 \<le> 400 * (year_start y + 719162) \<and>
   400 * (year_start y + 719162) \<le> 146097 * (y - 1) + 396"
  using floor_bounds [of 4 "y - 1"] floor_bounds [of 100 "y - 1"] floor_bounds [of 400 "y - 1"]
  by (simp add: year_start_def algebra_simps)

lemma year_at_bounds: "year_start (year_at n) \<le> n \<and> n < year_start (year_at n + 1)"
proof -
  define y where "y = 400 * (n + 719162) div 146097 + 1"
  have "146097 * (y - 1) \<le> 400 * (n + 719162)" "400 * (n + 719162) < 146097 * y"
    using floor_bounds [of 146097 "400 * (n + 719162)"] by (simp_all add: y_def)
  then have "year_start (y - 1) \<le> n \<and> n < year_start (y + 2)"
    using year_start_bounds [of "y - 1"] year_start_bounds [of "y + 2"] by auto
  then show ?thesis
    unfolding year_at_def Let_def y_def [symmetric] by (simp add: add.commute)
qed

lemma year_start_mono: "y \<le> z \<Longrightarrow> year_start y \<le> year_start z"
  by (induction rule: int_ge_induct) (simp_all add: year_length)

lemma year_at_unique: "year_start y \<le> n \<Longrightarrow> n < year_start (y + 1) \<Longrightarrow> year_at n = y"
  using year_at_bounds [of n] year_start_mono [of "y + 1" "year_at n"]
    year_start_mono [of "year_at n + 1" y] by linarith

lemma year_at_mono: "m \<le> n \<Longrightarrow> year_at m \<le> year_at n"
  using year_at_bounds [of m] year_at_bounds [of n] year_start_mono [of "year_at n + 1" "year_at m"]
  by linarith

lemma year_at_next_day: "year_at (n + 1) \<le> year_at n + 1"
proof (rule ccontr)
  assume "\<not> ?thesis"
  then have "year_start (year_at n + 2) \<le> year_start (year_at (n + 1))"
    by (intro year_start_mono) simp
  then show False
    using year_at_bounds [of n] year_at_bounds [of "n + 1"] year_length [of "year_at n + 1"]
    by (auto simp: add.assoc split: if_splits)
qed

lemma month_scan_bounds:
  "days_before y m \<le> r \<Longrightarrow> r < days_before y (m + int k + 1)
   \<Longrightarrow> month_scan y r k m \<in> {m..m + int k} \<and> days_before y (month_scan y r k m) \<le> r
     \<and> r < days_before y (month_scan y r k m + 1)"
proof (induction k arbitrary: m)
  case (Suc k)
  have "m + 1 + int k + 1 = m + int (Suc k) + 1" by simp
  then show ?case using Suc.IH [of "m + 1"] Suc.prems by (cases "r < days_before y (m + 1)") auto
qed simp

lemma month_at_bounds:
  assumes "0 \<le> r" "r < (if leap_year y then 366 else 365)"
  shows "month_at y r \<in> {1..12} \<and> days_before y (month_at y r) \<le> r \<and> r < days_before y (month_at y r + 1)"
proof -
  have "days_before y 1 = 0" "days_before y 13 = (if leap_year y then 366 else 365)"
    by (simp_all add: days_before_def)
  then show ?thesis
    using month_scan_bounds [of y 1 r 11] assms by (simp add: month_at_def)
qed

lemma month_cases: "m \<in> {1..12} \<Longrightarrow> m = 1 \<or> m = 2 \<or> m = 3 \<or> m = 4 \<or> m = 5 \<or> m = 6 \<or> m = 7
    \<or> m = 8 \<or> m = 9 \<or> m = 10 \<or> m = 11 \<or> m = (12::int)"
  unfolding atLeastAtMost_iff by presburger

lemma month_length_range: "m \<in> {1..12} \<Longrightarrow> 28 \<le> month_length y m \<and> month_length y m \<le> 31"
  by (drule month_cases) (auto simp: month_length_def days_before_def)

lemma days_before_mono:
  assumes "1 \<le> m" "m \<le> n" "n \<le> 13"
  shows "days_before y m \<le> days_before y n"
  using assms(2,1,3)
proof (induction rule: int_ge_induct)
  case (step i)
  then show ?case using month_length_range [of i y] by (simp add: month_length_def)
qed simp

lemma days_before_bounds:
  assumes "m \<in> {1..12}"
  shows "0 \<le> days_before y m \<and> days_before y (m + 1) \<le> (if leap_year y then 366 else 365)"
proof -
  have "days_before y 1 = 0" "days_before y 13 = (if leap_year y then 366 else 365)"
    by (simp_all add: days_before_def)
  then show ?thesis
    using days_before_mono [of 1 m y] days_before_mono [of "m + 1" 13 y] assms by simp
qed

lemma day_number_in_year:
  assumes "valid_date c"
  shows "year_start (year_of c) \<le> day_number c \<and> day_number c < year_start (year_of c + 1)"
  using assms days_before_bounds [of "month_of c" "year_of c"]
  by (simp add: valid_date_def day_number_def month_length_def year_length)

lemma month_at_unique:
  assumes "m \<in> {1..12}" "days_before y m \<le> r" "r < days_before y (m + 1)"
  shows "month_at y r = m"
proof -
  let ?q = "month_at y r"
  have q: "?q \<in> {1..12}" "days_before y ?q \<le> r" "r < days_before y (?q + 1)"
    using month_at_bounds [of r y] days_before_bounds [OF assms(1), of y] assms(2,3) by auto
  have "\<not> ?q < m" using days_before_mono [of "?q + 1" m y] q assms by auto
  moreover have "\<not> m < ?q" using days_before_mono [of "m + 1" ?q y] q assms by auto
  ultimately show ?thesis by simp
qed

text \<open>Dates and days are two names of the same thing.\<close>

lemma civil_of_day_number:
  assumes "valid_date c"
  shows "civil_of (day_number c) = c"
proof -
  have "year_at (day_number c) = year_of c"
    using day_number_in_year [OF assms] by (intro year_at_unique) simp_all
  moreover have "month_at (year_of c) (day_number c - year_start (year_of c)) = month_of c"
    using assms by (intro month_at_unique) (auto simp: valid_date_def day_number_def month_length_def)
  ultimately show ?thesis
    by (simp add: civil_of_def Let_def) (simp add: day_number_def civil.expand)
qed

lemma valid_civil_of: "valid_date (civil_of n)"
  and day_number_civil_of [simp]: "day_number (civil_of n) = n"
proof -
  let ?y = "year_at n" and ?r = "n - year_start (year_at n)"
  have "0 \<le> ?r" "?r < (if leap_year ?y then 366 else 365)"
    using year_at_bounds [of n] by (auto simp: year_length)
  from month_at_bounds [OF this]
  show "valid_date (civil_of n)" "day_number (civil_of n) = n"
    by (simp_all add: civil_of_def Let_def valid_date_def day_number_def month_length_def)
qed

lemma year_of_civil_of [simp]: "year_of (civil_of n) = year_at n"
  by (simp add: civil_of_def Let_def)

lemma day_number_less:
  assumes "valid_date a" "valid_date b" "a < b"
  shows "day_number a < day_number b"
proof (cases "year_of a < year_of b")
  case True
  then show ?thesis
    using day_number_in_year [OF assms(1)] day_number_in_year [OF assms(2)]
      year_start_mono [of "year_of a + 1" "year_of b"] by simp
next
  case False
  then have y: "year_of a = year_of b" using assms(3) by (auto simp: less_civil_def)
  show ?thesis
  proof (cases "month_of a < month_of b")
    case True
    then show ?thesis
      using days_before_mono [of "month_of a + 1" "month_of b" "year_of b"] assms(1,2) y
      by (simp add: valid_date_def day_number_def month_length_def)
  next
    case False
    then show ?thesis using assms(3) y by (auto simp: less_civil_def day_number_def)
  qed
qed

lemma day_number_less_iff: "valid_date a \<Longrightarrow> valid_date b \<Longrightarrow> day_number a < day_number b \<longleftrightarrow> a < b"
  using day_number_less [of a b] day_number_less [of b a] by (cases a b rule: linorder_cases) auto

section \<open>Zones\<close>

text \<open>
  A zone has an offset from UTC, in seconds, before its first transition and another one from each
  transition on. Transitions are in ascending order. \<open>zone_from\<close> yields the offset in force at an
  instant (in seconds) and the bounds of the stretch in which it is.
\<close>

record Location =
  lc_First :: int
  lc_Trans :: "(int \<times> int) list"

fun zone_from :: "int \<Rightarrow> int option \<Rightarrow> (int \<times> int) list \<Rightarrow> int \<Rightarrow> int \<times> int option \<times> int option" where
  "zone_from offset start [] sec = (offset, start, None)"
| "zone_from offset start ((at, next) # zs) sec =
     (if sec < at then (offset, start, Some at) else zone_from next (Some at) zs sec)"

definition Location_lookup :: "Location \<Rightarrow> int \<Rightarrow> int \<times> int option \<times> int option" where
  "Location_lookup loc = zone_from (lc_First loc) None (lc_Trans loc)"

definition offset_at :: "Location \<Rightarrow> int \<Rightarrow> int" where
  "offset_at loc sec = fst (Location_lookup loc sec)"

definition in_stretch :: "int option \<Rightarrow> int option \<Rightarrow> int \<Rightarrow> bool" where
  "in_stretch start fin sec \<longleftrightarrow> (case start of None \<Rightarrow> True | Some a \<Rightarrow> a \<le> sec)
     \<and> (case fin of None \<Rightarrow> True | Some b \<Rightarrow> sec < b)"

text \<open>The wall clock at an instant: seconds of local time since the local 1970-01-01, and its parts.\<close>

definition wall :: "Location \<Rightarrow> instant \<Rightarrow> int" where
  "wall loc t = t div second_ns + offset_at loc (t div second_ns)"

definition wall_date :: "Location \<Rightarrow> instant \<Rightarrow> civil" where
  "wall_date loc t = civil_of (wall loc t div 86400)"

definition wall_hour :: "Location \<Rightarrow> instant \<Rightarrow> int" where
  "wall_hour loc t = wall loc t mod 86400 div 3600"

definition wall_minute :: "Location \<Rightarrow> instant \<Rightarrow> int" where
  "wall_minute loc t = wall loc t mod 3600 div 60"

definition wall_second :: "Location \<Rightarrow> instant \<Rightarrow> int" where
  "wall_second loc t = wall loc t mod 60"

text \<open>
  \<^verbatim>\<open>time.Date\<close>: the wall clock is read as if it were UTC to find an offset, and when the instant that
  offset gives lies outside the offset's stretch, the offset of that instant is taken instead.
\<close>

definition zone_shift :: "Location \<Rightarrow> int \<Rightarrow> int" where
  "zone_shift loc unix =
     (case Location_lookup loc unix of (offset, start, fin) \<Rightarrow>
       if offset = 0 then 0
       else if in_stretch start fin (unix - offset) then offset
       else offset_at loc (unix - offset))"

definition wall_seconds :: "civil \<Rightarrow> int \<Rightarrow> int \<Rightarrow> int \<Rightarrow> int" where
  "wall_seconds c hour minute sec = day_number c * 86400 + hour * 3600 + minute * 60 + sec"

definition time_Date :: "Location \<Rightarrow> civil \<Rightarrow> int \<Rightarrow> int \<Rightarrow> int \<Rightarrow> int \<Rightarrow> instant" where
  "time_Date loc c hour minute sec nsec =
     (let unix = wall_seconds c hour minute sec
      in (unix - zone_shift loc unix) * second_ns + nsec)"

text \<open>\<^verbatim>\<open>t.AddDate(0, 0, days)\<close>.\<close>

definition add_days :: "Location \<Rightarrow> instant \<Rightarrow> int \<Rightarrow> instant" where
  "add_days loc t days =
     (case wall_date loc t of Civil y m d \<Rightarrow>
        time_Date loc (Civil y m (d + days)) (wall_hour loc t) (wall_minute loc t) (wall_second loc t)
          (t mod second_ns))"

text \<open>\<^verbatim>\<open>t.Format(time.RFC3339)\<close>, for the years \<^verbatim>\<open>0\<close> to \<^verbatim>\<open>9999\<close>.\<close>

definition zero_padded :: "nat \<Rightarrow> int \<Rightarrow> string" where
  "zero_padded width n = (let s = itoa (nat n) in replicate (width - length s) (CHR ''0'') @ s)"

definition rfc3339 :: "Location \<Rightarrow> instant \<Rightarrow> string" where
  "rfc3339 loc t =
     (let c = wall_date loc t; offset = offset_at loc (t div second_ns); m = \<bar>offset\<bar> div 60
      in zero_padded 4 (year_of c) @ ''-'' @ zero_padded 2 (month_of c) @ ''-'' @ zero_padded 2 (day_of c)
         @ ''T'' @ zero_padded 2 (wall_hour loc t) @ '':'' @ zero_padded 2 (wall_minute loc t)
         @ '':'' @ zero_padded 2 (wall_second loc t)
         @ (if offset = 0 then ''Z''
            else (if offset < 0 then ''-'' else ''+'') @ zero_padded 2 (m div 60) @ '':''
              @ zero_padded 2 (m mod 60)))"

definition UTC :: Location where
  "UTC = \<lparr>lc_First = 0, lc_Trans = []\<rparr>"

abbreviation fixed_zone :: "Location \<Rightarrow> bool" where
  "fixed_zone loc \<equiv> lc_Trans loc = []"

lemma fixed_zone_simps:
  assumes "fixed_zone loc"
  shows "offset_at loc sec = lc_First loc" "zone_shift loc unix = lc_First loc"
  using assms by (simp_all add: offset_at_def Location_lookup_def zone_shift_def in_stretch_def)

lemma wall_seconds_parts:
  assumes "0 \<le> h" "h < 24" "0 \<le> mi" "mi < 60"
  shows "wall_seconds c h mi 0 div 86400 = day_number c"
    "wall_seconds c h mi 0 mod 86400 div 3600 = h"
    "wall_seconds c h mi 0 mod 3600 div 60 = mi"
    "wall_seconds c h mi 0 mod 60 = 0"
proof -
  have r: "0 \<le> h * 3600 + mi * 60" "h * 3600 + mi * 60 < 86400" "0 \<le> mi * 60" "mi * 60 < 3600"
    using assms by simp_all
  have a: "wall_seconds c h mi 0 = (h * 3600 + mi * 60) + day_number c * 86400"
    by (simp add: wall_seconds_def)
  show "wall_seconds c h mi 0 div 86400 = day_number c"
    unfolding a using r by (simp add: div_mult_self3)
  have "wall_seconds c h mi 0 mod 86400 = h * 3600 + mi * 60"
    unfolding a using r by simp
  then show "wall_seconds c h mi 0 mod 86400 div 3600 = h"
    using r by simp
  have b: "wall_seconds c h mi 0 = mi * 60 + (day_number c * 24 + h) * 3600"
    by (simp add: wall_seconds_def algebra_simps)
  show "wall_seconds c h mi 0 mod 3600 div 60 = mi"
    unfolding b mod_mult_self1 using r by simp
  have c: "wall_seconds c h mi 0 = (day_number c * 1440 + h * 60 + mi) * 60"
    by (simp add: wall_seconds_def algebra_simps)
  show "wall_seconds c h mi 0 mod 60 = 0"
    unfolding c by simp
qed

text \<open>Every wall-clock second is the second of one date, hour and minute.\<close>

lemma wall_seconds_of:
  "u = wall_seconds (civil_of (u div 86400)) (u mod 86400 div 3600) (u mod 3600 div 60) (u mod 60)"
proof -
  have "u mod 86400 mod 3600 = u mod 3600" "u mod 3600 mod 60 = u mod 60"
    by (simp_all add: mod_mod_cancel)
  then have "u = u div 86400 * 86400 + u mod 86400"
    "u mod 86400 = u mod 86400 div 3600 * 3600 + u mod 3600" "u mod 3600 = u mod 3600 div 60 * 60 + u mod 60"
    using div_mult_mod_eq [of "u mod 86400" 3600] div_mult_mod_eq [of "u mod 3600" 60]
    by (simp_all only: div_mult_mod_eq)
  then show ?thesis unfolding wall_seconds_def day_number_civil_of by linarith
qed

lemma wall_reading:
  "wall loc t = wall_seconds (wall_date loc t) (wall_hour loc t) (wall_minute loc t) (wall_second loc t)"
  unfolding wall_date_def wall_hour_def wall_minute_def wall_second_def by (rule wall_seconds_of)

lemma wall_parts:
  assumes "wall loc t = wall_seconds c h m 0" "h \<in> {0..23}" "m \<in> {0..59}"
  shows "wall_date loc t = civil_of (day_number c)" "wall_hour loc t = h" "wall_minute loc t = m"
    "wall_second loc t = 0"
proof -
  have "0 \<le> h" "h < 24" "0 \<le> m" "m < 60" using assms(2,3) by simp_all
  note p = wall_seconds_parts [OF this]
  show "wall_date loc t = civil_of (day_number c)" "wall_hour loc t = h" "wall_minute loc t = m"
    "wall_second loc t = 0"
    by (simp_all only: wall_date_def wall_hour_def wall_minute_def wall_second_def assms(1) p)
qed

end
