(* ===== verification/Events.thy ===== *)
theory Events
  imports Go_Time
begin

text \<open>
  \<^verbatim>\<open>libs/go-shared/events\<close>: the envelopes that cross process boundaries, their validation, the
  cleaning of progress messages and the derivation of a scan's status. The Go types \<^verbatim>\<open>Family\<close>,
  \<^verbatim>\<open>SourceKind\<close>, \<^verbatim>\<open>EngineStatus\<close>, \<^verbatim>\<open>ScanStatus\<close> and \<^verbatim>\<open>Phase\<close> are open string types, so they are
  strings here, with the source's constants as abbreviations. \<^verbatim>\<open>EngineConfig\<close> is the list of its
  keys, because no code reads the values. A validation error is the list of the problems found;
  where Go collects them from a map, in no fixed order, the order here is the source's.
\<close>

section \<open>Vocabularies\<close>

abbreviation SchemaScanJobV1 :: string where "SchemaScanJobV1 \<equiv> ''scan.job/v1''"
abbreviation SchemaScanEventV1 :: string where "SchemaScanEventV1 \<equiv> ''scan.event/v1''"
abbreviation SchemaScanResultV1 :: string where "SchemaScanResultV1 \<equiv> ''scan.result/v1''"
abbreviation SchemaNormalizeTriggerV1 :: string where "SchemaNormalizeTriggerV1 \<equiv> ''scan.normalize/v1''"
abbreviation NotifyEventSchema :: string where "NotifyEventSchema \<equiv> ''axebom.notify.event/v1''"

type_synonym Family = string

abbreviation FamilyFetch :: Family where "FamilyFetch \<equiv> ''fetch''"
abbreviation FamilySBOM :: Family where "FamilySBOM \<equiv> ''sbom''"
abbreviation FamilyCBOM :: Family where "FamilyCBOM \<equiv> ''cbom''"
abbreviation FamilyQBOM :: Family where "FamilyQBOM \<equiv> ''qbom''"
abbreviation FamilyAIBOM :: Family where "FamilyAIBOM \<equiv> ''aibom''"
abbreviation FamilyHBOM :: Family where "FamilyHBOM \<equiv> ''hbom''"
abbreviation FamilyWebrecon :: Family where "FamilyWebrecon \<equiv> ''webrecon''"

definition AllFamilies :: "Family list" where
  "AllFamilies = [FamilyFetch, FamilyWebrecon, FamilySBOM, FamilyCBOM, FamilyQBOM, FamilyAIBOM, FamilyHBOM]"

definition Family_Valid :: "Family \<Rightarrow> bool" where
  "Family_Valid f \<longleftrightarrow> f \<in> set AllFamilies"

type_synonym SourceKind = string

abbreviation SourceGit :: SourceKind where "SourceGit \<equiv> ''git''"
abbreviation SourceUpload :: SourceKind where "SourceUpload \<equiv> ''upload''"
abbreviation SourceImage :: SourceKind where "SourceImage \<equiv> ''image''"
abbreviation SourceURL :: SourceKind where "SourceURL \<equiv> ''url''"

type_synonym EngineStatus = string

abbreviation StatusSucceeded :: EngineStatus where "StatusSucceeded \<equiv> ''succeeded''"
abbreviation StatusPartial :: EngineStatus where "StatusPartial \<equiv> ''partial''"
abbreviation StatusFailed :: EngineStatus where "StatusFailed \<equiv> ''failed''"
abbreviation StatusTimeout :: EngineStatus where "StatusTimeout \<equiv> ''timeout''"
abbreviation StatusUnavailable :: EngineStatus where "StatusUnavailable \<equiv> ''unavailable''"
abbreviation StatusSkipped :: EngineStatus where "StatusSkipped \<equiv> ''skipped''"

text \<open>The two orchestrator-only strings of the status column.\<close>

abbreviation statusQueued :: EngineStatus where "statusQueued \<equiv> ''queued''"
abbreviation statusRunning :: EngineStatus where "statusRunning \<equiv> ''running''"

definition EngineStatus_Succeeded :: "EngineStatus \<Rightarrow> bool" where
  "EngineStatus_Succeeded s \<longleftrightarrow> s = StatusSucceeded \<or> s = StatusPartial"

definition EngineStatus_Valid :: "EngineStatus \<Rightarrow> bool" where
  "EngineStatus_Valid s \<longleftrightarrow> s \<in> set [StatusSucceeded, StatusPartial, StatusFailed,
     StatusTimeout, StatusUnavailable, StatusSkipped]"

type_synonym ScanStatus = string

abbreviation ScanQueued :: ScanStatus where "ScanQueued \<equiv> ''queued''"
abbreviation ScanRunning :: ScanStatus where "ScanRunning \<equiv> ''running''"
abbreviation ScanCompleted :: ScanStatus where "ScanCompleted \<equiv> ''completed''"
abbreviation ScanCompletedWithErrors :: ScanStatus where
  "ScanCompletedWithErrors \<equiv> ''completed_with_errors''"
abbreviation ScanFailed :: ScanStatus where "ScanFailed \<equiv> ''failed''"
abbreviation ScanCancelled :: ScanStatus where "ScanCancelled \<equiv> ''cancelled''"

type_synonym Phase = string

abbreviation PhaseDone :: Phase where "PhaseDone \<equiv> ''done''"
abbreviation PhaseFailed :: Phase where "PhaseFailed \<equiv> ''failed''"

definition AllPhases :: "Phase list" where
  "AllPhases = [''queued'', ''fetching'', ''preparing'', ''running'', ''parsing'', ''uploading'',
     PhaseDone, PhaseFailed]"

definition Phase_Terminal :: "Phase \<Rightarrow> bool" where
  "Phase_Terminal p \<longleftrightarrow> p = PhaseDone \<or> p = PhaseFailed"

section \<open>Problems\<close>

datatype problem =
    BadSchema string
  | EmptyField string
  | UnknownFamily Family
  | EngineEmpty
  | AttemptBelowOne
  | DeadlineUnset
  | PrefixEmpty
  | PrefixLacksJobID
  | NoInput
  | CredentialKey string
  | NegativeSeq
  | PctOutOfRange int
  | MessageTooLong nat
  | UnknownStatus EngineStatus
  | DBVersionMissing string
  | FailedWithoutError
  | ArtifactNoSHA nat
  | ArtifactNoURI nat
  | NegativeCount string int
  | VersionBelowOne
  | IssuedUnset
  | EnginesEmpty

definition verdict :: "problem list \<Rightarrow> problem list + unit" where
  "verdict ps = (if ps = [] then Inr () else Inl ps)"

definition problem_if :: "bool \<Rightarrow> problem \<Rightarrow> problem list" where
  "problem_if b p = (if b then [p] else [])"

definition empty_fields :: "(string \<times> string) list \<Rightarrow> problem list" where
  "empty_fields nvs = map (EmptyField \<circ> fst) (filter (\<lambda>(n, v). v = []) nvs)"

lemma verdict_Inr [simp]: "verdict ps = Inr u \<longleftrightarrow> ps = []"
  by (simp add: verdict_def)

lemma when_Nil [simp]: "problem_if b p = [] \<longleftrightarrow> \<not> b"
  by (simp add: problem_if_def)

lemma empty_fields_Nil [simp]: "empty_fields nvs = [] \<longleftrightarrow> (\<forall>(n, v) \<in> set nvs. v \<noteq> [])"
  by (auto simp: empty_fields_def filter_empty_conv)

section \<open>Jobs\<close>

record Workspace =
  ws_ArtifactURI :: string
  ws_SHA256 :: string
  ws_SizeBytes :: int
  ws_RootSubpath :: string
  ws_NativeSBOMRef :: string

record SourceMeta =
  sm_Kind :: SourceKind
  sm_CommitSHA :: string
  sm_ImageDigest :: string

record JobLimits =
  WallClockSec :: int
  CPUMillis :: int
  MemoryMB :: int
  DiskMB :: int
  PIDsMax :: int
  MaxOutputBytes :: int

record ScanJobV1 =
  sj_SchemaVersion :: string
  sj_JobID :: string
  sj_ScanID :: string
  sj_TenantID :: string
  sj_ProjectID :: string
  sj_Family :: Family
  sj_Engine :: string
  sj_EngineVersionConstraint :: string
  sj_Attempt :: int
  sj_IssuedAt :: instant
  sj_DeadlineAt :: instant
  sj_Workspace :: Workspace
  sj_SourceMeta :: SourceMeta
  sj_EngineConfig :: "string list"
  sj_Limits :: JobLimits
  sj_OutputPrefix :: string

definition no_workspace :: Workspace where
  "no_workspace = \<lparr>ws_ArtifactURI = [], ws_SHA256 = [], ws_SizeBytes = 0, ws_RootSubpath = [],
     ws_NativeSBOMRef = []\<rparr>"

definition Job_Subject :: "ScanJobV1 \<Rightarrow> string" where
  "Job_Subject j = ''scan.job.'' @ sj_Family j"

definition ManifestKey :: "ScanJobV1 \<Rightarrow> string" where
  "ManifestKey j = trim_right_slash (sj_OutputPrefix j) @ ''/manifest.json''"

definition credentialKeys :: "string list" where
  "credentialKeys = [''token'', ''secret'', ''password'', ''credential'', ''apikey'', ''api_key'',
     ''auth'', ''private_key'', ''cookie'', ''session'']"

text \<open>The first key found; Go ranges over a map, so which one it names is not fixed.\<close>

definition assertNoCredential :: "ScanJobV1 \<Rightarrow> problem list" where
  "assertNoCredential j =
     (case find (\<lambda>k. \<exists>needle \<in> set credentialKeys. contains (to_lower k) needle) (sj_EngineConfig j) of
        None \<Rightarrow> []
      | Some k \<Rightarrow> [CredentialKey k])"

definition Job_problems :: "ScanJobV1 \<Rightarrow> problem list" where
  "Job_problems j =
     problem_if (sj_SchemaVersion j \<noteq> SchemaScanJobV1) (BadSchema (sj_SchemaVersion j))
     @ empty_fields [(''job_id'', sj_JobID j), (''scan_id'', sj_ScanID j),
         (''tenant_id'', sj_TenantID j), (''project_id'', sj_ProjectID j)]
     @ problem_if (\<not> Family_Valid (sj_Family j)) (UnknownFamily (sj_Family j))
     @ problem_if (sj_Engine j = []) EngineEmpty
     @ problem_if (sj_Attempt j < 1) AttemptBelowOne
     @ problem_if (sj_DeadlineAt j = zero_time) DeadlineUnset
     @ (if sj_OutputPrefix j = [] then [PrefixEmpty]
        else problem_if (\<not> contains (sj_OutputPrefix j) (sj_JobID j)) PrefixLacksJobID)
     @ problem_if (sj_Family j \<noteq> FamilyFetch \<and> sj_Family j \<noteq> FamilyWebrecon
         \<and> ws_ArtifactURI (sj_Workspace j) = [] \<and> ws_NativeSBOMRef (sj_Workspace j) = []) NoInput
     @ assertNoCredential j"

definition Job_Validate :: "ScanJobV1 \<Rightarrow> problem list + unit" where
  "Job_Validate j = verdict (Job_problems j)"

section \<open>Progress events\<close>

record ScanEventV1 =
  ev_SchemaVersion :: string
  ev_EventID :: string
  ev_ScanID :: string
  ev_JobID :: string
  ev_TenantID :: string
  ev_Engine :: string
  ev_Seq :: int
  ev_TS :: instant
  ev_Phase :: Phase
  ev_Pct :: int
  ev_Message :: string

definition MaxEventMessage :: nat where "MaxEventMessage = 200"

definition Event_Subject :: "ScanEventV1 \<Rightarrow> string" where
  "Event_Subject e = ''scan.event.'' @ ev_ScanID e"

text \<open>The loop that cuts back to a rune boundary.\<close>

function back_off :: "string \<Rightarrow> string" where
  "back_off m = (if m \<noteq> [] \<and> \<not> valid_utf8 m then back_off (butlast m) else m)"
  by pat_completeness auto
termination
  by (relation "measure length") auto

declare back_off.simps [simp del]

definition clean_message :: "string \<Rightarrow> string" where
  "clean_message m = filter (\<lambda>c. c \<noteq> CHR 0x00)
     (map (\<lambda>c. if c = CHR 0x0A \<or> c = CHR 0x0D then CHR '' '' else c) m)"

definition sanitize_message :: "string \<Rightarrow> string" where
  "sanitize_message msg =
     (let m = clean_message msg;
          m = (if length m > MaxEventMessage
               then back_off (take (MaxEventMessage - length ellipsis) m) @ ellipsis else m)
      in trim_space m)"

definition Sanitize :: "ScanEventV1 \<Rightarrow> ScanEventV1" where
  "Sanitize e =
     (let e = e\<lparr>ev_Message := sanitize_message (ev_Message e)\<rparr>;
          e = (if ev_Pct e < 0 then e\<lparr>ev_Pct := 0\<rparr> else e)
      in (if ev_Pct e > 100 then e\<lparr>ev_Pct := 100\<rparr> else e))"

definition Event_problems :: "ScanEventV1 \<Rightarrow> problem list" where
  "Event_problems e =
     problem_if (ev_SchemaVersion e \<noteq> SchemaScanEventV1) (BadSchema (ev_SchemaVersion e))
     @ problem_if (ev_ScanID e = []) (EmptyField ''scan_id'')
     @ problem_if (ev_TenantID e = []) (EmptyField ''tenant_id'')
     @ problem_if (ev_Seq e < 0) NegativeSeq
     @ problem_if (ev_Pct e < 0 \<or> ev_Pct e > 100) (PctOutOfRange (ev_Pct e))
     @ problem_if (length (ev_Message e) > MaxEventMessage) (MessageTooLong (length (ev_Message e)))"

definition Event_Validate :: "ScanEventV1 \<Rightarrow> problem list + unit" where
  "Event_Validate e = verdict (Event_problems e)"

section \<open>Results\<close>

record Invocation =
  in_ArgvRedacted :: "string list"
  in_ImageDigest :: string
  in_StartedAt :: instant
  in_FinishedAt :: instant
  in_DurationMS :: int
  in_ExitCode :: int

record Artifact =
  af_Role :: string
  af_URI :: string
  af_MediaType :: string
  af_SHA256 :: string
  af_SizeBytes :: int

record Summary =
  su_Components :: "int option"
  su_Vulnerabilities :: "int option"
  su_Licenses :: "int option"
  su_CryptoAssets :: "int option"

definition Measured :: "Summary \<Rightarrow> bool" where
  "Measured s \<longleftrightarrow> su_Components s \<noteq> None \<or> su_Vulnerabilities s \<noteq> None
     \<or> su_Licenses s \<noteq> None \<or> su_CryptoAssets s \<noteq> None"

record Diagnostic =
  dg_Severity :: string
  dg_Code :: string
  dg_Ecosystem :: string
  dg_Message :: string
  dg_Hint :: string

record ResultError =
  re_Code :: string
  re_Message :: string
  re_Retryable :: bool

record ScanResultV1 =
  sr_SchemaVersion :: string
  sr_JobID :: string
  sr_ScanID :: string
  sr_TenantID :: string
  sr_Engine :: string
  sr_EngineVersion :: string
  sr_EngineDBVersion :: string
  sr_SourceMeta :: "SourceMeta option"
  sr_Invocation :: Invocation
  sr_Status :: EngineStatus
  sr_Artifacts :: "Artifact list"
  sr_EcosystemsCovered :: "string list"
  sr_Summary :: Summary
  sr_Diagnostics :: "Diagnostic list"
  sr_Error :: "ResultError option"

definition Result_Subject :: "Family \<Rightarrow> string" where
  "Result_Subject f = ''scan.result.'' @ f"

definition vulnerabilityEngines :: "string list" where
  "vulnerabilityEngines = [''grype'', ''trivy-fs'', ''trivy-image'', ''osv-scanner'', ''dependency-check'']"

definition artifact_problems :: "nat \<times> Artifact \<Rightarrow> problem list" where
  "artifact_problems ia = (case ia of (i, a) \<Rightarrow>
     problem_if (af_SHA256 a = []) (ArtifactNoSHA i) @ problem_if (af_URI a = []) (ArtifactNoURI i))"

definition count_problems :: "string \<times> int option \<Rightarrow> problem list" where
  "count_problems nv = (case nv of
     (n, None) \<Rightarrow> [] | (n, Some v) \<Rightarrow> problem_if (v < 0) (NegativeCount n v))"

definition Result_problems :: "ScanResultV1 \<Rightarrow> problem list" where
  "Result_problems r =
     problem_if (sr_SchemaVersion r \<noteq> SchemaScanResultV1) (BadSchema (sr_SchemaVersion r))
     @ empty_fields [(''job_id'', sr_JobID r), (''scan_id'', sr_ScanID r),
         (''tenant_id'', sr_TenantID r), (''engine'', sr_Engine r)]
     @ problem_if (\<not> EngineStatus_Valid (sr_Status r)) (UnknownStatus (sr_Status r))
     @ problem_if (sr_Engine r \<in> set vulnerabilityEngines \<and> EngineStatus_Succeeded (sr_Status r)
         \<and> sr_EngineDBVersion r = []) (DBVersionMissing (sr_Engine r))
     @ problem_if (sr_Status r = StatusFailed \<and> sr_Error r = None) FailedWithoutError
     @ concat (map artifact_problems (enumerate 0 (sr_Artifacts r)))
     @ concat (map count_problems
         [(''components'', su_Components (sr_Summary r)),
          (''vulnerabilities'', su_Vulnerabilities (sr_Summary r)),
          (''licenses'', su_Licenses (sr_Summary r)),
          (''crypto_assets'', su_CryptoAssets (sr_Summary r))])"

definition Result_Validate :: "ScanResultV1 \<Rightarrow> problem list + unit" where
  "Result_Validate r = verdict (Result_problems r)"

section \<open>Normalize triggers and notifications\<close>

record NormalizeEngineArtifact =
  na_EngineID :: string
  na_EngineVersion :: string
  na_EngineDBVersion :: string
  na_Status :: EngineStatus
  na_Artifacts :: "Artifact list"
  na_EcosystemsCovered :: "string list"

record NormalizeTriggerV1 =
  nt_SchemaVersion :: string
  nt_TriggerID :: string
  nt_ScanID :: string
  nt_TenantID :: string
  nt_ProjectID :: string
  nt_Family :: Family
  nt_NormalizationVersion :: int
  nt_SourceCommitSHA :: string
  nt_WorkspaceArchiveSHA256 :: string
  nt_EcosystemsWithoutEngine :: "string list"
  nt_IssuedAt :: instant
  nt_Engines :: "NormalizeEngineArtifact list"

definition Trigger_Subject :: "NormalizeTriggerV1 \<Rightarrow> string" where
  "Trigger_Subject t = ''scan.normalize.'' @ nt_Family t"

definition Trigger_problems :: "NormalizeTriggerV1 \<Rightarrow> problem list" where
  "Trigger_problems t =
     problem_if (nt_SchemaVersion t \<noteq> SchemaNormalizeTriggerV1) (BadSchema (nt_SchemaVersion t))
     @ empty_fields [(''trigger_id'', nt_TriggerID t), (''scan_id'', nt_ScanID t),
         (''tenant_id'', nt_TenantID t), (''project_id'', nt_ProjectID t)]
     @ problem_if (\<not> Family_Valid (nt_Family t)) (UnknownFamily (nt_Family t))
     @ problem_if (nt_NormalizationVersion t < 1) VersionBelowOne
     @ problem_if (nt_IssuedAt t = zero_time) IssuedUnset
     @ problem_if (nt_Engines t = []) EnginesEmpty"

definition Trigger_Validate :: "NormalizeTriggerV1 \<Rightarrow> problem list + unit" where
  "Trigger_Validate t = verdict (Trigger_problems t)"

abbreviation NotifyEventScanCompleted :: string where "NotifyEventScanCompleted \<equiv> ''scan.completed''"
abbreviation NotifyEventCampaignFailed :: string where "NotifyEventCampaignFailed \<equiv> ''campaign.failed''"

record NotifyEventV1 =
  ne_Schema :: string
  ne_Event :: string
  ne_TenantID :: string
  ne_ProjectID :: string
  ne_ProjectName :: string
  ne_ScanID :: string
  ne_ReportID :: string
  ne_CampaignID :: string
  ne_CampaignName :: string
  ne_Status :: string
  ne_Components :: int
  ne_Findings :: int
  ne_Critical :: int
  ne_High :: int
  ne_EnginesUnavailable :: int
  ne_UnavailableEngines :: "string list"
  ne_Cause :: string
  ne_URL :: string
  ne_OccurredAt :: string

text \<open>The job of rendering a report (\<^verbatim>\<open>services/report/internal/worker/queue.go\<close>).\<close>

record RenderJobV1 =
  rj_Schema :: string
  rj_TenantID :: string
  rj_ReportID :: string
  rj_RequestedAt :: string

definition empty_notification :: NotifyEventV1 where
  "empty_notification = \<lparr>ne_Schema = [], ne_Event = [], ne_TenantID = [], ne_ProjectID = [],
     ne_ProjectName = [], ne_ScanID = [], ne_ReportID = [], ne_CampaignID = [], ne_CampaignName = [],
     ne_Status = [], ne_Components = 0, ne_Findings = 0, ne_Critical = 0, ne_High = 0,
     ne_EnginesUnavailable = 0, ne_UnavailableEngines = [], ne_Cause = [], ne_URL = [],
     ne_OccurredAt = []\<rparr>"

definition Notify_Subject :: "NotifyEventV1 \<Rightarrow> string" where
  "Notify_Subject e = ''notify.'' @ ne_Event e"

section \<open>The status of a scan\<close>

definition DeriveScanStatus :: "EngineStatus list \<Rightarrow> ScanStatus" where
  "DeriveScanStatus statuses =
     (if length statuses = 0 then ScanFailed
      else let succeeded = length (filter EngineStatus_Succeeded statuses);
               clean = length (filter (\<lambda>s. s = StatusSucceeded) statuses)
           in if clean = length statuses then ScanCompleted
              else if succeeded > 0 then ScanCompletedWithErrors
              else ScanFailed)"

lemma filter_all_iff: "length (filter P xs) = length xs \<longleftrightarrow> list_all P xs"
  by (induction xs) (auto, metis Suc_n_not_le_n length_filter_le)

lemma filter_none_iff: "filter P xs = [] \<longleftrightarrow> \<not> list_ex P xs"
  by (induction xs) auto

text \<open>
  The derived status says exactly what happened: \<open>completed\<close> when there are runs and every one
  succeeded cleanly; \<open>completed_with_errors\<close> when some run gave usable output and some run did not
  succeed cleanly (a scan of partial results only is in this class); \<open>failed\<close> when no run gave
  usable output, in particular when there are no runs.
\<close>

theorem derive_scan_status:
  "(DeriveScanStatus ss = ScanCompleted \<longleftrightarrow> ss \<noteq> [] \<and> list_all (\<lambda>s. s = StatusSucceeded) ss)
   \<and> (DeriveScanStatus ss = ScanCompletedWithErrors
        \<longleftrightarrow> list_ex EngineStatus_Succeeded ss \<and> list_ex (\<lambda>s. s \<noteq> StatusSucceeded) ss)
   \<and> (DeriveScanStatus ss = ScanFailed \<longleftrightarrow> list_all (\<lambda>s. \<not> EngineStatus_Succeeded s) ss)"
proof -
  have ex: "list_ex (\<lambda>s. s \<noteq> StatusSucceeded) ss \<longleftrightarrow> \<not> list_all (\<lambda>s. s = StatusSucceeded) ss"
    by (simp add: list_all_iff list_ex_iff)
  have all: "list_all (\<lambda>s. \<not> EngineStatus_Succeeded s) ss \<longleftrightarrow> \<not> list_ex EngineStatus_Succeeded ss"
    by (simp add: list_all_iff list_ex_iff)
  have some: "ss \<noteq> [] \<Longrightarrow> list_all (\<lambda>s. s = StatusSucceeded) ss \<Longrightarrow> list_ex EngineStatus_Succeeded ss"
    by (cases ss) (auto simp: EngineStatus_Succeeded_def)
  show ?thesis
    using some unfolding ex all
    by (cases "ss = []") (auto simp: DeriveScanStatus_def Let_def filter_all_iff filter_none_iff)
qed

section \<open>What cleaning a message guarantees\<close>

lemma back_off_valid: "valid_utf8 (back_off m)"
  by (induction m rule: back_off.induct) (subst back_off.simps, auto)

lemma back_off_prefix: "prefix (back_off m) m"
proof (induction m rule: back_off.induct)
  case (1 m)
  show ?case
  proof (cases "m \<noteq> [] \<and> \<not> valid_utf8 m")
    case True
    then have "prefix (back_off (butlast m)) m"
      using "1.IH" prefixeq_butlast prefix_order.trans by blast
    with True show ?thesis by (subst back_off.simps) simp
  next
    case False
    then show ?thesis by (subst back_off.simps) auto
  qed
qed

text \<open>Changing or dropping ASCII bytes cannot break a valid encoding.\<close>

lemma valid_utf8_ascii_map:
  assumes f: "\<And>c. byte c < 128 \<Longrightarrow> byte (f c) < 128" "\<And>c. \<not> byte c < 128 \<Longrightarrow> f c = c"
  shows "valid_utf8 s \<Longrightarrow> valid_utf8 (map f s)"
proof (induction s rule: valid_utf8_induct)
  case (Char c w r)
  have "map f w = w" using utf8_char_cont [OF Char(1)] f(2) by (intro map_idI) blast
  moreover have "utf8_char (f c) w"
  proof (cases "byte c < 128")
    case True
    with Char(1) f(1) [OF True] show ?thesis by (simp only: utf8_char_ascii)
  next
    case False
    with Char(1) f(2) [OF False] show ?thesis by (simp only:)
  qed
  ultimately show ?case using valid_utf8_char Char(3) by (simp del: valid_utf8.simps)
qed simp

lemma valid_utf8_ascii_filter:
  assumes P: "\<And>c. \<not> byte c < 128 \<Longrightarrow> P c"
  shows "valid_utf8 s \<Longrightarrow> valid_utf8 (filter P s)"
proof (induction s rule: valid_utf8_induct)
  case (Char c w r)
  have w: "filter P w = w" using utf8_char_cont [OF Char(1)] P by (intro filter_True) blast
  show ?case
  proof (cases "P c")
    case True
    then show ?thesis using w valid_utf8_char Char by (simp del: valid_utf8.simps)
  next
    case False
    then have "byte c < 128" using P by blast
    then have "w = []" using Char(1) by (simp only: utf8_char_ascii)
    then show ?thesis using False Char(3) by (simp del: valid_utf8.simps)
  qed
qed simp

lemma clean_message_valid: "valid_utf8 m \<Longrightarrow> valid_utf8 (clean_message m)"
  unfolding clean_message_def
  by (rule valid_utf8_ascii_filter, (auto)[1], rule valid_utf8_ascii_map) auto

lemma clean_message_chars: "set (clean_message m) \<inter> {CHR 0x0A, CHR 0x0D, CHR 0x00} = {}"
  by (auto simp: clean_message_def)

lemma ellipsis_chars: "set ellipsis \<inter> {CHR 0x0A, CHR 0x0D, CHR 0x00} = {}"
  by code_simp

definition bounded_message :: "string \<Rightarrow> string" where
  "bounded_message m = (if length m > MaxEventMessage
     then back_off (take (MaxEventMessage - length ellipsis) m) @ ellipsis else m)"

lemma sanitize_message_alt: "sanitize_message m = trim_space (bounded_message (clean_message m))"
  by (simp add: sanitize_message_def bounded_message_def Let_def)

lemma length_bounded_message: "length (bounded_message m) \<le> MaxEventMessage"
proof -
  have "length (back_off (take 197 m)) \<le> length (take 197 m)"
    by (rule prefix_length_le [OF back_off_prefix])
  then show ?thesis by (simp add: bounded_message_def MaxEventMessage_def)
qed

lemma set_bounded_message: "set (bounded_message m) \<subseteq> set m \<union> set ellipsis"
  using set_mono_prefix [OF back_off_prefix]
  by (auto simp: bounded_message_def dest: in_set_takeD)

lemma valid_bounded_message: "valid_utf8 m \<Longrightarrow> valid_utf8 (bounded_message m)"
  by (simp add: bounded_message_def valid_utf8_append back_off_valid)

lemma length_sanitize_message: "length (sanitize_message m) \<le> MaxEventMessage"
  using length_trim_space length_bounded_message le_trans unfolding sanitize_message_alt by blast

lemma sanitize_message_chars: "set (sanitize_message m) \<inter> {CHR 0x0A, CHR 0x0D, CHR 0x00} = {}"
  using set_trim_space [of "bounded_message (clean_message m)"] set_bounded_message [of "clean_message m"]
    clean_message_chars [of m] ellipsis_chars
  unfolding sanitize_message_alt by blast

lemma Sanitize_fields [simp]:
  "ev_SchemaVersion (Sanitize e) = ev_SchemaVersion e" "ev_ScanID (Sanitize e) = ev_ScanID e"
  "ev_TenantID (Sanitize e) = ev_TenantID e" "ev_Seq (Sanitize e) = ev_Seq e"
  "ev_Message (Sanitize e) = sanitize_message (ev_Message e)"
  "ev_Pct (Sanitize e) = max 0 (min 100 (ev_Pct e))"
  by (simp_all add: Sanitize_def Let_def)

text \<open>
  A sanitized event can be published: its message is at most 200 bytes with no line break and no
  NUL, stays valid UTF-8 if it was, and \<open>Validate\<close> then accepts the event exactly when its
  envelope fields are right, whatever the message and the percentage were.
\<close>

theorem sanitize_makes_publishable:
  "length (ev_Message (Sanitize e)) \<le> 200
   \<and> set (ev_Message (Sanitize e)) \<inter> {CHR 0x0A, CHR 0x0D, CHR 0x00} = {}
   \<and> {m. valid_utf8 m} \<subseteq> {m. valid_utf8 (sanitize_message m)}
   \<and> (Event_Validate (Sanitize e) = Inr () \<longleftrightarrow>
        ev_SchemaVersion e = SchemaScanEventV1 \<and> ev_ScanID e \<noteq> [] \<and> ev_TenantID e \<noteq> [] \<and> 0 \<le> ev_Seq e)"
proof (intro conjI)
  show "length (ev_Message (Sanitize e)) \<le> 200"
    using length_sanitize_message by (simp add: MaxEventMessage_def)
  show "set (ev_Message (Sanitize e)) \<inter> {CHR 0x0A, CHR 0x0D, CHR 0x00} = {}"
    using sanitize_message_chars by simp
  show "{m. valid_utf8 m} \<subseteq> {m. valid_utf8 (sanitize_message m)}"
    by (auto simp: sanitize_message_alt clean_message_valid valid_bounded_message trim_space_valid)
  show "Event_Validate (Sanitize e) = Inr () \<longleftrightarrow>
        ev_SchemaVersion e = SchemaScanEventV1 \<and> ev_ScanID e \<noteq> [] \<and> ev_TenantID e \<noteq> [] \<and> 0 \<le> ev_Seq e"
    using length_sanitize_message [of "ev_Message e"]
    by (auto simp: Event_Validate_def Event_problems_def)
qed

end
