(* ===== verification/Tenant_Db.thy ===== *)
theory Tenant_Db
  imports Events Errs
begin

text \<open>
  What every service of the program stands on: the transaction of
  \<^verbatim>\<open>libs/go-shared/platform/db/tenant.go\<close> (\<^verbatim>\<open>WithTenant\<close>), the publishing half of
  \<^verbatim>\<open>libs/go-shared/bus/bus.go\<close>, the clock and the id generators. Postgres, JetStream and the uuid
  package are not part of the repository, so they are the environment: \<open>en_outcomes\<close> says how the
  coming I/O calls end (succeed, fail, or take effect while the caller sees an error, which is a
  commit or a publish whose acknowledgement is lost), \<open>en_uuid\<close> is the stream of ids, \<open>en_clock\<close> the
  instant every clock reads during one handler. Each service extends this record by its tables.
\<close>

datatype io_outcome = Io_Ok | Io_Fails | Io_AckLost

datatype payload =
    PJob ScanJobV1
  | PTrigger NormalizeTriggerV1
  | PNotify NotifyEventV1
  | PEvent ScanEventV1
  | PResult ScanResultV1
  | PRender RenderJobV1

record message =
  ms_Subject :: string
  ms_MsgID :: string
  ms_Payload :: payload

record env =
  en_outbox :: "message list"
  en_clock :: instant
  en_uuid :: "nat \<Rightarrow> string"
  en_next :: nat
  en_outcomes :: "io_outcome list"

abbreviation err_no_tenant :: go_err where "err_no_tenant \<equiv> Plain ''no tenant in scope'' []"
abbreviation err_database :: go_err where "err_database \<equiv> Plain ''database error'' []"

section \<open>Environment calls\<close>

definition next_outcome :: "'a env_scheme \<Rightarrow> io_outcome" where
  "next_outcome w = (case en_outcomes w of [] \<Rightarrow> Io_Ok | o1 # _ \<Rightarrow> o1)"

definition after_io :: "'a env_scheme \<Rightarrow> 'a env_scheme" where
  "after_io w = w\<lparr>en_outcomes := tl (en_outcomes w)\<rparr>"

text \<open>
  A transaction: all of \<open>fn\<close> or, when it or the database fails, none of it. The default isolation is
  READ COMMITTED, so \<open>fn\<close> as one step is a transaction that runs alone; where two can overlap, the
  theory that owns the transaction says so.
\<close>

definition Db_Call :: "('a env_scheme \<Rightarrow> go_err + ('b \<times> 'a env_scheme)) \<Rightarrow> ('a env_scheme, go_err + 'b) state" where
  "Db_Call fn = State (\<lambda>w.
     if next_outcome w = Io_Fails then (Inl err_database, after_io w)
     else case fn (after_io w) of
       Inl e \<Rightarrow> (Inl e, after_io w)
     | Inr (x, w') \<Rightarrow> (if next_outcome w = Io_AckLost then Inl err_database else Inr x, w'))"

definition WithTenant ::
  "string \<Rightarrow> ('a env_scheme \<Rightarrow> go_err + ('b \<times> 'a env_scheme)) \<Rightarrow> ('a env_scheme, go_err + 'b) state" where
  "WithTenant tenantID fn =
     (if tenantID = [] then State_Monad.return (Inl err_no_tenant) else Db_Call fn)"

text \<open>A transaction that only reads.\<close>

definition ReadTenant ::
  "string \<Rightarrow> ('a env_scheme \<Rightarrow> go_err + 'b) \<Rightarrow> ('a env_scheme, go_err + 'b) state" where
  "ReadTenant tenantID q = WithTenant tenantID
     (\<lambda>w. case q w of Inl e \<Rightarrow> Inl e | Inr x \<Rightarrow> Inr (x, w))"

definition Bus_Publish :: "string \<Rightarrow> string \<Rightarrow> payload \<Rightarrow> ('a env_scheme, go_err + unit) state" where
  "Bus_Publish subject msgID p = State (\<lambda>w.
     let sent = (after_io w)\<lparr>en_outbox := en_outbox w @
                  [\<lparr>ms_Subject = subject, ms_MsgID = msgID, ms_Payload = p\<rparr>]\<rparr>
     in case next_outcome w of
          Io_Ok \<Rightarrow> (Inr (), sent)
        | Io_Fails \<Rightarrow> (Inl (Plain (''bus: publish to '' @ subject) []), after_io w)
        | Io_AckLost \<Rightarrow> (Inl (Plain (''bus: publish to '' @ subject) []), sent))"

text \<open>\<^verbatim>\<open>uuid.NewString\<close> and the \<^verbatim>\<open>DEFAULT app.uuid_v7()\<close> of a table.\<close>

definition fresh_id :: "'a env_scheme \<Rightarrow> string" where
  "fresh_id w = en_uuid w (en_next w)"

definition drop_id :: "'a env_scheme \<Rightarrow> 'a env_scheme" where
  "drop_id w = w\<lparr>en_next := Suc (en_next w)\<rparr>"

definition uuid_NewString :: "('a env_scheme, string) state" where
  "uuid_NewString = State (\<lambda>w. (fresh_id w, drop_id w))"

definition time_now :: "('a env_scheme, instant) state" where
  "time_now = State (\<lambda>w. (en_clock w, w))"

section \<open>What a call can do\<close>

lemma run_WithTenant:
  "run_state (WithTenant t fn) w =
     (if t = [] then (Inl err_no_tenant, w)
      else if next_outcome w = Io_Fails then (Inl err_database, after_io w)
      else case fn (after_io w) of
        Inl e \<Rightarrow> (Inl e, after_io w)
      | Inr (x, w') \<Rightarrow> (if next_outcome w = Io_AckLost then Inl err_database else Inr x, w'))"
  by (simp add: WithTenant_def Db_Call_def)

lemma run_ReadTenant:
  "run_state (ReadTenant t q) w =
     (if t = [] then (Inl err_no_tenant, w)
      else if next_outcome w = Io_Fails then (Inl err_database, after_io w)
      else (case q (after_io w) of
        Inl e \<Rightarrow> Inl e
      | Inr x \<Rightarrow> if next_outcome w = Io_AckLost then Inl err_database else Inr x, after_io w))"
  by (simp add: ReadTenant_def run_WithTenant split: sum.splits)

lemma run_fresh [run_simps]:
  "run_state uuid_NewString w = (fresh_id w, drop_id w)" "run_state time_now w = (en_clock w, w)"
  by (simp_all add: uuid_NewString_def time_now_def)

text \<open>With nothing going wrong, a call does what it says.\<close>

definition reliable :: "'a env_scheme \<Rightarrow> bool" where
  "reliable w \<longleftrightarrow> en_outcomes w = []"

lemma reliable_simps [simp]:
  "reliable w \<Longrightarrow> next_outcome w = Io_Ok" "reliable w \<Longrightarrow> after_io w = w"
  by (simp_all add: reliable_def next_outcome_def after_io_def)

lemma reliable_keep [simp]:
  "reliable (drop_id w) = reliable w"
  "reliable (w\<lparr>en_outbox := ms\<rparr>) = reliable w"
  by (simp_all add: reliable_def drop_id_def)

lemma after_io_fields [simp]:
  "en_outbox (after_io w) = en_outbox w" "en_clock (after_io w) = en_clock w"
  "en_uuid (after_io w) = en_uuid w" "en_next (after_io w) = en_next w"
  "env.more (after_io w) = env.more w"
  by (simp_all add: after_io_def)

lemma drop_id_fields [simp]:
  "en_outbox (drop_id w) = en_outbox w" "en_clock (drop_id w) = en_clock w"
  "en_uuid (drop_id w) = en_uuid w" "env.more (drop_id w) = env.more w"
  by (simp_all add: drop_id_def)

text \<open>Laws: what holds of the environment's own steps and of the transaction holds of the call.\<close>

lemma law_Db_Call:
  assumes "\<And>w. R w (after_io w)" and "\<And>w x w'. fn (after_io w) = Inr (x, w') \<Longrightarrow> R w w'"
  shows "state_io_rel R (Db_Call fn)"
  using assms by (intro state_io_relI) (auto simp: Db_Call_def split: if_splits sum.splits)

lemma law_WithTenant:
  assumes "\<And>w. R w w" "\<And>w. R w (after_io w)"
    and "\<And>w x w'. t \<noteq> [] \<Longrightarrow> fn (after_io w) = Inr (x, w') \<Longrightarrow> R w w'"
  shows "state_io_rel R (WithTenant t fn)"
  using assms by (intro state_io_relI) (auto simp: run_WithTenant split: if_splits sum.splits)

lemma law_ReadTenant:
  assumes "\<And>w. R w w" "\<And>w. R w (after_io w)"
  shows "state_io_rel R (ReadTenant t q)"
  unfolding ReadTenant_def using assms by (intro law_WithTenant) (auto split: sum.splits)

lemma law_Bus_Publish:
  assumes "\<And>w. R w (after_io w)"
    and "\<And>w. R w ((after_io w)\<lparr>en_outbox := en_outbox w @ [\<lparr>ms_Subject = s, ms_MsgID = i, ms_Payload = p\<rparr>]\<rparr>)"
  shows "state_io_rel R (Bus_Publish s i p)"
  using assms by (intro state_io_relI) (auto simp: Bus_Publish_def Let_def split: io_outcome.splits)

lemma law_uuid: "(\<And>w. R w (drop_id w)) \<Longrightarrow> state_io_rel R uuid_NewString"
  by (intro state_io_relI) (auto simp: run_simps)

lemma law_now: "(\<And>w. R w w) \<Longrightarrow> state_io_rel R time_now"
  by (intro state_io_relI) (auto simp: run_simps)

end
