(* ===== verification/Vex_Store.thy ===== *)
theory Vex_Store
  imports Vex Tenant_Db
begin

text \<open>
  \<^verbatim>\<open>services/scan-orchestrator/internal/orchestr/vex_store.go\<close>: the table
  \<^verbatim>\<open>normalize.vex_statements\<close> and its write path. Row level security is the tenant filter of every
  query; a nullable text column holds \<open>[]\<close> for NULL, as \<^verbatim>\<open>nullIfEmpty\<close> and \<^verbatim>\<open>COALESCE\<close> make the two
  the same to the code. The ids of the table are the environment's.
\<close>

section \<open>The table and its queries\<close>

record vex_db = env +
  vx_statements :: "Statement list"

record VEXStatementInput =
  vi_ProjectID :: string
  vi_ComponentKey :: string
  vi_ClusterID :: string
  vi_Status :: string
  vi_Scope :: string
  vi_Justification :: string
  vi_Remediation :: string
  vi_Workarounds :: string
  vi_Downtime :: string
  vi_AuthorUserID :: string

definition listVEXStatementRows :: "string \<Rightarrow> (Statement \<Rightarrow> bool) \<Rightarrow> vex_db \<Rightarrow> Statement list" where
  "listVEXStatementRows tenantID wh w =
     slice_stable (\<lambda>a b. vs_CreatedAt a < vs_CreatedAt b)
       (filter (\<lambda>s. vs_TenantID s = tenantID \<and> wh s) (vx_statements w))"

definition listVEXStatementsForCluster :: "string \<Rightarrow> string \<Rightarrow> string \<Rightarrow> vex_db \<Rightarrow> Statement list" where
  "listVEXStatementsForCluster tenantID projectID clusterID w =
     listVEXStatementRows tenantID (\<lambda>s. vs_ProjectID s = projectID \<and> vs_ClusterID s = clusterID) w"

definition currentVEXStatement ::
  "string \<Rightarrow> string \<Rightarrow> string \<Rightarrow> string \<Rightarrow> string \<Rightarrow> vex_db \<Rightarrow> Statement option" where
  "currentVEXStatement tenantID projectID clusterID componentKey scope w =
     find (\<lambda>st. vs_SupersededBy st = [] \<and> vs_Scope st = scope \<and> vs_ComponentKey st = componentKey)
       (listVEXStatementsForCluster tenantID projectID clusterID w)"

text \<open>The insert: the id, the time and the absence of a successor are the database's.\<close>

definition insertVEXStatement :: "Statement \<Rightarrow> vex_db \<Rightarrow> go_err + (string \<times> instant) \<times> vex_db" where
  "insertVEXStatement st w =
     (let i = fresh_id w in
      if i = [] \<or> i \<in> vs_ID ` set (vx_statements w) then Inl (Plain ''insert vex statement'' [err_database])
      else Inr ((i, en_clock w),
        (drop_id w)\<lparr>vx_statements := vx_statements w @
           [st\<lparr>vs_ID := i, vs_CreatedAt := en_clock w, vs_SupersededBy := []\<rparr>]\<rparr>))"

definition mark_superseded :: "string \<Rightarrow> string \<Rightarrow> string \<Rightarrow> vex_db \<Rightarrow> vex_db" where
  "mark_superseded tenantID i prev w =
     w\<lparr>vx_statements := map (\<lambda>s. if vs_TenantID s = tenantID \<and> vs_ID s = prev
         then s\<lparr>vs_SupersededBy := i\<rparr> else s) (vx_statements w)\<rparr>"

section \<open>Recording a decision\<close>

definition statement_of_input :: "string \<Rightarrow> VEXStatementInput \<Rightarrow> Statement" where
  "statement_of_input tenantID inp = \<lparr>vs_ID = [], vs_TenantID = tenantID,
     vs_ProjectID = vi_ProjectID inp, vs_ComponentKey = vi_ComponentKey inp,
     vs_ClusterID = vi_ClusterID inp, vs_Status = vi_Status inp, vs_Scope = vi_Scope inp,
     vs_Justification = vi_Justification inp, vs_Remediation = vi_Remediation inp,
     vs_Workarounds = vi_Workarounds inp, vs_Downtime = vi_Downtime inp, vs_Version = 1,
     vs_SupersededBy = [], vs_AuthorUserID = vi_AuthorUserID inp, vs_CreatedAt = zero_time\<rparr>"

text \<open>The two halves of the transaction: what it reads and decides, and what it writes.\<close>

definition vex_decide ::
  "string \<Rightarrow> VEXStatementInput \<Rightarrow> vex_db \<Rightarrow> go_err + Statement option \<times> Statement" where
  "vex_decide tenantID inp w =
     (let next_st = statement_of_input tenantID inp;
          previous = currentVEXStatement tenantID (vi_ProjectID inp) (vi_ClusterID inp)
            (vi_ComponentKey inp) (vi_Scope inp) w
      in case previous of
           Some p \<Rightarrow> (case Supersede p next_st of Inl e \<Rightarrow> Inl e | Inr s \<Rightarrow> Inr (previous, s))
         | None \<Rightarrow> (case Statement_Validate next_st of Inl e \<Rightarrow> Inl e | Inr _ \<Rightarrow> Inr (None, next_st)))"

definition vex_write ::
  "string \<Rightarrow> Statement option \<times> Statement \<Rightarrow> vex_db \<Rightarrow> go_err + Statement \<times> vex_db" where
  "vex_write tenantID d w =
     (case d of (previous, next_st) \<Rightarrow>
       case insertVEXStatement next_st w of
         Inl e \<Rightarrow> Inl e
       | Inr ((i, createdAt), w) \<Rightarrow>
           let next_st = next_st\<lparr>vs_ID := i, vs_CreatedAt := createdAt\<rparr> in
           case previous of
             None \<Rightarrow> Inr (next_st, w)
           | Some p \<Rightarrow> Inr (next_st, mark_superseded tenantID i (vs_ID p) w))"

definition CreateVEXStatement ::
  "string \<Rightarrow> VEXStatementInput \<Rightarrow> (vex_db, go_err + Statement) state" where
  "CreateVEXStatement tenantID inp = WithTenant tenantID
     (\<lambda>w. case vex_decide tenantID inp w of Inl e \<Rightarrow> Inl e | Inr d \<Rightarrow> vex_write tenantID d w)"

definition ListVEXStatements :: "string \<Rightarrow> string \<Rightarrow> (vex_db, go_err + Statement list) state" where
  "ListVEXStatements tenantID projectID = ReadTenant tenantID
     (\<lambda>w. Inr (listVEXStatementRows tenantID (\<lambda>s. vs_ProjectID s = projectID) w))"

definition GetVEXHistory ::
  "string \<Rightarrow> string \<Rightarrow> string \<Rightarrow> string \<Rightarrow> (vex_db, go_err + Statement list) state" where
  "GetVEXHistory tenantID projectID clusterID componentKey =
     do { r \<leftarrow> ListVEXStatements tenantID projectID;
          case r of
            Inl e \<Rightarrow> State_Monad.return (Inl e)
          | Inr all_st \<Rightarrow> State_Monad.return (Inr (Chain (filter (\<lambda>st. vs_ClusterID st = clusterID
              \<and> vs_ComponentKey st = componentKey) all_st))) }"

section \<open>Every decision is one unbroken chain\<close>

text \<open>What a statement is about; the statements about one thing form its chain.\<close>

definition vex_tuple :: "Statement \<Rightarrow> string \<times> string \<times> string \<times> string \<times> string" where
  "vex_tuple s = (vs_TenantID s, vs_ProjectID s, vs_ClusterID s, vs_ComponentKey s, vs_Scope s)"

definition chain_ok :: "Statement list \<Rightarrow> bool" where
  "chain_ok c \<longleftrightarrow>
     map vs_Version c = map int [1..<Suc (length c)]
     \<and> map vs_SupersededBy c = (if c = [] then [] else tl (map vs_ID c) @ [[]])"

definition vex_inv :: "vex_db \<Rightarrow> bool" where
  "vex_inv w \<longleftrightarrow>
     distinct (map vs_ID (vx_statements w)) \<and> [] \<notin> vs_ID ` set (vx_statements w)
     \<and> (\<forall>s \<in> set (vx_statements w). Statement_Validate s = Inr ())
     \<and> (\<forall>\<tau>. chain_ok (filter (\<lambda>s. vex_tuple s = \<tau>) (vx_statements w)))"

text \<open>Appending to a chain: the last element was the live one, and hands over to the new one.\<close>

lemma chain_ok_single: "vs_Version n = 1 \<Longrightarrow> vs_SupersededBy n = [] \<Longrightarrow> chain_ok [n]"
  by (simp add: chain_ok_def)

lemma chain_ok_snoc:
  assumes "chain_ok (c @ [p])" "vs_Version n = vs_Version p + 1" "vs_SupersededBy n = []"
  shows "chain_ok (c @ [p\<lparr>vs_SupersededBy := vs_ID n\<rparr>, n])"
  using assms by (cases c) (auto simp: chain_ok_def)

lemma chain_ok_last:
  assumes "chain_ok (c @ [p])" "[] \<notin> vs_ID ` set (c @ [p])"
  shows "vs_SupersededBy p = []" and "s \<in> set c \<Longrightarrow> vs_SupersededBy s \<noteq> []"
proof -
  have sup: "map vs_SupersededBy c @ [vs_SupersededBy p] = tl (map vs_ID (c @ [p])) @ [[]]"
    using assms(1) by (simp add: chain_ok_def)
  then show "vs_SupersededBy p = []" by simp
  have "map vs_SupersededBy c = tl (map vs_ID (c @ [p]))" using sup by simp
  moreover have "set (tl (map vs_ID (c @ [p]))) \<subseteq> vs_ID ` set (c @ [p])"
    by (metis list.set_map list.set_sel(2) subsetI tl_Nil)
  ultimately show "s \<in> set c \<Longrightarrow> vs_SupersededBy s \<noteq> []"
    using assms(2) by (metis (no_types, lifting) image_eqI list.set_map subsetD)
qed

lemma vex_inv_chain: "vex_inv w \<Longrightarrow> chain_ok (filter (\<lambda>s. vex_tuple s = \<tau>) (vx_statements w))"
  unfolding vex_inv_def by blast

lemma current_is_last:
  assumes "vex_inv w"
  shows "currentVEXStatement t p c k sc w =
    (let ch = filter (\<lambda>s. vex_tuple s = (t, p, c, k, sc)) (vx_statements w)
     in if ch = [] then None else Some (last ch))"
proof -
  let ?ch = "filter (\<lambda>s. vex_tuple s = (t, p, c, k, sc)) (vx_statements w)"
  let ?P = "\<lambda>st. vs_SupersededBy st = [] \<and> vs_Scope st = sc \<and> vs_ComponentKey st = k"
  have rows: "s \<in> set (listVEXStatementsForCluster t p c w) \<and> ?P s
      \<longleftrightarrow> s \<in> set ?ch \<and> vs_SupersededBy s = []" for s
    by (auto simp: listVEXStatementsForCluster_def listVEXStatementRows_def vex_tuple_def)
  show ?thesis
  proof (cases "?ch = []")
    case True
    have "\<not> (s \<in> set (listVEXStatementsForCluster t p c w) \<and> ?P s)" for s
      using rows [of s] unfolding True by simp
    then have "find ?P (listVEXStatementsForCluster t p c w) = None"
      unfolding find_None_iff by blast
    then show ?thesis by (simp add: currentVEXStatement_def True)
  next
    case False
    define l where "l = last ?ch"
    have ch: "?ch = butlast ?ch @ [l]" using False by (simp add: l_def)
    have ok: "chain_ok (butlast ?ch @ [l])" "[] \<notin> vs_ID ` set (butlast ?ch @ [l])"
      unfolding ch [symmetric] using vex_inv_chain [OF assms] assms by (simp, auto simp: vex_inv_def)
    have l_in: "l \<in> set ?ch" unfolding l_def by (rule last_in_set) (rule False)
    have uniq: "s \<in> set ?ch \<Longrightarrow> vs_SupersededBy s = [] \<Longrightarrow> s = l" for s
      using chain_ok_last(2) [OF ok] by (subst (asm) ch) auto
    have "find ?P (listVEXStatementsForCluster t p c w) = Some l"
      using rows l_in uniq chain_ok_last(1) [OF ok] by (intro find_unique) blast+
    then show ?thesis using False by (simp add: currentVEXStatement_def Let_def l_def)
  qed
qed

text \<open>What a successful decision is: the next link of its chain.\<close>

lemma vex_decide_Inr:
  assumes inv: "vex_inv w" and run: "vex_decide t inp w = Inr (previous, n)"
  defines "ch \<equiv> filter (\<lambda>s. vex_tuple s = vex_tuple (statement_of_input t inp)) (vx_statements w)"
  shows "previous = (if ch = [] then None else Some (last ch))"
    and "vs_Version n = int (length ch) + 1" and "vs_SupersededBy n = []"
    and "Statement_Validate n = Inr ()" and "vex_tuple n = vex_tuple (statement_of_input t inp)"
    and "n = (statement_of_input t inp)\<lparr>vs_Version := int (length ch) + 1\<rparr>"
proof -
  let ?s0 = "statement_of_input t inp"
  have tuple: "vex_tuple ?s0 = (t, vi_ProjectID inp, vi_ClusterID inp, vi_ComponentKey inp, vi_Scope inp)"
    by (simp add: vex_tuple_def statement_of_input_def)
  have prev: "previous = (if ch = [] then None else Some (last ch))"
    using run current_is_last [OF inv, of t "vi_ProjectID inp" "vi_ClusterID inp" "vi_ComponentKey inp" "vi_Scope inp"]
    by (auto simp: vex_decide_def Let_def ch_def tuple split: option.splits sum.splits if_splits)
  have cur: "currentVEXStatement t (vi_ProjectID inp) (vi_ClusterID inp) (vi_ComponentKey inp) (vi_Scope inp) w = previous"
    using current_is_last [OF inv] prev by (simp add: ch_def tuple Let_def)
  have "n = ?s0\<lparr>vs_Version := int (length ch) + 1\<rparr> \<and> Statement_Validate ?s0 = Inr ()"
  proof (cases "ch = []")
    case True
    then show ?thesis using run cur prev
      by (auto simp: vex_decide_def Let_def statement_of_input_def split: sum.splits)
  next
    case False
    then have "Supersede (last ch) ?s0 = Inr n"
      using run cur prev by (auto simp: vex_decide_def Let_def split: sum.splits)
    then have n: "n = ?s0\<lparr>vs_Version := vs_Version (last ch) + 1, vs_SupersededBy := []\<rparr>"
      and valid: "Statement_Validate ?s0 = Inr ()"
      using supersede_step by auto
    have "chain_ok ch" using vex_inv_chain [OF inv] by (simp add: ch_def)
    then have "map vs_Version ch = map int [1..<Suc (length ch)]" by (simp add: chain_ok_def)
    then have "vs_Version (last ch) = int (length ch)"
      using False by (metis last_map last_upt length_greater_0_conv list.map_disc_iff map_is_Nil_conv
          Suc_leI diff_Suc_1 less_Suc_eq_le not_less upt_conv_Nil)
    with n valid show ?thesis by (simp add: statement_of_input_def)
  qed
  then show "n = (statement_of_input t inp)\<lparr>vs_Version := int (length ch) + 1\<rparr>"
    "vs_Version n = int (length ch) + 1" "vs_SupersededBy n = []" "Statement_Validate n = Inr ()"
    "vex_tuple n = vex_tuple (statement_of_input t inp)"
    by (simp_all add: vex_tuple_def) (simp add: statement_of_input_def)
  show "previous = (if ch = [] then None else Some (last ch))" by (rule prev)
qed

section \<open>What a decision leaves behind\<close>

text \<open>The table after a decision, and the part of a statement nothing ever changes.\<close>

definition hand_over :: "string \<Rightarrow> Statement option \<Rightarrow> string \<Rightarrow> Statement \<Rightarrow> Statement" where
  "hand_over t previous i s = (case previous of None \<Rightarrow> s
     | Some p \<Rightarrow> if vs_TenantID s = t \<and> vs_ID s = vs_ID p then s\<lparr>vs_SupersededBy := i\<rparr> else s)"

definition content :: "Statement \<Rightarrow> Statement" where
  "content s = s\<lparr>vs_SupersededBy := []\<rparr>"

lemma hand_over_simps [simp]:
  "vex_tuple (hand_over t p i s) = vex_tuple s" "vs_ID (hand_over t p i s) = vs_ID s"
  "vs_TenantID (hand_over t p i s) = vs_TenantID s" "content (hand_over t p i s) = content s"
  "Statement_Validate (hand_over t p i s) = Statement_Validate s"
  by (simp_all add: hand_over_def vex_tuple_def content_def split: option.splits)

lemma hand_over_None [simp]: "hand_over t None i s = s"
  by (simp add: hand_over_def)

lemma vex_write_Inr:
  assumes "vex_write t (previous, n) w = Inr (st, w')"
  shows "st = n\<lparr>vs_ID := fresh_id w, vs_CreatedAt := en_clock w\<rparr>"
    and "fresh_id w \<noteq> []" and "fresh_id w \<notin> vs_ID ` set (vx_statements w)"
    and "vs_SupersededBy n = [] \<Longrightarrow> (\<forall>p. previous = Some p \<longrightarrow> p \<in> set (vx_statements w)) \<Longrightarrow>
      vx_statements w' = map (hand_over t previous (fresh_id w)) (vx_statements w) @ [st]"
  using assms
  by (auto simp: vex_write_def insertVEXStatement_def mark_superseded_def hand_over_def drop_id_def Let_def
      map_idI split: option.splits if_splits)

lemma filter_hand_over:
  "filter (\<lambda>s. vex_tuple s = \<tau>) (map (hand_over t p i) xs)
   = map (hand_over t p i) (filter (\<lambda>s. vex_tuple s = \<tau>) xs)"
  by (simp add: filter_map comp_def)

lemma hand_over_same_tenant: "vs_TenantID s \<noteq> t \<Longrightarrow> hand_over t p i s = s"
  by (simp add: hand_over_def split: option.splits)

lemma vex_step:
  assumes inv: "vex_inv w" and dec: "vex_decide t inp w = Inr (previous, n)"
    and wr: "vex_write t (previous, n) w = Inr (st, w')"
  shows "vex_inv w'"
    and "vx_statements w' = map (hand_over t previous (vs_ID st)) (vx_statements w) @ [st]"
    and "vs_SupersededBy st = []" and "vex_tuple st = vex_tuple (statement_of_input t inp)"
    and "vs_Version st = int (length (filter (\<lambda>s. vex_tuple s = vex_tuple st) (vx_statements w))) + 1"
proof -
  let ?rows = "vx_statements w"
  define \<tau> where "\<tau> = vex_tuple (statement_of_input t inp)"
  define ch where "ch = filter (\<lambda>s. vex_tuple s = \<tau>) ?rows"
  note n = vex_decide_Inr [OF inv dec, folded \<tau>_def, folded ch_def]
  note st = vex_write_Inr [OF wr]
  have st_simps: "vs_ID st = fresh_id w" "vs_Version st = vs_Version n" "vs_SupersededBy st = []"
    "vex_tuple st = \<tau>" "Statement_Validate st = Inr ()"
    using n st(1) by (simp_all add: vex_tuple_def)
  have prev_in: "previous = Some p \<Longrightarrow> p \<in> set ch" for p
    using n(1) last_in_set by (metis option.distinct(1) option.inject)
  then have rows': "vx_statements w' = map (hand_over t previous (vs_ID st)) ?rows @ [st]"
    using st(4) n(3) by (auto simp: st_simps ch_def)
  have ids: "distinct (map vs_ID ?rows)" "[] \<notin> vs_ID ` set ?rows" using inv by (auto simp: vex_inv_def)
  have others: "map (hand_over t previous i) (filter (\<lambda>s. vex_tuple s = \<sigma>) ?rows) = filter (\<lambda>s. vex_tuple s = \<sigma>) ?rows"
    if "\<sigma> \<noteq> \<tau>" for \<sigma> i
  proof (rule map_idI)
    fix s assume s: "s \<in> set (filter (\<lambda>s. vex_tuple s = \<sigma>) ?rows)"
    have "previous = Some p \<Longrightarrow> vs_ID s \<noteq> vs_ID p" for p
      using ids(1) s prev_in that by (auto simp: ch_def distinct_map inj_on_def)
    then show "hand_over t previous i s = s" by (auto simp: hand_over_def split: option.splits)
  qed
  have own: "chain_ok (map (hand_over t previous (vs_ID st)) ch @ [st])"
  proof (cases "ch = []")
    case True
    then show ?thesis using n(2) st_simps by (simp add: chain_ok_single)
  next
    case False
    define p where "p = last ch"
    have ch: "ch = butlast ch @ [p]" and prev: "previous = Some p" using False n(1) by (simp_all add: p_def)
    have p_in: "p \<in> set ch" using False by (simp add: p_def)
    have "distinct (map vs_ID ch)" using ids(1) by (simp add: ch_def distinct_map_filter)
    then have diff: "s \<in> set (butlast ch) \<Longrightarrow> vs_ID s \<noteq> vs_ID p" for s
      by (subst (asm) (2) ch) (auto simp: image_iff)
    have "vs_TenantID p = t" using p_in by (simp add: ch_def \<tau>_def vex_tuple_def statement_of_input_def)
    then have "hand_over t previous (vs_ID st) p = p\<lparr>vs_SupersededBy := vs_ID st\<rparr>"
      by (simp add: hand_over_def prev)
    moreover have "map (hand_over t previous (vs_ID st)) (butlast ch) = butlast ch"
      using diff by (intro map_idI) (simp add: hand_over_def prev)
    ultimately have handed: "map (hand_over t previous (vs_ID st)) ch = butlast ch @ [p\<lparr>vs_SupersededBy := vs_ID st\<rparr>]"
      by (subst ch) simp
    have ok: "chain_ok (butlast ch @ [p])"
      unfolding ch [symmetric] using vex_inv_chain [OF inv] by (simp add: ch_def)
    then have "map vs_Version (butlast ch @ [p]) = map int [1..<Suc (length (butlast ch @ [p]))]"
      by (simp only: chain_ok_def)
    then have "vs_Version p = int (length ch)" using False by (simp add: Suc_le_eq)
    then have "chain_ok (butlast ch @ [p\<lparr>vs_SupersededBy := vs_ID st\<rparr>, st])"
      using n(2) st_simps by (intro chain_ok_snoc [OF ok]) simp_all
    then show ?thesis by (simp add: handed)
  qed
  have "chain_ok (filter (\<lambda>s. vex_tuple s = \<sigma>) (vx_statements w'))" for \<sigma>
    using own others [of \<sigma>] vex_inv_chain [OF inv, of \<sigma>] st_simps
    by (cases "\<sigma> = \<tau>") (simp_all add: rows' filter_hand_over ch_def)
  moreover have "distinct (map vs_ID (vx_statements w'))" "[] \<notin> vs_ID ` set (vx_statements w')"
    using ids st(2,3) by (auto simp: rows' comp_def st_simps)
  moreover have "\<forall>s \<in> set (vx_statements w'). Statement_Validate s = Inr ()"
    using inv st_simps by (auto simp: rows' vex_inv_def)
  ultimately show "vex_inv w'" unfolding vex_inv_def by blast
  show "vx_statements w' = map (hand_over t previous (vs_ID st)) (vx_statements w) @ [st]" by (rule rows')
  show "vs_SupersededBy st = []" "vex_tuple st = vex_tuple (statement_of_input t inp)"
    "vs_Version st = int (length (filter (\<lambda>s. vex_tuple s = vex_tuple st) (vx_statements w))) + 1"
    using st_simps n(2) by (simp_all add: \<tau>_def ch_def)
qed

lemma vex_inv_after_io [simp]: "vex_inv (after_io w) = vex_inv w"
  by (simp add: vex_inv_def after_io_def)

lemma vx_after_io [simp]: "vx_statements (after_io w) = vx_statements w"
  by (simp add: after_io_def)

lemma live_after:
  assumes "vex_inv w'" "st \<in> set (vx_statements w')" "vs_SupersededBy st = []"
  shows "filter (\<lambda>s. vex_tuple s = vex_tuple st \<and> vs_SupersededBy s = []) (vx_statements w') = [st]"
proof -
  let ?ch = "filter (\<lambda>s. vex_tuple s = vex_tuple st) (vx_statements w')"
  have st: "st \<in> set ?ch" using assms(2) by simp
  then have ch: "?ch = butlast ?ch @ [last ?ch]" by (metis append_butlast_last_id empty_iff list.set(1))
  have ok: "chain_ok (butlast ?ch @ [last ?ch])" unfolding ch [symmetric] by (rule vex_inv_chain [OF assms(1)])
  have "[] \<notin> vs_ID ` set ?ch" using assms(1) by (auto simp: vex_inv_def)
  then have ids: "[] \<notin> vs_ID ` set (butlast ?ch @ [last ?ch])" unfolding ch [symmetric] .
  note l = chain_ok_last [OF ok ids]
  have "st = last ?ch" using st l(2) assms(3) by (subst (asm) ch) auto
  moreover have "filter (\<lambda>s. vs_SupersededBy s = []) (butlast ?ch @ [last ?ch]) = [last ?ch]"
    using l by (simp add: filter_empty_conv)
  then have "filter (\<lambda>s. vs_SupersededBy s = []) ?ch = [last ?ch]" unfolding ch [symmetric] .
  ultimately show ?thesis by (simp add: conj_commute)
qed

text \<open>
  C38. Recording decisions one after the other keeps one unbroken history per (tenant, project,
  cluster, component, scope): versions 1, 2, ..., each statement superseded by the next and only the
  last one live. Whatever the outcome, nothing that was recorded changes but the pointer to a
  successor, and no other tenant's row changes at all; a reported success leaves the new statement
  as the one in force, with the next version of its chain.
\<close>

theorem create_vex_statement_extends_chain:
  assumes "vex_inv w" "run_state (CreateVEXStatement t inp) w = (r, w')"
  shows "vex_inv w'
    \<and> prefix (map content (vx_statements w)) (map content (vx_statements w'))
    \<and> filter (\<lambda>s. vs_TenantID s \<noteq> t) (vx_statements w') = filter (\<lambda>s. vs_TenantID s \<noteq> t) (vx_statements w)
    \<and> (case r of Inl e \<Rightarrow> True
       | Inr st \<Rightarrow> vex_tuple st = vex_tuple (statement_of_input t inp) \<and> vs_Status st = vi_Status inp
           \<and> vs_Version st = int (length (filter (\<lambda>s. vex_tuple s = vex_tuple st) (vx_statements w))) + 1
           \<and> filter (\<lambda>s. vex_tuple s = vex_tuple st \<and> vs_SupersededBy s = []) (vx_statements w') = [st])"
proof (cases "vx_statements w' = vx_statements w \<and> vex_inv w' \<and> isl r")
  case True
  then show ?thesis by (auto split: sum.splits)
next
  case False
  then obtain previous n st where dec: "vex_decide t inp (after_io w) = Inr (previous, n)"
    and wr: "vex_write t (previous, n) (after_io w) = Inr (st, w')" and r: "r = Inr st \<or> isl r"
    using assms by (auto simp: CreateVEXStatement_def run_WithTenant split: if_splits sum.splits)
  have inv: "vex_inv (after_io w)" using assms(1) by simp
  note step = vex_step [OF inv dec wr]
  have tenant: "vs_TenantID st = t" using step(4) by (simp add: vex_tuple_def statement_of_input_def)
  have status: "vs_Status st = vi_Status inp"
    using vex_decide_Inr(6) [OF inv dec] vex_write_Inr(1) [OF wr] by (simp add: statement_of_input_def)
  have others: "filter (\<lambda>s. vs_TenantID s \<noteq> t) (vx_statements w') = filter (\<lambda>s. vs_TenantID s \<noteq> t) (vx_statements w)"
    by (simp add: step(2) tenant filter_map comp_def) (intro map_idI, simp add: hand_over_same_tenant)
  have "filter (\<lambda>s. vex_tuple s = vex_tuple st \<and> vs_SupersededBy s = []) (vx_statements w') = [st]"
    by (rule live_after [OF step(1) _ step(3)]) (simp add: step(2))
  moreover have "prefix (map content (vx_statements w)) (map content (vx_statements w'))"
    by (simp add: step(2) comp_def)
  moreover have "vs_Version st
      = int (length (filter (\<lambda>s. vex_tuple s = vex_tuple st) (vx_statements w))) + 1"
    using step(5) by simp
  ultimately show ?thesis
    using step(1,4) r others status by (cases r) simp_all
qed

section \<open>Two decisions at once\<close>

text \<open>A concrete table to run on: ids are unary numerals.\<close>

definition empty_vex_db :: vex_db where
  "empty_vex_db = \<lparr>en_outbox = [], en_clock = 100, en_uuid = (\<lambda>n. replicate (Suc n) CHR ''u''),
     en_next = 0, en_outcomes = [], vx_statements = []\<rparr>"

definition decision :: "string \<Rightarrow> VEXStatementInput" where
  "decision status = \<lparr>vi_ProjectID = ''p'', vi_ComponentKey = ''lib'', vi_ClusterID = ''c'',
     vi_Status = status, vi_Scope = ScopeComponent, vi_Justification = ''component_not_present'',
     vi_Remediation = [], vi_Workarounds = [], vi_Downtime = [], vi_AuthorUserID = ''u''\<rparr>"

lemma empty_vex_inv: "vex_inv empty_vex_db"
  by (simp add: vex_inv_def empty_vex_db_def chain_ok_def)

theorem create_vex_statement_extends_chain_witness:
  "\<exists>st w'. run_state (CreateVEXStatement ''t'' (decision StatusAffected)) empty_vex_db = (Inr st, w')
     \<and> vs_Version st = 1 \<and> vs_Status st = StatusAffected \<and> vex_inv w'"
proof -
  let ?run = "run_state (CreateVEXStatement ''t'' (decision StatusAffected)) empty_vex_db"
  have ok: "isl (fst ?run) = False \<and> vs_Version (projr (fst ?run)) = 1" by code_simp
  obtain r w' where run: "?run = (r, w')" by (cases ?run)
  from ok run obtain st where st: "r = Inr st" by (cases r) auto
  show ?thesis
    using create_vex_statement_extends_chain [OF empty_vex_inv run] ok run st
    by (auto simp: decision_def)
qed

text \<open>
  The read and the write of a decision are one transaction, but READ COMMITTED lets two of them
  read the same table before either writes. Both then succeed and the history forks: two live
  statements about the same thing, both version 1, with opposite answers. The doc of
  \<^verbatim>\<open>CreateVEXStatement\<close> rules a forked history out.
\<close>

theorem concurrent_decisions_fork_history:
  "case (vex_decide ''t'' (decision StatusAffected) empty_vex_db,
         vex_decide ''t'' (decision StatusNotAffected) empty_vex_db) of
     (Inr d1, Inr d2) \<Rightarrow>
       (case vex_write ''t'' d1 empty_vex_db of
          Inr (s1, w1) \<Rightarrow>
            (case vex_write ''t'' d2 w1 of
               Inr (s2, w2) \<Rightarrow>
                 map (\<lambda>s. (vs_Version s, vs_SupersededBy s, vs_Status s)) (vx_statements w2)
                   = [(1, [], StatusAffected), (1, [], StatusNotAffected)]
                 \<and> vex_tuple s1 = vex_tuple s2
             | Inl e \<Rightarrow> False)
        | Inl e \<Rightarrow> False)
   | _ \<Rightarrow> False"
  by code_simp

end
