(* ===== verification/Registry.thy ===== *)
theory Registry
  imports Events Errs "HOL-Library.AList"
begin

text \<open>
  \<^verbatim>\<open>services/scan-orchestrator/internal/policy/registry.go\<close>: the engines, the refusal of
  combinations that cannot work and the resolution of families into engines. The registry's map
  from ids to engines is an association list with distinct keys; the code sorts whatever it ranges
  over, so the order of the list is never seen.
\<close>

section \<open>Engines\<close>

record Engine =
  en_ID :: string
  en_Families :: "Family list"
  en_SourceKinds :: "SourceKind list"
  en_Ecosystems :: "string list"
  en_Produces :: "string list"
  en_NativeFormat :: string
  en_Requires :: "string list"
  en_Mode :: string
  en_DBBacked :: bool
  en_DefaultWeight :: int
  en_GraphTrust :: "(string \<times> int) list"
  en_RequiresImport :: bool
  en_Derived :: bool
  en_ConsumesOutputOf :: string
  en_ConsumesNativeSBOM :: bool

text \<open>Go's zero value, from which the composite literals below start.\<close>

definition zero_engine :: Engine where
  "zero_engine = \<lparr>en_ID = [], en_Families = [], en_SourceKinds = [], en_Ecosystems = [],
     en_Produces = [], en_NativeFormat = [], en_Requires = [], en_Mode = [], en_DBBacked = False,
     en_DefaultWeight = 0, en_GraphTrust = [], en_RequiresImport = False, en_Derived = False,
     en_ConsumesOutputOf = [], en_ConsumesNativeSBOM = False\<rparr>"

definition Supports :: "Engine \<Rightarrow> SourceKind \<Rightarrow> bool" where
  "Supports e kind \<longleftrightarrow> kind \<in> set (en_SourceKinds e)"

definition InFamily :: "Engine \<Rightarrow> Family \<Rightarrow> bool" where
  "InFamily e f \<longleftrightarrow> f \<in> set (en_Families e)"

type_synonym Registry = "(string \<times> Engine) list"

section \<open>The built-in engines\<close>

definition engine_syft :: Engine where
  "engine_syft = zero_engine\<lparr>en_ID := ''syft'',
     en_Mode := ''container'',
     en_Families := [FamilySBOM],
     en_SourceKinds := [SourceGit, SourceUpload, SourceImage],
     en_Ecosystems := [''npm'', ''pypi'', ''maven'', ''golang'', ''gem'', ''cargo'', ''nuget'', ''deb'', ''rpm'', ''apk'', ''conan'', ''swift''],
     en_Produces := [''components'', ''licenses''],
     en_NativeFormat := ''spdx-json-2.3'',
     en_DefaultWeight := 3,
     en_GraphTrust := [(''npm'', 2), (''pypi'', 2), (''golang'', 3), (''maven'', 2)]\<rparr>"

definition engine_grype :: Engine where
  "engine_grype = zero_engine\<lparr>en_ID := ''grype'',
     en_Mode := ''container'',
     en_Families := [FamilySBOM],
     en_SourceKinds := [SourceGit, SourceUpload, SourceImage],
     en_Ecosystems := [''npm'', ''pypi'', ''maven'', ''golang'', ''gem'', ''cargo'', ''nuget'', ''deb'', ''rpm'', ''apk''],
     en_Produces := [''vulnerabilities''],
     en_NativeFormat := ''cyclonedx-json-1.6'',
     en_Requires := [''vuln_db''],
     en_ConsumesOutputOf := ''syft'',
     en_DBBacked := True,
     en_DefaultWeight := 3\<rparr>"

definition engine_trivy_fs :: Engine where
  "engine_trivy_fs = zero_engine\<lparr>en_ID := ''trivy-fs'',
     en_Mode := ''container'',
     en_Families := [FamilySBOM],
     en_SourceKinds := [SourceGit, SourceUpload],
     en_Ecosystems := [''npm'', ''pypi'', ''maven'', ''golang'', ''gem'', ''cargo'', ''nuget'', ''deb'', ''rpm'', ''apk''],
     en_Produces := [''components'', ''vulnerabilities'', ''licenses'', ''secrets''],
     en_NativeFormat := ''cyclonedx-json-1.6'',
     en_Requires := [''vuln_db''],
     en_DBBacked := True,
     en_DefaultWeight := 3,
     en_GraphTrust := [(''npm'', 2), (''pypi'', 2), (''maven'', 1)]\<rparr>"

definition engine_trivy_image :: Engine where
  "engine_trivy_image = zero_engine\<lparr>en_ID := ''trivy-image'',
     en_Mode := ''container'',
     en_Families := [FamilySBOM],
     en_SourceKinds := [SourceImage],
     en_Ecosystems := [''deb'', ''rpm'', ''apk'', ''npm'', ''pypi'', ''golang''],
     en_Produces := [''components'', ''vulnerabilities'', ''licenses''],
     en_NativeFormat := ''cyclonedx-json-1.6'',
     en_Requires := [''vuln_db''],
     en_DBBacked := True,
     en_DefaultWeight := 3\<rparr>"

definition engine_osv_scanner :: Engine where
  "engine_osv_scanner = zero_engine\<lparr>en_ID := ''osv-scanner'',
     en_Mode := ''container'',
     en_Families := [FamilySBOM],
     en_SourceKinds := [SourceGit, SourceUpload],
     en_Ecosystems := [''npm'', ''pypi'', ''maven'', ''golang'', ''gem'', ''cargo'', ''nuget''],
     en_Produces := [''vulnerabilities''],
     en_NativeFormat := ''osv-json'',
     en_Requires := [''vuln_db''],
     en_DBBacked := True,
     en_DefaultWeight := 2\<rparr>"

definition engine_dependency_check :: Engine where
  "engine_dependency_check = zero_engine\<lparr>en_ID := ''dependency-check'',
     en_Mode := ''container'',
     en_Families := [FamilySBOM],
     en_SourceKinds := [SourceGit, SourceUpload],
     en_Ecosystems := [''maven'', ''npm'', ''nuget'', ''pypi'', ''golang''],
     en_Produces := [''vulnerabilities''],
     en_NativeFormat := ''dependency-check-json'',
     en_Requires := [''vuln_db'', ''nvd_api_key''],
     en_DBBacked := True,
     en_DefaultWeight := 1\<rparr>"

definition engine_github_dependency_graph_sbom :: Engine where
  "engine_github_dependency_graph_sbom = zero_engine\<lparr>en_ID := ''github-dependency-graph-sbom'',
     en_Mode := ''internal'',
     en_Families := [FamilySBOM],
     en_SourceKinds := [SourceGit],
     en_Ecosystems := [''generic''],
     en_Produces := [''components''],
     en_NativeFormat := ''spdx-json-2.3'',
     en_DefaultWeight := 1,
     en_RequiresImport := True,
     en_ConsumesNativeSBOM := True\<rparr>"

definition engine_webrecon_fingerprint :: Engine where
  "engine_webrecon_fingerprint = zero_engine\<lparr>en_ID := ''webrecon-fingerprint'',
     en_Mode := ''internal'',
     en_Families := [FamilySBOM],
     en_SourceKinds := [SourceURL],
     en_Ecosystems := [''npm''],
     en_Produces := [''components''],
     en_NativeFormat := ''axebom-webrecon-json-1'',
     en_DefaultWeight := 1,
     en_ConsumesNativeSBOM := True\<rparr>"

definition engine_cbomkit_theia :: Engine where
  "engine_cbomkit_theia = zero_engine\<lparr>en_ID := ''cbomkit-theia'',
     en_Mode := ''container'',
     en_Families := [FamilyCBOM],
     en_SourceKinds := [SourceGit, SourceUpload, SourceImage],
     en_Ecosystems := [''generic''],
     en_Produces := [''crypto_assets''],
     en_NativeFormat := ''cyclonedx-json-1.6'',
     en_DefaultWeight := 3\<rparr>"

definition engine_cbomkit :: Engine where
  "engine_cbomkit = zero_engine\<lparr>en_ID := ''cbomkit'',
     en_Mode := ''container'',
     en_Families := [FamilyCBOM],
     en_SourceKinds := [SourceGit],
     en_Ecosystems := [''java'', ''python''],
     en_Produces := [''crypto_assets''],
     en_NativeFormat := ''cyclonedx-json-1.6'',
     en_DefaultWeight := 2\<rparr>"

definition engine_aibom_generator :: Engine where
  "engine_aibom_generator = zero_engine\<lparr>en_ID := ''aibom-generator'',
     en_Mode := ''pip'',
     en_Families := [FamilyAIBOM],
     en_SourceKinds := [SourceGit, SourceUpload],
     en_Ecosystems := [''huggingface'', ''pypi''],
     en_Produces := [''ai_models''],
     en_NativeFormat := ''cyclonedx-json-1.6'',
     en_DefaultWeight := 3\<rparr>"

definition engine_ai_bom :: Engine where
  "engine_ai_bom = zero_engine\<lparr>en_ID := ''ai-bom'',
     en_Mode := ''pip'',
     en_Families := [FamilyAIBOM],
     en_SourceKinds := [SourceGit, SourceUpload],
     en_Ecosystems := [''pypi''],
     en_Produces := [''ai_models''],
     en_NativeFormat := ''cyclonedx-json-1.6'',
     en_DefaultWeight := 2\<rparr>"

definition engine_hbom_csv :: Engine where
  "engine_hbom_csv = zero_engine\<lparr>en_ID := ''hbom-csv'',
     en_Mode := ''internal'',
     en_Families := [FamilyHBOM],
     en_SourceKinds := [SourceUpload],
     en_Ecosystems := [''hardware''],
     en_Produces := [''hardware_components''],
     en_NativeFormat := ''csv'',
     en_DefaultWeight := 1,
     en_RequiresImport := True\<rparr>"

definition engine_qbom_derive :: Engine where
  "engine_qbom_derive = zero_engine\<lparr>en_ID := ''qbom-derive'',
     en_Mode := ''internal'',
     en_Families := [FamilyQBOM],
     en_SourceKinds := [SourceGit, SourceUpload, SourceImage],
     en_Ecosystems := [''generic''],
     en_Produces := [''quantum_components''],
     en_NativeFormat := ''cyclonedx-json-1.6'',
     en_DefaultWeight := 1,
     en_Derived := True\<rparr>"

definition engine_mock_engine :: Engine where
  "engine_mock_engine = zero_engine\<lparr>en_ID := ''mock-engine'',
     en_Mode := ''internal'',
     en_Families := [FamilySBOM],
     en_SourceKinds := [SourceGit, SourceUpload, SourceImage],
     en_Ecosystems := [''npm'', ''pypi''],
     en_Produces := [''components''],
     en_NativeFormat := ''cyclonedx-json-1.6'',
     en_DefaultWeight := 1\<rparr>"

definition builtin_engines :: "Engine list" where
  "builtin_engines =
     [engine_syft,
      engine_grype,
      engine_trivy_fs,
      engine_trivy_image,
      engine_osv_scanner,
      engine_dependency_check,
      engine_github_dependency_graph_sbom,
      engine_webrecon_fingerprint,
      engine_cbomkit_theia,
      engine_cbomkit,
      engine_aibom_generator,
      engine_ai_bom,
      engine_hbom_csv,
      engine_qbom_derive,
      engine_mock_engine]"

definition registry_of :: "Engine list \<Rightarrow> Registry" where
  "registry_of es = foldl (\<lambda>r e. AList.update (en_ID e) e r) [] es"

definition DefaultRegistry :: Registry where
  "DefaultRegistry = registry_of builtin_engines"

section \<open>Lookups\<close>

definition Registry_Get :: "Registry \<Rightarrow> string \<Rightarrow> Engine option" where
  "Registry_Get r i = map_of r i"

definition Registry_IDs :: "Registry \<Rightarrow> string list" where
  "Registry_IDs r = sort (map fst r)"

definition ForFamily :: "Registry \<Rightarrow> Family \<Rightarrow> Engine list" where
  "ForFamily r f = slice_stable (\<lambda>a b. en_ID a < en_ID b) (filter (\<lambda>e. InFamily e f) (map snd r))"

section \<open>Helpers\<close>

definition joinKinds :: "SourceKind list \<Rightarrow> string" where
  "joinKinds kinds = (if kinds = [] then ''nothing'' else join '', '' kinds)"

definition joinFamilies :: "Family list \<Rightarrow> string" where
  "joinFamilies fs = join '', '' (map to_upper fs)"

fun dedupe_from :: "string list \<Rightarrow> string list \<Rightarrow> string list" where
  "dedupe_from seen [] = []"
| "dedupe_from seen (s # ss) =
     (if s \<in> set seen then dedupe_from seen ss else s # dedupe_from (s # seen) ss)"

definition dedupe :: "string list \<Rightarrow> string list" where
  "dedupe ss = dedupe_from [] ss"

section \<open>Validating a combination\<close>

record OffendingPair =
  op_Engine :: string
  op_SourceKind :: string
  op_Reason :: string
  op_Suggestion :: string

definition suggestion_candidates :: "Registry \<Rightarrow> SourceKind \<Rightarrow> Family list \<Rightarrow> string list" where
  "suggestion_candidates r kind fs =
     concat (map (\<lambda>f. map en_ID (filter (\<lambda>e. Supports e kind) (ForFamily r f))) fs)"

definition suggestFor :: "Registry \<Rightarrow> SourceKind \<Rightarrow> Family list \<Rightarrow> string" where
  "suggestFor r kind fs =
     (let candidates = suggestion_candidates r kind fs
      in if candidates = [] then []
         else ''use '' @ join '' or '' (dedupe (sort candidates)) @ '' for this source kind'')"

definition buildCombinationMessage :: "string list \<Rightarrow> OffendingPair list \<Rightarrow> string" where
  "buildCombinationMessage unknown offending =
     join ''; ''
       ((if unknown \<noteq> [] then [''unknown engine(s): '' @ join '', '' unknown] else [])
        @ (if offending \<noteq> []
           then [itoa (length offending) @ '' engine/source combination(s) cannot work: ''
                 @ join '', '' (map op_Engine offending)]
           else []))
     @ ''. Every offending pair is listed in the error details, so one correction fixes all of them.''"

text \<open>The loop over the requested ids; the accumulators are \<^verbatim>\<open>unknown\<close> and \<^verbatim>\<open>offending\<close>.\<close>

fun validate_loop ::
  "Registry \<Rightarrow> SourceKind \<Rightarrow> Family list \<Rightarrow> string list \<Rightarrow> string list \<Rightarrow> OffendingPair list
   \<Rightarrow> string list \<times> OffendingPair list" where
  "validate_loop r kind families [] unknown offending = (unknown, offending)"
| "validate_loop r kind families (i # ids) unknown offending =
     (case Registry_Get r i of
        None \<Rightarrow> validate_loop r kind families ids (unknown @ [i]) offending
      | Some engine \<Rightarrow>
          if \<not> Supports engine kind then
            validate_loop r kind families ids unknown
              (offending @ [\<lparr>op_Engine = i, op_SourceKind = kind,
                 op_Reason = i @ '' cannot read a '' @ kind @ '' source; it supports ''
                   @ joinKinds (en_SourceKinds engine),
                 op_Suggestion = suggestFor r kind (en_Families engine)\<rparr>])
          else if families \<noteq> [] \<and> \<not> list_ex (InFamily engine) families then
            validate_loop r kind families ids unknown
              (offending @ [\<lparr>op_Engine = i, op_SourceKind = kind,
                 op_Reason = i @ '' produces '' @ joinFamilies (en_Families engine)
                   @ '', which is not among the requested BOM types'',
                 op_Suggestion = []\<rparr>])
          else validate_loop r kind families ids unknown offending)"

definition offending_detail :: "OffendingPair \<Rightarrow> Detail" where
  "offending_detail p = [(''engine'', op_Engine p), (''source_kind'', op_SourceKind p),
     (''reason'', op_Reason p), (''suggestion'', op_Suggestion p)]"

definition unknown_detail :: "Registry \<Rightarrow> string \<Rightarrow> Detail" where
  "unknown_detail r i = [(''engine'', i), (''reason'', ''unknown engine id''),
     (''known'', join '', '' (Registry_IDs r))]"

definition ValidateCombination ::
  "Registry \<Rightarrow> string list \<Rightarrow> SourceKind \<Rightarrow> Family list \<Rightarrow> go_err + unit" where
  "ValidateCombination r ids kind families =
     (case validate_loop r kind families ids [] [] of (unknown, offending) \<Rightarrow>
        if unknown = [] \<and> offending = [] then Inr ()
        else
          let err = errs_New ScanEngineCombinationInvalid (buildCombinationMessage unknown offending);
              err = foldl WithDetail err (map offending_detail offending);
              err = foldl WithDetail err (map (unknown_detail r) unknown)
          in Inl err)"

section \<open>Resolving families into engines\<close>

record Resolution =
  rs_Engines :: "Engine list"
  rs_SkippedForSource :: "OffendingPair list"

definition candidates_for :: "Registry \<Rightarrow> (Family \<Rightarrow> string list option) \<Rightarrow> Family \<Rightarrow> Engine list" where
  "candidates_for r overrides f =
     (case overrides f of
        None \<Rightarrow> ForFamily r f
      | Some ids \<Rightarrow> List.map_filter (Registry_Get r) ids)"

definition skipped_pair :: "SourceKind \<Rightarrow> Engine \<Rightarrow> OffendingPair" where
  "skipped_pair kind e = \<lparr>op_Engine = en_ID e, op_SourceKind = kind,
     op_Reason = en_ID e @ '' cannot read a '' @ kind @ '' source'', op_Suggestion = []\<rparr>"

fun resolve_candidates ::
  "SourceKind \<Rightarrow> Engine list \<Rightarrow> string list \<times> Resolution \<Rightarrow> string list \<times> Resolution" where
  "resolve_candidates kind [] acc = acc"
| "resolve_candidates kind (e # es) (seen, res) =
     (if en_ID e \<in> set seen then resolve_candidates kind es (seen, res)
      else if \<not> Supports e kind then
        resolve_candidates kind es
          (seen, res\<lparr>rs_SkippedForSource := rs_SkippedForSource res @ [skipped_pair kind e]\<rparr>)
      else
        resolve_candidates kind es (en_ID e # seen, res\<lparr>rs_Engines := rs_Engines res @ [e]\<rparr>))"

definition Resolve ::
  "Registry \<Rightarrow> Family list \<Rightarrow> SourceKind \<Rightarrow> (Family \<Rightarrow> string list option) \<Rightarrow> Resolution" where
  "Resolve r families kind overrides =
     (let res = snd (foldl (\<lambda>acc f. resolve_candidates kind (candidates_for r overrides f) acc)
                       ([], \<lparr>rs_Engines = [], rs_SkippedForSource = []\<rparr>) families)
      in res\<lparr>rs_Engines := slice_stable (\<lambda>a b. en_ID a < en_ID b) (rs_Engines res)\<rparr>)"

section \<open>Registries are keyed by engine id\<close>

definition wf_registry :: "Registry \<Rightarrow> bool" where
  "wf_registry r \<longleftrightarrow> distinct (map fst r) \<and> list_all (\<lambda>(i, e). en_ID e = i) r"

lemma set_AList_update: "set (AList.update k v r) \<subseteq> insert (k, v) (set r)"
  by (induction r) auto

lemma wf_registry_update: "wf_registry r \<Longrightarrow> wf_registry (AList.update (en_ID e) e r)"
  using set_AList_update [of "en_ID e" e r]
  by (auto simp: wf_registry_def list_all_iff distinct_update)

lemma wf_registry_of: "wf_registry (registry_of es)"
proof -
  have "wf_registry r \<Longrightarrow> wf_registry (foldl (\<lambda>r e. AList.update (en_ID e) e r) r es)" for r
    by (induction es arbitrary: r) (simp_all add: wf_registry_update)
  then show ?thesis by (simp add: registry_of_def wf_registry_def)
qed

lemma Registry_Get_ID: "wf_registry r \<Longrightarrow> Registry_Get r i = Some e \<Longrightarrow> en_ID e = i"
  by (auto simp: wf_registry_def list_all_iff Registry_Get_def dest: map_of_SomeD)

lemma in_registry_iff:
  "wf_registry r \<Longrightarrow> e \<in> set (map snd r) \<longleftrightarrow> Registry_Get r (en_ID e) = Some e"
  by (force simp: wf_registry_def list_all_iff Registry_Get_def dest: map_of_SomeD)

lemma set_ForFamily:
  "wf_registry r \<Longrightarrow> set (ForFamily r f) = {e. Registry_Get r (en_ID e) = Some e \<and> InFamily e f}"
  using in_registry_iff by (auto simp: ForFamily_def)

lemma registry_ids_inj: "inj_on en_ID {e. Registry_Get r (en_ID e) = Some e}"
proof (rule inj_onI)
  fix a b
  assume "a \<in> {e. Registry_Get r (en_ID e) = Some e}" "b \<in> {e. Registry_Get r (en_ID e) = Some e}"
    and "en_ID a = en_ID b"
  then have "Some a = Some b" by simp
  then show "a = b" by simp
qed

lemma set_candidates_for:
  assumes "wf_registry r"
  shows "set (candidates_for r ov f) =
     {e. Registry_Get r (en_ID e) = Some e
        \<and> (case ov f of None \<Rightarrow> InFamily e f | Some ids \<Rightarrow> en_ID e \<in> set ids)}"
proof (cases "ov f")
  case None
  then show ?thesis using assms by (simp add: candidates_for_def set_ForFamily)
next
  case (Some ids)
  have "set (List.map_filter (Registry_Get r) ids) = {e. \<exists>i \<in> set ids. Registry_Get r i = Some e}"
    by (induction ids) (auto simp: map_filter_simps split: option.splits)
  also have "\<dots> = {e. Registry_Get r (en_ID e) = Some e \<and> en_ID e \<in> set ids}"
    using Registry_Get_ID [OF assms] by blast
  finally show ?thesis using Some by (simp add: candidates_for_def)
qed

section \<open>Every offender is listed\<close>

text \<open>The three reasons of the loop, as one predicate on an id, and what it reports of an offender.\<close>

definition id_known :: "Registry \<Rightarrow> string \<Rightarrow> bool" where
  "id_known r i \<longleftrightarrow> Registry_Get r i \<noteq> None"

definition id_offends :: "Registry \<Rightarrow> SourceKind \<Rightarrow> Family list \<Rightarrow> string \<Rightarrow> bool" where
  "id_offends r kind families i =
     (case Registry_Get r i of None \<Rightarrow> False
      | Some e \<Rightarrow> \<not> Supports e kind \<or> families \<noteq> [] \<and> \<not> list_ex (InFamily e) families)"

lemma validate_loop_lists_all:
  "validate_loop r kind families ids unknown offending = (u, off) \<Longrightarrow>
   u = unknown @ filter (\<lambda>i. \<not> id_known r i) ids
   \<and> map op_Engine off = map op_Engine offending @ filter (id_offends r kind families) ids"
proof (induction ids arbitrary: unknown offending)
  case (Cons i ids)
  show ?case
  proof (cases "Registry_Get r i")
    case None
    then show ?thesis using Cons.IH [of "unknown @ [i]" offending] Cons.prems
      by (simp add: id_known_def id_offends_def)
  next
    case (Some e)
    then obtain offending' where
      run: "validate_loop r kind families ids unknown offending' = (u, off)" and
      off: "map op_Engine offending'
        = map op_Engine offending @ (if id_offends r kind families i then [i] else [])"
      using Cons.prems by (fastforce simp: id_offends_def split: if_splits)
    then show ?thesis using Cons.IH [OF run] Some by (simp add: id_known_def)
  qed
qed simp

lemma WithDetail_Coded [simp]:
  "foldl WithDetail (Coded c m ds ws) xs = Coded c m (ds @ xs) ws"
  by (induction xs arbitrary: ds) auto

lemma combination_error:
  "validate_loop r kind families ids [] [] = (u, off) \<Longrightarrow>
   ValidateCombination r ids kind families =
     (if u = [] \<and> off = [] then Inr ()
      else Inl (Coded ScanEngineCombinationInvalid (buildCombinationMessage u off)
             (map offending_detail off @ map (unknown_detail r) u) []))"
  by (simp add: ValidateCombination_def errs_New_def)

text \<open>
  A combination is accepted exactly when every requested engine is registered, reads the source
  kind and is in a requested family; a refusal carries one detail for every offending engine and
  then one for every unknown id, in the order of the request, so nothing wrong is left unlisted.
\<close>

theorem validate_combination_lists_every_offender:
  "(ValidateCombination r ids kind families = Inr () \<longleftrightarrow>
      list_all (\<lambda>i. id_known r i \<and> \<not> id_offends r kind families i) ids)
   \<and> (case ValidateCombination r ids kind families of
        Inr _ \<Rightarrow> True
      | Inl e \<Rightarrow> err_code e = Some ScanEngineCombinationInvalid
          \<and> map (\<lambda>d. map_of d ''engine'') (err_details e)
            = map Some (filter (id_offends r kind families) ids @ filter (\<lambda>i. \<not> id_known r i) ids))"
proof -
  obtain u off where run: "validate_loop r kind families ids [] [] = (u, off)" by fastforce
  have u: "u = filter (\<lambda>i. \<not> id_known r i) ids"
    and off: "map op_Engine off = filter (id_offends r kind families) ids"
    using validate_loop_lists_all [OF run] by simp_all
  have clean: "u = [] \<and> off = [] \<longleftrightarrow> list_all (\<lambda>i. id_known r i \<and> \<not> id_offends r kind families i) ids"
    using u off by (auto simp: list_all_iff filter_empty_conv simp flip: map_is_Nil_conv [of op_Engine])
  have engines: "map (\<lambda>d. map_of d ''engine'') (map offending_detail off) = map Some (map op_Engine off)"
    "map (\<lambda>d. map_of d ''engine'') (map (unknown_detail r) u) = map Some u"
    by (simp_all add: offending_detail_def unknown_detail_def)
  show ?thesis
    using clean engines by (simp add: combination_error [OF run] off u)
qed

section \<open>What resolution returns\<close>

text \<open>The state of resolution after the candidates \<open>D\<close>.\<close>

definition resolved :: "SourceKind \<Rightarrow> Engine set \<Rightarrow> string list \<times> Resolution \<Rightarrow> bool" where
  "resolved kind D acc \<longleftrightarrow>
     set (rs_Engines (snd acc)) = {e \<in> D. Supports e kind}
     \<and> set (fst acc) = en_ID ` {e \<in> D. Supports e kind}
     \<and> distinct (map en_ID (rs_Engines (snd acc)))
     \<and> op_Engine ` set (rs_SkippedForSource (snd acc)) = en_ID ` {e \<in> D. \<not> Supports e kind}"

lemma resolve_candidates_resolved:
  "inj_on en_ID U \<Longrightarrow> D \<union> set cs \<subseteq> U \<Longrightarrow> resolved kind D acc
   \<Longrightarrow> resolved kind (D \<union> set cs) (resolve_candidates kind cs acc)"
proof (induction cs arbitrary: D acc)
  case (Cons e cs)
  obtain seen res where acc: "acc = (seen, res)" by (cases acc)
  have step: "resolved kind (insert e D) acc' \<Longrightarrow>
      resolved kind (D \<union> set (e # cs)) (resolve_candidates kind cs acc')" for acc'
    using Cons.IH [of "insert e D" acc'] Cons.prems by simp
  show ?case
  proof (cases "en_ID e \<in> set seen")
    case True
    then obtain e' where "e' \<in> D" "Supports e' kind" "en_ID e' = en_ID e"
      using Cons.prems(3) by (auto simp: acc resolved_def)
    then have "e \<in> D" using Cons.prems(1,2) by (auto simp: inj_on_def)
    then have "resolved kind (insert e D) acc" using Cons.prems(3) by (simp add: insert_absorb)
    with step True show ?thesis by (simp add: acc)
  next
    case False
    show ?thesis
    proof (cases "Supports e kind")
      case True
      have "resolved kind (insert e D) (en_ID e # seen, res\<lparr>rs_Engines := rs_Engines res @ [e]\<rparr>)"
        using True False Cons.prems(3) by (auto simp: acc resolved_def)
      from step [OF this] True False show ?thesis by (simp add: acc)
    next
      case unsupported: False
      have "resolved kind (insert e D)
          (seen, res\<lparr>rs_SkippedForSource := rs_SkippedForSource res @ [skipped_pair kind e]\<rparr>)"
        using unsupported Cons.prems(3) by (auto simp: acc resolved_def skipped_pair_def)
      from step [OF this] False unsupported show ?thesis by (simp add: acc)
    qed
  qed
qed simp

lemma resolve_resolved:
  assumes "wf_registry r"
  shows "resolved kind (\<Union>f \<in> set families. set (candidates_for r ov f))
    (foldl (\<lambda>acc f. resolve_candidates kind (candidates_for r ov f) acc)
       ([], \<lparr>rs_Engines = [], rs_SkippedForSource = []\<rparr>) families)"
proof -
  let ?U = "{e. Registry_Get r (en_ID e) = Some e}"
  have sub: "set (candidates_for r ov f) \<subseteq> ?U" for f
    by (auto simp only: set_candidates_for [OF assms])
  have "D \<subseteq> ?U \<Longrightarrow> resolved kind D acc \<Longrightarrow>
      resolved kind (D \<union> (\<Union>f \<in> set families. set (candidates_for r ov f)))
        (foldl (\<lambda>acc f. resolve_candidates kind (candidates_for r ov f) acc) acc families)" for D acc
  proof (induction families arbitrary: D acc)
    case (Cons f families)
    have "resolved kind (D \<union> set (candidates_for r ov f)) (resolve_candidates kind (candidates_for r ov f) acc)"
      using Cons.prems sub by (intro resolve_candidates_resolved [OF registry_ids_inj]) auto
    from Cons.IH [OF _ this] Cons.prems(1) sub show ?case by (simp add: Un_assoc)
  qed simp
  from this [of "{}"] show ?thesis by (simp add: resolved_def)
qed

lemma sorted_distinct_ids:
  assumes "distinct (map en_ID es)"
  shows "sorted (map en_ID (slice_stable (\<lambda>a b. en_ID a < en_ID b) es))
    \<and> distinct (map en_ID (slice_stable (\<lambda>a b. en_ID a < en_ID b) es))"
proof
  show "sorted (map en_ID (slice_stable (\<lambda>a b. en_ID a < en_ID b) es))"
    using key_less.sorted_slice_stable [of en_ID es] by (simp add: sorted_map not_less)
  have "mset (map en_ID (slice_stable (\<lambda>a b. en_ID a < en_ID b) es)) = mset (map en_ID es)"
    by simp
  then show "distinct (map en_ID (slice_stable (\<lambda>a b. en_ID a < en_ID b) es))"
    using assms mset_eq_imp_distinct_iff by blast
qed

text \<open>
  C36. Resolution is sound and complete: the engines returned are exactly the candidates that read
  the source kind (a family's registered engines, or the tenant's override for it where there is
  one), each once and in order of id, and the candidates that cannot read it are exactly the ones
  recorded as skipped, so none vanishes.
\<close>

theorem resolve_sound_and_complete:
  "(let res = Resolve (registry_of es) families kind ov;
        chosen = (\<lambda>e. Registry_Get (registry_of es) (en_ID e) = Some e \<and> (\<exists>f \<in> set families.
          case ov f of None \<Rightarrow> InFamily e f | Some ids \<Rightarrow> en_ID e \<in> set ids))
    in set (rs_Engines res) = {e. chosen e \<and> Supports e kind}
       \<and> sorted (map en_ID (rs_Engines res)) \<and> distinct (map en_ID (rs_Engines res))
       \<and> op_Engine ` set (rs_SkippedForSource res) = en_ID ` {e. chosen e \<and> \<not> Supports e kind})"
proof -
  have D: "(\<Union>f \<in> set families. set (candidates_for (registry_of es) ov f))
      = {e. Registry_Get (registry_of es) (en_ID e) = Some e \<and> (\<exists>f \<in> set families.
          case ov f of None \<Rightarrow> InFamily e f | Some ids \<Rightarrow> en_ID e \<in> set ids)}"
    by (auto simp only: set_candidates_for [OF wf_registry_of])
  show ?thesis
    using resolve_resolved [OF wf_registry_of, of kind es ov families]
    unfolding D by (simp add: Resolve_def Let_def resolved_def sorted_distinct_ids conj_assoc)
qed

section \<open>The built-in registry\<close>

lemmas builtin_engine_defs = engine_syft_def engine_grype_def engine_trivy_fs_def
  engine_trivy_image_def engine_osv_scanner_def engine_dependency_check_def
  engine_github_dependency_graph_sbom_def engine_webrecon_fingerprint_def engine_cbomkit_theia_def
  engine_cbomkit_def engine_aibom_generator_def engine_ai_bom_def engine_hbom_csv_def
  engine_qbom_derive_def engine_mock_engine_def zero_engine_def

lemma wf_DefaultRegistry: "wf_registry DefaultRegistry"
  unfolding DefaultRegistry_def by (rule wf_registry_of)

lemma DefaultRegistry_list: "DefaultRegistry = map (\<lambda>e. (en_ID e, e)) builtin_engines"
  by (simp add: DefaultRegistry_def registry_of_def builtin_engines_def builtin_engine_defs)

lemma DefaultRegistry_in: "Registry_Get DefaultRegistry (en_ID e) = Some e \<longleftrightarrow> e \<in> set builtin_engines"
  using in_registry_iff [OF wf_DefaultRegistry, of e] by (auto simp: DefaultRegistry_list)

text \<open>
  Without overrides, resolving over the built-in registry never leaves an engine waiting for
  one that is not part of the scan: whenever an engine that reads another's output is resolved, its
  producer is resolved with it.
\<close>

theorem default_resolution_closed_under_producers:
  "list_all (\<lambda>e. en_ConsumesOutputOf e = []
       \<or> en_ConsumesOutputOf e \<in> en_ID ` set (rs_Engines (Resolve DefaultRegistry families kind Map.empty)))
     (rs_Engines (Resolve DefaultRegistry families kind Map.empty))"
proof -
  have chosen: "set (rs_Engines (Resolve DefaultRegistry families kind Map.empty))
      = {e \<in> set builtin_engines. (\<exists>f \<in> set families. InFamily e f) \<and> Supports e kind}"
    using resolve_resolved [OF wf_DefaultRegistry, of kind Map.empty families]
    by (auto simp: Resolve_def Let_def resolved_def set_candidates_for [OF wf_DefaultRegistry] DefaultRegistry_in)
  have waits: "list_all (\<lambda>e. en_ConsumesOutputOf e = []
      \<or> list_ex (\<lambda>p. en_ID p = en_ConsumesOutputOf e
          \<and> en_Families p = en_Families e \<and> en_SourceKinds p = en_SourceKinds e) builtin_engines) builtin_engines"
    by (simp add: builtin_engines_def builtin_engine_defs)
  show ?thesis
    using waits unfolding chosen list_all_iff list_ex_iff
    by (auto simp: chosen InFamily_def Supports_def image_iff) metis
qed

end
