(* ===== verification/Engine_Policy.thy ===== *)
theory Engine_Policy
  imports Registry Tenant_Db
begin

text \<open>
  \<^verbatim>\<open>services/scan-orchestrator/internal/policy/store.go\<close>: the table \<^verbatim>\<open>scan.engine_policy\<close>, a tenant's
  override of which engines run for a family. Only tenant rows exist here: no path of the code
  writes or reads the global row. A weights map is an association list.
\<close>

record EnginePolicy =
  ep_ID :: string
  ep_TenantID :: string
  ep_Family :: Family
  ep_EngineIDs :: "string list"
  ep_Weights :: "(string \<times> int) list"
  ep_Enabled :: bool
  ep_Note :: string

record policy_db = env +
  pl_policies :: "EnginePolicy list"

definition policy_families :: "Family list" where
  "policy_families = [''fetch'', ''sbom'', ''cbom'', ''qbom'', ''aibom'', ''hbom'']"

section \<open>The statements\<close>

definition policy_key :: "EnginePolicy \<Rightarrow> string \<times> Family" where
  "policy_key p = (ep_TenantID p, ep_Family p)"

definition select_policy :: "EnginePolicy list \<Rightarrow> string \<times> Family \<Rightarrow> EnginePolicy option" where
  "select_policy ps k = find (\<lambda>p. policy_key p = k) ps"

definition policies_of :: "string \<Rightarrow> EnginePolicy list \<Rightarrow> EnginePolicy list" where
  "policies_of tenantID ps =
     slice_stable (\<lambda>a b. ep_Family a < ep_Family b) (filter (\<lambda>p. ep_TenantID p = tenantID) ps)"

text \<open>\<^verbatim>\<open>ON CONFLICT (tenant_id, family) DO UPDATE\<close> keeps the id of the row.\<close>

definition upsert_policy :: "EnginePolicy \<Rightarrow> EnginePolicy list \<Rightarrow> EnginePolicy list" where
  "upsert_policy p ps =
     (if select_policy ps (policy_key p) = None then ps @ [p]
      else map (\<lambda>q. if policy_key q = policy_key p then p\<lparr>ep_ID := ep_ID q\<rparr> else q) ps)"

definition delete_policy :: "string \<times> Family \<Rightarrow> EnginePolicy list \<Rightarrow> EnginePolicy list" where
  "delete_policy k ps = filter (\<lambda>p. policy_key p \<noteq> k) ps"

section \<open>The store\<close>

definition Policy_Get ::
  "string \<Rightarrow> Family \<Rightarrow> ('a policy_db_scheme, go_err + EnginePolicy option) state" where
  "Policy_Get tenantID family = ReadTenant tenantID (\<lambda>w. Inr (select_policy (pl_policies w) (tenantID, family)))"

definition ListForTenant :: "string \<Rightarrow> ('a policy_db_scheme, go_err + EnginePolicy list) state" where
  "ListForTenant tenantID = ReadTenant tenantID (\<lambda>w. Inr (policies_of tenantID (pl_policies w)))"

definition Policy_Upsert ::
  "string \<Rightarrow> Family \<Rightarrow> string list \<Rightarrow> (string \<times> int) list \<Rightarrow> bool \<Rightarrow> string
   \<Rightarrow> ('a policy_db_scheme, go_err + EnginePolicy) state" where
  "Policy_Upsert tenantID family engineIDs weights enabled note = WithTenant tenantID (\<lambda>w.
     let p = \<lparr>ep_ID = fresh_id w, ep_TenantID = tenantID, ep_Family = family, ep_EngineIDs = engineIDs,
               ep_Weights = weights, ep_Enabled = enabled, ep_Note = note\<rparr>;
         w' = (drop_id w)\<lparr>pl_policies := upsert_policy p (pl_policies w)\<rparr>
     in if family \<notin> set policy_families then Inl err_database
        else case select_policy (pl_policies w') (tenantID, family) of
          None \<Rightarrow> Inl err_database
        | Some q \<Rightarrow> Inr (q, w'))"

definition Policy_Delete :: "string \<Rightarrow> Family \<Rightarrow> ('a policy_db_scheme, go_err + unit) state" where
  "Policy_Delete tenantID family = WithTenant tenantID (\<lambda>w.
     Inr ((), w\<lparr>pl_policies := delete_policy (tenantID, family) (pl_policies w)\<rparr>))"

definition override_of :: "EnginePolicy \<Rightarrow> string list" where
  "override_of p = (if \<not> ep_Enabled p then [] else ep_EngineIDs p)"

definition overrides_map :: "EnginePolicy list \<Rightarrow> Family \<Rightarrow> string list option" where
  "overrides_map ps = foldl (\<lambda>out p. out(ep_Family p \<mapsto> override_of p)) Map.empty ps"

definition OverridesForTenant ::
  "string \<Rightarrow> ('a policy_db_scheme, go_err + (Family \<Rightarrow> string list option)) state" where
  "OverridesForTenant tenantID =
     do { r \<leftarrow> ListForTenant tenantID;
          case r of Inl e \<Rightarrow> ret (Inl e) | Inr rows \<Rightarrow> ret (Inr (overrides_map rows)) }"

section \<open>A keyed table is a map\<close>





lemma policy_key_ID [simp]: "policy_key (p\<lparr>ep_ID := i\<rparr>) = policy_key p"
  by (simp add: policy_key_def)

lemma override_of_ID [simp]: "override_of (p\<lparr>ep_ID := i\<rparr>) = override_of p"
  by (simp add: override_of_def)



section \<open>What resolution is given\<close>





end
