(* ===== verification/Scan_Store.thy ===== *)
theory Scan_Store
  imports Engine_Policy
begin

text \<open>
  \<^verbatim>\<open>services/scan-orchestrator/internal/orchestr/store.go\<close>: the tables of schema \<^verbatim>\<open>scan\<close> and every
  query on them. A table is the list of its rows in order of insertion; row level security is the
  tenant filter of each query; \<^verbatim>\<open>ORDER BY\<close> is a stable sort. A text column written through
  \<^verbatim>\<open>nullIfEmpty\<close> and read through \<^verbatim>\<open>COALESCE\<close> holds \<open>[]\<close> for NULL. \<^verbatim>\<open>source_commit_sha\<close> is the
  exception: the code tests it for NULL, so the row says whether it is set (\<open>row_Pinned\<close>). The
  constraints of \<^verbatim>\<open>migrations/scan\<close> are the errors of the inserts. \<open>proc_seq\<close> is no table but the
  orchestrator's event counter, the only state its process keeps.
\<close>

section \<open>Rows\<close>

record Scan =
  sc_ID :: string
  sc_TenantID :: string
  sc_ProjectID :: string
  sc_Status :: ScanStatus
  sc_SourceKind :: SourceKind
  sc_CommitSHA :: string
  sc_ArchiveRef :: string
  sc_ArchiveSHA256 :: string
  sc_TriggeredBy :: string
  sc_TriggerRef :: string
  sc_Families :: "string list"
  sc_EnginesRequested :: "string list"
  sc_CreatedAt :: instant
  sc_StartedAt :: "instant option"
  sc_FinishedAt :: "instant option"

record EngineRun =
  er_ID :: string
  er_ScanID :: string
  er_TenantID :: string
  er_JobID :: string
  er_EngineID :: string
  er_Family :: string
  er_Attempt :: int
  er_Status :: EngineStatus
  er_Weight :: int
  er_EcosystemsCovered :: "string list"
  er_EngineVersion :: string
  er_EngineDBVersion :: string
  er_StartedAt :: "instant option"
  er_FinishedAt :: "instant option"
  er_DeadlineAt :: "instant option"
  er_ErrorCode :: string
  er_ErrorMessage :: string
  er_Diagnostics :: "Diagnostic list"
  er_ArgvRedacted :: "string list"
  er_ExitCode :: "int option"
  er_DurationMS :: "int option"
  er_Summary :: Summary

record scan_row =
  row_Scan :: Scan
  row_Pinned :: bool

record artifact_row =
  ar_TenantID :: string
  ar_ScanID :: string
  ar_EngineRunID :: string
  ar_Producer :: string
  ar_Artifact :: Artifact
  ar_CreatedAt :: instant

record ecosystem_row =
  ec_ScanID :: string
  ec_TenantID :: string
  ec_Ecosystem :: string
  ec_DetectedBy :: string
  ec_Available :: bool

record trigger_row =
  tr_ScanID :: string
  tr_TenantID :: string
  tr_Family :: Family
  tr_TriggerID :: string

record scan_db = policy_db +
  db_scans :: "scan_row list"
  db_runs :: "EngineRun list"
  db_artifacts :: "artifact_row list"
  db_ecosystems :: "ecosystem_row list"
  db_triggers :: "trigger_row list"
  proc_seq :: int

definition zero_summary :: Summary where
  "zero_summary = \<lparr>su_Components = None, su_Vulnerabilities = None, su_Licenses = None,
     su_CryptoAssets = None\<rparr>"

definition zero_run :: EngineRun where
  "zero_run = \<lparr>er_ID = [], er_ScanID = [], er_TenantID = [], er_JobID = [], er_EngineID = [],
     er_Family = [], er_Attempt = 0, er_Status = [], er_Weight = 0, er_EcosystemsCovered = [],
     er_EngineVersion = [], er_EngineDBVersion = [], er_StartedAt = None, er_FinishedAt = None,
     er_DeadlineAt = None, er_ErrorCode = [], er_ErrorMessage = [], er_Diagnostics = [],
     er_ArgvRedacted = [], er_ExitCode = None, er_DurationMS = None, er_Summary = zero_summary\<rparr>"

definition zero_scan :: Scan where
  "zero_scan = \<lparr>sc_ID = [], sc_TenantID = [], sc_ProjectID = [], sc_Status = [], sc_SourceKind = [],
     sc_CommitSHA = [], sc_ArchiveRef = [], sc_ArchiveSHA256 = [], sc_TriggeredBy = [],
     sc_TriggerRef = [], sc_Families = [], sc_EnginesRequested = [], sc_CreatedAt = zero_time,
     sc_StartedAt = None, sc_FinishedAt = None\<rparr>"

lemma env_step_tables [simp]:
  "pl_policies (after_io w) = pl_policies (w :: scan_db)" "pl_policies (drop_id w) = pl_policies w"
  "db_scans (after_io w) = db_scans w" "db_scans (drop_id w) = db_scans w"
  "db_runs (after_io w) = db_runs w" "db_runs (drop_id w) = db_runs w"
  "db_artifacts (after_io w) = db_artifacts w" "db_artifacts (drop_id w) = db_artifacts w"
  "db_ecosystems (after_io w) = db_ecosystems w" "db_ecosystems (drop_id w) = db_ecosystems w"
  "db_triggers (after_io w) = db_triggers w" "db_triggers (drop_id w) = db_triggers w"
  by (simp_all add: after_io_def drop_id_def)

section \<open>Creating a scan\<close>

definition engine_run_statuses :: "EngineStatus list" where
  "engine_run_statuses = [statusQueued, statusRunning, StatusSucceeded, StatusPartial, StatusFailed,
     StatusTimeout, StatusUnavailable, StatusSkipped]"

text \<open>The CHECK constraints of \<^verbatim>\<open>scan.engine_runs\<close> on a proposed row, and its unique keys.\<close>

definition run_row_ok :: "EngineRun \<Rightarrow> bool" where
  "run_row_ok r \<longleftrightarrow> 1 \<le> er_Attempt r \<and> 0 \<le> er_Weight r \<and> er_Status r \<in> set engine_run_statuses"

definition run_key :: "EngineRun \<Rightarrow> string \<times> string \<times> int" where
  "run_key r = (er_ScanID r, er_EngineID r, er_Attempt r)"

definition insert_run :: "EngineRun \<Rightarrow> scan_db \<Rightarrow> go_err + scan_db" where
  "insert_run r w =
     (let i = fresh_id w in
      if \<not> run_row_ok r \<or> er_ScanID r \<notin> (sc_ID \<circ> row_Scan) ` set (db_scans w)
         \<or> er_JobID r \<in> er_JobID ` set (db_runs w) \<or> run_key r \<in> run_key ` set (db_runs w)
         \<or> i \<in> er_ID ` set (db_runs w)
      then Inl err_database
      else Inr ((drop_id w)\<lparr>db_runs := db_runs w @ [r\<lparr>er_ID := i, er_Family := []\<rparr>]\<rparr>))"

fun insert_runs :: "EngineRun list \<Rightarrow> scan_db \<Rightarrow> go_err + scan_db" where
  "insert_runs [] w = Inr w"
| "insert_runs (r # rs) w =
     (case insert_run r w of
        Inl e \<Rightarrow> Inl (Plain (''insert engine run '' @ er_EngineID r) [e])
      | Inr w' \<Rightarrow> insert_runs rs w')"

definition new_run_row :: "string \<Rightarrow> string \<Rightarrow> EngineRun \<Rightarrow> EngineRun" where
  "new_run_row scanID tenantID r = zero_run\<lparr>er_ScanID := scanID, er_TenantID := tenantID,
     er_JobID := er_JobID r, er_EngineID := er_EngineID r, er_Attempt := er_Attempt r,
     er_Status := statusQueued, er_Weight := er_Weight r, er_DeadlineAt := er_DeadlineAt r\<rparr>"

definition insert_scan :: "Scan \<Rightarrow> scan_db \<Rightarrow> go_err + string \<times> scan_db" where
  "insert_scan sc w =
     (let i = fresh_id w in
      if i \<in> (sc_ID \<circ> row_Scan) ` set (db_scans w)
         \<or> sc_TriggeredBy sc \<notin> set [''user'', ''campaign'', ''api'', ''webhook'']
         \<or> sc_SourceKind sc \<notin> set [SourceGit, SourceUpload, SourceImage, SourceURL]
      then Inl (Plain ''insert scan'' [err_database])
      else Inr (i, (drop_id w)\<lparr>db_scans := db_scans w @
         [\<lparr>row_Scan = zero_scan\<lparr>sc_ID := i, sc_TenantID := sc_TenantID sc,
             sc_ProjectID := sc_ProjectID sc, sc_Status := ScanQueued,
             sc_SourceKind := sc_SourceKind sc, sc_TriggeredBy := sc_TriggeredBy sc,
             sc_TriggerRef := sc_TriggerRef sc, sc_Families := sc_Families sc,
             sc_EnginesRequested := sc_EnginesRequested sc, sc_CreatedAt := en_clock w\<rparr>,
           row_Pinned = False\<rparr>]\<rparr>))"

definition Store_CreateScan :: "Scan \<Rightarrow> EngineRun list \<Rightarrow> (scan_db, go_err + Scan) state" where
  "Store_CreateScan sc runs =
     do { r \<leftarrow> WithTenant (sc_TenantID sc) (\<lambda>w.
            case insert_scan sc w of
              Inl e \<Rightarrow> Inl e
            | Inr (i, w1) \<Rightarrow>
                (case insert_runs (map (new_run_row i (sc_TenantID sc)) runs) w1 of
                   Inl e \<Rightarrow> Inl e
                 | Inr w2 \<Rightarrow> Inr ((i, en_clock w), w2)));
          case r of
            Inl e \<Rightarrow> State_Monad.return (Inl e)
          | Inr (i, created) \<Rightarrow> State_Monad.return (Inr (zero_scan\<lparr>sc_ID := i,
              sc_CreatedAt := created, sc_TenantID := sc_TenantID sc, sc_ProjectID := sc_ProjectID sc,
              sc_Status := ScanQueued, sc_SourceKind := sc_SourceKind sc,
              sc_Families := sc_Families sc, sc_TriggeredBy := sc_TriggeredBy sc,
              sc_TriggerRef := sc_TriggerRef sc, sc_EnginesRequested := sc_EnginesRequested sc\<rparr>)) }"

section \<open>Reading\<close>

text \<open>What \<^verbatim>\<open>scanEngineRunRow\<close> leaves out: the family and the provenance columns it does not select.\<close>

definition scanEngineRunRow :: "EngineRun \<Rightarrow> EngineRun" where
  "scanEngineRunRow r = r\<lparr>er_Family := [], er_ArgvRedacted := [], er_ExitCode := None,
     er_DurationMS := None\<rparr>"

definition run_order :: "EngineRun \<Rightarrow> EngineRun \<Rightarrow> bool" where
  "run_order a b \<longleftrightarrow> (if er_EngineID a \<noteq> er_EngineID b then er_EngineID a < er_EngineID b
     else er_Attempt a < er_Attempt b)"

definition visible_runs :: "string \<Rightarrow> string \<Rightarrow> scan_db \<Rightarrow> EngineRun list" where
  "visible_runs tenantID scanID w =
     filter (\<lambda>r. er_TenantID r = tenantID \<and> er_ScanID r = scanID) (db_runs w)"

definition loadRuns :: "string \<Rightarrow> string \<Rightarrow> scan_db \<Rightarrow> EngineRun list" where
  "loadRuns tenantID scanID w =
     map scanEngineRunRow (slice_stable run_order (visible_runs tenantID scanID w))"

definition find_scan :: "string \<Rightarrow> string \<Rightarrow> scan_db \<Rightarrow> scan_row option" where
  "find_scan tenantID scanID w =
     find (\<lambda>s. sc_TenantID (row_Scan s) = tenantID \<and> sc_ID (row_Scan s) = scanID) (db_scans w)"

definition GetScan :: "string \<Rightarrow> string \<Rightarrow> (scan_db, go_err + Scan \<times> EngineRun list) state" where
  "GetScan tenantID scanID = ReadTenant tenantID (\<lambda>w.
     case find_scan tenantID scanID w of
       None \<Rightarrow> Inl ErrNotFound
     | Some s \<Rightarrow> Inr (row_Scan s, loadRuns tenantID scanID w))"

definition page_limit :: "int \<Rightarrow> nat" where
  "page_limit limit = (if limit \<le> 0 \<or> limit > 200 then 50 else nat limit)"

definition list_scans_rows :: "string \<Rightarrow> int \<Rightarrow> string \<Rightarrow> string \<Rightarrow> string \<Rightarrow> scan_db \<Rightarrow> Scan list" where
  "list_scans_rows tenantID limit cursor projectID status w =
     take (page_limit limit)
       (slice_stable (\<lambda>a b. sc_ID b < sc_ID a)
         (filter (\<lambda>s. sc_TenantID s = tenantID
             \<and> (projectID = [] \<or> sc_ProjectID s = projectID) \<and> (status = [] \<or> sc_Status s = status)
             \<and> (cursor = [] \<or> sc_ID s < cursor)) (map row_Scan (db_scans w))))"

definition ListScans ::
  "string \<Rightarrow> int \<Rightarrow> string \<Rightarrow> string \<Rightarrow> string
   \<Rightarrow> (scan_db, go_err + Scan list \<times> (string \<times> EngineRun list) list) state" where
  "ListScans tenantID limit cursor projectID status = ReadTenant tenantID (\<lambda>w.
     let out = list_scans_rows tenantID limit cursor projectID status w
     in Inr (out, filter (\<lambda>(i, rs). rs \<noteq> [])
          (map (\<lambda>s. (sc_ID s, loadRuns tenantID (sc_ID s) w)) out)))"

section \<open>The source of a scan\<close>

definition pin_row :: "string \<Rightarrow> string \<Rightarrow> string \<Rightarrow> string \<Rightarrow> string \<Rightarrow> instant \<Rightarrow> scan_row \<Rightarrow> scan_row" where
  "pin_row tenantID scanID commitSHA archiveRef archiveSHA now s =
     (if sc_TenantID (row_Scan s) = tenantID \<and> sc_ID (row_Scan s) = scanID \<and> \<not> row_Pinned s
      then \<lparr>row_Scan = (row_Scan s)\<lparr>sc_CommitSHA := commitSHA, sc_ArchiveRef := archiveRef,
              sc_ArchiveSHA256 := archiveSHA, sc_Status := ScanRunning,
              sc_StartedAt := coalesce (sc_StartedAt (row_Scan s)) (Some now)\<rparr>,
            row_Pinned = True\<rparr>
      else s)"

definition SetSourceOnce ::
  "string \<Rightarrow> string \<Rightarrow> string \<Rightarrow> string \<Rightarrow> string \<Rightarrow> (scan_db, go_err + bool) state" where
  "SetSourceOnce tenantID scanID commitSHA archiveRef archiveSHA = WithTenant tenantID (\<lambda>w.
     Inr (list_ex (\<lambda>s. sc_TenantID (row_Scan s) = tenantID \<and> sc_ID (row_Scan s) = scanID
            \<and> \<not> row_Pinned s) (db_scans w),
          w\<lparr>db_scans := map (pin_row tenantID scanID commitSHA archiveRef archiveSHA (en_clock w))
             (db_scans w)\<rparr>))"

definition set_status_row :: "(Scan \<Rightarrow> bool) \<Rightarrow> ScanStatus \<Rightarrow> bool \<Rightarrow> instant \<Rightarrow> scan_row \<Rightarrow> scan_row" where
  "set_status_row P status terminal now s =
     (if P (row_Scan s)
      then s\<lparr>row_Scan := (row_Scan s)\<lparr>sc_Status := status, sc_FinishedAt :=
             (if terminal then coalesce (sc_FinishedAt (row_Scan s)) (Some now)
              else sc_FinishedAt (row_Scan s))\<rparr>\<rparr>
      else s)"

definition UpdateScanStatus :: "string \<Rightarrow> string \<Rightarrow> ScanStatus \<Rightarrow> (scan_db, go_err + unit) state" where
  "UpdateScanStatus tenantID scanID status = WithTenant tenantID (\<lambda>w.
     let terminal = (status = ScanCompleted \<or> status = ScanCompletedWithErrors \<or> status = ScanFailed
           \<or> status = ScanCancelled)
     in Inr ((), w\<lparr>db_scans := map (set_status_row
          (\<lambda>s. sc_TenantID s = tenantID \<and> sc_ID s = scanID) status terminal (en_clock w)) (db_scans w)\<rparr>))"

section \<open>Engine runs\<close>

definition upsert_update :: "EngineRun \<Rightarrow> EngineRun \<Rightarrow> EngineRun" where
  "upsert_update r old = old\<lparr>er_Status := er_Status r,
     er_EcosystemsCovered := er_EcosystemsCovered r, er_EngineVersion := er_EngineVersion r,
     er_EngineDBVersion := er_EngineDBVersion r,
     er_StartedAt := coalesce (er_StartedAt old) (er_StartedAt r), er_FinishedAt := er_FinishedAt r,
     er_ErrorCode := er_ErrorCode r, er_ErrorMessage := er_ErrorMessage r,
     er_Diagnostics := er_Diagnostics r, er_ArgvRedacted := er_ArgvRedacted r,
     er_ExitCode := er_ExitCode r, er_DurationMS := er_DurationMS r, er_Summary := er_Summary r\<rparr>"

text \<open>
  The insert has no deadline column. A conflicting \<^verbatim>\<open>job_id\<close> of another tenant is invisible to the
  update, which is an error of row level security.
\<close>

definition upsert_run :: "EngineRun \<Rightarrow> scan_db \<Rightarrow> go_err + string \<times> scan_db" where
  "upsert_run r w =
     (if \<not> run_row_ok r then Inl err_database
      else case find (\<lambda>x. er_JobID x = er_JobID r) (db_runs w) of
        Some old \<Rightarrow>
          if er_TenantID old \<noteq> er_TenantID r then Inl err_database
          else Inr (er_ID old, w\<lparr>db_runs := map (\<lambda>x. if er_JobID x = er_JobID r
                 then upsert_update r x else x) (db_runs w)\<rparr>)
      | None \<Rightarrow>
          (case insert_run (r\<lparr>er_DeadlineAt := None\<rparr>) w of
             Inl e \<Rightarrow> Inl e
           | Inr w' \<Rightarrow> Inr (fresh_id w, w')))"

definition UpsertEngineRun :: "EngineRun \<Rightarrow> (scan_db, go_err + string) state" where
  "UpsertEngineRun r = WithTenant (er_TenantID r) (\<lambda>w.
     case upsert_run r w of
       Inl e \<Rightarrow> Inl (Plain ''upsert engine run'' [e])
     | Inr x \<Rightarrow> Inr x)"

definition MarkRunRunning :: "string \<Rightarrow> string \<Rightarrow> (scan_db, go_err + unit) state" where
  "MarkRunRunning tenantID jobID = WithTenant tenantID (\<lambda>w.
     Inr ((), w\<lparr>db_runs := map (\<lambda>r. if er_TenantID r = tenantID \<and> er_JobID r = jobID
          \<and> er_Status r = statusQueued
        then r\<lparr>er_Status := statusRunning, er_StartedAt := coalesce (er_StartedAt r) (Some (en_clock w))\<rparr>
        else r) (db_runs w)\<rparr>))"

text \<open>\<^verbatim>\<open>SELECT DISTINCT ON (engine_id)\<close>: the first row of each engine in the order of the query.\<close>

fun distinct_on :: "('a \<Rightarrow> 'b) \<Rightarrow> 'a list \<Rightarrow> 'a list" where
  "distinct_on f [] = []"
| "distinct_on f (x # xs) = x # distinct_on f (filter (\<lambda>y. f y \<noteq> f x) xs)"

definition attempt_order :: "EngineRun \<Rightarrow> EngineRun \<Rightarrow> bool" where
  "attempt_order a b \<longleftrightarrow>
     (if er_EngineID a \<noteq> er_EngineID b then er_EngineID a < er_EngineID b
      else if (er_Status a = StatusFailed) \<noteq> (er_Status b = StatusFailed)
        then er_Status a \<noteq> StatusFailed
      else er_Attempt b < er_Attempt a)"

definition best_runs :: "EngineRun list \<Rightarrow> EngineRun list" where
  "best_runs rs = distinct_on er_EngineID (slice_stable attempt_order rs)"

definition TerminalStatuses :: "string \<Rightarrow> string \<Rightarrow> (scan_db, go_err + EngineStatus list) state" where
  "TerminalStatuses tenantID scanID = ReadTenant tenantID (\<lambda>w.
     Inr (map er_Status (best_runs (visible_runs tenantID scanID w))))"

definition pending :: "EngineRun \<Rightarrow> bool" where
  "pending r \<longleftrightarrow> er_Status r = statusQueued \<or> er_Status r = statusRunning"

definition AllRunsTerminal :: "string \<Rightarrow> string \<Rightarrow> (scan_db, go_err + bool) state" where
  "AllRunsTerminal tenantID scanID = ReadTenant tenantID (\<lambda>w.
     Inr (length (filter pending (visible_runs tenantID scanID w)) = 0))"

text \<open>
  The most recent run of each engine over all the scans of a project. The join finds the scan of a
  run; \<^verbatim>\<open>created_at\<close> and the attempt order the runs of one engine.
\<close>

definition project_run_order :: "instant \<times> EngineRun \<Rightarrow> instant \<times> EngineRun \<Rightarrow> bool" where
  "project_run_order a b \<longleftrightarrow>
     (if er_EngineID (snd a) \<noteq> er_EngineID (snd b) then er_EngineID (snd a) < er_EngineID (snd b)
      else if fst a \<noteq> fst b then fst b < fst a
      else er_Attempt (snd b) < er_Attempt (snd a))"

definition project_runs :: "string \<Rightarrow> string \<Rightarrow> scan_db \<Rightarrow> (instant \<times> EngineRun) list" where
  "project_runs tenantID projectID w =
     concat (map (\<lambda>r. map (\<lambda>s. (sc_CreatedAt (row_Scan s), r))
         (filter (\<lambda>s. sc_ID (row_Scan s) = er_ScanID r \<and> sc_TenantID (row_Scan s) = tenantID
            \<and> sc_ProjectID (row_Scan s) = projectID) (db_scans w)))
       (filter (\<lambda>r. er_TenantID r = tenantID) (db_runs w)))"

definition LatestEngineRunsForProject ::
  "string \<Rightarrow> string \<Rightarrow> (scan_db, go_err + (string \<times> EngineRun) list) state" where
  "LatestEngineRunsForProject tenantID projectID = ReadTenant tenantID (\<lambda>w.
     Inr (map (\<lambda>(_, r). (er_EngineID r, scanEngineRunRow r))
       (distinct_on (er_EngineID \<circ> snd) (slice_stable project_run_order (project_runs tenantID projectID w)))))"

section \<open>Ecosystems detected\<close>

definition eco_key :: "ecosystem_row \<Rightarrow> string \<times> string \<times> string" where
  "eco_key e = (ec_ScanID e, ec_Ecosystem e, ec_DetectedBy e)"

definition scan_exists :: "string \<Rightarrow> scan_db \<Rightarrow> bool" where
  "scan_exists scanID w \<longleftrightarrow> scanID \<in> (sc_ID \<circ> row_Scan) ` set (db_scans w)"

definition record_ecosystem :: "ecosystem_row \<Rightarrow> scan_db \<Rightarrow> go_err + unit \<times> scan_db" where
  "record_ecosystem e w =
     (case find (\<lambda>x. eco_key x = eco_key e) (db_ecosystems w) of
        Some old \<Rightarrow>
          if ec_TenantID old \<noteq> ec_TenantID e then Inl err_database
          else Inr ((), w\<lparr>db_ecosystems := map (\<lambda>x. if eco_key x = eco_key e
                 then x\<lparr>ec_Available := ec_Available e\<rparr> else x) (db_ecosystems w)\<rparr>)
      | None \<Rightarrow>
          if \<not> scan_exists (ec_ScanID e) w then Inl err_database
          else Inr ((), w\<lparr>db_ecosystems := db_ecosystems w @ [e]\<rparr>))"

definition RecordEcosystem ::
  "string \<Rightarrow> string \<Rightarrow> string \<Rightarrow> string \<Rightarrow> bool \<Rightarrow> (scan_db, go_err + unit) state" where
  "RecordEcosystem tenantID scanID ecosystem detectedBy engineAvailable = WithTenant tenantID
     (record_ecosystem \<lparr>ec_ScanID = scanID, ec_TenantID = tenantID, ec_Ecosystem = ecosystem,
        ec_DetectedBy = detectedBy, ec_Available = engineAvailable\<rparr>)"

definition coverage_gaps :: "string \<Rightarrow> string \<Rightarrow> scan_db \<Rightarrow> string list" where
  "coverage_gaps tenantID scanID w =
     (let rows = filter (\<lambda>e. ec_TenantID e = tenantID \<and> ec_ScanID e = scanID) (db_ecosystems w)
      in sort (remdups (map ec_Ecosystem (filter (\<lambda>e1. \<not> ec_Available e1
           \<and> \<not> list_ex (\<lambda>e2. ec_Ecosystem e2 = ec_Ecosystem e1 \<and> ec_Available e2) rows) rows))))"

definition CoverageGaps :: "string \<Rightarrow> string \<Rightarrow> (scan_db, go_err + string list) state" where
  "CoverageGaps tenantID scanID = ReadTenant tenantID (\<lambda>w. Inr (coverage_gaps tenantID scanID w))"

section \<open>Raw artifacts\<close>

definition artifact_roles :: "string list" where
  "artifact_roles = [''native_output'', ''log'', ''stderr'', ''sarif'', ''source_archive'']"

text \<open>
  An artifact belongs to an engine run or to a producer, and to exactly one of them; \<open>[]\<close> is NULL in
  both columns. (\<^verbatim>\<open>RecordProducerArtifacts\<close> writes its producer as it is, but both
  callers name one.)
\<close>

definition insert_artifact :: "artifact_row \<Rightarrow> scan_db \<Rightarrow> go_err + scan_db" where
  "insert_artifact a w =
     (if af_Role (ar_Artifact a) \<notin> set artifact_roles \<or> af_SizeBytes (ar_Artifact a) < 0
         \<or> (ar_EngineRunID a = []) = (ar_Producer a = []) \<or> \<not> scan_exists (ar_ScanID a) w
         \<or> ar_EngineRunID a \<noteq> [] \<and> ar_EngineRunID a \<notin> er_ID ` set (db_runs w)
      then Inl err_database
      else Inr (w\<lparr>db_artifacts := db_artifacts w @ [a]\<rparr>))"

fun insert_artifacts :: "artifact_row list \<Rightarrow> scan_db \<Rightarrow> go_err + unit \<times> scan_db" where
  "insert_artifacts [] w = Inr ((), w)"
| "insert_artifacts (a # as) w =
     (case insert_artifact a w of
        Inl e \<Rightarrow> Inl (Plain (''record raw artifact (role='' @ af_Role (ar_Artifact a) @ '')'') [e])
      | Inr w' \<Rightarrow> insert_artifacts as w')"

definition RecordRawArtifacts ::
  "string \<Rightarrow> string \<Rightarrow> string \<Rightarrow> Artifact list \<Rightarrow> (scan_db, go_err + unit) state" where
  "RecordRawArtifacts tenantID scanID engineRunID artifacts =
     (if length artifacts = 0 then State_Monad.return (Inr ())
      else WithTenant tenantID (\<lambda>w. insert_artifacts
        (map (\<lambda>a. \<lparr>ar_TenantID = tenantID, ar_ScanID = scanID, ar_EngineRunID = engineRunID,
           ar_Producer = [], ar_Artifact = a, ar_CreatedAt = en_clock w\<rparr>) artifacts) w))"

definition RecordProducerArtifacts ::
  "string \<Rightarrow> string \<Rightarrow> string \<Rightarrow> Artifact list \<Rightarrow> (scan_db, go_err + unit) state" where
  "RecordProducerArtifacts tenantID scanID producer artifacts =
     (if length artifacts = 0 then State_Monad.return (Inr ())
      else WithTenant tenantID (\<lambda>w. insert_artifacts
        (map (\<lambda>a. \<lparr>ar_TenantID = tenantID, ar_ScanID = scanID, ar_EngineRunID = [],
           ar_Producer = producer, ar_Artifact = a, ar_CreatedAt = en_clock w\<rparr>) artifacts) w))"

text \<open>
  The two halves of the UNION: through the run's engine, and by the producer's name. The result is
  the map from an id to its artifacts in order of creation.
\<close>

definition resolved_id :: "string \<Rightarrow> artifact_row \<Rightarrow> scan_db \<Rightarrow> string option" where
  "resolved_id tenantID a w =
     (if ar_EngineRunID a \<noteq> [] then
        map_option er_EngineID
          (find (\<lambda>r. er_TenantID r = tenantID \<and> er_ID r = ar_EngineRunID a) (db_runs w))
      else Some (ar_Producer a))"

definition artifacts_of :: "string \<Rightarrow> string \<Rightarrow> scan_db \<Rightarrow> string \<Rightarrow> Artifact list" where
  "artifacts_of tenantID scanID w i =
     map ar_Artifact (slice_stable (\<lambda>a b. ar_CreatedAt a < ar_CreatedAt b)
       (filter (\<lambda>a. ar_TenantID a = tenantID \<and> ar_ScanID a = scanID
          \<and> resolved_id tenantID a w = Some i) (db_artifacts w)))"

definition LoadRawArtifactsForEngines ::
  "string \<Rightarrow> string \<Rightarrow> string list \<Rightarrow> (scan_db, go_err + (string \<Rightarrow> Artifact list)) state" where
  "LoadRawArtifactsForEngines tenantID scanID ids =
     (if length ids = 0 then State_Monad.return (Inr (\<lambda>i. []))
      else ReadTenant tenantID (\<lambda>w.
        Inr (\<lambda>i. if i \<in> set ids then artifacts_of tenantID scanID w i else [])))"

section \<open>The normalize trigger\<close>

definition trigger_families :: "Family list" where
  "trigger_families = [''sbom'', ''cbom'', ''qbom'', ''aibom'', ''hbom'']"

definition find_trigger :: "string \<Rightarrow> string \<Rightarrow> Family \<Rightarrow> scan_db \<Rightarrow> trigger_row option" where
  "find_trigger tenantID scanID family w =
     find (\<lambda>t. tr_TenantID t = tenantID \<and> tr_ScanID t = scanID \<and> tr_Family t = family) (db_triggers w)"

text \<open>A conflicting row of another tenant is skipped by the insert and invisible to the read back.\<close>

definition mark_triggered ::
  "string \<Rightarrow> string \<Rightarrow> Family \<Rightarrow> string \<Rightarrow> scan_db \<Rightarrow> go_err + (string \<times> bool) \<times> scan_db" where
  "mark_triggered tenantID scanID family triggerID w =
     (if family \<notin> set trigger_families then Inl err_database
      else if list_ex (\<lambda>t. tr_ScanID t = scanID \<and> tr_Family t = family) (db_triggers w) then
        (case find_trigger tenantID scanID family w of
           None \<Rightarrow> Inl err_database
         | Some t \<Rightarrow> Inr ((tr_TriggerID t, False), w))
      else if \<not> scan_exists scanID w then Inl (Plain ''mark normalize triggered'' [err_database])
      else Inr ((triggerID, True), w\<lparr>db_triggers := db_triggers w @
         [\<lparr>tr_ScanID = scanID, tr_TenantID = tenantID, tr_Family = family, tr_TriggerID = triggerID\<rparr>]\<rparr>))"

definition MarkNormalizeTriggered ::
  "string \<Rightarrow> string \<Rightarrow> Family \<Rightarrow> string \<Rightarrow> (scan_db, go_err + string \<times> bool) state" where
  "MarkNormalizeTriggered tenantID scanID family triggerID =
     WithTenant tenantID (mark_triggered tenantID scanID family triggerID)"

definition NormalizeTriggerID :: "string \<Rightarrow> string \<Rightarrow> Family \<Rightarrow> (scan_db, go_err + string) state" where
  "NormalizeTriggerID tenantID scanID family = ReadTenant tenantID (\<lambda>w.
     Inr (case find_trigger tenantID scanID family w of None \<Rightarrow> [] | Some t \<Rightarrow> tr_TriggerID t))"

section \<open>The reaper's functions\<close>

text \<open>
  The SECURITY DEFINER functions of \<^verbatim>\<open>migrations/scan/0005\<close>, which see every tenant. They are called
  outside a tenant's transaction; each is one statement and so all or nothing.
\<close>

definition raw_call :: "(scan_db \<Rightarrow> 'b \<times> scan_db) \<Rightarrow> (scan_db, go_err + 'b) state" where
  "raw_call fn = Db_Call (\<lambda>w. Inr (fn w))"

definition overdue :: "instant \<Rightarrow> EngineRun \<Rightarrow> bool" where
  "overdue now r \<longleftrightarrow> pending r \<and> (case er_DeadlineAt r of None \<Rightarrow> False | Some d \<Rightarrow> d < now)"

definition reap_run :: "instant \<Rightarrow> EngineRun \<Rightarrow> EngineRun" where
  "reap_run now r = (if overdue now r
     then r\<lparr>er_Status := StatusTimeout, er_FinishedAt := Some now,
            er_ErrorCode := ''SCAN_JOB_DEADLINE_EXCEEDED'',
            er_ErrorMessage := ''the job did not report a result before its deadline''\<rparr>
     else r)"

definition reap_overdue_runs :: "scan_db \<Rightarrow> EngineRun list \<times> scan_db" where
  "reap_overdue_runs w =
     (filter (overdue (en_clock w)) (db_runs w),
      w\<lparr>db_runs := map (reap_run (en_clock w)) (db_runs w)\<rparr>)"

definition terminal_statuses_for :: "string \<Rightarrow> scan_db \<Rightarrow> EngineStatus list" where
  "terminal_statuses_for scanID w =
     map er_Status (best_runs (filter (\<lambda>r. er_ScanID r = scanID) (db_runs w)))"

definition set_scan_status :: "string \<Rightarrow> ScanStatus \<Rightarrow> bool \<Rightarrow> scan_db \<Rightarrow> unit \<times> scan_db" where
  "set_scan_status scanID status terminal w =
     ((), w\<lparr>db_scans := map (set_status_row (\<lambda>s. sc_ID s = scanID) status terminal (en_clock w))
        (db_scans w)\<rparr>)"

end
