(* ===== verification/Orchestrator.thy ===== *)
theory Orchestrator
  imports Scan_Store
begin

text \<open>
  \<^verbatim>\<open>services/scan-orchestrator/internal/orchestr\<close>: \<^verbatim>\<open>orchestrator.go\<close>, \<^verbatim>\<open>dependent.go\<close> and
  \<^verbatim>\<open>normalize_trigger.go\<close>. A handler is a program over the store's state; each \<^verbatim>\<open>if err != nil\<close> is a
  case on its result. Logging is left out. Where Go returns a value beside an error the value is
  dropped, as the callers drop it. The timestamp of a notification is the instant it prints.
\<close>

record Orchestrator =
  or_registry :: Registry
  or_hasBus :: bool
  or_artifactPrefix :: string
  or_frontendURL :: string

definition default_orchestrator :: Orchestrator where
  "default_orchestrator = \<lparr>or_registry = DefaultRegistry, or_hasBus = True,
     or_artifactPrefix = ''s3://axebom'', or_frontendURL = []\<rparr>"

record CreateScanInput =
  ci_ProjectID :: string
  ci_SourceKind :: SourceKind
  ci_Families :: "Family list"
  ci_EngineOverrides :: "Family \<Rightarrow> string list option"
  ci_RequestedEngines :: "string list"
  ci_RequestedBy :: string
  ci_TriggeredBy :: string

definition triggerOrDefault :: "string \<Rightarrow> string" where
  "triggerOrDefault s = (if s \<in> set [''user'', ''campaign'', ''api'', ''webhook''] then s else ''user'')"

abbreviation defaultJobDeadline :: int where "defaultJobDeadline \<equiv> 30 * minute_ns"

section \<open>Refusals\<close>

definition familyRedirect :: "(Family \<times> string) list" where
  "familyRedirect =
     [(FamilyHBOM, ''HBOM has no scanner; import hardware inventory via the ''
         @ ''/v1/hbom/* endpoints instead of requesting a scan.''),
      (FamilyQBOM, ''QBOM is derived from CBOM discovery, not scanned directly; ''
         @ ''it becomes available automatically once a CBOM report exists for this project.'')]"

definition metadata_only :: "Engine \<Rightarrow> bool" where
  "metadata_only e \<longleftrightarrow> en_Derived e \<or> en_RequiresImport e"

definition buildNonScannableMessage :: "Family list \<Rightarrow> string list \<Rightarrow> string" where
  "buildNonScannableMessage families engines =
     join ''; ''
       ((if families \<noteq> []
         then [itoa (length families) @ '' BOM family(s) cannot be requested as a scan: '' @ join '', '' families]
         else [])
        @ (if engines \<noteq> []
           then [itoa (length engines) @ '' engine(s) are metadata-only and cannot be requested directly: ''
                 @ join '', '' engines]
           else []))
     @ ''. Every offending family and engine is listed in the error details, so one correction fixes all of them.''"

definition offending_families :: "Registry \<Rightarrow> Family list \<Rightarrow> Family list" where
  "offending_families r fs =
     filter (\<lambda>f. ForFamily r f \<noteq> [] \<and> list_all metadata_only (ForFamily r f)) fs"

definition offending_engines :: "Registry \<Rightarrow> string list \<Rightarrow> string list" where
  "offending_engines r ids =
     filter (\<lambda>i. case Registry_Get r i of None \<Rightarrow> False | Some e \<Rightarrow> metadata_only e) ids"

definition family_detail :: "Family \<Rightarrow> Detail" where
  "family_detail f = [(''family'', f), (''reason'',
     case map_of familyRedirect f of
       Some reason \<Rightarrow> reason
     | None \<Rightarrow> f @ '' has no directly-invokable engine; every registered engine for ''
         @ ''it is derived from another BOM type's output or is an import, never a scan'')]"

definition engine_detail :: "string \<Rightarrow> Detail" where
  "engine_detail i = [(''engine'', i), (''reason'',
     i @ '' is a metadata-only engine (derived or import-only) and cannot be requested directly as a scan engine'')]"

definition rejectNonScannableFamilies :: "Orchestrator \<Rightarrow> CreateScanInput \<Rightarrow> go_err + unit" where
  "rejectNonScannableFamilies o1 inp =
     (let offendingFamilies = offending_families (or_registry o1) (ci_Families inp);
          offendingEngines = offending_engines (or_registry o1) (ci_RequestedEngines inp)
      in if offendingFamilies = [] \<and> offendingEngines = [] then Inr ()
         else Inl (foldl WithDetail
           (errs_New ScanFamilyNotDirectlyScannable (buildNonScannableMessage offendingFamilies offendingEngines))
           (map family_detail offendingFamilies @ map engine_detail offendingEngines)))"

definition resolveEngines :: "Orchestrator \<Rightarrow> CreateScanInput \<Rightarrow> Resolution" where
  "resolveEngines o1 inp =
     (if ci_RequestedEngines inp \<noteq> []
      then \<lparr>rs_Engines = List.map_filter (Registry_Get (or_registry o1)) (ci_RequestedEngines inp),
            rs_SkippedForSource = []\<rparr>
      else Resolve (or_registry o1) (ci_Families inp) (ci_SourceKind inp) (ci_EngineOverrides inp))"

definition familyOf :: "Engine \<Rightarrow> Family" where
  "familyOf e = (case en_Families e of [] \<Rightarrow> FamilySBOM | f # _ \<Rightarrow> f)"

text \<open>Everything \<^verbatim>\<open>CreateScan\<close> checks before it touches the store.\<close>

definition admit :: "Orchestrator \<Rightarrow> CreateScanInput \<Rightarrow> go_err + Resolution" where
  "admit o1 inp =
     (if ci_ProjectID inp = [] then Inl (errs_New ValidationFieldRequired ''project_id is required'')
      else if ci_Families inp = [] then
        Inl (errs_New ValidationFieldRequired
          ''select at least one BOM family; a scan with none produces nothing'')
      else if ci_SourceKind inp \<notin> set [SourceGit, SourceUpload, SourceImage, SourceURL] then
        Inl (errs_New ValidationFieldInvalid (''source_kind must be git, upload, image or url (got ''
          @ quoted (ci_SourceKind inp) @ '')''))
      else
        case (if ci_RequestedEngines inp \<noteq> []
              then ValidateCombination (or_registry o1) (ci_RequestedEngines inp) (ci_SourceKind inp) (ci_Families inp)
              else Inr ()) of
          Inl e \<Rightarrow> Inl e
        | Inr _ \<Rightarrow>
            (case rejectNonScannableFamilies o1 inp of
               Inl e \<Rightarrow> Inl e
             | Inr _ \<Rightarrow>
                 let resolution = resolveEngines o1 inp
                 in if rs_Engines resolution = [] then
                      Inl (foldl WithDetail
                        (errs_New ScanNoEnginesAvailable (''no engine can scan a '' @ ci_SourceKind inp
                           @ '' source for the requested BOM types''))
                        (map (\<lambda>p. [(''engine'', op_Engine p), (''reason'', op_Reason p)])
                           (rs_SkippedForSource resolution)))
                    else Inr resolution))"

section \<open>Publishing jobs\<close>

definition outputPrefix :: "Orchestrator \<Rightarrow> string \<Rightarrow> string \<Rightarrow> string \<Rightarrow> string" where
  "outputPrefix o1 scanID engine jobID =
     or_artifactPrefix o1 @ ''/scans/'' @ scanID @ ''/raw/'' @ engine @ ''/'' @ jobID @ ''/''"

definition defaultJobLimits :: JobLimits where
  "defaultJobLimits = \<lparr>WallClockSec = 900, CPUMillis = 2000, MemoryMB = 4096, DiskMB = 20480,
     PIDsMax = 512, MaxOutputBytes = 256 * 2 ^ 20\<rparr>"

definition publishJob :: "ScanJobV1 \<Rightarrow> (scan_db, go_err + unit) state" where
  "publishJob job = Bus_Publish (Job_Subject job) (sj_JobID job) (PJob job)"

definition producer_job :: "Orchestrator \<Rightarrow> Family \<Rightarrow> string \<Rightarrow> Scan \<Rightarrow> string \<Rightarrow> instant \<Rightarrow> ScanJobV1" where
  "producer_job o1 family engine scan jobID now = \<lparr>sj_SchemaVersion = SchemaScanJobV1,
     sj_JobID = jobID, sj_ScanID = sc_ID scan, sj_TenantID = sc_TenantID scan,
     sj_ProjectID = sc_ProjectID scan, sj_Family = family, sj_Engine = engine,
     sj_EngineVersionConstraint = [], sj_Attempt = 1, sj_IssuedAt = now,
     sj_DeadlineAt = now + defaultJobDeadline, sj_Workspace = no_workspace,
     sj_SourceMeta = \<lparr>sm_Kind = sc_SourceKind scan, sm_CommitSHA = [], sm_ImageDigest = []\<rparr>,
     sj_EngineConfig = [], sj_Limits = defaultJobLimits,
     sj_OutputPrefix = outputPrefix o1 (sc_ID scan) engine jobID\<rparr>"

definition invalid_job :: "problem list \<Rightarrow> go_err" where
  "invalid_job ps = Plain ''invalid scan job'' []"

definition publish_producer :: "Orchestrator \<Rightarrow> Family \<Rightarrow> string \<Rightarrow> Scan \<Rightarrow> (scan_db, go_err + unit) state" where
  "publish_producer o1 family engine scan =
     do { jobID \<leftarrow> uuid_NewString; now \<leftarrow> time_now;
          let job = producer_job o1 family engine scan jobID now;
          case Job_Validate job of
            Inl ps \<Rightarrow> ret (Inl (invalid_job ps))
          | Inr _ \<Rightarrow> publishJob job }"

definition publishFetchJob :: "Orchestrator \<Rightarrow> Scan \<Rightarrow> (scan_db, go_err + unit) state" where
  "publishFetchJob o1 scan = publish_producer o1 FamilyFetch ''fetcher'' scan"

definition publishWebreconJob :: "Orchestrator \<Rightarrow> Scan \<Rightarrow> (scan_db, go_err + unit) state" where
  "publishWebreconJob o1 scan = publish_producer o1 FamilyWebrecon ''webrecon'' scan"

section \<open>Creating a scan\<close>

definition planned_run :: "Engine \<Rightarrow> (scan_db, EngineRun) state" where
  "planned_run e =
     do { now \<leftarrow> time_now; jobID \<leftarrow> uuid_NewString;
          ret (zero_run\<lparr>er_JobID := jobID, er_EngineID := en_ID e, er_Family := familyOf e,
             er_Attempt := 1, er_Weight := en_DefaultWeight e,
             er_DeadlineAt := Some (now + defaultJobDeadline)\<rparr>) }"

definition record_skipped :: "Orchestrator \<Rightarrow> string \<Rightarrow> string \<Rightarrow> OffendingPair \<Rightarrow> (scan_db, go_err + unit) state" where
  "record_skipped o1 tenantID scanID p =
     (case Registry_Get (or_registry o1) (op_Engine p) of
        None \<Rightarrow> ret (Inr ())
      | Some e \<Rightarrow> for_each (\<lambda>eco.
          do { _ \<leftarrow> RecordEcosystem tenantID scanID eco (op_Engine p) False; ret (Inr ()) })
          (en_Ecosystems e))"

definition scan_request :: "string \<Rightarrow> CreateScanInput \<Rightarrow> Engine list \<Rightarrow> Scan" where
  "scan_request tenantID inp engines = zero_scan\<lparr>sc_TenantID := tenantID,
     sc_ProjectID := ci_ProjectID inp, sc_SourceKind := ci_SourceKind inp,
     sc_Families := ci_Families inp, sc_EnginesRequested := map en_ID engines,
     sc_TriggeredBy := triggerOrDefault (ci_TriggeredBy inp), sc_TriggerRef := ci_RequestedBy inp\<rparr>"

definition CreateScan :: "Orchestrator \<Rightarrow> string \<Rightarrow> CreateScanInput \<Rightarrow> (scan_db, go_err + Scan) state" where
  "CreateScan o1 tenantID inp =
     (case admit o1 inp of
        Inl e \<Rightarrow> ret (Inl e)
      | Inr resolution \<Rightarrow>
          do { runs \<leftarrow> map_state planned_run (rs_Engines resolution);
               r \<leftarrow> Store_CreateScan (scan_request tenantID inp (rs_Engines resolution)) runs;
               case r of
                 Inl e \<Rightarrow> ret (Inl e)
               | Inr scan \<Rightarrow>
                   do { _ \<leftarrow> for_each (record_skipped o1 tenantID (sc_ID scan)) (rs_SkippedForSource resolution);
                        p \<leftarrow> (if sc_SourceKind scan = SourceURL then publishWebreconJob o1 scan
                              else publishFetchJob o1 scan);
                        case p of
                          Inl e \<Rightarrow> ret (Inl (errs_Wrap e InternalDependency
                            ''the scan was created but could not be queued; it will time out and can be retried''))
                        | Inr _ \<Rightarrow> ret (Inr scan) } })"

section \<open>Fan-out\<close>

definition engine_job :: "Orchestrator \<Rightarrow> Scan \<Rightarrow> EngineRun \<Rightarrow> Family \<Rightarrow> instant \<Rightarrow> ScanJobV1" where
  "engine_job o1 scan run family now = \<lparr>sj_SchemaVersion = SchemaScanJobV1,
     sj_JobID = er_JobID run, sj_ScanID = sc_ID scan, sj_TenantID = sc_TenantID scan,
     sj_ProjectID = sc_ProjectID scan, sj_Family = family, sj_Engine = er_EngineID run,
     sj_EngineVersionConstraint = [], sj_Attempt = er_Attempt run, sj_IssuedAt = now,
     sj_DeadlineAt = now + defaultJobDeadline,
     sj_Workspace = no_workspace\<lparr>ws_ArtifactURI := sc_ArchiveRef scan, ws_SHA256 := sc_ArchiveSHA256 scan\<rparr>,
     sj_SourceMeta = \<lparr>sm_Kind = sc_SourceKind scan, sm_CommitSHA = sc_CommitSHA scan, sm_ImageDigest = []\<rparr>,
     sj_EngineConfig = [], sj_Limits = defaultJobLimits,
     sj_OutputPrefix = outputPrefix o1 (sc_ID scan) (er_EngineID run) (er_JobID run)\<rparr>"

definition waits_for_producer :: "Orchestrator \<Rightarrow> string \<Rightarrow> bool" where
  "waits_for_producer o1 engineID = (case Registry_Get (or_registry o1) engineID of
     None \<Rightarrow> False | Some e \<Rightarrow> en_ConsumesOutputOf e \<noteq> [])"

definition run_family :: "Orchestrator \<Rightarrow> string \<Rightarrow> Family" where
  "run_family o1 engineID = (case Registry_Get (or_registry o1) engineID of
     None \<Rightarrow> FamilySBOM | Some e \<Rightarrow> familyOf e)"

definition fan_out_job :: "Orchestrator \<Rightarrow> Scan \<Rightarrow> string \<Rightarrow> EngineRun \<Rightarrow> instant \<Rightarrow> ScanJobV1" where
  "fan_out_job o1 scan nativeSBOMRef run now =
     (let job = engine_job o1 scan run (run_family o1 (er_EngineID run)) now
      in case Registry_Get (or_registry o1) (er_EngineID run) of
           None \<Rightarrow> job
         | Some e \<Rightarrow> if en_ConsumesNativeSBOM e
             then job\<lparr>sj_Workspace := (sj_Workspace job)\<lparr>ws_NativeSBOMRef := nativeSBOMRef\<rparr>\<rparr>
             else job)"

definition fan_out_run :: "Orchestrator \<Rightarrow> Scan \<Rightarrow> string \<Rightarrow> nat \<Rightarrow> EngineRun \<Rightarrow> (scan_db, nat) state" where
  "fan_out_run o1 scan nativeSBOMRef published run =
     (if er_Status run \<noteq> statusQueued then ret published
      else if waits_for_producer o1 (er_EngineID run) then ret published
      else do { now \<leftarrow> time_now;
                let job = fan_out_job o1 scan nativeSBOMRef run now;
                case Job_Validate job of
                  Inl _ \<Rightarrow> ret published
                | Inr _ \<Rightarrow> do { r \<leftarrow> publishJob job;
                              case r of Inl _ \<Rightarrow> ret published | Inr _ \<Rightarrow> ret (published + 1) } })"

definition nativeSBOMProducers :: "string list" where
  "nativeSBOMProducers = [''fetcher'', ''webrecon'']"

definition native_ref :: "(string \<Rightarrow> Artifact list) \<Rightarrow> string" where
  "native_ref artifacts =
     (case filter (\<lambda>a. af_Role a = ''native_output'') (concat (map artifacts nativeSBOMProducers)) of
        [] \<Rightarrow> [] | a # _ \<Rightarrow> af_URI a)"

definition nativeSBOMRefFor :: "string \<Rightarrow> string \<Rightarrow> (scan_db, string) state" where
  "nativeSBOMRefFor tenantID scanID =
     do { r \<leftarrow> LoadRawArtifactsForEngines tenantID scanID nativeSBOMProducers;
          case r of Inl _ \<Rightarrow> ret [] | Inr artifacts \<Rightarrow> ret (native_ref artifacts) }"

definition FanOut :: "Orchestrator \<Rightarrow> string \<Rightarrow> string \<Rightarrow> (scan_db, go_err + nat) state" where
  "FanOut o1 tenantID scanID =
     do { r \<leftarrow> GetScan tenantID scanID;
          case r of
            Inl e \<Rightarrow> ret (Inl e)
          | Inr (scan, runs) \<Rightarrow>
              do { nativeSBOMRef \<leftarrow> nativeSBOMRefFor tenantID scanID;
                   if sc_ArchiveRef scan = [] \<and> nativeSBOMRef = []
                   then ret (Inl (Plain (''cannot fan out scan '' @ scanID
                     @ '': no source archive or native document recorded'') []))
                   else do { published \<leftarrow> fold_state (fan_out_run o1 scan nativeSBOMRef) 0 runs;
                             ret (Inr published) } } }"

section \<open>Dependents\<close>

definition skipDependent :: "EngineRun \<Rightarrow> ScanResultV1 \<Rightarrow> (scan_db, unit) state" where
  "skipDependent run result =
     do { now \<leftarrow> time_now;
          _ \<leftarrow> UpsertEngineRun (run\<lparr>er_Status := StatusSkipped, er_FinishedAt := Some now,
            er_ErrorCode := ''ENGINE_INPUT_MISSING'',
            er_ErrorMessage := er_EngineID run @ '' reads '' @ sr_Engine result @ '''s output, and ''
              @ sr_Engine result @ '' reported '' @ sr_Status result\<rparr>);
          ret () }"

definition release_run :: "Orchestrator \<Rightarrow> ScanResultV1 \<Rightarrow> Scan \<Rightarrow> EngineRun \<Rightarrow> (scan_db, go_err + unit) state" where
  "release_run o1 result scan run =
     (if er_Status run \<noteq> statusQueued then ret (Inr ())
      else case Registry_Get (or_registry o1) (er_EngineID run) of
        None \<Rightarrow> ret (Inr ())
      | Some engine \<Rightarrow>
          if en_ConsumesOutputOf engine \<noteq> sr_Engine result then ret (Inr ())
          else if \<not> EngineStatus_Succeeded (sr_Status result) then
            do { skipDependent run result; ret (Inr ()) }
          else
            do { now \<leftarrow> time_now;
                 let job = engine_job o1 scan run (familyOf engine) now;
                 case Job_Validate job of
                   Inl _ \<Rightarrow> ret (Inr ())
                 | Inr _ \<Rightarrow> do { _ \<leftarrow> publishJob job; ret (Inr ()) } })"

definition releaseDependents :: "Orchestrator \<Rightarrow> ScanResultV1 \<Rightarrow> (scan_db, go_err + unit) state" where
  "releaseDependents o1 result =
     do { r \<leftarrow> GetScan (sr_TenantID result) (sr_ScanID result);
          case r of
            Inl e \<Rightarrow> ret (Inl (retry ''loading scan to release dependents'' e))
          | Inr (scan, runs) \<Rightarrow> for_each (release_run o1 result scan) runs }"

section \<open>The status of a scan\<close>

definition publishScanCompleted ::
  "Orchestrator \<Rightarrow> string \<Rightarrow> string \<Rightarrow> ScanStatus \<Rightarrow> (scan_db, unit) state" where
  "publishScanCompleted o1 tenantID scanID status =
     (if \<not> or_hasBus o1 \<or> or_frontendURL o1 = [] then ret ()
      else do { r \<leftarrow> GetScan tenantID scanID;
                case r of
                  Inl _ \<Rightarrow> ret ()
                | Inr (scan, _) \<Rightarrow>
                    do { now \<leftarrow> time_now;
                         let evt = empty_notification\<lparr>ne_Schema := NotifyEventSchema,
                           ne_Event := NotifyEventScanCompleted, ne_TenantID := tenantID,
                           ne_ProjectID := sc_ProjectID scan, ne_ScanID := scanID, ne_Status := status,
                           ne_URL := or_frontendURL o1 @ ''/scans/'' @ scanID, ne_OccurredAt := rfc3339 UTC now\<rparr>;
                         _ \<leftarrow> Bus_Publish (Notify_Subject evt) scanID (PNotify evt);
                         ret () } })"

definition RecomputeScanStatus :: "Orchestrator \<Rightarrow> string \<Rightarrow> string \<Rightarrow> (scan_db, go_err + unit) state" where
  "RecomputeScanStatus o1 tenantID scanID =
     do { r \<leftarrow> AllRunsTerminal tenantID scanID;
          case r of
            Inl e \<Rightarrow> ret (Inl (retry ''checking run states'' e))
          | Inr finished \<Rightarrow>
              if \<not> finished then ret (Inr ())
              else do { r \<leftarrow> TerminalStatuses tenantID scanID;
                        case r of
                          Inl e \<Rightarrow> ret (Inl (retry ''reading terminal statuses'' e))
                        | Inr statuses \<Rightarrow>
                            do { let derived = DeriveScanStatus statuses;
                                 r \<leftarrow> UpdateScanStatus tenantID scanID derived;
                                 case r of
                                   Inl e \<Rightarrow> ret (Inl (retry ''writing scan status'' e))
                                 | Inr _ \<Rightarrow> do { publishScanCompleted o1 tenantID scanID derived;
                                               ret (Inr ()) } } } }"

section \<open>The normalize trigger\<close>

text \<open>The map from an engine to its best run, as an association list.\<close>

definition betterAttempt :: "EngineRun \<Rightarrow> EngineRun \<Rightarrow> bool" where
  "betterAttempt candidate current =
     (let candidateFailed = (er_Status candidate = StatusFailed);
          currentFailed = (er_Status current = StatusFailed)
      in if candidateFailed \<noteq> currentFailed then \<not> candidateFailed
         else er_Attempt candidate > er_Attempt current)"

definition latest_step :: "(string \<times> EngineRun) list \<Rightarrow> EngineRun \<Rightarrow> (string \<times> EngineRun) list" where
  "latest_step best r =
     (case map_of best (er_EngineID r) of
        None \<Rightarrow> AList.update (er_EngineID r) r best
      | Some current \<Rightarrow> if betterAttempt r current then AList.update (er_EngineID r) r best else best)"

definition latestRunsByEngine :: "EngineRun list \<Rightarrow> (string \<times> EngineRun) list" where
  "latestRunsByEngine runs = foldl latest_step [] runs"

definition in_family :: "Registry \<Rightarrow> Family \<Rightarrow> string \<Rightarrow> bool" where
  "in_family r family engineID = (case Registry_Get r engineID of
     None \<Rightarrow> False | Some e \<Rightarrow> InFamily e family)"

definition familyTerminal :: "(string \<times> EngineRun) list \<Rightarrow> Registry \<Rightarrow> Family \<Rightarrow> bool" where
  "familyTerminal latest registry family =
     (let members = filter (\<lambda>r. in_family registry family (er_EngineID r)) (map snd latest)
      in members \<noteq> [] \<and> \<not> list_ex pending members)"

definition trigger_engine :: "(string \<Rightarrow> Artifact list) \<Rightarrow> EngineRun \<Rightarrow> NormalizeEngineArtifact" where
  "trigger_engine artifactsByEngine r = \<lparr>na_EngineID = er_EngineID r,
     na_EngineVersion = er_EngineVersion r, na_EngineDBVersion = er_EngineDBVersion r,
     na_Status = er_Status r, na_Artifacts = artifactsByEngine (er_EngineID r),
     na_EcosystemsCovered = er_EcosystemsCovered r\<rparr>"

definition trigger_envelope ::
  "Scan \<Rightarrow> (string \<times> EngineRun) list \<Rightarrow> string list \<Rightarrow> string \<Rightarrow> Family
   \<Rightarrow> (string \<Rightarrow> Artifact list) \<Rightarrow> string list \<Rightarrow> instant \<Rightarrow> NormalizeTriggerV1" where
  "trigger_envelope scan latest engineIDs triggerID family artifacts gaps now =
     \<lparr>nt_SchemaVersion = SchemaNormalizeTriggerV1, nt_TriggerID = triggerID,
      nt_ScanID = sc_ID scan, nt_TenantID = sc_TenantID scan, nt_ProjectID = sc_ProjectID scan,
      nt_Family = family, nt_NormalizationVersion = 1, nt_SourceCommitSHA = sc_CommitSHA scan,
      nt_WorkspaceArchiveSHA256 = sc_ArchiveSHA256 scan, nt_EcosystemsWithoutEngine = gaps,
      nt_IssuedAt = now,
      nt_Engines = map (\<lambda>i. trigger_engine artifacts (the (map_of latest i))) engineIDs\<rparr>"

definition trigger_engine_ids :: "Registry \<Rightarrow> Family \<Rightarrow> (string \<times> EngineRun) list \<Rightarrow> string list" where
  "trigger_engine_ids registry family latest = sort (filter (in_family registry family) (map fst latest))"

definition buildNormalizeTrigger ::
  "Orchestrator \<Rightarrow> Scan \<Rightarrow> (string \<times> EngineRun) list \<Rightarrow> string \<Rightarrow> Family
   \<Rightarrow> (scan_db, go_err + NormalizeTriggerV1) state" where
  "buildNormalizeTrigger o1 scan latest triggerID family =
     do { let engineIDs = trigger_engine_ids (or_registry o1) family latest;
          r \<leftarrow> LoadRawArtifactsForEngines (sc_TenantID scan) (sc_ID scan) engineIDs;
          case r of
            Inl e \<Rightarrow> ret (Inl (Plain ''loading raw artifacts'' [e]))
          | Inr artifactsByEngine \<Rightarrow>
              do { r \<leftarrow> CoverageGaps (sc_TenantID scan) (sc_ID scan);
                   case r of
                     Inl e \<Rightarrow> ret (Inl (Plain ''loading coverage gaps'' [e]))
                   | Inr gaps \<Rightarrow>
                       do { now \<leftarrow> time_now;
                            ret (Inr (trigger_envelope scan latest engineIDs triggerID family
                              artifactsByEngine gaps now)) } } }"

text \<open>The publish, and the claim that follows it.\<close>

definition publish_and_claim :: "string \<Rightarrow> string \<Rightarrow> NormalizeTriggerV1 \<Rightarrow> (scan_db, unit) state" where
  "publish_and_claim tenantID scanID trigger =
     do { p \<leftarrow> Bus_Publish (Trigger_Subject trigger) (nt_TriggerID trigger) (PTrigger trigger);
          case p of
            Inl _ \<Rightarrow> ret ()
          | Inr _ \<Rightarrow> do { _ \<leftarrow> MarkNormalizeTriggered tenantID scanID FamilySBOM (nt_TriggerID trigger);
                        ret () } }"

definition fire_trigger ::
  "Orchestrator \<Rightarrow> ScanResultV1 \<Rightarrow> Scan \<Rightarrow> (string \<times> EngineRun) list \<Rightarrow> string \<Rightarrow> (scan_db, unit) state" where
  "fire_trigger o1 result scan latest newID =
     do { r \<leftarrow> buildNormalizeTrigger o1 scan latest newID FamilySBOM;
          case r of
            Inl _ \<Rightarrow> ret ()
          | Inr trigger \<Rightarrow>
              (case Trigger_Validate trigger of
                 Inl _ \<Rightarrow> ret ()
               | Inr _ \<Rightarrow> publish_and_claim (sr_TenantID result) (sr_ScanID result) trigger) }"

definition maybeTriggerNormalize :: "Orchestrator \<Rightarrow> ScanResultV1 \<Rightarrow> (scan_db, unit) state" where
  "maybeTriggerNormalize o1 result =
     (case Registry_Get (or_registry o1) (sr_Engine result) of
        None \<Rightarrow> ret ()
      | Some e \<Rightarrow>
          if familyOf e \<noteq> FamilySBOM then ret ()
          else do { r \<leftarrow> GetScan (sr_TenantID result) (sr_ScanID result);
            case r of
              Inl _ \<Rightarrow> ret ()
            | Inr (scan, runs) \<Rightarrow>
                let latest = latestRunsByEngine runs in
                if \<not> familyTerminal latest (or_registry o1) FamilySBOM then ret ()
                else do { r \<leftarrow> NormalizeTriggerID (sr_TenantID result) (sr_ScanID result) FamilySBOM;
                  case r of
                    Inl _ \<Rightarrow> ret ()
                  | Inr existing \<Rightarrow>
                      if existing \<noteq> [] then ret ()
                      else do { newID \<leftarrow> uuid_NewString; fire_trigger o1 result scan latest newID } } })"

section \<open>Results\<close>

definition run_of_result :: "Orchestrator \<Rightarrow> ScanResultV1 \<Rightarrow> EngineRun" where
  "run_of_result o1 result =
     (let inv = sr_Invocation result in
      zero_run\<lparr>er_ScanID := sr_ScanID result, er_TenantID := sr_TenantID result,
        er_JobID := sr_JobID result, er_EngineID := sr_Engine result, er_Status := sr_Status result,
        er_Attempt := 1, er_EcosystemsCovered := sr_EcosystemsCovered result,
        er_EngineVersion := sr_EngineVersion result, er_EngineDBVersion := sr_EngineDBVersion result,
        er_Diagnostics := sr_Diagnostics result, er_ArgvRedacted := in_ArgvRedacted inv,
        er_Summary := sr_Summary result, er_ExitCode := Some (in_ExitCode inv),
        er_DurationMS := (if in_DurationMS inv > 0 then Some (in_DurationMS inv) else None),
        er_StartedAt := (if in_StartedAt inv \<noteq> zero_time then Some (in_StartedAt inv) else None),
        er_FinishedAt := (if in_FinishedAt inv \<noteq> zero_time then Some (in_FinishedAt inv) else None),
        er_ErrorCode := (case sr_Error result of None \<Rightarrow> [] | Some e \<Rightarrow> re_Code e),
        er_ErrorMessage := (case sr_Error result of None \<Rightarrow> [] | Some e \<Rightarrow> re_Message e),
        er_Family := (case Registry_Get (or_registry o1) (sr_Engine result) of
           None \<Rightarrow> [] | Some e \<Rightarrow> familyOf e)\<rparr>)"

definition record_covered :: "ScanResultV1 \<Rightarrow> string \<Rightarrow> (scan_db, go_err + unit) state" where
  "record_covered result eco =
     do { _ \<leftarrow> RecordEcosystem (sr_TenantID result) (sr_ScanID result) eco (sr_Engine result) True;
          ret (Inr ()) }"

definition HandleResult :: "Orchestrator \<Rightarrow> ScanResultV1 \<Rightarrow> (scan_db, go_err + unit) state" where
  "HandleResult o1 result =
     (case Result_Validate result of
        Inl ps \<Rightarrow> ret (Inl (Plain (''invalid result for job '' @ sr_JobID result) []))
      | Inr _ \<Rightarrow>
          do { r \<leftarrow> UpsertEngineRun (run_of_result o1 result);
               case r of
                 Inl e \<Rightarrow> ret (Inl (retry ''recording engine run'' e))
               | Inr engineRunID \<Rightarrow>
                   do { _ \<leftarrow> RecordRawArtifacts (sr_TenantID result) (sr_ScanID result) engineRunID
                          (sr_Artifacts result);
                        _ \<leftarrow> for_each (record_covered result) (sr_EcosystemsCovered result);
                        r \<leftarrow> releaseDependents o1 result;
                        case r of
                          Inl e \<Rightarrow> ret (Inl e)
                        | Inr _ \<Rightarrow>
                            do { r \<leftarrow> RecomputeScanStatus o1 (sr_TenantID result) (sr_ScanID result);
                                 case r of
                                   Inl e \<Rightarrow> ret (Inl e)
                                 | Inr _ \<Rightarrow> do { maybeTriggerNormalize o1 result; ret (Inr ()) } } } })"

section \<open>Progress\<close>

definition next_seq :: "(scan_db, int) state" where
  "next_seq = State (\<lambda>w. (proc_seq w + 1, w\<lparr>proc_seq := proc_seq w + 1\<rparr>))"

definition PublishEvent :: "ScanEventV1 \<Rightarrow> (scan_db, unit) state" where
  "PublishEvent e0 =
     do { let e = e0\<lparr>ev_SchemaVersion := SchemaScanEventV1\<rparr>;
          e \<leftarrow> (if ev_EventID e = [] then do { i \<leftarrow> uuid_NewString; ret (e\<lparr>ev_EventID := i\<rparr>) } else ret e);
          e \<leftarrow> (if ev_TS e = zero_time then do { now \<leftarrow> time_now; ret (e\<lparr>ev_TS := now\<rparr>) } else ret e);
          e \<leftarrow> (if ev_Seq e = 0 then do { n \<leftarrow> next_seq; ret (e\<lparr>ev_Seq := n\<rparr>) } else ret e);
          let e = Sanitize e;
          case Event_Validate e of
            Inl _ \<Rightarrow> ret ()
          | Inr _ \<Rightarrow> do { _ \<leftarrow> Bus_Publish (Event_Subject e) [] (PEvent e); ret () } }"

definition run_weight :: "EngineRun \<Rightarrow> int" where
  "run_weight r = (if er_Weight r \<le> 0 then 1 else er_Weight r)"

definition Progress :: "EngineRun list \<Rightarrow> int" where
  "Progress runs =
     (let totalWeight = sum_list (map run_weight runs);
          finished = sum_list (map run_weight (filter (\<lambda>r. \<not> pending r) runs))
      in if totalWeight = 0 then 0 else finished * 100 div totalWeight)"

end
