(* ===== verification/Scan_Handlers.thy ===== *)
theory Scan_Handlers
  imports Orchestrator
begin

text \<open>
  What drives the orchestrator: the result consumer (\<^verbatim>\<open>consumer.go\<close>), the deadline reaper
  (\<^verbatim>\<open>reaper.go\<close>) and the HTTP handlers that change state (\<^verbatim>\<open>internal/handler/handler.go\<close>), and the
  step relation that lets them follow each other in any order with the clock and the outcomes of
  I/O chosen by the environment.
\<close>

section \<open>The result consumer\<close>

definition commitSHAFrom :: "ScanResultV1 \<Rightarrow> string" where
  "commitSHAFrom result =
     (case sr_SourceMeta result of
        Some m \<Rightarrow> if sm_CommitSHA m \<noteq> [] then sm_CommitSHA m else sr_EngineDBVersion result
      | None \<Rightarrow> sr_EngineDBVersion result)"

definition archiveFrom :: "ScanResultV1 \<Rightarrow> string \<times> string" where
  "archiveFrom result =
     (case find (\<lambda>a. af_Role a = ''source_archive'') (sr_Artifacts result) of
        Some a \<Rightarrow> (af_URI a, af_SHA256 a)
      | None \<Rightarrow> (case sr_Artifacts result of [a] \<Rightarrow> (af_URI a, af_SHA256 a) | _ \<Rightarrow> ([], [])))"

definition fail_run :: "ScanResultV1 \<Rightarrow> EngineRun \<Rightarrow> (scan_db, go_err + unit) state" where
  "fail_run result run =
     (if er_Status run \<noteq> statusQueued then ret (Inr ())
      else do { now \<leftarrow> time_now;
                r \<leftarrow> UpsertEngineRun (run\<lparr>er_Status := StatusFailed, er_FinishedAt := Some now,
                  er_ErrorCode := (case sr_Error result of None \<Rightarrow> ''SCAN_SOURCE_UNREACHABLE''
                     | Some e \<Rightarrow> re_Code e),
                  er_ErrorMessage := (case sr_Error result of None \<Rightarrow> ''the source could not be fetched''
                     | Some e \<Rightarrow> re_Message e)\<rparr>);
                case r of Inl e \<Rightarrow> ret (Inl e) | Inr _ \<Rightarrow> ret (Inr ()) })"

definition failAllRuns :: "ScanResultV1 \<Rightarrow> (scan_db, go_err + unit) state" where
  "failAllRuns result =
     do { r \<leftarrow> GetScan (sr_TenantID result) (sr_ScanID result);
          case r of
            Inl e \<Rightarrow> ret (Inl e)
          | Inr (_, runs) \<Rightarrow> for_each (fail_run result) runs }"

text \<open>The common tail of the two producers: record what was staged, then fan out.\<close>

definition record_and_fan_out :: "Orchestrator \<Rightarrow> ScanResultV1 \<Rightarrow> string \<Rightarrow> (scan_db, go_err + unit) state" where
  "record_and_fan_out o1 result producer =
     do { r \<leftarrow> RecordProducerArtifacts (sr_TenantID result) (sr_ScanID result) producer (sr_Artifacts result);
          case r of
            Inl e \<Rightarrow> ret (Inl (retry (''recording '' @ producer @ '' artifacts'') e))
          | Inr _ \<Rightarrow>
              do { r \<leftarrow> FanOut o1 (sr_TenantID result) (sr_ScanID result);
                   case r of
                     Inl e \<Rightarrow> ret (Inl (retry ''fanning out'' e))
                   | Inr published \<Rightarrow> ret (Inr ()) } }"

definition no_such_scan :: "ScanResultV1 \<Rightarrow> go_err" where
  "no_such_scan result = Plain (''no such scan '' @ sr_ScanID result @ '' for this tenant'') []"

definition producer_failed :: "Orchestrator \<Rightarrow> ScanResultV1 \<Rightarrow> string \<Rightarrow> (scan_db, go_err + unit) state" where
  "producer_failed o1 result producer =
     do { r \<leftarrow> failAllRuns result;
          case r of
            Inl e \<Rightarrow> ret (Inl (retry (''failing runs after a failed '' @ producer) e))
          | Inr _ \<Rightarrow> RecomputeScanStatus o1 (sr_TenantID result) (sr_ScanID result) }"

definition handleFetchResult :: "Orchestrator \<Rightarrow> ScanResultV1 \<Rightarrow> (scan_db, go_err + unit) state" where
  "handleFetchResult o1 result =
     do { r \<leftarrow> GetScan (sr_TenantID result) (sr_ScanID result);
          case r of
            Inl e \<Rightarrow>
              if errors_Is e ErrNotFound then ret (Inl (no_such_scan result))
              else ret (Inl (retry ''loading scan'' e))
          | Inr _ \<Rightarrow>
              if sr_Status result = StatusFailed \<or> sr_Status result = StatusTimeout
              then producer_failed o1 result ''fetch''
              else
                let (archiveRef, archiveSHA) = archiveFrom result in
                if archiveRef = [] then
                  ret (Inl (Plain (''fetch result for scan '' @ sr_ScanID result @ '' carries no source archive'') []))
                else do { r \<leftarrow> SetSourceOnce (sr_TenantID result) (sr_ScanID result)
                            (commitSHAFrom result) archiveRef archiveSHA;
                          case r of
                            Inl e \<Rightarrow> ret (Inl (retry ''pinning source'' e))
                          | Inr wrote \<Rightarrow> record_and_fan_out o1 result ''fetcher'' } }"

definition handleWebreconResult :: "Orchestrator \<Rightarrow> ScanResultV1 \<Rightarrow> (scan_db, go_err + unit) state" where
  "handleWebreconResult o1 result =
     do { r \<leftarrow> GetScan (sr_TenantID result) (sr_ScanID result);
          case r of
            Inl e \<Rightarrow>
              if errors_Is e ErrNotFound then ret (Inl (no_such_scan result))
              else ret (Inl (retry ''loading scan'' e))
          | Inr _ \<Rightarrow>
              if sr_Status result = StatusFailed \<or> sr_Status result = StatusTimeout
              then producer_failed o1 result ''webrecon''
              else do { r \<leftarrow> SetSourceOnce (sr_TenantID result) (sr_ScanID result) [] [] [];
                        case r of
                          Inl e \<Rightarrow> ret (Inl (retry ''marking the scan running'' e))
                        | Inr wrote \<Rightarrow> record_and_fan_out o1 result ''webrecon'' } }"

text \<open>A message that decodes; one that does not is a permanent error and changes nothing.\<close>

definition handleResultMessage :: "Orchestrator \<Rightarrow> ScanResultV1 \<Rightarrow> (scan_db, go_err + unit) state" where
  "handleResultMessage o1 result =
     (if sr_Engine result = ''fetcher'' then handleFetchResult o1 result
      else if sr_Engine result = ''webrecon'' then handleWebreconResult o1 result
      else HandleResult o1 result)"

section \<open>The reaper\<close>

record ReapResult =
  JobsTimedOut :: nat
  ScansAffected :: "string list"

definition anyStillRunning :: "EngineStatus list \<Rightarrow> bool" where
  "anyStillRunning statuses \<longleftrightarrow> list_ex (\<lambda>s. s = statusQueued \<or> s = statusRunning) statuses"

definition reap_scan :: "string \<Rightarrow> (scan_db, go_err + unit) state" where
  "reap_scan scanID =
     do { r \<leftarrow> raw_call (\<lambda>w. (terminal_statuses_for scanID w, w));
          case r of
            Inl _ \<Rightarrow> ret (Inr ())
          | Inr statuses \<Rightarrow>
              if anyStillRunning statuses then ret (Inr ())
              else do { let derived = DeriveScanStatus statuses;
                        let terminal = (derived = ScanCompleted \<or> derived = ScanCompletedWithErrors
                          \<or> derived = ScanFailed);
                        _ \<leftarrow> raw_call (set_scan_status scanID derived terminal);
                        ret (Inr ()) } }"

definition Sweep :: "(scan_db, go_err + ReapResult) state" where
  "Sweep =
     do { r \<leftarrow> raw_call reap_overdue_runs;
          case r of
            Inl e \<Rightarrow> ret (Inl (Plain ''reap overdue runs'' [e]))
          | Inr reaped \<Rightarrow>
              do { let affected = rev (remdups (rev (map er_ScanID reaped)));
                   _ \<leftarrow> for_each reap_scan affected;
                   ret (Inr \<lparr>JobsTimedOut = length reaped, ScansAffected = affected\<rparr>) } }"

section \<open>The HTTP handlers\<close>

abbreviation APIKeySubjectPrefix :: string where "APIKeySubjectPrefix \<equiv> ''apikey:''"
abbreviation ServiceSubjectPrefix :: string where "ServiceSubjectPrefix \<equiv> ''service:''"

definition triggerFields :: "string \<Rightarrow> string \<times> string" where
  "triggerFields subject =
     (if has_prefix subject APIKeySubjectPrefix \<or> has_prefix subject ServiceSubjectPrefix
      then (''api'', []) else (''user'', subject))"

record createScanRequest =
  cr_ProjectID :: string
  cr_SourceKind :: SourceKind
  cr_Families :: "Family list"
  cr_Engines :: "string list"

definition handler_Create ::
  "Orchestrator \<Rightarrow> string \<Rightarrow> string \<Rightarrow> createScanRequest \<Rightarrow> (scan_db, go_err + Scan) state" where
  "handler_Create o1 tenantID subject req =
     do { r \<leftarrow> OverridesForTenant tenantID;
          case r of
            Inl e \<Rightarrow> ret (Inl e)
          | Inr overrides \<Rightarrow>
              let (triggeredBy, requestedBy) = triggerFields subject in
              CreateScan o1 tenantID \<lparr>ci_ProjectID = cr_ProjectID req, ci_SourceKind = cr_SourceKind req,
                ci_Families = cr_Families req, ci_EngineOverrides = overrides,
                ci_RequestedEngines = cr_Engines req, ci_RequestedBy = requestedBy,
                ci_TriggeredBy = triggeredBy\<rparr> }"

definition mapStoreError :: "go_err \<Rightarrow> go_err" where
  "mapStoreError err = (if errors_Is err ErrNotFound then errs_New NotFoundScan ''no such scan'' else err)"

definition isTerminal :: "ScanStatus \<Rightarrow> bool" where
  "isTerminal s \<longleftrightarrow> s = ScanCompleted \<or> s = ScanCompletedWithErrors \<or> s = ScanFailed \<or> s = ScanCancelled"

definition Cancel :: "string \<Rightarrow> string \<Rightarrow> (scan_db, go_err + unit) state" where
  "Cancel tenantID scanID =
     do { r \<leftarrow> GetScan tenantID scanID;
          case r of
            Inl e \<Rightarrow> ret (Inl (mapStoreError e))
          | Inr (scan, _) \<Rightarrow>
              if sc_Status scan = ScanCompleted \<or> sc_Status scan = ScanFailed
                 \<or> sc_Status scan = ScanCompletedWithErrors
              then ret (Inl (errs_New ValidationFieldInvalid
                (''this scan already finished with status '' @ quoted (sc_Status scan))))
              else UpdateScanStatus tenantID scanID ScanCancelled }"

definition configurableFamilies :: "Family list" where
  "configurableFamilies = [''sbom'', ''cbom'', ''qbom'', ''aibom'', ''hbom'']"

definition EnginePolicyUpsert ::
  "Orchestrator \<Rightarrow> string \<Rightarrow> Family \<Rightarrow> string list \<Rightarrow> (string \<times> int) list \<Rightarrow> bool option \<Rightarrow> string
   \<Rightarrow> (scan_db, go_err + EnginePolicy) state" where
  "EnginePolicyUpsert o1 tenantID family engineIDs weights enabled note =
     (if family \<notin> set configurableFamilies then
        ret (Inl (errs_New ValidationFieldInvalid
          (''family must be one of sbom, cbom, qbom, aibom, hbom (got '' @ quoted family @ '')'')))
      else
        let unknown = filter (\<lambda>i. \<not> in_family (or_registry o1) family i) engineIDs in
        if unknown \<noteq> [] then
          ret (Inl (foldl WithDetail
            (errs_New ValidationFieldInvalid (itoa (length unknown) @ '' engine id(s) are not valid for family ''
               @ quoted family @ '': '' @ join '', '' unknown))
            (map (\<lambda>i. [(''engine'', i), (''family'', family)]) unknown)))
        else Policy_Upsert tenantID family engineIDs weights
          (case enabled of None \<Rightarrow> True | Some b \<Rightarrow> b) note)"

definition EnginePolicyDelete :: "string \<Rightarrow> Family \<Rightarrow> (scan_db, go_err + unit) state" where
  "EnginePolicyDelete tenantID family =
     (if family \<notin> set configurableFamilies then
        ret (Inl (errs_New ValidationFieldInvalid
          (''family must be one of sbom, cbom, qbom, aibom, hbom (got '' @ quoted family @ '')'')))
      else Policy_Delete tenantID family)"

section \<open>The system\<close>

text \<open>
  One step: a handler runs to its end, whatever it returns, or the environment moves: time passes
  and the outcomes of the next calls are fixed. \<open>step_tenant\<close> is whose handler ran, if anyone's.
\<close>

inductive system_step :: "Orchestrator \<Rightarrow> string option \<Rightarrow> scan_db \<Rightarrow> scan_db \<Rightarrow> bool" for o1 where
  step_create: "system_step o1 (Some t) w (snd (run_state (handler_Create o1 t subject req) w))"
| step_result: "system_step o1 (Some (sr_TenantID r)) w (snd (run_state (handleResultMessage o1 r) w))"
| step_cancel: "system_step o1 (Some t) w (snd (run_state (Cancel t i) w))"
| step_running: "system_step o1 (Some t) w (snd (run_state (MarkRunRunning t j) w))"
| step_policy: "system_step o1 (Some t) w (snd (run_state (EnginePolicyUpsert o1 t f ids ws en note) w))"
| step_policy_delete: "system_step o1 (Some t) w (snd (run_state (EnginePolicyDelete t f) w))"
| step_event: "system_step o1 (Some (ev_TenantID e)) w (snd (run_state (PublishEvent e) w))"
| step_sweep: "system_step o1 None w (snd (run_state Sweep w))"
| step_env: "en_clock w \<le> now \<Longrightarrow> system_step o1 None w (w\<lparr>en_clock := now, en_outcomes := os\<rparr>)"

definition reaches :: "Orchestrator \<Rightarrow> scan_db \<Rightarrow> scan_db \<Rightarrow> bool" where
  "reaches o1 = (\<lambda>w w'. \<exists>a. system_step o1 a w w')\<^sup>*\<^sup>*"

end
