(* ===== verification/Scan_Laws.thy ===== *)
theory Scan_Laws
  imports Scan_Handlers
begin

text \<open>
  Laws of the orchestrator's handlers. The locale \<open>scan_law\<close> says what a two-state law owes to the
  primitive changes of one tenant's handlers, and proves that every handler then obeys it;
  \<open>system_law\<close> adds the reaper, which acts for all tenants. The laws are its interpretations: tables
  only grow and evolve as the code means them to, a tenant's handler changes nothing of another
  tenant, and only well formed messages are sent.
\<close>

section \<open>Well formed messages\<close>

definition message_tenant :: "payload \<Rightarrow> string" where
  "message_tenant p = (case p of PJob j \<Rightarrow> sj_TenantID j | PTrigger g \<Rightarrow> nt_TenantID g
     | PNotify n \<Rightarrow> ne_TenantID n | PEvent e \<Rightarrow> ev_TenantID e | PResult r \<Rightarrow> sr_TenantID r
     | PRender j \<Rightarrow> rj_TenantID j)"

text \<open>
  Jobs and triggers pass their own validation, go to their own subject and are deduplicated by their
  own id; a job's deadline is half an hour after its issue; a notification is keyed by its scan.
\<close>

definition well_formed :: "message \<Rightarrow> bool" where
  "well_formed m \<longleftrightarrow>
     (case ms_Payload m of
        PJob j \<Rightarrow> Job_Validate j = Inr () \<and> ms_Subject m = Job_Subject j \<and> ms_MsgID m = sj_JobID j
          \<and> sj_DeadlineAt j = sj_IssuedAt j + defaultJobDeadline
      | PTrigger g \<Rightarrow> Trigger_Validate g = Inr () \<and> ms_Subject m = Trigger_Subject g
          \<and> ms_MsgID m = nt_TriggerID g \<and> nt_Family g = FamilySBOM
          \<and> sorted (map na_EngineID (nt_Engines g))
          \<and> list_all (\<lambda>a. na_Status a \<noteq> statusQueued \<and> na_Status a \<noteq> statusRunning) (nt_Engines g)
      | PNotify n \<Rightarrow> ms_Subject m = ''notify.scan.completed'' \<and> ms_MsgID m = ne_ScanID n
          \<and> ne_Status n \<in> set [ScanCompleted, ScanCompletedWithErrors, ScanFailed]
      | PEvent e \<Rightarrow> Event_Validate e = Inr () \<and> ms_Subject m = Event_Subject e \<and> ms_MsgID m = []
      | PResult r \<Rightarrow> False
      | PRender j \<Rightarrow> False)"

text \<open>The trigger a claim names is on the bus.\<close>

definition trigger_published :: "string \<Rightarrow> Family \<Rightarrow> string \<Rightarrow> scan_db \<Rightarrow> bool" where
  "trigger_published i f g w \<longleftrightarrow> (\<exists>m \<in> set (en_outbox w). case ms_Payload m of
     PTrigger p \<Rightarrow> nt_ScanID p = i \<and> nt_Family p = f \<and> nt_TriggerID p = g | _ \<Rightarrow> False)"

section \<open>What a law owes to the handlers of one tenant\<close>

locale scan_law =
  fixes t :: string
    and R :: "scan_db \<Rightarrow> scan_db \<Rightarrow> bool"
  assumes R_refl: "R w w"
    and R_trans: "R w w' \<Longrightarrow> R w' w'' \<Longrightarrow> R w w''"
    and R_io: "R w (after_io w)"
    and R_id: "R w (drop_id w)"
    and R_seq: "R w (w\<lparr>proc_seq := n\<rparr>)"
    and R_send: "well_formed m \<Longrightarrow> message_tenant (ms_Payload m) = t
      \<Longrightarrow> R w (w\<lparr>en_outbox := en_outbox w @ [m]\<rparr>)"
    and R_insert_scan: "sc_TenantID sc = t \<Longrightarrow> insert_scan sc w = Inr (i, w') \<Longrightarrow> R w w'"
    and R_insert_run: "er_TenantID r = t \<Longrightarrow> insert_run r w = Inr w' \<Longrightarrow> R w w'"
    and R_upsert: "er_TenantID r = t \<Longrightarrow> upsert_run r w = Inr (i, w') \<Longrightarrow> R w w'"
    and R_running: "R w (w\<lparr>db_runs := map (\<lambda>r. if er_TenantID r = t \<and> er_JobID r = j
          \<and> er_Status r = statusQueued
        then r\<lparr>er_Status := statusRunning, er_StartedAt := coalesce (er_StartedAt r) (Some (en_clock w))\<rparr>
        else r) (db_runs w)\<rparr>)"
    and R_pin: "R w (w\<lparr>db_scans := map (pin_row t i c a h (en_clock w)) (db_scans w)\<rparr>)"
    and R_status: "R w (w\<lparr>db_scans := map (set_status_row (\<lambda>s. sc_TenantID s = t \<and> sc_ID s = i) st b
        (en_clock w)) (db_scans w)\<rparr>)"
    and R_eco: "ec_TenantID e = t \<Longrightarrow> record_ecosystem e w = Inr (u, w') \<Longrightarrow> R w w'"
    and R_artifact: "ar_TenantID x = t \<Longrightarrow> insert_artifact x w = Inr w' \<Longrightarrow> R w w'"
    and R_trigger: "trigger_published i f g w \<Longrightarrow> mark_triggered t i f g w = Inr (y, w') \<Longrightarrow> R w w'"
    and R_policy: "ep_TenantID p = t \<Longrightarrow> R w (w\<lparr>pl_policies := upsert_policy p (pl_policies w)\<rparr>)"
    and R_no_policy: "R w (w\<lparr>pl_policies := delete_policy (t, f) (pl_policies w)\<rparr>)"

sublocale scan_law \<subseteq> step_law R
  by unfold_locales (blast intro: R_refl R_trans)+

context scan_law
begin

lemma tx: "(\<And>w x w'. fn w = Inr (x, w') \<Longrightarrow> R w w') \<Longrightarrow> state_io_rel R (WithTenant u fn)"
  by (rule law_WithTenant) (auto intro: R_refl R_io R_trans)

lemma read: "state_io_rel R (ReadTenant u q)"
  by (rule law_ReadTenant) (auto intro: R_refl R_io)

lemma fresh: "state_io_rel R uuid_NewString"
  by (rule law_uuid) (rule R_id)

lemma now: "state_io_rel R time_now"
  by (rule law_now) (rule R_refl)

lemma publish:
  "well_formed \<lparr>ms_Subject = s, ms_MsgID = i, ms_Payload = p\<rparr> \<Longrightarrow> message_tenant p = t
   \<Longrightarrow> state_io_rel R (Bus_Publish s i p)"
proof (rule law_Bus_Publish)
  fix w show "R w (after_io w)" by (rule R_io)
next
  fix w
  assume ok: "well_formed \<lparr>ms_Subject = s, ms_MsgID = i, ms_Payload = p\<rparr>" "message_tenant p = t"
  have "R (after_io w) ((after_io w)\<lparr>en_outbox := en_outbox (after_io w) @
      [\<lparr>ms_Subject = s, ms_MsgID = i, ms_Payload = p\<rparr>]\<rparr>)"
    by (rule R_send) (simp_all add: ok)
  then show "R w ((after_io w)\<lparr>en_outbox := en_outbox w @ [\<lparr>ms_Subject = s, ms_MsgID = i, ms_Payload = p\<rparr>]\<rparr>)"
    unfolding after_io_fields by (rule R_trans [OF R_io])
qed

text \<open>The store.\<close>

lemma insert_runs: "list_all (\<lambda>r. er_TenantID r = t) rs \<Longrightarrow> insert_runs rs w = Inr w' \<Longrightarrow> R w w'"
proof (induction rs arbitrary: w)
  case (Cons r rs)
  then obtain w1 where 1: "insert_run r w = Inr w1" and 2: "Scan_Store.insert_runs rs w1 = Inr w'"
    by (auto split: sum.splits)
  show ?case using R_trans [OF R_insert_run [OF _ 1] Cons.IH [OF _ 2]] Cons.prems(1) by simp
qed (simp add: R_refl)

lemma insert_artifacts:
  "list_all (\<lambda>a. ar_TenantID a = t) as \<Longrightarrow> insert_artifacts as w = Inr (u, w') \<Longrightarrow> R w w'"
proof (induction as arbitrary: w)
  case (Cons a as)
  then obtain w1 where 1: "insert_artifact a w = Inr w1" and 2: "Scan_Store.insert_artifacts as w1 = Inr (u, w')"
    by (auto split: sum.splits)
  show ?case using R_trans [OF R_artifact [OF _ 1] Cons.IH [OF _ 2]] Cons.prems(1) by simp
qed (simp add: R_refl)

lemma store_create: "sc_TenantID sc = t \<Longrightarrow> state_io_rel R (Store_CreateScan sc runs)"
  unfolding Store_CreateScan_def
proof (intro bind tx law_intros return)
  fix w x w'
  assume tenant: "sc_TenantID sc = t" and run: "(case insert_scan sc w of Inl e \<Rightarrow> Inl e
    | Inr (i, w1) \<Rightarrow> (case insert_runs (map (new_run_row i (sc_TenantID sc)) runs) w1 of
        Inl e \<Rightarrow> Inl e | Inr w2 \<Rightarrow> Inr ((i, en_clock w), w2))) = Inr (x, w')"
  then obtain i w1 where 1: "insert_scan sc w = Inr (i, w1)"
    and 2: "insert_runs (map (new_run_row i (sc_TenantID sc)) runs) w1 = Inr w'"
    by (auto split: sum.splits prod.splits)
  have "R w w1" using R_insert_scan [OF tenant 1] .
  moreover have "R w1 w'" using tenant by (intro insert_runs [OF _ 2]) (simp add: list_all_iff new_run_row_def)
  ultimately show "R w w'" by (rule R_trans)
qed

lemma set_source: "state_io_rel R (SetSourceOnce t i c a h)"
  unfolding SetSourceOnce_def by (rule tx) (auto intro: R_pin)

lemma update_status: "state_io_rel R (UpdateScanStatus t i s)"
  unfolding UpdateScanStatus_def Let_def by (rule tx) (auto intro: R_status)

lemma upsert: "er_TenantID r = t \<Longrightarrow> state_io_rel R (UpsertEngineRun r)"
  unfolding UpsertEngineRun_def by (rule tx) (auto intro: R_upsert split: sum.splits)

lemma mark_running: "state_io_rel R (MarkRunRunning t j)"
  unfolding MarkRunRunning_def by (rule tx) (auto intro: R_running)

lemma record_ecosystem: "state_io_rel R (RecordEcosystem t i e d b)"
  unfolding RecordEcosystem_def by (rule tx) (erule R_eco [rotated], simp)

lemma record_raw: "state_io_rel R (RecordRawArtifacts t i j as)"
  unfolding RecordRawArtifacts_def
  by (intro law_intros return tx) (erule insert_artifacts [rotated], simp add: list_all_iff)

lemma record_producer: "state_io_rel R (RecordProducerArtifacts t i q as)"
  unfolding RecordProducerArtifacts_def
  by (intro law_intros return tx) (erule insert_artifacts [rotated], simp add: list_all_iff)

lemma mark_trigger:
  "trigger_published i f g w \<Longrightarrow> R w (snd (run_state (MarkNormalizeTriggered t i f g) w))"
  unfolding MarkNormalizeTriggered_def run_WithTenant
proof (cases "mark_triggered t i f g (after_io w)")
  case (Inr p)
  assume pub: "trigger_published i f g w"
  obtain y w' where p: "p = (y, w')" by fastforce
  have "R (after_io w) w'"
    using pub Inr unfolding p by (intro R_trigger [of i f g]) (simp_all add: trigger_published_def)
  then have "R w w'" by (rule R_trans [OF R_io])
  then show "R w (snd (if t = [] then (Inl err_no_tenant, w)
      else if next_outcome w = Io_Fails then (Inl err_database, after_io w)
      else case mark_triggered t i f g (after_io w) of
        Inl e \<Rightarrow> (Inl e, after_io w)
      | Inr (x, w') \<Rightarrow> (if next_outcome w = Io_AckLost then Inl err_database else Inr x, w')))"
    using Inr by (simp add: p R_refl R_io)
qed (simp add: R_refl R_io)

lemma upsert_policy: "state_io_rel R (Policy_Upsert t f ids ws en note)"
  unfolding Policy_Upsert_def Let_def
proof (rule tx)
  fix w :: scan_db and x w'
  let ?p = "\<lparr>ep_ID = fresh_id w, ep_TenantID = t, ep_Family = f, ep_EngineIDs = ids, ep_Weights = ws,
    ep_Enabled = en, ep_Note = note\<rparr>"
  have "R (drop_id w) ((drop_id w)\<lparr>pl_policies := Engine_Policy.upsert_policy ?p (pl_policies (drop_id w))\<rparr>)"
    by (rule R_policy) simp
  then have step: "R w ((drop_id w)\<lparr>pl_policies := Engine_Policy.upsert_policy ?p (pl_policies w)\<rparr>)"
    using R_trans [OF R_id] by simp
  assume "(if f \<notin> set policy_families then Inl err_database
    else case select_policy (pl_policies ((drop_id w)\<lparr>pl_policies := Engine_Policy.upsert_policy ?p (pl_policies w)\<rparr>))
        (t, f) of None \<Rightarrow> Inl err_database
      | Some q \<Rightarrow> Inr (q, (drop_id w)\<lparr>pl_policies := Engine_Policy.upsert_policy ?p (pl_policies w)\<rparr>)) = Inr (x, w')"
  then show "R w w'" using step by (auto split: if_splits option.splits)
qed

lemma delete_policy: "state_io_rel R (Policy_Delete t f)"
  unfolding Policy_Delete_def by (rule tx) (auto intro: R_no_policy)

lemma get_scan: "state_io_rel R (GetScan u i)"
  unfolding GetScan_def by (rule read)

lemma all_terminal: "state_io_rel R (AllRunsTerminal u i)"
  unfolding AllRunsTerminal_def by (rule read)

lemma terminal_statuses: "state_io_rel R (TerminalStatuses u i)"
  unfolding TerminalStatuses_def by (rule read)

lemma coverage_gaps: "state_io_rel R (CoverageGaps u i)"
  unfolding CoverageGaps_def by (rule read)

lemma trigger_id: "state_io_rel R (NormalizeTriggerID u i f)"
  unfolding NormalizeTriggerID_def by (rule read)

lemma overrides: "state_io_rel R (OverridesForTenant u)"
  unfolding OverridesForTenant_def ListForTenant_def by (intro bind law_intros return read)

lemma load_artifacts: "state_io_rel R (LoadRawArtifactsForEngines u i ids)"
  unfolding LoadRawArtifactsForEngines_def by (intro law_intros return read)

lemmas store = return fresh now get_scan all_terminal terminal_statuses coverage_gaps trigger_id
  overrides load_artifacts set_source update_status upsert mark_running record_ecosystem record_raw
  record_producer mark_trigger upsert_policy delete_policy

end

text \<open>What a read can return.\<close>

definition scan_read :: "string \<Rightarrow> string \<Rightarrow> go_err + Scan \<times> EngineRun list \<Rightarrow> bool" where
  "scan_read t i r = (case r of Inl e \<Rightarrow> True | Inr (s, runs) \<Rightarrow>
     sc_TenantID s = t \<and> sc_ID s = i \<and> (\<forall>x \<in> set runs. er_TenantID x = t \<and> er_ScanID x = i))"

lemma GetScan_read: "yields (scan_read t i) (GetScan t i)"
  by (rule yieldsI) (auto simp: scan_read_def GetScan_def run_ReadTenant find_scan_def loadRuns_def visible_runs_def
      scanEngineRunRow_def find_Some_iff split: sum.splits option.splits if_splits)

definition scan_created :: "string \<Rightarrow> go_err + Scan \<Rightarrow> bool" where
  "scan_created t r = (case r of Inl e \<Rightarrow> True | Inr s \<Rightarrow> sc_TenantID s = t)"

lemma Store_CreateScan_read: "yields (scan_created (sc_TenantID sc)) (Store_CreateScan sc runs)"
  unfolding Store_CreateScan_def
  by (intro yields_bind_any yields_intros yields_ret) (simp_all add: scan_created_def)

text \<open>The best runs are keyed by their engine, one per engine, and are runs of the scan.\<close>

lemma latest_step_keyed:
  assumes "distinct (map fst best)" "\<forall>(i, x) \<in> set best. er_EngineID x = i \<and> x \<in> S" "r \<in> S"
  shows "distinct (map fst (latest_step best r))"
    and "\<forall>(i, x) \<in> set (latest_step best r). er_EngineID x = i \<and> x \<in> S"
proof -
  show "distinct (map fst (latest_step best r))"
    using assms(1) by (auto simp: latest_step_def distinct_update split: option.splits)
  show "\<forall>(i, x) \<in> set (latest_step best r). er_EngineID x = i \<and> x \<in> S"
    using assms(2,3) set_AList_update [of "er_EngineID r" r best]
    by (auto simp: latest_step_def split: option.splits)
qed

lemma latest_foldl_keyed:
  assumes "set rs \<subseteq> S" "distinct (map fst best)" "\<forall>(i, x) \<in> set best. er_EngineID x = i \<and> x \<in> S"
  shows "distinct (map fst (foldl latest_step best rs))
    \<and> (\<forall>(i, x) \<in> set (foldl latest_step best rs). er_EngineID x = i \<and> x \<in> S)"
  using assms
proof (induction rs arbitrary: best)
  case (Cons r rs)
  have "r \<in> S" "set rs \<subseteq> S" using Cons.prems(1) by simp_all
  note step = latest_step_keyed [OF Cons.prems(2,3) \<open>r \<in> S\<close>]
  show ?case using Cons.IH [OF \<open>set rs \<subseteq> S\<close> step] by simp
qed simp

lemma latest_keyed:
  "distinct (map fst (latestRunsByEngine runs))
   \<and> (\<forall>(i, x) \<in> set (latestRunsByEngine runs). er_EngineID x = i \<and> x \<in> set runs)"
  using latest_foldl_keyed [of runs "set runs" "[]"] by (simp add: latestRunsByEngine_def)

lemma latest_lookup:
  assumes "i \<in> fst ` set (latestRunsByEngine runs)"
  shows "er_EngineID (the (map_of (latestRunsByEngine runs) i)) = i"
    and "the (map_of (latestRunsByEngine runs) i) \<in> snd ` set (latestRunsByEngine runs)"
proof -
  obtain x where x: "(i, x) \<in> set (latestRunsByEngine runs)" using assms by auto
  then have "map_of (latestRunsByEngine runs) i = Some x" using latest_keyed by (intro map_of_is_SomeI) blast
  then show "er_EngineID (the (map_of (latestRunsByEngine runs) i)) = i"
    "the (map_of (latestRunsByEngine runs) i) \<in> snd ` set (latestRunsByEngine runs)"
    using x latest_keyed [of runs] by force+
qed

definition sound_trigger :: "string \<Rightarrow> string \<Rightarrow> go_err + NormalizeTriggerV1 \<Rightarrow> bool" where
  "sound_trigger t i r = (case r of Inl e \<Rightarrow> True | Inr g \<Rightarrow>
     nt_TenantID g = t \<and> nt_ScanID g = i \<and> nt_Family g = FamilySBOM \<and> sorted (map na_EngineID (nt_Engines g))
     \<and> list_all (\<lambda>a. na_Status a \<noteq> statusQueued \<and> na_Status a \<noteq> statusRunning) (nt_Engines g))"

lemma build_sound_trigger:
  assumes "familyTerminal (latestRunsByEngine runs) (or_registry o1) FamilySBOM"
  shows "yields (sound_trigger (sc_TenantID scan) (sc_ID scan))
    (buildNormalizeTrigger o1 scan (latestRunsByEngine runs) i FamilySBOM)"
proof -
  let ?L = "latestRunsByEngine runs"
  let ?ids = "trigger_engine_ids (or_registry o1) FamilySBOM ?L"
  have ids: "j \<in> set ?ids \<Longrightarrow> j \<in> fst ` set ?L \<and> in_family (or_registry o1) FamilySBOM j" for j
    by (auto simp: trigger_engine_ids_def)
  have engines: "map (\<lambda>j. er_EngineID (the (map_of ?L j))) ?ids = ?ids"
    using ids latest_lookup(1) by (intro map_idI) blast
  have "j \<in> set ?ids \<Longrightarrow> \<not> pending (the (map_of ?L j))" for j
    using assms ids [of j] latest_lookup [of j runs]
    by (auto simp: familyTerminal_def list_ex_iff Let_def)
  then have statuses: "list_all (\<lambda>j. er_Status (the (map_of ?L j)) \<noteq> statusQueued
      \<and> er_Status (the (map_of ?L j)) \<noteq> statusRunning) ?ids"
    by (auto simp: list_all_iff pending_def)
  have "sound_trigger (sc_TenantID scan) (sc_ID scan) (Inr (trigger_envelope scan ?L ?ids i FamilySBOM arts gaps now))" for arts gaps now
    using statuses engines
    by (simp add: sound_trigger_def trigger_envelope_def trigger_engine_def comp_def list_all_iff)
      (simp add: trigger_engine_ids_def)
  moreover have "sound_trigger (sc_TenantID scan) (sc_ID scan) (Inl e)" for e by (simp add: sound_trigger_def)
  ultimately show ?thesis
    unfolding buildNormalizeTrigger_def by (intro yields_intros yields_bind_any yields_ret) simp_all
qed

lemma DeriveScanStatus_range: "DeriveScanStatus ss \<in> set [ScanCompleted, ScanCompletedWithErrors, ScanFailed]"
  by (simp add: DeriveScanStatus_def Let_def)

section \<open>Every handler of a tenant\<close>

context scan_law
begin

lemma publish_job:
  "Job_Validate j = Inr u \<Longrightarrow> sj_TenantID j = t \<Longrightarrow> sj_DeadlineAt j = sj_IssuedAt j + defaultJobDeadline
   \<Longrightarrow> state_io_rel R (publishJob j)"
  unfolding publishJob_def by (rule publish) (simp_all add: well_formed_def message_tenant_def)

lemma publish_producer: "sc_TenantID s = t \<Longrightarrow> state_io_rel R (publish_producer o1 f e s)"
  unfolding publish_producer_def
  by (intro bind law_intros return fresh now publish_job) (auto simp: producer_job_def)

lemma create_scan: "state_io_rel R (CreateScan o1 t inp)"
proof -
  have tenant: "sc_TenantID (scan_request t inp es) = t" for es by (simp add: scan_request_def)
  have store: "state_io_rel R (Store_CreateScan (scan_request t inp es) runs)" for es runs
    by (rule store_create) (rule tenant)
  have read: "yields (scan_created t) (Store_CreateScan (scan_request t inp es) runs)" for es runs
    using Store_CreateScan_read [of "scan_request t inp es" runs] by (simp only: tenant)
  have skipped: "state_io_rel R (record_skipped o1 t i p)" for i p
    unfolding record_skipped_def by (intro law_intros bind for_each return record_ecosystem)
  have planned: "state_io_rel R (planned_run e)" for e
    unfolding planned_run_def by (intro bind now fresh return)
  show ?thesis
    unfolding CreateScan_def publishFetchJob_def publishWebreconJob_def
    by (intro law_intros return bind_result [OF store read] bind [OF map_state] planned
        bind [OF for_each] skipped bind [OF publish_producer] bind)
      (auto simp: scan_created_def intro!: law_intros publish_producer)
qed

lemma fan_out_run: "sc_TenantID s = t \<Longrightarrow> state_io_rel R (fan_out_run o1 s n k r)"
  unfolding fan_out_run_def
  by (intro bind law_intros return now publish_job)
    (auto simp: fan_out_job_def engine_job_def Let_def split: option.splits)

lemma fan_out: "state_io_rel R (FanOut o1 t i)"
  unfolding FanOut_def nativeSBOMRefFor_def
  by (intro bind_result [where Q = "scan_read t i", OF get_scan GetScan_read] law_intros bind return
      load_artifacts fold_state fan_out_run) (auto simp: scan_read_def)

lemma release: "sr_TenantID r = t \<Longrightarrow> state_io_rel R (releaseDependents o1 r)"
  unfolding releaseDependents_def
proof (rule bind_result [where Q = "scan_read t (sr_ScanID r)"])
  assume t: "sr_TenantID r = t"
  show "state_io_rel R (GetScan (sr_TenantID r) (sr_ScanID r))" by (rule get_scan)
  show "yields (scan_read t (sr_ScanID r)) (GetScan (sr_TenantID r) (sr_ScanID r))"
    unfolding t by (rule GetScan_read)
  fix x assume x: "scan_read t (sr_ScanID r) x"
  have skip: "er_TenantID run = t \<Longrightarrow> state_io_rel R (skipDependent run r)" for run
    unfolding skipDependent_def by (intro bind now return upsert) simp
  have one: "sc_TenantID s = t \<Longrightarrow> er_TenantID run = t \<Longrightarrow> state_io_rel R (release_run o1 r s run)" for s run
    unfolding release_run_def
    by (intro bind law_intros return now publish_job skip) (auto simp: engine_job_def)
  show "state_io_rel R (case x of Inl e \<Rightarrow> ret (Inl (retry ''loading scan to release dependents'' e))
      | Inr (scan, runs) \<Rightarrow> Prelude.for_each (release_run o1 r scan) runs)"
    using x by (intro law_intros return for_each_set one) (auto simp: scan_read_def)
qed

lemma notify: "s \<in> set [ScanCompleted, ScanCompletedWithErrors, ScanFailed]
   \<Longrightarrow> state_io_rel R (publishScanCompleted o1 t i s)"
  unfolding publishScanCompleted_def
  by (intro law_intros return bind get_scan now publish)
    (auto simp: well_formed_def message_tenant_def Notify_Subject_def)

lemma recompute: "state_io_rel R (RecomputeScanStatus o1 t i)"
  unfolding RecomputeScanStatus_def
  by (intro law_intros return bind all_terminal terminal_statuses update_status notify)
    (simp only: DeriveScanStatus_range)

lemma claim:
  assumes g: "sound_trigger t i (Inr g)" "Trigger_Validate g = Inr u"
  shows "state_io_rel R (publish_and_claim t i g)"
proof (rule state_io_relI)
  fix a w w''
  let ?pub = "Bus_Publish (Trigger_Subject g) (nt_TriggerID g) (PTrigger g) :: (scan_db, _) state"
  assume run: "run_state (publish_and_claim t i g) w = (a, w'')"
  obtain x w' where x: "run_state ?pub w = (x, w')" by fastforce
  have 1: "state_io_rel R ?pub"
    using g by (intro publish) (auto simp: well_formed_def message_tenant_def sound_trigger_def)
  then have R1: "R w w'" using x by (rule state_io_relD)
  show "R w w''"
  proof (cases x)
    case Inl
    then show ?thesis using run x R1 by (simp add: publish_and_claim_def)
  next
    case (Inr y)
    then have "trigger_published i FamilySBOM (nt_TriggerID g) w'"
      using x g(1) by (auto simp: Bus_Publish_def Let_def trigger_published_def sound_trigger_def
          split: io_outcome.splits)
    then have "R w' (snd (run_state (MarkNormalizeTriggered t i FamilySBOM (nt_TriggerID g)) w'))"
      by (rule mark_trigger)
    then have "R w' w''" using run x Inr by (simp add: publish_and_claim_def split: prod.splits)
    then show ?thesis by (rule R_trans [OF R1])
  qed
qed

lemma build_trigger: "state_io_rel R (buildNormalizeTrigger o1 s l i f)"
  unfolding buildNormalizeTrigger_def
  by (intro law_intros return bind load_artifacts coverage_gaps now)

lemma fire:
  assumes "familyTerminal (latestRunsByEngine runs) (or_registry o1) FamilySBOM" "sc_TenantID s = t"
    and "sr_TenantID r = t" "sc_ID s = sr_ScanID r"
  shows "state_io_rel R (fire_trigger o1 r s (latestRunsByEngine runs) i)"
proof -
  have "yields (sound_trigger t (sr_ScanID r)) (buildNormalizeTrigger o1 s (latestRunsByEngine runs) i FamilySBOM)"
    using build_sound_trigger [OF assms(1), of s] assms(2,4) by simp
  then show ?thesis
    unfolding fire_trigger_def assms(3)
    by (rule bind_result [OF build_trigger]) (intro law_intros return claim, simp_all)
qed

lemma normalize: "sr_TenantID r = t \<Longrightarrow> state_io_rel R (maybeTriggerNormalize o1 r)"
proof -
  assume t: "sr_TenantID r = t"
  have continue: "state_io_rel R (case x of Inl _ \<Rightarrow> ret () | Inr (scan, runs) \<Rightarrow>
      let latest = latestRunsByEngine runs in
      if \<not> familyTerminal latest (or_registry o1) FamilySBOM then ret ()
      else do { r' \<leftarrow> NormalizeTriggerID (sr_TenantID r) (sr_ScanID r) FamilySBOM;
        case r' of Inl _ \<Rightarrow> ret () | Inr existing \<Rightarrow> if existing \<noteq> [] then ret ()
          else do { newID \<leftarrow> uuid_NewString; fire_trigger o1 r scan latest newID } })"
    if "scan_read t (sr_ScanID r) x" for x
    using that t by (intro law_intros return bind trigger_id fresh) (auto simp: scan_read_def intro!: fire)
  show ?thesis
    unfolding maybeTriggerNormalize_def
    by (rule law_option, rule return, rule law_if, rule return,
        rule bind_result [OF get_scan _ continue]) (simp only: t, rule GetScan_read)
qed

lemma handle_result: "sr_TenantID r = t \<Longrightarrow> state_io_rel R (HandleResult o1 r)"
proof -
  assume t: "sr_TenantID r = t"
  have "er_TenantID (run_of_result o1 r) = t" by (simp add: run_of_result_def Let_def t)
  then show ?thesis
    unfolding HandleResult_def record_covered_def t
    by (intro law_intros return bind upsert record_raw for_each record_ecosystem release recompute normalize t)
qed

end

context scan_law
begin

lemma record_fan_out: "sr_TenantID r = t \<Longrightarrow> state_io_rel R (record_and_fan_out o1 r q)"
  unfolding record_and_fan_out_def by (intro bind law_intros return) (simp_all add: record_producer fan_out)

lemma fail_all: "sr_TenantID r = t \<Longrightarrow> state_io_rel R (failAllRuns r)"
  unfolding failAllRuns_def
proof (rule bind_result [where Q = "scan_read t (sr_ScanID r)"])
  assume t: "sr_TenantID r = t"
  show "state_io_rel R (GetScan (sr_TenantID r) (sr_ScanID r))" by (rule get_scan)
  show "yields (scan_read t (sr_ScanID r)) (GetScan (sr_TenantID r) (sr_ScanID r))"
    unfolding t by (rule GetScan_read)
  fix x assume x: "scan_read t (sr_ScanID r) x"
  have "er_TenantID run = t \<Longrightarrow> state_io_rel R (fail_run r run)" for run
    unfolding fail_run_def by (intro law_intros bind return now upsert) simp
  then show "state_io_rel R (case x of Inl e \<Rightarrow> ret (Inl e) | Inr (_, runs) \<Rightarrow> Prelude.for_each (fail_run r) runs)"
    using x by (intro law_intros return for_each_set) (auto simp: scan_read_def)
qed

lemma producer_failure: "sr_TenantID r = t \<Longrightarrow> state_io_rel R (producer_failed o1 r q)"
  unfolding producer_failed_def by (intro bind law_intros return) (simp_all add: fail_all recompute)

lemma fetch_result: "sr_TenantID r = t \<Longrightarrow> state_io_rel R (handleFetchResult o1 r)"
  unfolding handleFetchResult_def
  by (intro bind law_intros return get_scan) (simp_all add: set_source producer_failure record_fan_out)

lemma webrecon_result: "sr_TenantID r = t \<Longrightarrow> state_io_rel R (handleWebreconResult o1 r)"
  unfolding handleWebreconResult_def
  by (intro bind law_intros return get_scan) (simp_all add: set_source producer_failure record_fan_out)

lemma result_message: "sr_TenantID r = t \<Longrightarrow> state_io_rel R (handleResultMessage o1 r)"
  unfolding handleResultMessage_def by (intro law_intros fetch_result webrecon_result handle_result)

lemma create_handler: "state_io_rel R (handler_Create o1 t s q)"
  unfolding handler_Create_def by (intro bind law_intros return overrides create_scan)

lemma cancel: "state_io_rel R (Cancel t i)"
  unfolding Cancel_def by (intro bind law_intros return get_scan update_status)

lemma policy_upsert_handler: "state_io_rel R (EnginePolicyUpsert o1 t f ids ws en note)"
  unfolding EnginePolicyUpsert_def by (intro law_intros return upsert_policy)

lemma policy_delete_handler: "state_io_rel R (EnginePolicyDelete t f)"
  unfolding EnginePolicyDelete_def by (intro law_intros return delete_policy)

lemma seq: "state_io_rel R next_seq"
  by (rule state_io_relI) (auto simp: next_seq_def R_seq)

lemma event: "ev_TenantID e = t \<Longrightarrow> state_io_rel R (PublishEvent e)"
proof -
  assume e: "ev_TenantID e = t"
  let ?Q = "\<lambda>e. ev_TenantID e = t"
  have 1: "yields ?Q (if ev_EventID e = [] then do { i \<leftarrow> uuid_NewString; ret (e\<lparr>ev_EventID := i\<rparr>) } else ret e)"
    if "?Q e" for e using that by (auto intro!: yields_if yields_bind_any yields_ret)
  have 2: "yields ?Q (if ev_TS e = zero_time then do { now \<leftarrow> time_now; ret (e\<lparr>ev_TS := now\<rparr>) } else ret e)"
    if "?Q e" for e using that by (auto intro!: yields_if yields_bind_any yields_ret)
  have 3: "yields ?Q (if ev_Seq e = 0 then do { n \<leftarrow> next_seq; ret (e\<lparr>ev_Seq := n\<rparr>) } else ret e)"
    if "?Q e" for e using that by (auto intro!: yields_if yields_bind_any yields_ret)
  have 4: "state_io_rel R (let e = Sanitize e in case Event_Validate e of Inl _ \<Rightarrow> ret ()
      | Inr _ \<Rightarrow> do { _ \<leftarrow> Bus_Publish (Event_Subject e) [] (PEvent e); ret () })"
    if "?Q e" for e
    using that by (intro law_intros bind return publish) (auto simp: well_formed_def message_tenant_def)
  show ?thesis
    unfolding PublishEvent_def Let_def [of "e\<lparr>ev_SchemaVersion := SchemaScanEventV1\<rparr>"]
    by (rule bind_result [OF _ 1], intro law_intros bind fresh return, simp add: e,
        rule bind_result [OF _ 2], intro law_intros bind now return, assumption,
        rule bind_result [OF _ 3], intro law_intros bind seq return, assumption, rule 4)
qed

lemma run: "state_io_rel R m \<Longrightarrow> R w (snd (run_state m w))"
  by (simp add: state_io_rel_def)

lemma tenant_step:
  assumes "system_step o1 (Some t) w w'"
  shows "R w w'"
  using assms
proof cases
  case (step_create subject req)
  show ?thesis unfolding step_create by (rule run, rule create_handler)
next
  case (step_result r)
  show ?thesis unfolding step_result(2) by (rule run, rule result_message, rule step_result(1) [symmetric])
next
  case (step_cancel i)
  show ?thesis unfolding step_cancel by (rule run, rule cancel)
next
  case (step_running j)
  show ?thesis unfolding step_running by (rule run, rule mark_running)
next
  case (step_policy f ids ws en n)
  show ?thesis unfolding step_policy by (rule run, rule policy_upsert_handler)
next
  case (step_policy_delete f)
  show ?thesis unfolding step_policy_delete by (rule run, rule policy_delete_handler)
next
  case (step_event e)
  show ?thesis unfolding step_event(2) by (rule run, rule event, rule step_event(1) [symmetric])
qed

end

section \<open>The system\<close>

locale system_law =
  fixes R :: "scan_db \<Rightarrow> scan_db \<Rightarrow> bool"
  assumes tenant_law: "scan_law t R"
    and R_reap: "R w (w\<lparr>db_runs := map (reap_run (en_clock w)) (db_runs w)\<rparr>)"
    and R_set_status: "R w (w\<lparr>db_scans := map (set_status_row (\<lambda>s. sc_ID s = i) st b (en_clock w)) (db_scans w)\<rparr>)"
    and R_env: "en_clock w \<le> now \<Longrightarrow> R w (w\<lparr>en_clock := now, en_outcomes := os\<rparr>)"

sublocale system_law \<subseteq> any: scan_law t R for t
  by (rule tenant_law)

context system_law
begin

lemma raw:
  assumes "\<And>w. R w (snd (fn w))"
  shows "state_io_rel R (raw_call fn)"
  unfolding raw_call_def
proof (rule law_Db_Call)
  fix w show "R w (after_io w)" by (rule any.R_io)
next
  fix w x w'
  assume "(Inr (fn (after_io w)) :: go_err + _) = Inr (x, w')"
  then have "w' = snd (fn (after_io w))" by simp
  then have "R (after_io w) w'" using assms by simp
  then show "R w w'" by (rule any.R_trans [OF any.R_io])
qed

lemma reap_scan: "state_io_rel R (reap_scan i)"
  unfolding reap_scan_def
proof (rule any.bind, rule raw)
  show "R w (snd (terminal_statuses_for i w, w))" for w
    unfolding snd_conv by (rule any.R_refl)
  show "state_io_rel R (case r of Inl _ \<Rightarrow> ret (Inr ()) | Inr statuses \<Rightarrow>
      if anyStillRunning statuses then ret (Inr ())
      else do { let derived = DeriveScanStatus statuses;
                let terminal = (derived = ScanCompleted \<or> derived = ScanCompletedWithErrors
                  \<or> derived = ScanFailed);
                _ \<leftarrow> raw_call (set_scan_status i derived terminal);
                ret (Inr ()) })" for r
    by (intro law_intros any.return any.bind raw) (unfold set_scan_status_def snd_conv, rule R_set_status)
qed

lemma sweep: "state_io_rel R Sweep"
  unfolding Sweep_def
proof (rule any.bind, rule raw)
  show "R w (snd (reap_overdue_runs w))" for w
    unfolding reap_overdue_runs_def snd_conv by (rule R_reap)
  show "state_io_rel R (case r of Inl e \<Rightarrow> ret (Inl (Plain ''reap overdue runs'' [e])) | Inr reaped \<Rightarrow>
      do { let affected = rev (remdups (rev (map er_ScanID reaped)));
           _ \<leftarrow> Prelude.for_each reap_scan affected;
           ret (Inr \<lparr>JobsTimedOut = length reaped, ScansAffected = affected\<rparr>) })" for r
    by (intro law_intros any.return any.bind any.for_each reap_scan)
qed

lemma step:
  assumes "system_step o1 a w w'"
  shows "R w w'"
proof (cases a)
  case None
  from assms show ?thesis unfolding None
  proof cases
    case step_sweep
    show ?thesis unfolding step_sweep by (rule any.run, rule sweep)
  next
    case (step_env now os)
    show ?thesis unfolding step_env(1) by (rule R_env, rule step_env(2))
  qed
next
  case (Some t)
  show ?thesis by (rule any.tenant_step, rule assms [unfolded Some])
qed

lemma reach: "reaches o1 w w' \<Longrightarrow> R w w'"
  unfolding reaches_def
  by (induction rule: rtranclp_induct) (blast intro: any.R_refl any.R_trans step)+

end

end
