(* ===== verification/Scan_Example.thy ===== *)
theory Scan_Example
  imports Scan_Handlers
begin

text \<open>
  Histories of the orchestrator: a list of stimuli, each of which runs one handler, and the concrete
  scan whose history the examples of the later theories evaluate.
\<close>

section \<open>Histories\<close>

datatype stimulus =
    Create string string createScanRequest
  | Result ScanResultV1
  | CancelScan string string
  | Started string string
  | Reap
  | Elapse int

text \<open>\<open>Elapse\<close> lets time pass with every call succeeding from there on.\<close>

fun react :: "Orchestrator \<Rightarrow> stimulus \<Rightarrow> scan_db \<Rightarrow> scan_db" where
  "react o1 (Create t subject req) w = snd (run_state (handler_Create o1 t subject req) w)"
| "react o1 (Result r) w = snd (run_state (handleResultMessage o1 r) w)"
| "react o1 (CancelScan t i) w = snd (run_state (Cancel t i) w)"
| "react o1 (Started t j) w = snd (run_state (MarkRunRunning t j) w)"
| "react o1 Reap w = snd (run_state Sweep w)"
| "react o1 (Elapse n) w = w\<lparr>en_clock := en_clock w + max 0 n, en_outcomes := []\<rparr>"

definition history :: "Orchestrator \<Rightarrow> stimulus list \<Rightarrow> scan_db \<Rightarrow> scan_db" where
  "history o1 ss w = fold (react o1) ss w"

lemma react_step: "\<exists>a. system_step o1 a w (react o1 s w)"
  by (cases s; simp only: react.simps; rule exI; rule system_step.intros; simp)

lemma reaches_step: "system_step o1 a u v \<Longrightarrow> reaches o1 u v"
  unfolding reaches_def by (rule r_into_rtranclp) blast

lemma reaches_trans: "reaches o1 u v \<Longrightarrow> reaches o1 v w \<Longrightarrow> reaches o1 u w"
  unfolding reaches_def by (rule rtranclp_trans)

lemma history_reaches: "reaches o1 w (history o1 ss w)"
proof (induction ss arbitrary: w)
  case Nil
  then show ?case by (simp add: history_def reaches_def)
next
  case (Cons s ss)
  obtain a where "system_step o1 a w (react o1 s w)" using react_step by blast
  then have "reaches o1 w (react o1 s w)" by (rule reaches_step)
  moreover have "reaches o1 (react o1 s w) (history o1 ss (react o1 s w))" by (rule Cons.IH)
  ultimately show ?case by (simp add: history_def reaches_trans)
qed

section \<open>One scan\<close>

definition empty_db :: scan_db where
  "empty_db = \<lparr>en_outbox = [], en_clock = 0, en_uuid = (\<lambda>n. ''id'' @ itoa n), en_next = 0,
     en_outcomes = [], pl_policies = [], db_scans = [], db_runs = [], db_artifacts = [],
     db_ecosystems = [], db_triggers = [], proc_seq = 0\<rparr>"

definition ask :: "string list \<Rightarrow> stimulus" where
  "ask engines = Create ''acme'' ''user-7'' \<lparr>cr_ProjectID = ''shop'', cr_SourceKind = SourceGit,
     cr_Families = [FamilySBOM], cr_Engines = engines\<rparr>"

definition result_of :: "string \<Rightarrow> string \<Rightarrow> string \<Rightarrow> EngineStatus \<Rightarrow> ScanResultV1" where
  "result_of scanID jobID engine status = \<lparr>sr_SchemaVersion = SchemaScanResultV1, sr_JobID = jobID,
     sr_ScanID = scanID, sr_TenantID = ''acme'', sr_Engine = engine, sr_EngineVersion = ''1.0'',
     sr_EngineDBVersion = ''db1'', sr_SourceMeta = None,
     sr_Invocation = \<lparr>in_ArgvRedacted = [], in_ImageDigest = [], in_StartedAt = 10,
       in_FinishedAt = 20, in_DurationMS = 1, in_ExitCode = 0\<rparr>,
     sr_Status = status, sr_Artifacts = [], sr_EcosystemsCovered = [], sr_Summary = zero_summary,
     sr_Diagnostics = [], sr_Error = None\<rparr>"

definition fetched :: "string \<Rightarrow> string \<Rightarrow> stimulus" where
  "fetched scanID commit = Result ((result_of scanID ''fetch-1'' ''fetcher'' StatusSucceeded)\<lparr>
     sr_SourceMeta := Some \<lparr>sm_Kind = SourceGit, sm_CommitSHA = commit, sm_ImageDigest = []\<rparr>,
     sr_Artifacts := [\<lparr>af_Role = ''source_archive'', af_URI = ''s3://a/src.tar'', af_MediaType = [],
       af_SHA256 = ''ab12'', af_SizeBytes = 9\<rparr>]\<rparr>)"

definition finish :: "string \<Rightarrow> string \<Rightarrow> string \<Rightarrow> EngineStatus \<Rightarrow> stimulus" where
  "finish scanID jobID engine status = Result (result_of scanID jobID engine status)"

abbreviation after :: "stimulus list \<Rightarrow> scan_db" where
  "after ss \<equiv> history default_orchestrator ss empty_db"

end
