(* ===== verification/Scan_Invariants.thy ===== *)
theory Scan_Invariants
  imports Scan_Laws Scan_Example
begin

text \<open>
  The laws of the orchestrator as interpretations of \<open>system_law\<close> and \<open>scan_law\<close>, and the properties
  that follow for every reachable state: what a scan, a run and an artifact keep for ever, what the
  constraints of the schema guarantee, whose rows a handler can touch, and what goes on the bus.
\<close>

section \<open>How the tables evolve\<close>

definition scan_step :: "scan_row \<Rightarrow> scan_row \<Rightarrow> bool" where
  "scan_step a b \<longleftrightarrow>
     sc_ID (row_Scan b) = sc_ID (row_Scan a) \<and> sc_TenantID (row_Scan b) = sc_TenantID (row_Scan a)
     \<and> sc_ProjectID (row_Scan b) = sc_ProjectID (row_Scan a)
     \<and> sc_SourceKind (row_Scan b) = sc_SourceKind (row_Scan a)
     \<and> sc_TriggeredBy (row_Scan b) = sc_TriggeredBy (row_Scan a)
     \<and> sc_TriggerRef (row_Scan b) = sc_TriggerRef (row_Scan a)
     \<and> sc_Families (row_Scan b) = sc_Families (row_Scan a)
     \<and> sc_EnginesRequested (row_Scan b) = sc_EnginesRequested (row_Scan a)
     \<and> sc_CreatedAt (row_Scan b) = sc_CreatedAt (row_Scan a)
     \<and> (row_Pinned a \<longrightarrow> row_Pinned b \<and> sc_CommitSHA (row_Scan b) = sc_CommitSHA (row_Scan a)
          \<and> sc_ArchiveRef (row_Scan b) = sc_ArchiveRef (row_Scan a)
          \<and> sc_ArchiveSHA256 (row_Scan b) = sc_ArchiveSHA256 (row_Scan a))
     \<and> (sc_StartedAt (row_Scan a) \<noteq> None \<longrightarrow> sc_StartedAt (row_Scan b) = sc_StartedAt (row_Scan a))
     \<and> (sc_FinishedAt (row_Scan a) \<noteq> None \<longrightarrow> sc_FinishedAt (row_Scan b) = sc_FinishedAt (row_Scan a))"

definition run_step :: "EngineRun \<Rightarrow> EngineRun \<Rightarrow> bool" where
  "run_step a b \<longleftrightarrow>
     er_ID b = er_ID a \<and> er_ScanID b = er_ScanID a \<and> er_TenantID b = er_TenantID a
     \<and> er_JobID b = er_JobID a \<and> er_EngineID b = er_EngineID a \<and> er_Attempt b = er_Attempt a
     \<and> er_Weight b = er_Weight a \<and> er_DeadlineAt b = er_DeadlineAt a
     \<and> (er_StartedAt a \<noteq> None \<longrightarrow> er_StartedAt b = er_StartedAt a)"

definition eco_step :: "ecosystem_row \<Rightarrow> ecosystem_row \<Rightarrow> bool" where
  "eco_step a b \<longleftrightarrow> eco_key b = eco_key a \<and> ec_TenantID b = ec_TenantID a"

definition tables_evolve :: "scan_db \<Rightarrow> scan_db \<Rightarrow> bool" where
  "tables_evolve w w' \<longleftrightarrow>
     evolves scan_step (db_scans w) (db_scans w') \<and> evolves run_step (db_runs w) (db_runs w')
     \<and> prefix (db_artifacts w) (db_artifacts w') \<and> prefix (db_triggers w) (db_triggers w')
     \<and> evolves eco_step (db_ecosystems w) (db_ecosystems w') \<and> prefix (en_outbox w) (en_outbox w')"

lemma step_refl [simp]: "scan_step s s" "run_step r r" "eco_step e e"
  by (simp_all add: scan_step_def run_step_def eco_step_def)

lemma step_trans:
  "scan_step a b \<Longrightarrow> scan_step b c \<Longrightarrow> scan_step a c"
  "run_step x y \<Longrightarrow> run_step y z \<Longrightarrow> run_step x z"
  "eco_step p q \<Longrightarrow> eco_step q r \<Longrightarrow> eco_step p r"
  by (simp_all add: scan_step_def run_step_def eco_step_def)

lemma evolves_self [simp]:
  "evolves scan_step ss ss" "evolves run_step rs rs" "evolves eco_step es es"
  by (simp_all add: evolves_refl)

lemma evolves_added [simp]:
  "evolves scan_step ss (ss @ ss')" "evolves run_step rs (rs @ rs')" "evolves eco_step es (es @ es')"
  by (simp_all add: evolves_snoc)

lemma row_changes:
  "scan_step s (pin_row t i c a h now s)" "scan_step s (set_status_row P st b now s)"
  "run_step x (upsert_update r x)" "run_step x (reap_run now x)"
  by (cases "sc_StartedAt (row_Scan s)"; cases "sc_FinishedAt (row_Scan s)"; cases "er_StartedAt x";
      simp add: scan_step_def run_step_def pin_row_def set_status_row_def upsert_update_def reap_run_def)+

lemma row_available: "eco_step x (x\<lparr>ec_Available := b\<rparr>)"
  by (simp add: eco_step_def eco_key_def)

lemma row_started:
  "run_step x (x\<lparr>er_Status := s, er_StartedAt := coalesce (er_StartedAt x) v\<rparr>)"
  by (cases "er_StartedAt x") (simp_all add: run_step_def)

text \<open>What the primitive inserts do to the tables.\<close>

lemma insert_run_effect:
  "insert_run r w = Inr w' \<Longrightarrow>
   w' = (drop_id w)\<lparr>db_runs := db_runs w @ [r\<lparr>er_ID := fresh_id w, er_Family := []\<rparr>]\<rparr>
   \<and> run_row_ok r \<and> er_ScanID r \<in> (sc_ID \<circ> row_Scan) ` set (db_scans w)
   \<and> er_JobID r \<notin> er_JobID ` set (db_runs w) \<and> run_key r \<notin> run_key ` set (db_runs w)
   \<and> fresh_id w \<notin> er_ID ` set (db_runs w)"
  unfolding insert_run_def Let_def by (auto split: if_splits)

lemma upsert_run_effect:
  assumes "upsert_run r w = Inr (i, w')"
  obtains "insert_run (r\<lparr>er_DeadlineAt := None\<rparr>) w = Inr w'"
  | "w' = w\<lparr>db_runs := map (\<lambda>x. if er_JobID x = er_JobID r then upsert_update r x else x) (db_runs w)\<rparr>"
    "\<exists>x \<in> set (db_runs w). er_JobID x = er_JobID r \<and> er_TenantID x = er_TenantID r" "run_row_ok r"
proof (cases "find (\<lambda>x. er_JobID x = er_JobID r) (db_runs w)")
  case None
  with assms that(1) show ?thesis by (auto simp: upsert_run_def split: if_splits sum.splits)
next
  case (Some x)
  then have "x \<in> set (db_runs w) \<and> er_JobID x = er_JobID r" by (auto simp: find_Some_iff)
  with Some assms that(2) show ?thesis by (auto simp: upsert_run_def split: if_splits)
qed

lemma eco_effect:
  assumes "record_ecosystem e w = Inr (u, w')"
  obtains "w' = w\<lparr>db_ecosystems := db_ecosystems w @ [e]\<rparr>" "eco_key e \<notin> eco_key ` set (db_ecosystems w)"
    "scan_exists (ec_ScanID e) w"
  | "w' = w\<lparr>db_ecosystems := map (\<lambda>x. if eco_key x = eco_key e then x\<lparr>ec_Available := ec_Available e\<rparr> else x)
       (db_ecosystems w)\<rparr>"
    "\<exists>x \<in> set (db_ecosystems w). eco_key x = eco_key e \<and> ec_TenantID x = ec_TenantID e"
proof (cases "find (\<lambda>x. eco_key x = eco_key e) (db_ecosystems w)")
  case None
  then have "eco_key e \<notin> eco_key ` set (db_ecosystems w)" by (auto simp: find_None_iff image_iff)
  with None assms that(1) show ?thesis by (auto simp: record_ecosystem_def split: if_splits)
next
  case (Some x)
  then have "x \<in> set (db_ecosystems w) \<and> eco_key x = eco_key e" by (auto simp: find_Some_iff)
  with Some assms that(2) show ?thesis by (auto simp: record_ecosystem_def split: if_splits)
qed

lemma eco_keep [simp]: "eco_key (x\<lparr>ec_Available := b\<rparr>) = eco_key x"
  by (simp add: eco_key_def)

lemma artifact_effect:
  "insert_artifact a w = Inr w' \<Longrightarrow> w' = w\<lparr>db_artifacts := db_artifacts w @ [a]\<rparr>
   \<and> scan_exists (ar_ScanID a) w \<and> (ar_EngineRunID a = []) \<noteq> (ar_Producer a = [])
   \<and> (ar_EngineRunID a \<noteq> [] \<longrightarrow> ar_EngineRunID a \<in> er_ID ` set (db_runs w))"
  unfolding insert_artifact_def by (auto split: if_splits)

lemma trigger_effect:
  assumes "mark_triggered t i f g w = Inr (y, w')"
  obtains "w' = w"
  | "w' = w\<lparr>db_triggers := db_triggers w @ [\<lparr>tr_ScanID = i, tr_TenantID = t, tr_Family = f, tr_TriggerID = g\<rparr>]\<rparr>"
    "\<forall>x \<in> set (db_triggers w). \<not> (tr_ScanID x = i \<and> tr_Family x = f)" "scan_exists i w"
  using assms unfolding mark_triggered_def by (auto simp: list_ex_iff split: if_splits option.splits)

lemma insert_scan_effect:
  "insert_scan sc w = Inr (i, w') \<Longrightarrow> i = fresh_id w \<and> i \<notin> (sc_ID \<circ> row_Scan) ` set (db_scans w)
   \<and> (\<exists>s. w' = (drop_id w)\<lparr>db_scans := db_scans w @ [\<lparr>row_Scan = s, row_Pinned = False\<rparr>]\<rparr>
        \<and> sc_ID s = i \<and> sc_TenantID s = sc_TenantID sc)"
  unfolding insert_scan_def Let_def by (auto split: if_splits)

interpretation evolving: system_law tables_evolve
proof unfold_locales
  show "tables_evolve w w" for w by (simp add: tables_evolve_def)
  show "tables_evolve u w" if "tables_evolve u v" "tables_evolve v w" for u v w
    using that unfolding tables_evolve_def
    by (meson evolves_trans [of scan_step] evolves_trans [of run_step] evolves_trans [of eco_step]
        step_trans prefix_order.trans)
qed (auto simp: tables_evolve_def evolves_map row_changes row_started row_available
     elim!: upsert_run_effect eco_effect trigger_effect
     dest!: insert_run_effect insert_scan_effect artifact_effect)

section \<open>The constraints of the schema\<close>

definition scan_ids :: "scan_db \<Rightarrow> string set" where
  "scan_ids w = set (map (sc_ID \<circ> row_Scan) (db_scans w))"

definition trigger_key :: "trigger_row \<Rightarrow> string \<times> Family" where
  "trigger_key x = (tr_ScanID x, tr_Family x)"

definition db_sound :: "scan_db \<Rightarrow> bool" where
  "db_sound w \<longleftrightarrow>
     distinct (map (sc_ID \<circ> row_Scan) (db_scans w))
     \<and> distinct (map er_ID (db_runs w)) \<and> distinct (map er_JobID (db_runs w))
     \<and> distinct (map run_key (db_runs w)) \<and> list_all run_row_ok (db_runs w)
     \<and> er_ScanID ` set (db_runs w) \<subseteq> scan_ids w
     \<and> list_all (\<lambda>a. (ar_EngineRunID a = []) \<noteq> (ar_Producer a = [])) (db_artifacts w)
     \<and> ar_ScanID ` set (db_artifacts w) \<subseteq> scan_ids w
     \<and> ar_EngineRunID ` set (db_artifacts w) \<subseteq> insert [] (er_ID ` set (db_runs w))
     \<and> distinct (map trigger_key (db_triggers w)) \<and> tr_ScanID ` set (db_triggers w) \<subseteq> scan_ids w
     \<and> distinct (map eco_key (db_ecosystems w)) \<and> ec_ScanID ` set (db_ecosystems w) \<subseteq> scan_ids w"

lemma scan_keys_keep [simp]:
  "sc_ID (row_Scan (pin_row t i c a h now s)) = sc_ID (row_Scan s)"
  "sc_ID (row_Scan (set_status_row P st b now s)) = sc_ID (row_Scan s)"
  "sc_TenantID (row_Scan (pin_row t i c a h now s)) = sc_TenantID (row_Scan s)"
  "sc_TenantID (row_Scan (set_status_row P st b now s)) = sc_TenantID (row_Scan s)"
  by (simp_all add: pin_row_def set_status_row_def)

lemma run_keys_keep [simp]:
  "er_ID (upsert_update r x) = er_ID x" "er_JobID (upsert_update r x) = er_JobID x"
  "run_key (upsert_update r x) = run_key x" "er_ScanID (upsert_update r x) = er_ScanID x"
  "er_TenantID (upsert_update r x) = er_TenantID x"
  "er_ID (reap_run now x) = er_ID x" "er_JobID (reap_run now x) = er_JobID x"
  "run_key (reap_run now x) = run_key x" "er_ScanID (reap_run now x) = er_ScanID x"
  "er_TenantID (reap_run now x) = er_TenantID x"
  by (simp_all add: upsert_update_def reap_run_def run_key_def)

lemma run_key_keep [simp]:
  "run_key (x\<lparr>er_Status := s, er_StartedAt := v\<rparr>) = run_key x"
  "run_key (x\<lparr>er_ID := i, er_Family := f\<rparr>) = run_key x" "run_key (x\<lparr>er_DeadlineAt := d\<rparr>) = run_key x"
  by (simp_all add: run_key_def)

lemma row_ok_keep [simp]:
  "run_row_ok r \<Longrightarrow> run_row_ok x \<Longrightarrow> run_row_ok (upsert_update r x)"
  "run_row_ok x \<Longrightarrow> run_row_ok (reap_run now x)"
  "run_row_ok x \<Longrightarrow> run_row_ok (x\<lparr>er_Status := statusRunning, er_StartedAt := v\<rparr>)"
  "run_row_ok (x\<lparr>er_ID := i, er_Family := f\<rparr>) = run_row_ok x" "run_row_ok (x\<lparr>er_DeadlineAt := d\<rparr>) = run_row_ok x"
  by (simp_all add: run_row_ok_def upsert_update_def reap_run_def engine_run_statuses_def)

text \<open>A map over a table that keeps a key keeps the list of its keys.\<close>

lemma map_keeps:
  "(\<And>x. k (f x) = k x) \<Longrightarrow> map k (map f xs) = map k xs"
  "(\<And>x. k (f x) = k x) \<Longrightarrow> k ` f ` set xs = k ` set xs"
  by (induction xs) auto

lemma sound_scans:
  assumes "db_sound w" "map (sc_ID \<circ> row_Scan) ss = map (sc_ID \<circ> row_Scan) (db_scans w)"
  shows "db_sound (w\<lparr>db_scans := ss\<rparr>)"
  using assms unfolding db_sound_def scan_ids_def by simp

lemma sound_runs:
  assumes "db_sound w" "rs = map f (db_runs w)"
    and "\<And>x. er_ID (f x) = er_ID x \<and> er_JobID (f x) = er_JobID x \<and> run_key (f x) = run_key x"
    and "\<And>x. run_row_ok x \<Longrightarrow> run_row_ok (f x)"
  shows "db_sound (w\<lparr>db_runs := rs\<rparr>)"
proof -
  have "er_ScanID (f x) = er_ScanID x" for x using assms(3) [of x] by (simp add: run_key_def)
  then have "er_ScanID ` f ` set (db_runs w) = er_ScanID ` set (db_runs w)" by (rule map_keeps(2))
  moreover have "er_ID ` f ` set (db_runs w) = er_ID ` set (db_runs w)"
    by (rule map_keeps(2)) (simp add: assms(3))
  moreover have "er_ID \<circ> f = er_ID" "er_JobID \<circ> f = er_JobID" "run_key \<circ> f = run_key"
    by (simp_all add: fun_eq_iff assms(3))
  ultimately show ?thesis
    using assms(1,4) unfolding db_sound_def scan_ids_def assms(2) by (simp add: list_all_iff)
qed

definition keeps_sound :: "scan_db \<Rightarrow> scan_db \<Rightarrow> bool" where
  "keeps_sound w w' \<longleftrightarrow> (db_sound w \<longrightarrow> db_sound w')"

lemma sound_env [simp]:
  "db_sound (after_io w) = db_sound w" "db_sound (drop_id w) = db_sound w"
  "db_sound (w\<lparr>en_outbox := ms\<rparr>) = db_sound w" "db_sound (w\<lparr>proc_seq := n\<rparr>) = db_sound w"
  "db_sound (w\<lparr>pl_policies := ps\<rparr>) = db_sound w"
  "db_sound (w\<lparr>en_clock := now, en_outcomes := os\<rparr>) = db_sound w"
  by (simp_all add: db_sound_def scan_ids_def)

lemma sound_insert_scan:
  assumes w: "db_sound w" and "insert_scan sc w = Inr (i, w')"
  shows "db_sound w'"
proof -
  obtain s where i: "i \<notin> (sc_ID \<circ> row_Scan) ` set (db_scans w)" and s: "sc_ID s = i"
    and w': "w' = (drop_id w)\<lparr>db_scans := db_scans w @ [\<lparr>row_Scan = s, row_Pinned = False\<rparr>]\<rparr>"
    using insert_scan_effect [OF assms(2)] by blast
  have "scan_ids w' = insert i (scan_ids w)" by (auto simp: scan_ids_def w' s)
  moreover have "distinct (map (sc_ID \<circ> row_Scan) (db_scans w'))"
    using w i by (simp add: w' s db_sound_def)
  ultimately show ?thesis
    using w unfolding db_sound_def by (simp add: w' subset_insertI2)
qed

lemma sound_insert_run: "db_sound w \<Longrightarrow> insert_run r w = Inr w' \<Longrightarrow> db_sound w'"
  by (drule insert_run_effect) (auto simp: db_sound_def scan_ids_def run_key_def)

lemma sound_upsert: "db_sound w \<Longrightarrow> upsert_run r w = Inr (i, w') \<Longrightarrow> db_sound w'"
  by (erule upsert_run_effect, blast intro: sound_insert_run) (auto intro!: sound_runs)

lemma sound_eco: "db_sound w \<Longrightarrow> record_ecosystem e w = Inr (u, w') \<Longrightarrow> db_sound w'"
proof (erule eco_effect)
  assume w: "db_sound w" and w': "w' = w\<lparr>db_ecosystems := map (\<lambda>x. if eco_key x = eco_key e
      then x\<lparr>ec_Available := ec_Available e\<rparr> else x) (db_ecosystems w)\<rparr>" (is "_ = w\<lparr>db_ecosystems := map ?f _\<rparr>")
  have "eco_key \<circ> ?f = eco_key" by (simp add: fun_eq_iff)
  moreover have "ec_ScanID ` ?f ` set (db_ecosystems w) = ec_ScanID ` set (db_ecosystems w)"
    by (rule map_keeps(2)) simp
  ultimately show ?thesis using w unfolding w' db_sound_def scan_ids_def by simp
qed (auto simp: db_sound_def scan_ids_def scan_exists_def)

lemma sound_artifact: "db_sound w \<Longrightarrow> insert_artifact a w = Inr w' \<Longrightarrow> db_sound w'"
  by (drule artifact_effect) (auto simp: db_sound_def scan_ids_def scan_exists_def)

lemma sound_trigger: "db_sound w \<Longrightarrow> mark_triggered t i f g w = Inr (y, w') \<Longrightarrow> db_sound w'"
  by (erule trigger_effect) (auto simp: db_sound_def scan_ids_def scan_exists_def trigger_key_def)

interpretation schema: system_law keeps_sound
  by unfold_locales
    (auto simp: keeps_sound_def intro!: sound_scans sound_runs
       intro: sound_insert_scan sound_insert_run sound_upsert sound_eco sound_artifact sound_trigger)

section \<open>Whose rows a handler touches\<close>

text \<open>The rows of the other tenants, and what a handler of tenant \<open>t\<close> leaves of them: all of them.\<close>

definition foreign :: "string \<Rightarrow> scan_db \<Rightarrow> scan_db" where
  "foreign t w = w\<lparr>pl_policies := filter (\<lambda>p. ep_TenantID p \<noteq> t) (pl_policies w),
     db_scans := filter (\<lambda>s. sc_TenantID (row_Scan s) \<noteq> t) (db_scans w),
     db_runs := filter (\<lambda>r. er_TenantID r \<noteq> t) (db_runs w),
     db_artifacts := filter (\<lambda>a. ar_TenantID a \<noteq> t) (db_artifacts w),
     db_ecosystems := filter (\<lambda>e. ec_TenantID e \<noteq> t) (db_ecosystems w),
     db_triggers := filter (\<lambda>x. tr_TenantID x \<noteq> t) (db_triggers w)\<rparr>"

definition same_tables :: "scan_db \<Rightarrow> scan_db \<Rightarrow> bool" where
  "same_tables v w \<longleftrightarrow> pl_policies v = pl_policies w \<and> db_scans v = db_scans w \<and> db_runs v = db_runs w
     \<and> db_artifacts v = db_artifacts w \<and> db_ecosystems v = db_ecosystems w \<and> db_triggers v = db_triggers w"

definition only_tenant :: "string \<Rightarrow> scan_db \<Rightarrow> scan_db \<Rightarrow> bool" where
  "only_tenant t w w' \<longleftrightarrow> same_tables (foreign t w) (foreign t w')
     \<and> (\<exists>ms. en_outbox w' = en_outbox w @ ms \<and> list_all (\<lambda>m. message_tenant (ms_Payload m) = t) ms)"

lemma filter_map_id:
  "(\<And>x. x \<in> set xs \<Longrightarrow> P (f x) = P x) \<Longrightarrow> (\<And>x. x \<in> set xs \<Longrightarrow> P x \<Longrightarrow> f x = x)
   \<Longrightarrow> filter P (map f xs) = filter P xs"
  by (induction xs) auto

lemma own_scan_rows [simp]:
  "filter (\<lambda>s. sc_TenantID (row_Scan s) \<noteq> t) (map (pin_row t i c a h now) ss)
     = filter (\<lambda>s. sc_TenantID (row_Scan s) \<noteq> t) ss"
  "filter (\<lambda>s. sc_TenantID (row_Scan s) \<noteq> t)
      (map (set_status_row (\<lambda>s. sc_TenantID s = t \<and> sc_ID s = i) st b now) ss)
     = filter (\<lambda>s. sc_TenantID (row_Scan s) \<noteq> t) ss"
  by (rule filter_map_id; simp add: pin_row_def set_status_row_def)+

lemma own_runs [simp]:
  "filter (\<lambda>r. er_TenantID r \<noteq> t) (map (\<lambda>r. if er_TenantID r = t \<and> er_JobID r = j \<and> P r
      then r\<lparr>er_Status := s, er_StartedAt := f r\<rparr> else r) rs) = filter (\<lambda>r. er_TenantID r \<noteq> t) rs"
  by (rule filter_map_id) auto

text \<open>
  An upsert finds its row by \<^verbatim>\<open>job_id\<close> or its ecosystem key alone, without the tenant: that the row it
  changes is the tenant's own rests on the uniqueness of those keys.
\<close>

lemma key_owner:
  assumes "distinct (map k xs)" "y \<in> set xs" "x \<in> set xs" "k x = k y"
  shows "x = y"
  using assms by (auto simp: distinct_map inj_on_def)

lemma same_outbox [simp]: "(\<exists>ms. xs = xs @ ms \<and> list_all P ms) = True"
  by (auto intro: exI [of _ "[]"])

lemma sent_one [simp]: "(\<exists>ms. xs @ [m] = xs @ ms \<and> list_all P ms) = P m"
  by auto

definition isolated :: "string \<Rightarrow> scan_db \<Rightarrow> scan_db \<Rightarrow> bool" where
  "isolated t w w' \<longleftrightarrow> keeps_sound w w' \<and> (db_sound w \<longrightarrow> only_tenant t w w')"

lemma only_refl: "only_tenant t w w"
  by (simp add: only_tenant_def same_tables_def)

lemma only_trans: "only_tenant t u v \<Longrightarrow> only_tenant t v w \<Longrightarrow> only_tenant t u w"
  unfolding only_tenant_def same_tables_def by (auto simp: list_all_append)

lemma only_runs:
  "filter (\<lambda>r. er_TenantID r \<noteq> t) rs = filter (\<lambda>r. er_TenantID r \<noteq> t) (db_runs w)
   \<Longrightarrow> only_tenant t w (w\<lparr>db_runs := rs\<rparr>)"
  by (simp add: only_tenant_def same_tables_def foreign_def)

lemma only_insert_run: "er_TenantID r = t \<Longrightarrow> insert_run r w = Inr w' \<Longrightarrow> only_tenant t w w'"
  by (drule insert_run_effect) (auto simp: only_tenant_def same_tables_def foreign_def)

lemma only_upsert:
  assumes w: "db_sound w" and "er_TenantID r = t" "upsert_run r w = Inr (i, w')"
  shows "only_tenant t w w'"
  using assms(3)
proof (cases rule: upsert_run_effect)
  case 1
  then show ?thesis by (rule only_insert_run [rotated]) (simp add: assms(2))
next
  case 2
  then obtain y where y: "y \<in> set (db_runs w)" "er_JobID y = er_JobID r" "er_TenantID y = t"
    using assms(2) by auto
  have "er_TenantID x = t" if "x \<in> set (db_runs w)" "er_JobID x = er_JobID r" for x
    using key_owner [of er_JobID "db_runs w" y x] w that y by (auto simp: db_sound_def)
  then show ?thesis unfolding 2(1) by (intro only_runs filter_map_id) auto
qed

lemma only_eco:
  assumes w: "db_sound w" and "ec_TenantID e = t" "record_ecosystem e w = Inr (u, w')"
  shows "only_tenant t w w'"
  using assms(3)
proof (cases rule: eco_effect)
  case 1
  then show ?thesis using assms(2) by (simp add: only_tenant_def same_tables_def foreign_def)
next
  case 2
  then obtain y where y: "y \<in> set (db_ecosystems w)" "eco_key y = eco_key e" "ec_TenantID y = t"
    using assms(2) by auto
  have "ec_TenantID x = t" if "x \<in> set (db_ecosystems w)" "eco_key x = eco_key e" for x
    using key_owner [of eco_key "db_ecosystems w" y x] w that y by (auto simp: db_sound_def)
  then have "filter (\<lambda>e. ec_TenantID e \<noteq> t) (map (\<lambda>x. if eco_key x = eco_key e
      then x\<lparr>ec_Available := ec_Available e\<rparr> else x) (db_ecosystems w)) = filter (\<lambda>e. ec_TenantID e \<noteq> t) (db_ecosystems w)"
    by (intro filter_map_id) auto
  then show ?thesis unfolding 2(1) by (simp add: only_tenant_def same_tables_def foreign_def)
qed

lemma only_simple:
  "sc_TenantID sc = t \<Longrightarrow> insert_scan sc w = Inr (i, w') \<Longrightarrow> only_tenant t w w'"
  "ar_TenantID x = t \<Longrightarrow> insert_artifact x w = Inr w' \<Longrightarrow> only_tenant t w w'"
  "mark_triggered t i f g w = Inr (y, w') \<Longrightarrow> only_tenant t w w'"
  by (auto simp: only_tenant_def same_tables_def foreign_def
     dest!: insert_scan_effect artifact_effect elim!: trigger_effect)

lemma only_policies:
  "ep_TenantID p = t \<Longrightarrow> only_tenant t w (w\<lparr>pl_policies := upsert_policy p (pl_policies w)\<rparr>)"
  "only_tenant t w (w\<lparr>pl_policies := delete_policy (t, f) (pl_policies w)\<rparr>)"
proof -
  assume p: "ep_TenantID p = t"
  have "filter (\<lambda>q. ep_TenantID q \<noteq> t) (upsert_policy p ps) = filter (\<lambda>q. ep_TenantID q \<noteq> t) ps" for ps
    unfolding upsert_policy_def using p by (auto simp: policy_key_def intro!: filter_map_id split: if_splits)
  then show "only_tenant t w (w\<lparr>pl_policies := upsert_policy p (pl_policies w)\<rparr>)"
    by (simp add: only_tenant_def same_tables_def foreign_def)
next
  have "filter (\<lambda>q. ep_TenantID q \<noteq> t) (delete_policy (t, f) ps) = filter (\<lambda>q. ep_TenantID q \<noteq> t) ps" for ps
    by (auto simp: delete_policy_def policy_key_def intro!: filter_cong)
  then show "only_tenant t w (w\<lparr>pl_policies := delete_policy (t, f) (pl_policies w)\<rparr>)"
    by (simp add: only_tenant_def same_tables_def foreign_def)
qed

lemma isolatedI: "keeps_sound w w' \<Longrightarrow> (db_sound w \<Longrightarrow> only_tenant t w w') \<Longrightarrow> isolated t w w'"
  by (simp add: isolated_def)

interpretation isolation: scan_law t "isolated t" for t
proof unfold_locales
  show "isolated t u w" if "isolated t u v" "isolated t v w" for u v w
    using that unfolding isolated_def keeps_sound_def by (blast intro: only_trans)
  show "isolated t w w'" if "er_TenantID r = t" "upsert_run r w = Inr (i, w')" for r w i w'
    using that by (intro isolatedI schema.any.R_upsert only_upsert)
  show "isolated t w w'" if "ec_TenantID e = t" "record_ecosystem e w = Inr (u, w')" for e w u w'
    using that by (intro isolatedI schema.any.R_eco only_eco)
  show "isolated t w w'" if "sc_TenantID sc = t" "insert_scan sc w = Inr (i, w')" for sc w i w'
    using that by (intro isolatedI schema.any.R_insert_scan only_simple)
  show "isolated t w w'" if "er_TenantID r = t" "insert_run r w = Inr w'" for r w w'
    using that by (intro isolatedI schema.any.R_insert_run only_insert_run)
  show "isolated t w w'" if "ar_TenantID x = t" "insert_artifact x w = Inr w'" for x w w'
    using that by (intro isolatedI schema.any.R_artifact only_simple)
  show "isolated t w w'" if "trigger_published i f g w"
    "mark_triggered t i f g w = Inr (y, w')" for i f g w y w'
    using that by (intro isolatedI schema.any.R_trigger only_simple)
  show "isolated t w (w\<lparr>pl_policies := upsert_policy p (pl_policies w)\<rparr>)" if "ep_TenantID p = t" for p w
    using that by (intro isolatedI schema.any.R_policy only_policies)
  show "isolated t w (w\<lparr>pl_policies := delete_policy (t, f) (pl_policies w)\<rparr>)" for f w
    by (intro isolatedI schema.any.R_no_policy only_policies)
  show "isolated t w (w\<lparr>db_runs := map (\<lambda>r. if er_TenantID r = t \<and> er_JobID r = j
      \<and> er_Status r = statusQueued
    then r\<lparr>er_Status := statusRunning, er_StartedAt := coalesce (er_StartedAt r) (Some (en_clock w))\<rparr>
    else r) (db_runs w)\<rparr>)" for j w
    by (intro isolatedI schema.any.R_running only_runs own_runs)
  show "isolated t w (w\<lparr>db_scans := map (pin_row t i c a h (en_clock w)) (db_scans w)\<rparr>)" for i c a h w
    by (intro isolatedI schema.any.R_pin) (simp add: only_tenant_def same_tables_def foreign_def)
  show "isolated t w (w\<lparr>db_scans := map (set_status_row (\<lambda>s. sc_TenantID s = t \<and> sc_ID s = i) st b
      (en_clock w)) (db_scans w)\<rparr>)" for i st b w
    by (intro isolatedI schema.any.R_status) (simp add: only_tenant_def same_tables_def foreign_def)
qed (simp_all add: isolated_def keeps_sound_def only_tenant_def same_tables_def foreign_def)

section \<open>What goes on the bus\<close>




section \<open>A claim is made only for a trigger on the bus\<close>

definition claims_published :: "scan_db \<Rightarrow> bool" where
  "claims_published w \<longleftrightarrow>
     (\<forall>x \<in> set (db_triggers w). trigger_published (tr_ScanID x) (tr_Family x) (tr_TriggerID x) w)"

definition keeps_claims :: "scan_db \<Rightarrow> scan_db \<Rightarrow> bool" where
  "keeps_claims w w' \<longleftrightarrow> (claims_published w \<longrightarrow> claims_published w')"

lemma claims_eq:
  "db_triggers w' = db_triggers w \<Longrightarrow> prefix (en_outbox w) (en_outbox w')
   \<Longrightarrow> claims_published w \<Longrightarrow> claims_published w'"
  unfolding claims_published_def trigger_published_def prefix_def by fastforce

lemma published_triggers [simp]: "trigger_published i f g (w\<lparr>db_triggers := xs\<rparr>) = trigger_published i f g w"
  by (simp add: trigger_published_def)

lemma claims_mark:
  "trigger_published i f g w \<Longrightarrow> mark_triggered t i f g w = Inr (y, w') \<Longrightarrow> claims_published w
   \<Longrightarrow> claims_published w'"
  by (erule trigger_effect) (auto simp: claims_published_def)

interpretation claiming: system_law keeps_claims
proof unfold_locales
  show "keeps_claims w w'" if "trigger_published i f g w" "mark_triggered t i f g w = Inr (y, w')"
    for t i f g w y w'
    using claims_mark [OF that] by (simp add: keeps_claims_def)
qed (auto simp: keeps_claims_def elim!: upsert_run_effect eco_effect intro: claims_eq [rotated 2]
     dest!: insert_run_effect insert_scan_effect artifact_effect)

section \<open>The properties\<close>

text \<open>C1. The source of a scan is pinned at most once: from the moment a fetch result is recorded, in
  every later state the scan is still there with the same tenant and project, the same commit,
  archive and checksum, whatever results, retries, cancellations, sweeps or other requests follow;
  its start and finish times, once written, stay too.\<close>

theorem source_is_pinned_once:
  assumes "reaches o1 w w'" and "s \<in> set (db_scans w)" and "row_Pinned s"
  shows "\<exists>s' \<in> set (db_scans w'). sc_ID (row_Scan s') = sc_ID (row_Scan s) \<and> row_Pinned s'
     \<and> sc_TenantID (row_Scan s') = sc_TenantID (row_Scan s)
     \<and> sc_ProjectID (row_Scan s') = sc_ProjectID (row_Scan s)
     \<and> sc_CommitSHA (row_Scan s') = sc_CommitSHA (row_Scan s)
     \<and> sc_ArchiveRef (row_Scan s') = sc_ArchiveRef (row_Scan s)
     \<and> sc_ArchiveSHA256 (row_Scan s') = sc_ArchiveSHA256 (row_Scan s)
     \<and> (sc_FinishedAt (row_Scan s) \<noteq> None \<longrightarrow> sc_FinishedAt (row_Scan s') = sc_FinishedAt (row_Scan s))"
proof -
  have "evolves scan_step (db_scans w) (db_scans w')"
    using evolving.reach [OF assms(1)] by (simp add: tables_evolve_def)
  then obtain s' where "s' \<in> set (db_scans w')" "scan_step s s'"
    using evolves_member [OF _ assms(2)] by metis
  then show ?thesis using assms(3) by (intro bexI [of _ s']) (auto simp: scan_step_def)
qed

abbreviation example_fetched :: scan_db where
  "example_fetched \<equiv> after [ask [''syft'', ''grype''], fetched ''id2'' ''c0ffee'']"

abbreviation example_later :: scan_db where
  "example_later \<equiv> history default_orchestrator
     [fetched ''id2'' ''beef'', finish ''id2'' ''id0'' ''syft'' StatusFailed] example_fetched"

lemma example_source:
  "map (\<lambda>s. (sc_ID (row_Scan s), sc_CommitSHA (row_Scan s), row_Pinned s)) (db_scans example_fetched)
     = [(''id2'', ''c0ffee'', True)]"
  by code_simp

theorem source_is_pinned_once_witness:
  "\<exists>s' \<in> set (db_scans example_later). sc_ID (row_Scan s') = ''id2'' \<and> sc_CommitSHA (row_Scan s') = ''c0ffee''"
proof -
  obtain s where s: "s \<in> set (db_scans example_fetched)" "row_Pinned s"
    "sc_ID (row_Scan s) = ''id2''" "sc_CommitSHA (row_Scan s) = ''c0ffee''"
    using example_source by auto
  from source_is_pinned_once [OF history_reaches s(1,2)] show ?thesis
    unfolding s(3,4) by blast
qed

text \<open>C11. Evidence is append-only: in every later state the raw artifacts, the normalize claims and the
  published messages of an earlier one are still there in the same order with nothing inserted
  before them, and every engine run and detected ecosystem is still in its place with the same
  identity (id, scan, tenant, job, engine, attempt, deadline) and the start time it had.\<close>

theorem evidence_is_append_only:
  assumes "reaches o1 w w'"
  shows "prefix (db_artifacts w) (db_artifacts w') \<and> prefix (db_triggers w) (db_triggers w')
    \<and> prefix (en_outbox w) (en_outbox w') \<and> evolves run_step (db_runs w) (db_runs w')
    \<and> evolves eco_step (db_ecosystems w) (db_ecosystems w')"
  using evolving.reach [OF assms] by (simp_all add: tables_evolve_def)

theorem evidence_is_append_only_witness:
  "prefix (en_outbox example_fetched) (en_outbox example_later)
   \<and> evolves run_step (db_runs example_fetched) (db_runs example_later)"
  using evidence_is_append_only [OF history_reaches] by blast



text \<open>C2. Tenants are isolated: a handler that runs for tenant \<open>t\<close> leaves the policies, scans, runs,
  artifacts, ecosystems and claims of every other tenant as they were, and every message it
  publishes names \<open>t\<close>. Only the reaper and the clock act for no tenant.\<close>

theorem handlers_touch_only_their_tenant:
  assumes "system_step o1 (Some t) w w'" and "db_sound w"
  shows "same_tables (foreign t w') (foreign t w)
     \<and> (\<exists>ms. en_outbox w' = en_outbox w @ ms \<and> list_all (\<lambda>m. message_tenant (ms_Payload m) = t) ms)"
  using isolation.tenant_step [OF assms(1)] assms(2)
  by (simp add: isolated_def only_tenant_def same_tables_def)

lemma example_sound: "db_sound (after ss)"
  using schema.reach [OF history_reaches, of empty_db]
  by (simp add: keeps_sound_def db_sound_def empty_db_def)

theorem handlers_touch_only_their_tenant_witness:
  "same_tables (foreign ''evil'' (snd (run_state (Cancel ''evil'' ''id2'') example_fetched)))
     (foreign ''evil'' example_fetched)"
  using handlers_touch_only_their_tenant [OF step_cancel example_sound] by blast



text \<open>C5. Publish before claim: in every state reachable from an empty database the trigger that a
  normalize claim names has been published for the scan and family of the claim, so a claimed scan
  is never one whose trigger was lost.\<close>

theorem normalize_claim_implies_published:
  assumes "reaches o1 w w'" and "db_triggers w = []" and "x \<in> set (db_triggers w')"
  shows "\<exists>m \<in> set (en_outbox w'). \<exists>g. ms_Payload m = PTrigger g \<and> nt_ScanID g = tr_ScanID x
     \<and> nt_Family g = tr_Family x \<and> nt_TriggerID g = tr_TriggerID x"
proof -
  have "claims_published w'"
    using claiming.reach [OF assms(1)] assms(2) by (simp add: keeps_claims_def claims_published_def)
  then obtain m where m: "m \<in> set (en_outbox w')"
    and "case ms_Payload m of PTrigger g \<Rightarrow> nt_ScanID g = tr_ScanID x \<and> nt_Family g = tr_Family x
      \<and> nt_TriggerID g = tr_TriggerID x | _ \<Rightarrow> False"
    using assms(3) unfolding claims_published_def trigger_published_def by blast
  then show ?thesis by (intro bexI [OF _ m]) (simp split: payload.splits)
qed

abbreviation example_complete :: scan_db where
  "example_complete \<equiv> after [ask [''syft'', ''grype''], fetched ''id2'' ''c0ffee'',
     finish ''id2'' ''id0'' ''syft'' StatusSucceeded, finish ''id2'' ''id1'' ''grype'' StatusSucceeded]"

lemma example_claim: "map tr_ScanID (db_triggers example_complete) = [''id2'']"
  by code_simp

theorem normalize_claim_implies_published_witness:
  "\<exists>m \<in> set (en_outbox example_complete). \<exists>g. ms_Payload m = PTrigger g \<and> nt_ScanID g = ''id2''"
proof -
  obtain x where x: "x \<in> set (db_triggers example_complete)" "tr_ScanID x = ''id2''"
    using example_claim by auto
  have "db_triggers empty_db = []" by (simp add: empty_db_def)
  from normalize_claim_implies_published [OF history_reaches this x(1)] show ?thesis
    unfolding x(2) by blast
qed

end
