(* ===== verification/Scan_Properties.thy ===== *)
theory Scan_Properties
  imports Scan_Invariants
begin

text \<open>
  What the orchestrator's operations do, branch by branch: which run stands for an engine, what a
  redelivered result changes, which jobs a fan-out publishes, what creating a scan leaves behind, what
  the reaper times out, and how progress and coverage are computed.
\<close>

section \<open>The run that stands for an engine\<close>

text \<open>The order of the SQL query is a comparison a stable sort can use.\<close>

interpretation attempts: strict_weak_order attempt_order
  by unfold_locales (auto simp: attempt_order_def split: if_splits)

lemma better_is_attempt_order:
  "er_EngineID a = er_EngineID b \<Longrightarrow> betterAttempt a b = attempt_order a b"
  by (auto simp: betterAttempt_def attempt_order_def Let_def)

definition is_best :: "EngineRun list \<Rightarrow> EngineRun \<Rightarrow> bool" where
  "is_best rs r \<longleftrightarrow> r \<in> set rs \<and>
     (\<forall>x \<in> set rs. er_EngineID x = er_EngineID r \<longrightarrow> \<not> attempt_order x r)"

lemma best_unique:
  assumes "distinct (map (\<lambda>r. (er_EngineID r, er_Attempt r)) rs)"
    and "is_best rs a" "is_best rs b" "er_EngineID a = er_EngineID b"
  shows "a = b"
proof -
  have "\<not> attempt_order a b" "\<not> attempt_order b a" using assms(2-4) by (auto simp: is_best_def)
  then have "er_Attempt a = er_Attempt b"
    using assms(4) by (auto simp: attempt_order_def split: if_splits)
  then show ?thesis
    using assms by (auto simp: is_best_def distinct_map inj_on_def)
qed

lemma find_distinct_on:
  "find (\<lambda>y. f y = k) (distinct_on f xs) = find (\<lambda>y. f y = k) xs"
proof (induction f xs rule: distinct_on.induct)
  case (2 f x xs)
  have "find (\<lambda>y. f y = k) (filter (\<lambda>y. f y \<noteq> f x) xs) = find (\<lambda>y. f y = k) xs" if "f x \<noteq> k"
    using that by (induction xs) auto
  with 2 show ?case by auto
qed simp

lemma best_runs_best:
  assumes "find (\<lambda>r. er_EngineID r = e) (best_runs rs) = Some r"
  shows "is_best rs r" "er_EngineID r = e"
proof -
  have f: "find (\<lambda>r. er_EngineID r = e) (slice_stable attempt_order rs) = Some r"
    using assms by (simp add: best_runs_def find_distinct_on)
  then obtain i where i: "i < length (slice_stable attempt_order rs)" "slice_stable attempt_order rs ! i = r"
    "er_EngineID r = e" and first: "\<forall>j<i. er_EngineID (slice_stable attempt_order rs ! j) \<noteq> e"
    by (auto simp: find_Some_iff)
  show "er_EngineID r = e" by (rule i(3))
  have "\<not> attempt_order x r" if "x \<in> set rs" "er_EngineID x = e" for x
  proof -
    from that(1) obtain j where j: "j < length (slice_stable attempt_order rs)"
      "slice_stable attempt_order rs ! j = x"
      by (metis in_set_conv_nth set_slice_stable)
    with that(2) first have "\<not> j < i" by blast
    then consider "i = j" | "i < j" by linarith
    then show ?thesis
    proof cases
      case 2
      then show ?thesis using attempts.sorted_slice_stable [of rs] i j
        by (auto simp: sorted_wrt_iff_nth_less)
    qed (use i j in simp)
  qed
  moreover have "r \<in> set rs" using i(1,2) by (metis nth_mem set_slice_stable)
  ultimately show "is_best rs r" using i(3) by (simp add: is_best_def)
qed

lemma best_runs_None: "find (\<lambda>r. er_EngineID r = e) (best_runs rs) = None \<longleftrightarrow> e \<notin> er_EngineID ` set rs"
  unfolding best_runs_def find_distinct_on by (auto simp: find_None_iff)

lemma latest_best:
  "case map_of (latestRunsByEngine rs) e of
     None \<Rightarrow> e \<notin> er_EngineID ` set rs
   | Some r \<Rightarrow> is_best rs r \<and> er_EngineID r = e"
proof (induction rs rule: rev_induct)
  case Nil
  then show ?case by (simp add: latestRunsByEngine_def)
next
  case (snoc x rs)
  have L: "latestRunsByEngine (rs @ [x]) = latest_step (latestRunsByEngine rs) x"
    by (simp add: latestRunsByEngine_def)
  show ?case
  proof (cases "er_EngineID x = e")
    case False
    then have "map_of (latestRunsByEngine (rs @ [x])) e = map_of (latestRunsByEngine rs) e"
      by (simp add: L latest_step_def AList.update_conv split: option.splits)
    with snoc False show ?thesis by (auto simp: is_best_def split: option.splits)
  next
    case True
    show ?thesis
    proof (cases "map_of (latestRunsByEngine rs) e")
      case None
      with snoc True show ?thesis
        by (auto simp: L latest_step_def AList.update_conv is_best_def image_iff)
    next
      case (Some c)
      then have c: "is_best rs c" "er_EngineID c = e" using snoc by auto
      show ?thesis
      proof (cases "attempt_order x c")
        case t: True
        then have "is_best (rs @ [x]) x"
          using c True by (auto simp: is_best_def dest: attempts.less_trans)
        then show ?thesis using Some c t True
          by (simp add: L latest_step_def AList.update_conv better_is_attempt_order)
      next
        case f: False
        then have "is_best (rs @ [x]) c" using c by (simp add: is_best_def)
        then show ?thesis using Some c f True
          by (simp add: L latest_step_def better_is_attempt_order)
      qed
    qed
  qed
qed

lemma latest_is_best_run:
  assumes "distinct (map (\<lambda>r. (er_EngineID r, er_Attempt r)) rs)"
  shows "map_of (latestRunsByEngine rs) e = find (\<lambda>r. er_EngineID r = e) (best_runs rs)"
proof (cases "find (\<lambda>r. er_EngineID r = e) (best_runs rs)")
  case None
  then have "e \<notin> er_EngineID ` set rs" by (simp add: best_runs_None)
  then show ?thesis using latest_best [of e rs] None
    by (auto simp: is_best_def split: option.splits)
next
  case (Some r)
  note r = best_runs_best [OF Some]
  then obtain c where c: "map_of (latestRunsByEngine rs) e = Some c" "is_best rs c" "er_EngineID c = e"
    using latest_best [of e rs] by (auto simp: is_best_def split: option.splits)
  then have "c = r" using best_unique [OF assms c(2) r(1)] r(2) by simp
  then show ?thesis using Some c(1) by simp
qed

text \<open>What the query of a scan's runs returns carries everything the choice looks at.\<close>

lemma scanned_run [simp]:
  "er_EngineID (scanEngineRunRow r) = er_EngineID r" "er_Attempt (scanEngineRunRow r) = er_Attempt r"
  "er_Status (scanEngineRunRow r) = er_Status r" "er_Weight (scanEngineRunRow r) = er_Weight r"
  "er_JobID (scanEngineRunRow r) = er_JobID r" "er_ScanID (scanEngineRunRow r) = er_ScanID r"
  "er_TenantID (scanEngineRunRow r) = er_TenantID r"
  "betterAttempt (scanEngineRunRow a) (scanEngineRunRow b) = betterAttempt a b"
  by (simp_all add: scanEngineRunRow_def betterAttempt_def)

lemma latest_step_scanned:
  "latest_step (map (\<lambda>(e, r). (e, scanEngineRunRow r)) b) (scanEngineRunRow x)
     = map (\<lambda>(e, r). (e, scanEngineRunRow r)) (latest_step b x)"
proof -
  have m: "map_of (map (\<lambda>(e, r). (e, scanEngineRunRow r)) b) e = map_option scanEngineRunRow (map_of b e)" for e
    by (induction b) auto
  have u: "AList.update e (scanEngineRunRow x) (map (\<lambda>(e, r). (e, scanEngineRunRow r)) b)
      = map (\<lambda>(e, r). (e, scanEngineRunRow r)) (AList.update e x b)" for e
    by (induction b) auto
  show ?thesis by (simp add: latest_step_def m u split: option.splits)
qed

lemma latest_scanned:
  "latestRunsByEngine (map scanEngineRunRow rs) = map (\<lambda>(e, r). (e, scanEngineRunRow r)) (latestRunsByEngine rs)"
proof (induction rs rule: rev_induct)
  case Nil
  then show ?case by (simp add: latestRunsByEngine_def)
next
  case (snoc x rs)
  then show ?case using latest_step_scanned by (simp add: latestRunsByEngine_def)
qed

lemma loadRuns_attempts:
  assumes "db_sound w"
  shows "distinct (map (\<lambda>r. (er_EngineID r, er_Attempt r)) (slice_stable run_order (visible_runs t i w)))"
proof -
  have "distinct (map run_key (visible_runs t i w))"
    using assms by (simp add: db_sound_def visible_runs_def distinct_map_filter)
  then have "distinct (map (\<lambda>r. (er_EngineID r, er_Attempt r)) (visible_runs t i w))"
    by (auto simp: distinct_map inj_on_def run_key_def visible_runs_def)
  then show ?thesis
    by (metis mset_map mset_slice_stable mset_eq_imp_distinct_iff)
qed

lemma best_runs_perm:
  assumes "distinct (map (\<lambda>r. (er_EngineID r, er_Attempt r)) rs)" "mset rs = mset rs'"
  shows "find (\<lambda>r. er_EngineID r = e) (best_runs rs) = find (\<lambda>r. er_EngineID r = e) (best_runs rs')"
proof -
  have s: "set rs = set rs'" by (metis assms(2) set_mset_mset)
  then have best: "is_best rs = is_best rs'" by (simp add: is_best_def fun_eq_iff)
  show ?thesis
  proof (cases "find (\<lambda>r. er_EngineID r = e) (best_runs rs)")
    case None
    then show ?thesis using s best_runs_None [of e rs] best_runs_None [of e rs'] by simp
  next
    case (Some r)
    then have "e \<in> er_EngineID ` set rs'" using best_runs_None [of e rs] s by auto
    then obtain r' where r': "find (\<lambda>r. er_EngineID r = e) (best_runs rs') = Some r'"
      using best_runs_None [of e rs'] by (cases "find (\<lambda>r. er_EngineID r = e) (best_runs rs')") auto
    have "r = r'"
      using best_unique [OF assms(1) best_runs_best(1) [OF Some]] best_runs_best [OF r'] best best_runs_best(2) [OF Some]
      by simp
    then show ?thesis using Some r' by simp
  qed
qed

text \<open>C9. Two implementations of one rule agree: the run that normalization takes for an engine, chosen
  in Go from the rows of a scan (\<^verbatim>\<open>latestRunsByEngine\<close>), is the run that the scan's status is derived
  from, chosen by SQL (\<^verbatim>\<open>DISTINCT ON\<close> with the query's order): a run that did not fail before one that
  did, and the later attempt among those; so a scan never completes on one attempt and is
  normalized from another.\<close>

theorem normalize_and_status_take_the_same_run:
  assumes "db_sound w"
  shows "map_of (latestRunsByEngine (loadRuns t i w)) e
     = map_option scanEngineRunRow (find (\<lambda>r. er_EngineID r = e) (best_runs (visible_runs t i w)))"
proof -
  let ?rs = "slice_stable run_order (visible_runs t i w)"
  have "map_of (map (\<lambda>(e, r). (e, scanEngineRunRow r)) b) e = map_option scanEngineRunRow (map_of b e)" for b
    by (induction b) auto
  then show ?thesis
    unfolding loadRuns_def latest_scanned
    using latest_is_best_run [OF loadRuns_attempts [OF assms]]
      best_runs_perm [OF loadRuns_attempts [OF assms], of t i "visible_runs t i w"] by simp
qed

theorem normalize_and_status_take_the_same_run_witness:
  "map_of (latestRunsByEngine (loadRuns ''acme'' ''id2'' example_complete)) ''syft''
     = map_option scanEngineRunRow (find (\<lambda>r. er_EngineID r = ''syft'') (best_runs (visible_runs ''acme'' ''id2'' example_complete)))"
  by (rule normalize_and_status_take_the_same_run, rule example_sound)

section \<open>Results\<close>

lemma upsert_update_twice: "upsert_update r (upsert_update r x) = upsert_update r x"
  by (simp add: upsert_update_def)

lemma upsert_twice:
  assumes "upsert_run r w = Inr (i, w1)" and "upsert_run r v = Inr (j, w2)" and "db_runs v = db_runs w1"
  shows "db_runs w2 = db_runs w1 \<and> j = i"
proof (cases "find (\<lambda>x. er_JobID x = er_JobID r) (db_runs w)")
  case None
  then have ins: "insert_run (r\<lparr>er_DeadlineAt := None\<rparr>) w = Inr w1" and i: "i = fresh_id w"
    using assms(1) by (auto simp: upsert_run_def split: if_splits sum.splits)
  define n where "n = r\<lparr>er_DeadlineAt := None, er_ID := fresh_id w, er_Family := []\<rparr>"
  have w1: "db_runs w1 = db_runs w @ [n]" using insert_run_effect [OF ins] by (simp add: n_def)
  have n: "er_JobID n = er_JobID r" "er_ID n = fresh_id w" by (simp_all add: n_def)
  have old: "x \<in> set (db_runs w) \<Longrightarrow> er_JobID x \<noteq> er_JobID r" for x
    using None by (auto simp: find_None_iff)
  have "find (\<lambda>x. er_JobID x = er_JobID r) (db_runs v) = Some n"
    using old n(1) by (intro find_unique) (auto simp: assms(3) w1)
  moreover have "upsert_update r n = n" by (simp add: upsert_update_def n_def)
  moreover have "map (\<lambda>x. if er_JobID x = er_JobID r then upsert_update r x else x) (db_runs w) = db_runs w"
    using old by (intro map_idI) auto
  ultimately show ?thesis
    using assms(2) n i by (auto simp: upsert_run_def assms(3) w1 split: if_splits)
next
  case (Some old)
  let ?f = "\<lambda>x. if er_JobID x = er_JobID r then upsert_update r x else x"
  have i: "i = er_ID old" and w1: "db_runs w1 = map ?f (db_runs w)"
    using assms(1) Some by (auto simp: upsert_run_def split: if_splits)
  have "find (\<lambda>x. er_JobID x = er_JobID r) (map ?f xs)
      = map_option ?f (find (\<lambda>x. er_JobID x = er_JobID r) xs)" for xs
    by (induction xs) auto
  moreover have "er_JobID old = er_JobID r" using Some by (auto simp: find_Some_iff)
  ultimately have "find (\<lambda>x. er_JobID x = er_JobID r) (db_runs v) = Some (upsert_update r old)"
    using Some by (simp add: assms(3) w1)
  moreover have "map ?f (map ?f xs) = map ?f xs" for xs
    by (simp add: upsert_update_twice)
  ultimately show ?thesis
    using assms(2) i by (auto simp: upsert_run_def assms(3) w1 split: if_splits)
qed

text \<open>A result is applied once however often it is delivered: when a run has been recorded from a
  result, recording the same result again, whether the call succeeds or not and whatever happened to
  other tables in between, leaves the table of runs as it is and finds the same run.\<close>

theorem redelivered_result_changes_no_run:
  assumes "run_state (UpsertEngineRun r) w = (Inr i, w1)" and "db_runs v = db_runs w1"
    and "run_state (UpsertEngineRun r) v = (x, w2)"
  shows "db_runs w2 = db_runs w1 \<and> (\<forall>j. x = Inr j \<longrightarrow> j = i)"
proof -
  obtain w0 w1' where w0: "db_runs w0 = db_runs w" and 1: "upsert_run r w0 = Inr (i, w1)"
    using assms(1) that [of "after_io w"]
    by (auto simp: UpsertEngineRun_def run_WithTenant split: if_splits sum.splits)
  show ?thesis
  proof (cases "upsert_run r (after_io v)")
    case (Inl e)
    then show ?thesis using assms(2,3)
      by (auto simp: UpsertEngineRun_def run_WithTenant split: if_splits)
  next
    case (Inr p)
    obtain j v' where p: "p = (j, v')" by fastforce
    have "db_runs v' = db_runs w1 \<and> j = i"
      using upsert_twice [OF 1 Inr [unfolded p]] assms(2) by simp
    then show ?thesis using assms(2,3) Inr p
      by (auto simp: UpsertEngineRun_def run_WithTenant split: if_splits)
  qed
qed

abbreviation example_run :: EngineRun where
  "example_run \<equiv> run_of_result default_orchestrator (result_of ''id2'' ''id0'' ''syft'' StatusSucceeded)"

lemma example_upsert: "fst (run_state (UpsertEngineRun example_run) example_fetched) = Inr ''id3''"
  by code_simp

theorem redelivered_result_changes_no_run_witness:
  "\<exists>w1 w2 x. run_state (UpsertEngineRun example_run) example_fetched = (Inr ''id3'', w1)
     \<and> run_state (UpsertEngineRun example_run) w1 = (x, w2) \<and> db_runs w2 = db_runs w1"
proof -
  obtain w1 where 1: "run_state (UpsertEngineRun example_run) example_fetched = (Inr ''id3'', w1)"
    using example_upsert by (cases "run_state (UpsertEngineRun example_run) example_fetched") simp
  obtain x w2 where 2: "run_state (UpsertEngineRun example_run) w1 = (x, w2)" by fastforce
  show ?thesis using 1 2 redelivered_result_changes_no_run [OF 1 refl 2] by blast
qed

section \<open>Fan-out\<close>

text \<open>With nothing failing, reads leave the state alone and return what they query.\<close>

lemma reliable_reads:
  assumes "reliable w" "t \<noteq> []"
  shows "run_state (GetScan t i) w = ((case find_scan t i w of None \<Rightarrow> Inl ErrNotFound
      | Some s \<Rightarrow> Inr (row_Scan s, loadRuns t i w)), w)"
    and "run_state (AllRunsTerminal t i) w = (Inr (\<not> list_ex pending (visible_runs t i w)), w)"
    and "run_state (TerminalStatuses t i) w = (Inr (map er_Status (best_runs (visible_runs t i w))), w)"
    and "run_state (NormalizeTriggerID t i f) w
      = (Inr (case find_trigger t i f w of None \<Rightarrow> [] | Some x \<Rightarrow> tr_TriggerID x), w)"
    and "run_state (CoverageGaps t i) w = (Inr (coverage_gaps t i w), w)"
    and "ids \<noteq> [] \<Longrightarrow> run_state (LoadRawArtifactsForEngines t i ids) w
      = (Inr (\<lambda>e. if e \<in> set ids then artifacts_of t i w e else []), w)"
  using assms
  by (simp_all add: GetScan_def AllRunsTerminal_def TerminalStatuses_def NormalizeTriggerID_def
      CoverageGaps_def LoadRawArtifactsForEngines_def run_ReadTenant filter_none_iff cong: if_cong split: option.splits)

lemma reliable_publish:
  "reliable w \<Longrightarrow> run_state (Bus_Publish s i p) w
     = (Inr (), w\<lparr>en_outbox := en_outbox w @ [\<lparr>ms_Subject = s, ms_MsgID = i, ms_Payload = p\<rparr>]\<rparr>)"
  by (simp add: Bus_Publish_def)

definition job_message :: "ScanJobV1 \<Rightarrow> message" where
  "job_message j = \<lparr>ms_Subject = Job_Subject j, ms_MsgID = sj_JobID j, ms_Payload = PJob j\<rparr>"

text \<open>The jobs a fan-out owes: one for each run that is queued and waits for no producer, if it is valid.\<close>

definition jobs_due :: "Orchestrator \<Rightarrow> Scan \<Rightarrow> string \<Rightarrow> instant \<Rightarrow> EngineRun list \<Rightarrow> ScanJobV1 list" where
  "jobs_due o1 scan ref now runs = filter (\<lambda>j. Job_Validate j = Inr ())
     (map (\<lambda>r. fan_out_job o1 scan ref r now)
       (filter (\<lambda>r. er_Status r = statusQueued \<and> \<not> waits_for_producer o1 (er_EngineID r)) runs))"

lemma jobs_due_simps:
  "jobs_due o1 s ref now [] = []"
  "jobs_due o1 s ref now (r # rs) =
     (if er_Status r = statusQueued \<and> \<not> waits_for_producer o1 (er_EngineID r)
         \<and> Job_Validate (fan_out_job o1 s ref r now) = Inr ()
      then [fan_out_job o1 s ref r now] else []) @ jobs_due o1 s ref now rs"
  by (simp_all add: jobs_due_def)

lemma fan_out_loop:
  "reliable w \<Longrightarrow> run_state (fold_state (fan_out_run o1 s ref) k rs) w
     = (k + length (jobs_due o1 s ref (en_clock w) rs),
        w\<lparr>en_outbox := en_outbox w @ map job_message (jobs_due o1 s ref (en_clock w) rs)\<rparr>)"
proof (induction rs arbitrary: k w)
  case Nil
  then show ?case by (simp add: jobs_due_simps)
next
  case (Cons r rs)
  let ?j = "fan_out_job o1 s ref r (en_clock w)"
  have "run_state (fan_out_run o1 s ref k r) w =
     (if er_Status r = statusQueued \<and> \<not> waits_for_producer o1 (er_EngineID r) \<and> Job_Validate ?j = Inr ()
      then (k + 1, w\<lparr>en_outbox := en_outbox w @ [job_message ?j]\<rparr>) else (k, w))"
    using Cons.prems
    by (simp add: fan_out_run_def run_simps publishJob_def reliable_publish Let_def job_message_def split: sum.splits)
  then show ?case using Cons.IH Cons.prems by (simp add: jobs_due_simps)
qed

text \<open>C7. Fan-out publishes exactly the jobs it owes: when the scan has a source archive or a native
  document and nothing fails, it changes no table, publishes in the order of the runs one job for
  each run that is still queued, waits for no producer and makes a valid job, and returns their
  number. All of them name the same archive, checksum and commit, the ones pinned for the scan.\<close>

theorem fan_out_publishes_jobs_due:
  fixes w :: scan_db
  assumes "reliable w" "t \<noteq> []" "find_scan t i w = Some s"
    and "ref = native_ref (\<lambda>e. if e \<in> set nativeSBOMProducers then artifacts_of t i w e else [])"
    and "sc_ArchiveRef (row_Scan s) \<noteq> [] \<or> ref \<noteq> []"
    and "jobs = jobs_due o1 (row_Scan s) ref (en_clock w) (loadRuns t i w)"
  shows "run_state (FanOut o1 t i) w
      = (Inr (length jobs), w\<lparr>en_outbox := en_outbox w @ map job_message jobs\<rparr>)
    \<and> list_all (\<lambda>j. ws_ArtifactURI (sj_Workspace j) = sc_ArchiveRef (row_Scan s)
        \<and> ws_SHA256 (sj_Workspace j) = sc_ArchiveSHA256 (row_Scan s)
        \<and> sm_CommitSHA (sj_SourceMeta j) = sc_CommitSHA (row_Scan s)) jobs"
proof
  have "nativeSBOMProducers \<noteq> []" by (simp add: nativeSBOMProducers_def)
  then have ref: "run_state (nativeSBOMRefFor t i) w = (ref, w)"
    using assms(1,2,4) by (simp add: nativeSBOMRefFor_def reliable_reads(6))
  have "\<not> (sc_ArchiveRef (row_Scan s) = [] \<and> ref = [])" using assms(5) by blast
  then show "run_state (FanOut o1 t i) w
      = (Inr (length jobs), w\<lparr>en_outbox := en_outbox w @ map job_message jobs\<rparr>)"
    using assms(1-3,6) by (simp add: FanOut_def reliable_reads(1) ref fan_out_loop)
  show "list_all (\<lambda>j. ws_ArtifactURI (sj_Workspace j) = sc_ArchiveRef (row_Scan s)
        \<and> ws_SHA256 (sj_Workspace j) = sc_ArchiveSHA256 (row_Scan s)
        \<and> sm_CommitSHA (sj_SourceMeta j) = sc_CommitSHA (row_Scan s)) jobs"
    unfolding assms(6) jobs_due_def list_all_iff
    by (auto simp: fan_out_job_def engine_job_def Let_def split: option.splits)
qed

lemma example_pinned:
  "reliable example_fetched"
  "map_option (\<lambda>s. sc_ArchiveRef (row_Scan s)) (find_scan ''acme'' ''id2'' example_fetched) = Some ''s3://a/src.tar''"
  unfolding reliable_def by code_simp+

theorem fan_out_publishes_jobs_due_witness:
  "\<exists>jobs w'. run_state (FanOut default_orchestrator ''acme'' ''id2'') example_fetched = (Inr (length jobs), w')
     \<and> en_outbox w' = en_outbox example_fetched @ map job_message jobs"
proof -
  obtain s where s: "find_scan ''acme'' ''id2'' example_fetched = Some s" "sc_ArchiveRef (row_Scan s) = ''s3://a/src.tar''"
    using example_pinned(2) by auto
  have "sc_ArchiveRef (row_Scan s) \<noteq> [] \<or> ref \<noteq> []" for ref :: string by (simp add: s(2))
  from fan_out_publishes_jobs_due [OF example_pinned(1) _ s(1) refl this refl] show ?thesis by auto
qed

section \<open>The status of a scan\<close>

lemma reliable_update:
  "reliable w \<Longrightarrow> t \<noteq> [] \<Longrightarrow> run_state (UpdateScanStatus t i st) w = (Inr (), w\<lparr>db_scans := map (set_status_row
     (\<lambda>s. sc_TenantID s = t \<and> sc_ID s = i) st (isTerminal st) (en_clock w)) (db_scans w)\<rparr>)"
  by (simp add: UpdateScanStatus_def run_WithTenant isTerminal_def Let_def)

lemma reliable_tables [simp]:
  "reliable (w\<lparr>db_scans := ss\<rparr>) = reliable w" "reliable (w\<lparr>db_runs := rs\<rparr>) = reliable w"
  by (simp_all add: reliable_def)

lemma notify_tables:
  "db_scans (snd (run_state (publishScanCompleted o1 t i st) w)) = db_scans w"
  "db_runs (snd (run_state (publishScanCompleted o1 t i st) w)) = db_runs w"
  by (auto simp: publishScanCompleted_def run_simps GetScan_def run_ReadTenant Bus_Publish_def Let_def
      split: prod.splits sum.splits io_outcome.splits option.splits if_splits)

text \<open>The status of a scan follows from its runs and only once they are all done: recomputing it
  while a run is queued or running changes nothing; when none is, the scan gets the status derived
  from one run per engine, its finish time if it had none, and no other scan and no run changes.\<close>

theorem recompute_derives_status_when_all_done:
  fixes w :: scan_db
  assumes "reliable w" "t \<noteq> []"
  shows "if list_ex pending (visible_runs t i w) then run_state (RecomputeScanStatus o1 t i) w = (Inr (), w)
     else \<exists>w'. run_state (RecomputeScanStatus o1 t i) w = (Inr (), w') \<and> db_runs w' = db_runs w
       \<and> db_scans w' = map (set_status_row (\<lambda>s. sc_TenantID s = t \<and> sc_ID s = i)
           (DeriveScanStatus (map er_Status (best_runs (visible_runs t i w)))) True (en_clock w)) (db_scans w)"
proof (cases "list_ex pending (visible_runs t i w)")
  case True
  then show ?thesis using assms by (simp add: RecomputeScanStatus_def reliable_reads(2))
next
  case False
  let ?d = "DeriveScanStatus (map er_Status (best_runs (visible_runs t i w)))"
  let ?w = "w\<lparr>db_scans := map (set_status_row (\<lambda>s. sc_TenantID s = t \<and> sc_ID s = i) ?d True (en_clock w)) (db_scans w)\<rparr>"
  have "isTerminal ?d" using DeriveScanStatus_range by (auto simp: isTerminal_def)
  then have "run_state (RecomputeScanStatus o1 t i) w
      = (Inr (), snd (run_state (publishScanCompleted o1 t i ?d) ?w))"
    using assms False
    by (simp add: RecomputeScanStatus_def reliable_reads(2,3) reliable_update Let_def split: prod.splits)
  then show ?thesis using False by (simp add: notify_tables)
qed

theorem recompute_derives_status_when_all_done_witness:
  "\<exists>w'. run_state (RecomputeScanStatus default_orchestrator ''acme'' ''id9'') empty_db = (Inr (), w')
     \<and> db_runs w' = []"
  using recompute_derives_status_when_all_done [of empty_db "''acme''" "''id9''" default_orchestrator]
  by (auto simp: empty_db_def reliable_def visible_runs_def)

section \<open>The reaper\<close>

lemma reliable_raw: "reliable w \<Longrightarrow> run_state (raw_call fn) w = (Inr (fst (fn w)), snd (fn w))"
  by (simp add: raw_call_def Db_Call_def split: prod.splits)

text \<open>What the sweep writes to a scan, as a function of the runs.\<close>

definition settled :: "string list \<Rightarrow> scan_db \<Rightarrow> scan_row \<Rightarrow> scan_row" where
  "settled affected w s =
     (if sc_ID (row_Scan s) \<in> set affected \<and> \<not> anyStillRunning (terminal_statuses_for (sc_ID (row_Scan s)) w)
      then set_status_row (\<lambda>_. True) (DeriveScanStatus (terminal_statuses_for (sc_ID (row_Scan s)) w)) True (en_clock w) s
      else s)"

lemma statuses_keep [simp]: "terminal_statuses_for i (w\<lparr>db_scans := ss\<rparr>) = terminal_statuses_for i w"
  by (simp add: terminal_statuses_for_def)

lemma reap_scan_run:
  "reliable w \<Longrightarrow> run_state (reap_scan i) w = (Inr (), w\<lparr>db_scans := map (settled [i] w) (db_scans w)\<rparr>)"
proof -
  assume w: "reliable w"
  let ?ss = "terminal_statuses_for i w"
  have t: "(DeriveScanStatus ?ss = ScanCompleted \<or> DeriveScanStatus ?ss = ScanCompletedWithErrors
      \<or> DeriveScanStatus ?ss = ScanFailed) = True"
    using DeriveScanStatus_range [of ?ss] by auto
  have "run_state (reap_scan i) w = (Inr (), if anyStillRunning ?ss then w
      else w\<lparr>db_scans := map (set_status_row (\<lambda>s. sc_ID s = i) (DeriveScanStatus ?ss) True (en_clock w)) (db_scans w)\<rparr>)"
    using w by (simp add: reap_scan_def reliable_raw Let_def t set_scan_status_def)
  moreover have "set_status_row (\<lambda>s. sc_ID s = i) (DeriveScanStatus ?ss) True (en_clock w) s = settled [i] w s"
    if "\<not> anyStillRunning ?ss" for s
    using that by (auto simp: settled_def set_status_row_def)
  moreover have "map (settled [i] w) (db_scans w) = db_scans w" if "anyStillRunning ?ss"
    using that by (intro map_idI) (auto simp: settled_def)
  ultimately show ?thesis by simp
qed

lemma settled_then:
  "j \<notin> set is \<Longrightarrow> settled is (w\<lparr>db_scans := ss\<rparr>) (settled [j] w s) = settled (j # is) w s"
  by (auto simp: settled_def)

lemma reap_loop:
  "reliable w \<Longrightarrow> distinct is \<Longrightarrow> run_state (for_each reap_scan is) w
     = (Inr (), w\<lparr>db_scans := map (settled is w) (db_scans w)\<rparr>)"
proof (induction "is" arbitrary: w)
  case Nil
  then show ?case by (simp add: settled_def)
next
  case (Cons j js)
  then show ?case by (simp add: reap_scan_run settled_then)
qed

lemma reaped_not_overdue: "\<not> overdue now (reap_run now r)"
  by (auto simp: reap_run_def overdue_def pending_def)

text \<open>C10. The sweep resolves exactly the overdue jobs: a run that is queued or running past its deadline
  gets the timeout status, its finish time and the error code and is counted; no other run changes,
  and nothing else but the status of the scans those runs belong to. Such a scan gets its derived
  status if none of its engines is still at work. Afterwards no run is overdue.\<close>

theorem sweep_resolves_overdue_runs:
  fixes w :: scan_db
  assumes "reliable w"
  shows "\<exists>affected. run_state Sweep w =
       (Inr \<lparr>JobsTimedOut = length (filter (overdue (en_clock w)) (db_runs w)), ScansAffected = affected\<rparr>,
        w\<lparr>db_runs := map (reap_run (en_clock w)) (db_runs w),
          db_scans := map (settled affected (w\<lparr>db_runs := map (reap_run (en_clock w)) (db_runs w)\<rparr>)) (db_scans w)\<rparr>)
     \<and> distinct affected \<and> set affected = er_ScanID ` {r \<in> set (db_runs w). overdue (en_clock w) r}
     \<and> filter (overdue (en_clock w)) (map (reap_run (en_clock w)) (db_runs w)) = []"
proof -
  let ?due = "filter (overdue (en_clock w)) (db_runs w)"
  let ?w = "w\<lparr>db_runs := map (reap_run (en_clock w)) (db_runs w)\<rparr>"
  define affected where "affected = rev (remdups (rev (map er_ScanID ?due)))"
  have a: "distinct affected" "set affected = er_ScanID ` {r \<in> set (db_runs w). overdue (en_clock w) r}"
    by (auto simp: affected_def)
  have "run_state Sweep w = (Inr \<lparr>JobsTimedOut = length ?due, ScansAffected = affected\<rparr>,
      ?w\<lparr>db_scans := map (settled affected ?w) (db_scans w)\<rparr>)"
    using assms a(1)
    by (simp add: Sweep_def reliable_raw reap_overdue_runs_def Let_def reap_loop flip: affected_def)
  moreover have "filter (overdue (en_clock w)) (map (reap_run (en_clock w)) (db_runs w)) = []"
    by (simp add: filter_empty_conv reaped_not_overdue)
  ultimately show ?thesis using a by (intro exI [of _ affected]) simp
qed

theorem sweep_resolves_overdue_runs_witness:
  "\<exists>affected. fst (run_state Sweep example_fetched) = Inr \<lparr>JobsTimedOut
      = length (filter (overdue (en_clock example_fetched)) (db_runs example_fetched)), ScansAffected = affected\<rparr>"
  using sweep_resolves_overdue_runs [OF example_pinned(1)] by auto

section \<open>Normalization\<close>

lemma envelope_id [simp]:
  "nt_TriggerID (trigger_envelope s l ids i f a g now) = i"
  by (simp add: trigger_envelope_def)



lemma derived_env_keep [simp]:
  "artifacts_of t i (drop_id w) e = artifacts_of t i w e" "coverage_gaps t i (drop_id w) = coverage_gaps t i w"
  by (simp_all add: artifacts_of_def resolved_id_def coverage_gaps_def)


section \<open>Progress and coverage\<close>

lemma weights_positive: "0 \<le> sum_list (map run_weight rs)" "rs \<noteq> [] \<Longrightarrow> 0 < sum_list (map run_weight rs)"
proof -
  have p: "0 < run_weight r" for r by (simp add: run_weight_def)
  show n: "0 \<le> sum_list (map run_weight rs)" for rs by (rule sum_list_nonneg) (auto intro: less_imp_le p)
  show "rs \<noteq> [] \<Longrightarrow> 0 < sum_list (map run_weight rs)"
    by (cases rs) (auto intro: add_pos_nonneg p n)
qed

lemma weights_split:
  "sum_list (map run_weight rs) = sum_list (map run_weight (filter P rs)) + sum_list (map run_weight (filter (\<lambda>r. \<not> P r) rs))"
  by (induction rs) auto

text \<open>Progress is a percentage that tells the truth: it lies between 0 and 100, and it is 100 exactly
  when the scan has runs and none of them is queued or running, whatever weights the rows carry.\<close>

theorem progress_is_a_percentage:
  "0 \<le> Progress rs \<and> Progress rs \<le> 100 \<and> (Progress rs = 100 \<longleftrightarrow> rs \<noteq> [] \<and> \<not> list_ex pending rs)"
proof (cases "rs = []")
  case True
  then show ?thesis by (simp add: Progress_def)
next
  case False
  define total where "total = sum_list (map run_weight rs)"
  define finished where "finished = sum_list (map run_weight (filter (\<lambda>r. \<not> pending r) rs))"
  define rest where "rest = sum_list (map run_weight (filter pending rs))"
  have t: "total = rest + finished" unfolding total_def finished_def rest_def by (rule weights_split)
  have pos: "0 < total" "0 \<le> finished" "0 \<le> rest"
    using weights_positive False by (auto simp: total_def finished_def rest_def)
  have rest: "rest = 0 \<longleftrightarrow> \<not> list_ex pending rs"
    using weights_positive(2) [of "filter pending rs"] filter_none_iff [of pending rs] by (auto simp: rest_def)
  have P: "Progress rs = finished * 100 div total"
    using pos(1) by (simp add: Progress_def Let_def total_def finished_def)
  have "finished * 100 div total \<le> total * 100 div total"
    using pos t by (intro zdiv_mono1) auto
  then have le: "finished * 100 div total \<le> 100" using pos(1) by simp
  have "finished * 100 div total * total \<le> finished * 100"
    using div_mult_mod_eq [of "finished * 100" total] pos(1) by (smt (verit) pos_mod_sign)
  then have "finished * 100 div total = 100 \<longrightarrow> rest = 0" using pos t by auto
  moreover have "rest = 0 \<longrightarrow> finished * 100 div total = 100" using pos(1) t by simp
  ultimately show ?thesis
    using pos False le unfolding P rest [symmetric] by (auto simp: pos_imp_zdiv_nonneg_iff)
qed

text \<open>A coverage gap is reported exactly for the ecosystems that were detected and that no available
  engine covered: some engine recorded the ecosystem as unavailable to it and none recorded it as
  covered. The list is sorted and names each once.\<close>

theorem coverage_gaps_are_the_uncovered_ecosystems:
  "set (coverage_gaps t i w) = {ec_Ecosystem e | e. e \<in> set (db_ecosystems w) \<and> ec_TenantID e = t \<and> ec_ScanID e = i
      \<and> \<not> ec_Available e \<and> \<not> (\<exists>e' \<in> set (db_ecosystems w). ec_TenantID e' = t \<and> ec_ScanID e' = i
          \<and> ec_Ecosystem e' = ec_Ecosystem e \<and> ec_Available e')}
   \<and> sorted (coverage_gaps t i w) \<and> distinct (coverage_gaps t i w)"
  by (auto simp: coverage_gaps_def Let_def list_ex_iff)



end
