(* ===== verification/Scan_Creation.thy ===== *)
theory Scan_Creation
  imports Scan_Properties
begin

text \<open>
  What creating a scan leaves behind, on both of its branches, and the histories in which the
  orchestrator does not do what its comments promise.
\<close>

section \<open>Fresh ids\<close>

text \<open>The ids still to be drawn are not in use and none of them is empty.\<close>

definition fresh_from :: "nat \<Rightarrow> scan_db \<Rightarrow> bool" where
  "fresh_from n w \<longleftrightarrow> inj (en_uuid w) \<and> (\<forall>k \<ge> n. en_uuid w k \<noteq> []
     \<and> en_uuid w k \<notin> scan_ids w \<and> en_uuid w k \<notin> er_ID ` set (db_runs w)
     \<and> en_uuid w k \<notin> er_JobID ` set (db_runs w))"

definition plan_of :: "scan_db \<Rightarrow> nat \<Rightarrow> Engine \<Rightarrow> EngineRun" where
  "plan_of w n e = zero_run\<lparr>er_JobID := en_uuid w n, er_EngineID := en_ID e, er_Family := familyOf e,
     er_Attempt := 1, er_Weight := en_DefaultWeight e,
     er_DeadlineAt := Some (en_clock w + defaultJobDeadline)\<rparr>"

lemma run_plan:
  "run_state (map_state planned_run es) w =
     (map (\<lambda>(k, e). plan_of w k e) (enumerate (en_next w) es), w\<lparr>en_next := en_next w + length es\<rparr>)"
proof (induction es arbitrary: w)
  case Nil
  then show ?case by simp
next
  case (Cons e es)
  have "plan_of (drop_id w) = plan_of w" by (simp add: plan_of_def fun_eq_iff)
  with Cons show ?case
    by (simp add: planned_run_def run_simps plan_of_def fresh_id_def drop_id_def)
qed

lemma insert_runs_effect:
  assumes "list_all run_row_ok rs" "\<forall>r \<in> set rs. er_ScanID r \<in> scan_ids w"
    and "distinct (map er_JobID rs)" "er_JobID ` set rs \<inter> er_JobID ` set (db_runs w) = {}"
    and "distinct (map run_key rs)" "run_key ` set rs \<inter> run_key ` set (db_runs w) = {}"
    and "inj (en_uuid w)" "\<forall>k \<ge> en_next w. en_uuid w k \<notin> er_ID ` set (db_runs w)"
  shows "insert_runs rs w = Inr (w\<lparr>en_next := en_next w + length rs, db_runs := db_runs w @
     map (\<lambda>(k, r). r\<lparr>er_ID := en_uuid w k, er_Family := []\<rparr>) (enumerate (en_next w) rs)\<rparr>)"
  using assms
proof (induction rs arbitrary: w)
  case Nil
  then show ?case by simp
next
  case (Cons r rs)
  let ?n = "r\<lparr>er_ID := en_uuid w (en_next w), er_Family := []\<rparr>"
  let ?w = "(drop_id w)\<lparr>db_runs := db_runs w @ [?n]\<rparr>"
  have "fresh_id w \<notin> er_ID ` set (db_runs w)" using Cons.prems(8) by (simp add: fresh_id_def)
  then have 1: "insert_run r w = Inr ?w"
    using Cons.prems(1,2,4,6) by (auto simp: insert_run_def Let_def fresh_id_def scan_ids_def)
  have uuid: "en_uuid w k \<noteq> en_uuid w (en_next w)" if "Suc (en_next w) \<le> k" for k
    using that Cons.prems(7) by (metis Suc_n_not_le_n injD)
  have "insert_runs rs ?w = Inr (?w\<lparr>en_next := en_next ?w + length rs, db_runs := db_runs ?w @
     map (\<lambda>(k, r). r\<lparr>er_ID := en_uuid ?w k, er_Family := []\<rparr>) (enumerate (en_next ?w) rs)\<rparr>)"
    using Cons.prems uuid by (intro Cons.IH) (auto simp: scan_ids_def drop_id_def)
  then show ?case by (simp add: 1 drop_id_def)
qed

section \<open>Storing a scan\<close>

definition stored_run :: "string \<Rightarrow> string \<Rightarrow> EngineRun \<Rightarrow> string \<Rightarrow> EngineRun" where
  "stored_run i t r n = (new_run_row i t r)\<lparr>er_ID := n, er_Family := []\<rparr>"

lemma stored_run_fields [simp]:
  "er_ScanID (new_run_row i t r) = i" "er_TenantID (new_run_row i t r) = t"
  "er_JobID (new_run_row i t r) = er_JobID r" "er_EngineID (new_run_row i t r) = er_EngineID r"
  "er_Attempt (new_run_row i t r) = er_Attempt r" "er_Status (new_run_row i t r) = statusQueued"
  "er_Weight (new_run_row i t r) = er_Weight r" "er_DeadlineAt (new_run_row i t r) = er_DeadlineAt r"
  by (simp_all add: new_run_row_def)

lemma planned_fields [simp]:
  "er_JobID (plan_of w k e) = en_uuid w k" "er_EngineID (plan_of w k e) = en_ID e"
  "er_Attempt (plan_of w k e) = 1" "er_Weight (plan_of w k e) = en_DefaultWeight e"
  "er_DeadlineAt (plan_of w k e) = Some (en_clock w + defaultJobDeadline)"
  by (simp_all add: plan_of_def)

definition rows_of :: "string \<Rightarrow> string \<Rightarrow> scan_db \<Rightarrow> Engine list \<Rightarrow> EngineRun list" where
  "rows_of i t w es = map (new_run_row i t) (map (\<lambda>(k, e). plan_of w k e) (enumerate (en_next w) es))"

lemma rows_of_keys:
  "map er_JobID (rows_of i t w es) = map (en_uuid w) [en_next w..<en_next w + length es]"
  "map run_key (rows_of i t w es) = map (\<lambda>e. (i, en_ID e, 1)) es"
  "map er_ScanID (rows_of i t w es) = map (\<lambda>_. i) es" "length (rows_of i t w es) = length es"
proof -
  show "map er_JobID (rows_of i t w es) = map (en_uuid w) [en_next w..<en_next w + length es]"
    by (rule nth_equalityI) (simp_all add: rows_of_def nth_enumerate_eq)
  show "map run_key (rows_of i t w es) = map (\<lambda>e. (i, en_ID e, 1)) es"
    by (rule nth_equalityI) (simp_all add: rows_of_def nth_enumerate_eq run_key_def)
  show "map er_ScanID (rows_of i t w es) = map (\<lambda>_. i) es"
    by (rule nth_equalityI) (simp_all add: rows_of_def nth_enumerate_eq)
qed (simp add: rows_of_def)

lemma rows_of_ok: "list_all (\<lambda>e. 0 \<le> en_DefaultWeight e) es \<Longrightarrow> list_all run_row_ok (rows_of i t w es)"
  by (auto simp: rows_of_def list_all_iff run_row_ok_def engine_run_statuses_def in_set_enumerate_eq)

text \<open>The new rows go in when the ids are fresh.\<close>

lemma insert_new_rows:
  assumes "db_sound w" "fresh_from (en_next w) w" "list_all (\<lambda>e. 0 \<le> en_DefaultWeight e) es"
    and "distinct (map en_ID es)" "en_next w + length es \<le> n" "i = en_uuid w n"
    and "u = w\<lparr>en_next := Suc n, db_scans := ss\<rparr>" "i \<in> scan_ids u"
  shows "insert_runs (rows_of i t w es) u = Inr (u\<lparr>en_next := Suc n + length es, db_runs := db_runs w @
     map (\<lambda>(k, r). r\<lparr>er_ID := en_uuid w k, er_Family := []\<rparr>) (enumerate (Suc n) (rows_of i t w es))\<rparr>)"
proof -
  let ?rows = "rows_of i t w es"
  have inj: "inj (en_uuid w)" and fresh: "\<And>k. k \<ge> en_next w \<Longrightarrow> en_uuid w k \<notin> scan_ids w
      \<and> en_uuid w k \<notin> er_ID ` set (db_runs w) \<and> en_uuid w k \<notin> er_JobID ` set (db_runs w)"
    using assms(2) by (auto simp: fresh_from_def)
  have jobs: "er_JobID ` set ?rows = en_uuid w ` {en_next w..<en_next w + length es}"
    using arg_cong [OF rows_of_keys(1), of set] by simp
  have keys: "run_key ` set ?rows = (\<lambda>e. (i, en_ID e, 1)) ` set es"
    using arg_cong [OF rows_of_keys(2), of set] by simp
  have scans: "er_ScanID ` set ?rows \<subseteq> {i}"
    using arg_cong [OF rows_of_keys(3), of set] by auto
  have i: "i \<notin> scan_ids w" using fresh assms(5,6) by simp
  have "insert_runs ?rows u = Inr (u\<lparr>en_next := en_next u + length ?rows, db_runs := db_runs u @
     map (\<lambda>(k, r). r\<lparr>er_ID := en_uuid u k, er_Family := []\<rparr>) (enumerate (en_next u) ?rows)\<rparr>)"
  proof (rule insert_runs_effect)
    show "list_all run_row_ok ?rows" using assms(3) by (rule rows_of_ok)
    show "\<forall>r \<in> set ?rows. er_ScanID r \<in> scan_ids u" using scans assms(8) by auto
    show "distinct (map er_JobID ?rows)" unfolding rows_of_keys(1)
      using inj_on_subset [OF inj subset_UNIV] by (simp add: distinct_map)
    have "x \<notin> er_JobID ` set (db_runs w)" if "x \<in> er_JobID ` set ?rows" for x
      using that unfolding jobs by (elim imageE) (simp add: fresh)
    then show "er_JobID ` set ?rows \<inter> er_JobID ` set (db_runs u) = {}"
      by (auto simp: assms(7))
    show "distinct (map run_key ?rows)" unfolding rows_of_keys(2)
      using assms(4) by (auto simp: distinct_map inj_on_def)
    show "run_key ` set ?rows \<inter> run_key ` set (db_runs u) = {}"
      unfolding keys using i assms(1) by (auto simp: assms(7) db_sound_def run_key_def)
    show "inj (en_uuid u)" using inj by (simp add: assms(7))
    show "\<forall>k \<ge> en_next u. en_uuid u k \<notin> er_ID ` set (db_runs u)"
      using fresh assms(5) by (simp add: assms(7))
  qed
  then show ?thesis by (simp add: assms(7) rows_of_keys(4))
qed

section \<open>Creating a scan\<close>

lemma reliable_skip:
  assumes "reliable w"
  shows "\<exists>es. run_state (record_skipped o1 t i p) w = (Inr (), w\<lparr>db_ecosystems := es\<rparr>)"
proof -
  have eco: "\<exists>r es. run_state (RecordEcosystem t i e d b) v = (r, v\<lparr>db_ecosystems := es\<rparr>)"
    if v: "reliable v" for v e d b
  proof (cases "record_ecosystem \<lparr>ec_ScanID = i, ec_TenantID = t, ec_Ecosystem = e, ec_DetectedBy = d, ec_Available = b\<rparr> v")
    case (Inr p)
    obtain v' where p: "p = ((), v')" by (cases p) simp
    have "\<exists>es. v' = v\<lparr>db_ecosystems := es\<rparr>" using Inr unfolding p by (rule eco_effect) blast+
    then show ?thesis using v Inr p by (cases "t = []") (auto simp: RecordEcosystem_def run_WithTenant intro: exI [of _ "db_ecosystems v"])
  qed (use v in \<open>auto simp: RecordEcosystem_def run_WithTenant intro: exI [of _ "db_ecosystems v"]\<close>)
  have loop: "\<exists>es. run_state (for_each (\<lambda>e. do { _ \<leftarrow> RecordEcosystem t i e d False; ret (Inr ()) }) xs) v
      = (Inr (), v\<lparr>db_ecosystems := es\<rparr>)" if "reliable v" for v d xs
    using that
  proof (induction xs arbitrary: v)
    case Nil
    then show ?case by (auto intro: exI [of _ "db_ecosystems v"])
  next
    case (Cons x xs)
    obtain r es where e: "run_state (RecordEcosystem t i x d False) v = (r, v\<lparr>db_ecosystems := es\<rparr>)"
      using eco [OF Cons.prems] by blast
    have "reliable (v\<lparr>db_ecosystems := es\<rparr>)" using Cons.prems by (simp add: reliable_def)
    from Cons.IH [OF this] show ?case by (auto simp: e)
  qed
  show ?thesis
    using loop [OF assms] by (auto simp: record_skipped_def split: option.splits intro: exI [of _ "db_ecosystems w"])
qed

lemma reliable_skips:
  "reliable w \<Longrightarrow> \<exists>es. run_state (for_each (record_skipped o1 t i) ps) w = (Inr (), w\<lparr>db_ecosystems := es\<rparr>)"
proof (induction ps arbitrary: w)
  case Nil
  then show ?case by (auto intro: exI [of _ "db_ecosystems w"])
next
  case (Cons p ps)
  obtain es where e: "run_state (record_skipped o1 t i p) w = (Inr (), w\<lparr>db_ecosystems := es\<rparr>)"
    using reliable_skip [OF Cons.prems] by blast
  have "reliable (w\<lparr>db_ecosystems := es\<rparr>)" using Cons.prems by (simp add: reliable_def)
  from Cons.IH [OF this] show ?case by (auto simp: e)
qed

text \<open>The fetch or reconnaissance job of a new scan is valid, so it is always published.\<close>

lemma producer_job_valid:
  assumes "sc_ID s \<noteq> []" "sc_TenantID s \<noteq> []" "sc_ProjectID s \<noteq> []" "j \<noteq> []"
    and "now + defaultJobDeadline \<noteq> zero_time" "f \<in> set [FamilyFetch, FamilyWebrecon]" "e \<noteq> []"
  shows "Job_Validate (producer_job o1 f e s j now) = Inr ()"
proof -
  have "contains (outputPrefix o1 (sc_ID s) e j) j"
    unfolding outputPrefix_def append_assoc by (intro contains_append_left contains_append_right contains_refl)
  moreover have "outputPrefix o1 (sc_ID s) e j \<noteq> []" by (simp add: outputPrefix_def)
  ultimately show ?thesis
    using assms by (auto simp: Job_Validate_def verdict_def Job_problems_def producer_job_def
        empty_fields_def problem_if_def assertNoCredential_def Family_Valid_def AllFamilies_def)
qed

text \<open>A request that is refused leaves no trace: when the engine combination, the families or the
  source kind are not admitted, creating the scan returns that error and changes no table, publishes
  nothing and draws no id.\<close>

theorem refused_scan_leaves_no_trace:
  assumes "admit o1 inp = Inl e"
  shows "run_state (CreateScan o1 t inp) w = (Inl e, w)"
  using assms by (simp add: CreateScan_def)

definition created_row :: "string \<Rightarrow> scan_db \<Rightarrow> Scan \<Rightarrow> scan_row" where
  "created_row i w req = \<lparr>row_Scan = zero_scan\<lparr>sc_ID := i, sc_TenantID := sc_TenantID req,
     sc_ProjectID := sc_ProjectID req, sc_Status := ScanQueued, sc_SourceKind := sc_SourceKind req,
     sc_TriggeredBy := sc_TriggeredBy req, sc_TriggerRef := sc_TriggerRef req,
     sc_Families := sc_Families req, sc_EnginesRequested := sc_EnginesRequested req,
     sc_CreatedAt := en_clock w\<rparr>, row_Pinned = False\<rparr>"

lemma admit_gives:
  "admit o1 inp = Inr res \<Longrightarrow> ci_ProjectID inp \<noteq> []
     \<and> ci_SourceKind inp \<in> set [SourceGit, SourceUpload, SourceImage, SourceURL]"
  by (simp add: admit_def split: if_splits)

lemma store_create_run:
  assumes "reliable w" "t \<noteq> []" "db_sound w" "fresh_from (en_next w) w"
    and "admit o1 inp = Inr res" "es = rs_Engines res" "list_all (\<lambda>e. 0 \<le> en_DefaultWeight e) es"
    and "distinct (map en_ID es)" "n = en_next w + length es" "i = en_uuid w n"
    and "req = scan_request t inp es"
  shows "run_state (Store_CreateScan req (map (\<lambda>(k, e). plan_of w k e) (enumerate (en_next w) es)))
      (w\<lparr>en_next := n\<rparr>) = (Inr (row_Scan (created_row i w req)),
        w\<lparr>en_next := Suc n + length es, db_scans := db_scans w @ [created_row i w req],
          db_runs := db_runs w @ map (\<lambda>(k, r). r\<lparr>er_ID := en_uuid w k, er_Family := []\<rparr>)
            (enumerate (Suc n) (rows_of i t w es))\<rparr>)"
proof -
  let ?w0 = "w\<lparr>en_next := n\<rparr>" and ?u = "w\<lparr>en_next := Suc n, db_scans := db_scans w @ [created_row i w req]\<rparr>"
  have "i \<notin> scan_ids w" using assms(4,9,10) by (simp add: fresh_from_def)
  then have "insert_scan req ?w0 = Inr (i, ?u)"
    using admit_gives [OF assms(5)] assms(10,11)
    by (auto simp: insert_scan_def fresh_id_def drop_id_def scan_ids_def created_row_def scan_request_def
        triggerOrDefault_def Let_def)
  moreover have "insert_runs (rows_of i t w es) ?u = Inr (?u\<lparr>en_next := Suc n + length es, db_runs := db_runs w @
     map (\<lambda>(k, r). r\<lparr>er_ID := en_uuid w k, er_Family := []\<rparr>) (enumerate (Suc n) (rows_of i t w es))\<rparr>)"
    using assms by (intro insert_new_rows) (simp_all add: scan_ids_def created_row_def)
  moreover have "sc_TenantID req = t" by (simp add: assms(11) scan_request_def)
  moreover have "reliable ?w0" using assms(1) by (simp add: reliable_def)
  ultimately show ?thesis using assms(2)
    by (simp add: Store_CreateScan_def run_WithTenant rows_of_def created_row_def)
qed

text \<open>C6. A request that is admitted becomes one queued scan with everything it needs, and one job: with
  nothing failing, fresh ids and engines that are distinct, creating a scan returns it, and stores it
  for its tenant and project, unpinned, with exactly one queued first attempt per resolved engine, in
  order and with half an hour to report, and publishes exactly one message, the valid job of the
  source's producer (reconnaissance for a URL, the fetcher for anything else).\<close>

theorem created_scan_is_complete:
  assumes "reliable w" "t \<noteq> []" "db_sound w" "fresh_from (en_next w) w" "0 \<le> en_clock w"
    and "admit o1 inp = Inr res" "list_all (\<lambda>e. 0 \<le> en_DefaultWeight e) (rs_Engines res)"
    and "distinct (map en_ID (rs_Engines res))"
  shows "\<exists>scan w' job. run_state (CreateScan o1 t inp) w = (Inr scan, w')
     \<and> sc_TenantID scan = t \<and> sc_ProjectID scan = ci_ProjectID inp \<and> sc_Status scan = ScanQueued
     \<and> db_scans w' = db_scans w @ [\<lparr>row_Scan = scan, row_Pinned = False\<rparr>]
     \<and> map (\<lambda>r. (er_EngineID r, er_Attempt r, er_Status r, er_DeadlineAt r)) (visible_runs t (sc_ID scan) w')
       = map (\<lambda>e. (en_ID e, 1, statusQueued, Some (en_clock w + defaultJobDeadline))) (rs_Engines res)
     \<and> en_outbox w' = en_outbox w @ [job_message job] \<and> Job_Validate job = Inr ()
     \<and> sj_ScanID job = sc_ID scan \<and> sj_TenantID job = t
     \<and> sj_Engine job = (if ci_SourceKind inp = SourceURL then ''webrecon'' else ''fetcher'')"
proof -
  define es where "es = rs_Engines res"
  define n where "n = en_next w + length es"
  define i where "i = en_uuid w n"
  define scan where "scan = row_Scan (created_row i w (scan_request t inp es))"
  define new where "new = map (\<lambda>(k, r). r\<lparr>er_ID := en_uuid w k, er_Family := []\<rparr>) (enumerate (Suc n) (rows_of i t w es))"
  define v where "v = w\<lparr>en_next := Suc n + length es, db_scans := db_scans w @ [\<lparr>row_Scan = scan, row_Pinned = False\<rparr>],
    db_runs := db_runs w @ new\<rparr>"
  have scan: "sc_ID scan = i" "sc_TenantID scan = t" "sc_ProjectID scan = ci_ProjectID inp"
    "sc_SourceKind scan = ci_SourceKind inp" "sc_Status scan = ScanQueued"
    by (simp_all add: scan_def created_row_def scan_request_def)
  have row: "created_row i w (scan_request t inp es) = \<lparr>row_Scan = scan, row_Pinned = False\<rparr>"
    by (simp add: scan_def created_row_def)
  have stored: "run_state (Store_CreateScan (scan_request t inp es)
      (map (\<lambda>(k, e). plan_of w k e) (enumerate (en_next w) es))) (w\<lparr>en_next := n\<rparr>) = (Inr scan, v)"
    using store_create_run [OF assms(1-4,6) es_def assms(7,8) [folded es_def] n_def i_def refl]
    by (simp add: row v_def new_def)
  have v: "reliable v" using assms(1) by (simp add: v_def reliable_def)
  obtain ecos where skips: "run_state (for_each (record_skipped o1 t i) (rs_SkippedForSource res)) v
      = (Inr (), v\<lparr>db_ecosystems := ecos\<rparr>)"
    using reliable_skips [OF v] by blast
  define u where "u = v\<lparr>db_ecosystems := ecos\<rparr>"
  have u: "reliable u" using v by (simp add: u_def reliable_def)
  define job where "job = (if ci_SourceKind inp = SourceURL then producer_job o1 FamilyWebrecon ''webrecon'' scan (fresh_id u) (en_clock u)
    else producer_job o1 FamilyFetch ''fetcher'' scan (fresh_id u) (en_clock u))"
  have ids: "fresh_id u \<noteq> []" "i \<noteq> []"
    using assms(4) by (simp_all add: fresh_from_def u_def v_def i_def n_def fresh_id_def)
  have valid: "Job_Validate job = Inr ()"
    using assms(2,5) admit_gives [OF assms(6)] ids scan
    by (auto simp: job_def u_def v_def zero_time_def intro!: producer_job_valid)
  have sent: "run_state (if sc_SourceKind scan = SourceURL then publishWebreconJob o1 scan else publishFetchJob o1 scan) u
      = (Inr (), (drop_id u)\<lparr>en_outbox := en_outbox u @ [job_message job]\<rparr>)"
    using u valid
    by (simp add: scan(4) publishWebreconJob_def publishFetchJob_def publish_producer_def run_simps Let_def
        publishJob_def reliable_publish job_message_def producer_job_def job_def split: if_splits)
  let ?w' = "(drop_id u)\<lparr>en_outbox := en_outbox u @ [job_message job]\<rparr>"
  have run: "run_state (CreateScan o1 t inp) w = (Inr scan, ?w')"
    using sent
    by (simp add: CreateScan_def assms(6) run_plan stored skips scan(1) flip: es_def n_def u_def)
  have old: "filter (\<lambda>r. er_TenantID r = t \<and> er_ScanID r = i) (db_runs w) = []"
    using assms(3,4) by (force simp: filter_empty_conv db_sound_def fresh_from_def i_def n_def)
  have runs: "visible_runs t i ?w' = new"
    using old by (auto simp: visible_runs_def u_def v_def new_def rows_of_def in_set_enumerate_eq intro!: filter_True)
  have fields: "map (\<lambda>r. (er_EngineID r, er_Attempt r, er_Status r, er_DeadlineAt r)) new
      = map (\<lambda>e. (en_ID e, 1, statusQueued, Some (en_clock w + defaultJobDeadline))) es"
    by (rule nth_equalityI) (simp_all add: new_def rows_of_def nth_enumerate_eq)
  have jf: "sj_ScanID job = i" "sj_TenantID job = t"
    "sj_Engine job = (if ci_SourceKind inp = SourceURL then ''webrecon'' else ''fetcher'')"
    by (simp_all add: job_def producer_job_def scan)
  show ?thesis
    using run runs fields valid jf scan
    by (intro exI [of _ scan] exI [of _ ?w'] exI [of _ job]) (simp add: u_def v_def flip: es_def)
qed

lemma example_fresh: "fresh_from 0 empty_db"
  by (auto simp: fresh_from_def empty_db_def scan_ids_def intro: injI dest: itoa_inj)

abbreviation example_request :: CreateScanInput where
  "example_request \<equiv> \<lparr>ci_ProjectID = ''shop'', ci_SourceKind = SourceGit, ci_Families = [FamilySBOM],
     ci_EngineOverrides = (\<lambda>_. None), ci_RequestedEngines = [''syft'', ''grype''], ci_RequestedBy = ''u'',
     ci_TriggeredBy = ''user''\<rparr>"

lemma example_admitted:
  "(case admit default_orchestrator example_request of Inl _ \<Rightarrow> False
    | Inr res \<Rightarrow> list_all (\<lambda>e. 0 \<le> en_DefaultWeight e) (rs_Engines res) \<and> distinct (map en_ID (rs_Engines res)))"
  by code_simp

theorem created_scan_is_complete_witness:
  "\<exists>scan w'. run_state (CreateScan default_orchestrator ''acme'' example_request) empty_db = (Inr scan, w')
     \<and> sc_Status scan = ScanQueued"
proof -
  obtain res where res: "admit default_orchestrator example_request = Inr res"
    "list_all (\<lambda>e. 0 \<le> en_DefaultWeight e) (rs_Engines res)" "distinct (map en_ID (rs_Engines res))"
    using example_admitted by (auto split: sum.splits)
  have w: "reliable empty_db" "db_sound empty_db" "fresh_from (en_next empty_db) empty_db" "0 \<le> en_clock empty_db"
    using example_fresh by (simp_all add: empty_db_def reliable_def db_sound_def)
  have "''acme'' \<noteq> []" by simp
  from created_scan_is_complete [OF w(1) this w(2-4) res] show ?thesis by blast
qed

lemma example_refused:
  "admit default_orchestrator (example_request\<lparr>ci_SourceKind := ''svn''\<rparr>)
     = Inl (errs_New ValidationFieldInvalid (''source_kind must be git, upload, image or url (got '' @ quoted ''svn'' @ '')''))"
  by code_simp

theorem refused_scan_leaves_no_trace_witness:
  "snd (run_state (CreateScan default_orchestrator ''acme'' (example_request\<lparr>ci_SourceKind := ''svn''\<rparr>)) empty_db) = empty_db"
  using refused_scan_leaves_no_trace [OF example_refused] by simp

section \<open>Histories that do not end as intended\<close>

text \<open>What such a history is judged by: the statuses of scans and runs, and the ids of the messages that
  are jobs, triggers and notifications.\<close>

definition statuses :: "scan_db \<Rightarrow> ScanStatus list \<times> (string \<times> EngineStatus) list" where
  "statuses w = (map (\<lambda>s. sc_Status (row_Scan s)) (db_scans w),
     map (\<lambda>r. (er_EngineID r, er_Status r)) (db_runs w))"

definition jobs_sent :: "scan_db \<Rightarrow> string list" where
  "jobs_sent w = List.map_filter (\<lambda>m. case ms_Payload m of PJob j \<Rightarrow> Some (sj_Engine j) | _ \<Rightarrow> None) (en_outbox w)"

definition triggers_sent :: "scan_db \<Rightarrow> string list" where
  "triggers_sent w = List.map_filter (\<lambda>m. case ms_Payload m of PTrigger g \<Rightarrow> Some (nt_ScanID g) | _ \<Rightarrow> None) (en_outbox w)"

text \<open>An engine that reads another engine's output is held for ever when that engine is not in the
  scan: a scan that asks for \<^verbatim>\<open>grype\<close> alone is admitted and fanned out, but its only run stays
  queued, no job for it is published, and the scan stays running until the deadline.\<close>

theorem dependent_without_its_producer_is_never_dispatched:
  "statuses (after [ask [''grype''], fetched ''id1'' ''c0ffee'']) = ([ScanRunning], [(''grype'', statusQueued)])
   \<and> jobs_sent (after [ask [''grype''], fetched ''id1'' ''c0ffee'']) = [''fetcher'']"
  by code_simp

abbreviation example_swept :: "stimulus list" where
  "example_swept \<equiv> [ask [''syft'', ''trivy-fs''], fetched ''id2'' ''c0ffee'',
     finish ''id2'' ''id0'' ''syft'' StatusSucceeded, Elapse 1900000000000, Reap]"

text \<open>The reaper completes a scan without normalizing it: when the last SBOM engine of a scan runs into its
  deadline after another succeeded, the sweep gives the scan its terminal status, but no normalize
  trigger is published, although the succeeded engine has output to normalize.\<close>

theorem swept_scan_is_not_normalized:
  "statuses (after example_swept) = ([ScanCompletedWithErrors], [(''syft'', StatusSucceeded), (''trivy-fs'', StatusTimeout)])
   \<and> triggers_sent (after example_swept) = []"
  by code_simp

text \<open>A fetch result that arrives after a failed one puts a failed scan back to running although all its
  runs have failed: the pin does not look at the status, nothing is queued any more, so no job is
  published and no result will ever settle the scan.\<close>

theorem late_fetch_revives_a_failed_scan:
  "statuses (after [ask [''syft''], Result (result_of ''id1'' ''fetch-1'' ''fetcher'' StatusTimeout)])
     = ([ScanFailed], [(''syft'', StatusFailed)])
   \<and> statuses (after [ask [''syft''], Result (result_of ''id1'' ''fetch-1'' ''fetcher'' StatusTimeout), fetched ''id1'' ''c0ffee''])
     = ([ScanRunning], [(''syft'', StatusFailed)])"
  by code_simp

text \<open>Cancelling a scan does not stick: a result that was already under way overwrites the cancelled
  status with the derived one.\<close>

theorem cancelled_scan_is_completed_by_a_late_result:
  "statuses (after [ask [''syft''], fetched ''id1'' ''c0ffee'', CancelScan ''acme'' ''id1''])
     = ([ScanCancelled], [(''syft'', statusQueued)])
   \<and> statuses (after [ask [''syft''], fetched ''id1'' ''c0ffee'', CancelScan ''acme'' ''id1'',
       finish ''id1'' ''id0'' ''syft'' StatusSucceeded]) = ([ScanCompleted], [(''syft'', StatusSucceeded)])"
  by code_simp

text \<open>Naming an engine twice is a server error: the combination check accepts the request, the two
  runs then collide on the unique key of the table and the whole scan is rolled back with an error
  that carries no code of the catalogue.\<close>

theorem repeated_engine_is_a_database_error:
  "fst (run_state (CreateScan default_orchestrator ''acme'' (example_request\<lparr>ci_RequestedEngines := [''syft'', ''syft'']\<rparr>)) empty_db)
     = Inl (Plain ''insert engine run syft'' [err_database])
   \<and> db_scans (after [ask [''syft'', ''syft'']]) = []"
  by code_simp

end
