(* ===== verification/Cron_Schedule.thy ===== *)
theory Cron_Schedule
  imports Go_Time Errs
begin

text \<open>
  \<^verbatim>\<open>services/campaign/internal/schedule/schedule.go\<close>: five-field cron expressions, the search for the
  next run over wall-clock slots, and what becomes of the runs a stopped scheduler missed.
\<close>

section \<open>Expressions\<close>

record fieldSet =
  fs_values :: "int list"
  fs_star :: bool

record Spec =
  sp_Minutes :: fieldSet
  sp_Hours :: fieldSet
  sp_Days :: fieldSet
  sp_Months :: fieldSet
  sp_Weekdays :: fieldSet
  sp_raw :: string

definition Spec_String :: "Spec \<Rightarrow> string" where
  "Spec_String s = sp_raw s"

definition has :: "fieldSet \<Rightarrow> int \<Rightarrow> bool" where
  "has f v \<longleftrightarrow> v \<in> set (fs_values f)"

definition monthNames :: "(string \<times> int) list" where
  "monthNames = [(''jan'', 1), (''feb'', 2), (''mar'', 3), (''apr'', 4), (''may'', 5), (''jun'', 6),
     (''jul'', 7), (''aug'', 8), (''sep'', 9), (''oct'', 10), (''nov'', 11), (''dec'', 12)]"

definition dayNames :: "(string \<times> int) list" where
  "dayNames = [(''sun'', 0), (''mon'', 1), (''tue'', 2), (''wed'', 3), (''thu'', 4), (''fri'', 5), (''sat'', 6)]"

text \<open>A \<^verbatim>\<open>nil\<close> table of names is the empty one.\<close>

definition parseValue :: "string \<Rightarrow> (string \<times> int) list \<Rightarrow> go_err + int" where
  "parseValue s names =
     (let s = trim_space s in
      case map_of names (to_lower s) of
        Some v \<Rightarrow> Inr v
      | None \<Rightarrow>
          (case atoi s of
             None \<Rightarrow> Inl (Plain (quoted s @ '' is not a number or a known name'') [])
           | Some v \<Rightarrow> Inr v))"

text \<open>
  \<^verbatim>\<open>for v := lo; v <= hi; v += step\<close> with Go's 64-bit \<^verbatim>\<open>int\<close>, which wraps. The loop's own condition is
  \<open>v \<le> hi\<close>; the other three hold whenever \<open>parse_part\<close> enters it, since it refuses a step below 1, a
  bound outside the field's range, and \<^verbatim>\<open>strconv.Atoi\<close> yields 64-bit numbers.
\<close>

function stepped :: "int \<Rightarrow> int \<Rightarrow> int \<Rightarrow> int list" where
  "stepped v hi step =
     (if v \<le> hi \<and> - (2 ^ 63) \<le> v \<and> hi < 2 ^ 61 \<and> 1 \<le> step \<and> step < 2 ^ 63
      then v # stepped (signed_take_bit 63 (v + step)) hi step else [])"
  by pat_completeness auto

text \<open>
  A step that cannot wrap brings \<open>v\<close> closer to \<open>hi\<close>. One that can, wraps a value of the field to a
  negative number and takes that one back below where it started.
\<close>

definition wrapping :: "int \<Rightarrow> int \<Rightarrow> bool" where
  "wrapping hi step \<longleftrightarrow> 2 ^ 63 \<le> hi + step"

definition stepped_measure :: "int \<times> int \<times> int \<Rightarrow> nat" where
  "stepped_measure = (\<lambda>(v, hi, step).
     if hi < v then 0
     else if \<not> wrapping hi step then nat (hi - v + 1)
     else if 0 \<le> v then nat (2 * v + 3)
     else if hi < v + step then 1
     else if 0 \<le> v + step then nat (2 * (v + step) + 4)
     else 2)"

lemma wrapped_sum:
  assumes "- (2 ^ 63) \<le> v" "v < 2 ^ 63" "1 \<le> step" "step < (2::int) ^ 63"
  shows "signed_take_bit 63 (v + step) = (if v + step < 2 ^ 63 then v + step else v + step - 2 ^ 64)"
proof (cases "v + step < 2 ^ 63")
  case True
  then show ?thesis using assms by (simp add: signed_take_bit_int_eq_self)
next
  case False
  have "signed_take_bit 63 (v + step) = signed_take_bit 63 (v + step - 2 ^ 64)"
    by (simp add: signed_take_bit_eq_iff_take_bit_eq take_bit_eq_mod mod_diff_eq)
  then show ?thesis using False assms by (simp add: signed_take_bit_int_eq_self)
qed

termination stepped
proof (relation "measure stepped_measure")
  fix v hi step :: int
  assume a: "v \<le> hi \<and> - (2 ^ 63) \<le> v \<and> hi < 2 ^ 61 \<and> 1 \<le> step \<and> step < 2 ^ 63"
  then have "signed_take_bit 63 (v + step) = (if v + step < 2 ^ 63 then v + step else v + step - 2 ^ 64)"
    by (intro wrapped_sum) auto
  with a show "((signed_take_bit 63 (v + step), hi, step), v, hi, step) \<in> measure stepped_measure"
    by (auto simp: stepped_measure_def wrapping_def)
qed simp

declare stepped.simps [simp del]

text \<open>One element of a field: an optional step after a slash, then a star, a range or a value.\<close>

definition part_step :: "string \<Rightarrow> go_err + string \<times> int" where
  "part_step part =
     (case cut_at (CHR ''/'') part of
        None \<Rightarrow> Inr (part, 1)
      | Some (before, after) \<Rightarrow>
          (let bad = Inl (Plain (''step '' @ quoted after @ '' is not a positive integer'') [])
           in case atoi after of
             None \<Rightarrow> bad
           | Some step \<Rightarrow> if step < 1 then bad else Inr (before, step)))"

definition part_bounds :: "string \<Rightarrow> int \<Rightarrow> int \<Rightarrow> (string \<times> int) list \<Rightarrow> go_err + int \<times> int" where
  "part_bounds part min1 max1 names =
     (if part = ''*'' then Inr (min1, max1)
      else case cut_at (CHR ''-'') part of
        Some (a, b) \<Rightarrow>
          (case parseValue a names of
             Inl e \<Rightarrow> Inl e
           | Inr lo \<Rightarrow> (case parseValue b names of Inl e \<Rightarrow> Inl e | Inr hi \<Rightarrow> Inr (lo, hi)))
      | None \<Rightarrow> (case parseValue part names of Inl e \<Rightarrow> Inl e | Inr v \<Rightarrow> Inr (v, v)))"

definition parse_part ::
  "string \<Rightarrow> int \<Rightarrow> int \<Rightarrow> (string \<times> int) list \<Rightarrow> fieldSet \<Rightarrow> string \<Rightarrow> go_err + fieldSet" where
  "parse_part field min1 max1 names out part =
     (let part = trim_space part in
      if part = [] then Inl (Plain (''empty element in '' @ quoted field) [])
      else case part_step part of
        Inl e \<Rightarrow> Inl e
      | Inr (part, step) \<Rightarrow>
          (case part_bounds part min1 max1 names of
             Inl e \<Rightarrow> Inl e
           | Inr (lo, hi) \<Rightarrow>
               if lo < min1 \<or> max1 < hi \<or> hi < lo
               then Inl (Plain (quoted part @ '' is outside the valid range '' @ itoa (nat min1) @ ''-''
                      @ itoa (nat max1)) [])
               else Inr \<lparr>fs_values = fs_values out @ stepped lo hi step,
                         fs_star = (fs_star out \<or> part = ''*'')\<rparr>))"

fun parse_parts ::
  "string \<Rightarrow> int \<Rightarrow> int \<Rightarrow> (string \<times> int) list \<Rightarrow> fieldSet \<Rightarrow> string list \<Rightarrow> go_err + fieldSet" where
  "parse_parts field min1 max1 names out [] = Inr out"
| "parse_parts field min1 max1 names out (part # parts) =
     (case parse_part field min1 max1 names out part of
        Inl e \<Rightarrow> Inl e
      | Inr out \<Rightarrow> parse_parts field min1 max1 names out parts)"

definition parseField :: "string \<Rightarrow> int \<Rightarrow> int \<Rightarrow> (string \<times> int) list \<Rightarrow> go_err + fieldSet" where
  "parseField field min1 max1 names =
     (case parse_parts field min1 max1 names \<lparr>fs_values = [], fs_star = False\<rparr> (split_on (CHR '','') field) of
        Inl e \<Rightarrow> Inl e
      | Inr out \<Rightarrow>
          if fs_values out = [] then Inl (Plain (quoted field @ '' matches nothing'') []) else Inr out)"

definition in_field :: "string \<Rightarrow> go_err + fieldSet \<Rightarrow> go_err + fieldSet" where
  "in_field name r = (case r of Inl e \<Rightarrow> Inl (Plain (name @ '' field'') [e]) | Inr f \<Rightarrow> Inr f)"

text \<open>Sunday is 0 and 7.\<close>

definition sunday_both :: "fieldSet \<Rightarrow> fieldSet" where
  "sunday_both f = (if has f 7 then f\<lparr>fs_values := fs_values f @ [0]\<rparr> else f)"

definition Parse :: "string \<Rightarrow> go_err + Spec" where
  "Parse expr =
     (case Go_Text.fields (trim_space expr) of
        [f0, f1, f2, f3, f4] \<Rightarrow>
          (case in_field ''minute'' (parseField f0 0 59 []) of Inl e \<Rightarrow> Inl e | Inr minutes \<Rightarrow>
           case in_field ''hour'' (parseField f1 0 23 []) of Inl e \<Rightarrow> Inl e | Inr hours \<Rightarrow>
           case in_field ''day-of-month'' (parseField f2 1 31 []) of Inl e \<Rightarrow> Inl e | Inr days \<Rightarrow>
           case in_field ''month'' (parseField f3 1 12 monthNames) of Inl e \<Rightarrow> Inl e | Inr months \<Rightarrow>
           case in_field ''day-of-week'' (parseField f4 0 7 dayNames) of Inl e \<Rightarrow> Inl e | Inr weekdays \<Rightarrow>
             Inr \<lparr>sp_Minutes = minutes, sp_Hours = hours, sp_Days = days, sp_Months = months,
                  sp_Weekdays = sunday_both weekdays, sp_raw = trim_space expr\<rparr>)
      | fs \<Rightarrow> Inl (Plain (''cron expression '' @ quoted expr @ '' has '' @ itoa (length fs)
                 @ '' fields; want 5 (minute hour day-of-month month day-of-week)'') []))"

section \<open>The next run\<close>

definition maxSearchDays :: int where
  "maxSearchDays = 366 * 4"

text \<open>A \<^verbatim>\<open>nil\<close> location means UTC.\<close>

definition or_UTC :: "Location option \<Rightarrow> Location" where
  "or_UTC loc = (case loc of None \<Rightarrow> UTC | Some l \<Rightarrow> l)"

definition matchesDate :: "Spec \<Rightarrow> civil \<Rightarrow> Location \<Rightarrow> bool" where
  "matchesDate spec c loc =
     (if \<not> has (sp_Months spec) (month_of c) then False
      else let date = time_Date loc c 12 0 0 0 in
        if day_of (wall_date loc date) \<noteq> day_of c \<or> month_of (wall_date loc date) \<noteq> month_of c then False
        else let domRestricted = \<not> fs_star (sp_Days spec);
                 dowRestricted = \<not> fs_star (sp_Weekdays spec);
                 domMatch = has (sp_Days spec) (day_of c);
                 dowMatch = has (sp_Weekdays spec) (weekday (wall loc date div 86400))
             in if domRestricted \<and> dowRestricted then domMatch \<or> dowMatch
                else if domRestricted then domMatch
                else if dowRestricted then dowMatch
                else True)"

definition resolveSlot :: "civil \<Rightarrow> int \<Rightarrow> int \<Rightarrow> Location \<Rightarrow> instant" where
  "resolveSlot c hour minute loc =
     (let at = time_Date loc c hour minute 0 0 in
      if wall_hour loc at \<noteq> hour \<or> wall_minute loc at \<noteq> minute \<or> day_of (wall_date loc at) \<noteq> day_of c
      then let dayStart = time_Date loc c 0 0 0 0;
               fromMidnight = dayStart + (hour * 60 + minute) * minute_ns
           in if at < fromMidnight then fromMidnight else at
      else let earlier = at - 60 * minute_ns
           in if wall_hour loc earlier = hour \<and> wall_minute loc earlier = minute then earlier else at)"

text \<open>The three nested loops of \<^verbatim>\<open>Next\<close>, innermost first; each returns what makes \<^verbatim>\<open>Next\<close> return.\<close>

definition run_at_minute :: "Spec \<Rightarrow> instant \<Rightarrow> Location \<Rightarrow> civil \<Rightarrow> int \<Rightarrow> int \<Rightarrow> instant option" where
  "run_at_minute spec after loc c hour minute =
     (if \<not> has (sp_Minutes spec) minute then None
      else let at = resolveSlot c hour minute loc in if after < at then Some at else None)"

definition run_in_hour :: "Spec \<Rightarrow> instant \<Rightarrow> Location \<Rightarrow> civil \<Rightarrow> int \<Rightarrow> instant option" where
  "run_in_hour spec after loc c hour =
     (if \<not> has (sp_Hours spec) hour then None
      else first_upto (run_at_minute spec after loc c hour) 0 59)"

definition run_on_day :: "Spec \<Rightarrow> instant \<Rightarrow> Location \<Rightarrow> instant \<Rightarrow> int \<Rightarrow> instant option" where
  "run_on_day spec after loc day d =
     (let c = wall_date loc (add_days loc day d) in
      if \<not> matchesDate spec c loc then None
      else first_upto (run_in_hour spec after loc c) 0 23)"

definition search_start :: "instant \<Rightarrow> Location \<Rightarrow> instant" where
  "search_start after loc =
     (let cursor = time_Date loc (wall_date loc after) (wall_hour loc after) (wall_minute loc after) 0 0
            + minute_ns
      in time_Date loc (wall_date loc cursor) 0 0 0 0)"

text \<open>
  The message of the error names \<open>after\<close> in whatever zone the caller's value carries; an instant of
  the model carries none, and the message here prints UTC.
\<close>

definition Next :: "Spec \<Rightarrow> instant \<Rightarrow> Location option \<Rightarrow> go_err + instant" where
  "Next spec after zone =
     (let loc = or_UTC zone in
      case first_upto (run_on_day spec after loc (search_start after loc)) 0 (maxSearchDays - 1) of
        Some at \<Rightarrow> Inr at
      | None \<Rightarrow> Inl (Plain (''cron expression '' @ quoted (sp_raw spec) @ '' has no run within ''
          @ itoa (nat maxSearchDays) @ '' days of '' @ rfc3339 UTC after
          @ ''; it may match a date that never occurs, such as February 30th'') []))"

section \<open>Missed runs\<close>

record Occurrence =
  oc_ScheduledFor :: instant
  oc_Skipped :: bool
  oc_Reason :: string

definition maxMissedTracked :: nat where
  "maxMissedTracked = 500"

text \<open>The loop of \<^verbatim>\<open>CatchUp\<close>; the number says how many more occurrences it may still collect.\<close>

fun missed_runs :: "Spec \<Rightarrow> instant \<Rightarrow> Location option \<Rightarrow> nat \<Rightarrow> instant \<Rightarrow> go_err + instant list" where
  "missed_runs spec now zone 0 cursor = Inr []"
| "missed_runs spec now zone (Suc n) cursor =
     (case Next spec cursor zone of
        Inl e \<Rightarrow> Inl e
      | Inr at \<Rightarrow>
          if now < at then Inr []
          else case missed_runs spec now zone n at of Inl e \<Rightarrow> Inl e | Inr missed \<Rightarrow> Inr (at # missed))"

definition skip_reason :: "Location \<Rightarrow> instant \<Rightarrow> string" where
  "skip_reason loc last1 = ''missed while the scheduler was unavailable; superseded by the run at ''
     @ rfc3339 loc last1 @ ''. Only the most recent missed occurrence is executed, to avoid a ''
     @ ''thundering herd against the scan queue.''"

definition CatchUp :: "Spec \<Rightarrow> instant \<Rightarrow> instant \<Rightarrow> Location option \<Rightarrow> go_err + Occurrence list" where
  "CatchUp spec lastRun now zone =
     (case missed_runs spec now zone (maxMissedTracked + 1) lastRun of
        Inl e \<Rightarrow> Inl e
      | Inr [] \<Rightarrow> Inr []
      | Inr (m # ms) \<Rightarrow>
          Inr (map (\<lambda>at. \<lparr>oc_ScheduledFor = at, oc_Skipped = True,
                  oc_Reason = skip_reason (or_UTC zone) (last (m # ms))\<rparr>) (butlast (m # ms))
             @ [\<lparr>oc_ScheduledFor = last (m # ms), oc_Skipped = False, oc_Reason = []\<rparr>]))"

end
