(* ===== verification/Campaign_Store.thy ===== *)
theory Campaign_Store
  imports Cron_Schedule Tenant_Db
begin

text \<open>
  \<^verbatim>\<open>services/campaign/internal/store/store.go\<close> and the schema it works on
  (\<^verbatim>\<open>migrations/campaign\<close>): campaigns, their runs, and the scheduler's persistence. Row-level security
  adds the tenant to every predicate of a tenant's transaction. The host's zone database is the
  parameter \<open>zones\<close>.
\<close>

section \<open>Rows\<close>

record Campaign =
  ca_ID :: string
  ca_TenantID :: string
  ca_Name :: string
  ca_CronExpr :: string
  ca_Timezone :: string
  ca_ProjectIDs :: "string list"
  ca_BOMTypes :: "string list"
  ca_ReportLevels :: "string list"
  ca_Standards :: "string list"
  ca_Formats :: "string list"
  ca_Cursor :: instant

record campaign_row =
  cp_ID :: string
  cp_TenantID :: string
  cp_Name :: string
  cp_ProjectIDs :: "string list"
  cp_CronExpr :: string
  cp_Timezone :: string
  cp_BOMTypes :: "string list"
  cp_ReportLevels :: "string list"
  cp_Standards :: "string list"
  cp_Formats :: "string list"
  cp_Enabled :: bool
  cp_NextRunAt :: "instant option"
  cp_LastRunAt :: "instant option"
  cp_CreatedBy :: string
  cp_CreatedAt :: instant
  cp_UpdatedAt :: instant

record Run =
  rn_ID :: string
  rn_TenantID :: string
  rn_CampaignID :: string
  rn_ScheduledFor :: instant
  rn_StartedAt :: "instant option"
  rn_FinishedAt :: "instant option"
  rn_Status :: string
  rn_SkipReason :: string
  rn_ScanIDs :: "string list"
  rn_Error :: string
  rn_CreatedAt :: instant

text \<open>
  One request of the trigger to the scan service, with the run it is made for, and the service's
  answer: its status, its body, and the id the body decodes to (\<open>None\<close> when it is not the JSON of an
  answer). The answers, and those of the leader lock, belong to the environment. \<open>cd_claims\<close> is a
  history variable: the claims that inserted a run, also after the run is deleted.
\<close>

record scan_post =
  po_TenantID :: string
  po_ProjectID :: string
  po_BOMTypes :: "string list"
  po_TriggeredBy :: string
  po_TriggerRef :: string
  po_RunID :: string

record http_answer =
  ha_Status :: int
  ha_Body :: string
  ha_ID :: "string option"

record claim =
  cm_RunID :: string
  cm_Campaign :: Campaign
  cm_ScheduledFor :: instant

record campaign_db = env +
  cd_campaigns :: "campaign_row list"
  cd_runs :: "Run list"
  cd_posts :: "scan_post list"
  cd_answers :: "scan_post \<Rightarrow> nat \<Rightarrow> go_err + http_answer"
  cd_token :: "go_err + string"
  cd_lock :: "go_err + bool"
  cd_claims :: "claim list"

abbreviation err_no_rows :: go_err where "err_no_rows \<equiv> Plain ''no rows in result set'' []"

abbreviation statusPending :: string where "statusPending \<equiv> ''pending''"
abbreviation statusRunStarted :: string where "statusRunStarted \<equiv> ''running''"
abbreviation statusRunFailed :: string where "statusRunFailed \<equiv> ''failed''"
abbreviation statusSkipped :: string where "statusSkipped \<equiv> ''skipped''"

section \<open>Campaigns\<close>

definition Location_of :: "(string \<Rightarrow> Location option) \<Rightarrow> string \<Rightarrow> go_err + Location" where
  "Location_of zones name =
     (if name = [] then Inr UTC
      else case zones name of
        None \<Rightarrow> Inl (Plain (''unknown time zone '' @ name) [])
      | Some loc \<Rightarrow> Inr loc)"

definition firstOccurrence :: "(string \<Rightarrow> Location option) \<Rightarrow> string \<Rightarrow> string \<Rightarrow> instant \<Rightarrow> go_err + instant" where
  "firstOccurrence zones cronExpr timezone now =
     (case Parse cronExpr of
        Inl e \<Rightarrow> Inl (Plain (''cron '' @ quoted cronExpr) [e])
      | Inr spec \<Rightarrow>
          (case Location_of zones timezone of
             Inl e \<Rightarrow> Inl (Plain (''timezone '' @ quoted timezone @ '' is not in this host's zone database'') [e])
           | Inr loc \<Rightarrow> Next spec now (Some loc)))"

definition own_campaign :: "string \<Rightarrow> string \<Rightarrow> campaign_row \<Rightarrow> bool" where
  "own_campaign tenantID i c \<longleftrightarrow> cp_TenantID c = tenantID \<and> cp_ID c = i"

definition find_campaign :: "string \<Rightarrow> string \<Rightarrow> 'a campaign_db_scheme \<Rightarrow> campaign_row option" where
  "find_campaign tenantID i w = find (own_campaign tenantID i) (cd_campaigns w)"

text \<open>\<^verbatim>\<open>UNIQUE (tenant_id, name)\<close>, for a row that gets this name.\<close>

definition name_taken :: "string \<Rightarrow> string \<Rightarrow> string \<Rightarrow> 'a campaign_db_scheme \<Rightarrow> bool" where
  "name_taken tenantID name i w =
     list_ex (\<lambda>c. cp_TenantID c = tenantID \<and> cp_Name c = name \<and> cp_ID c \<noteq> i) (cd_campaigns w)"

text \<open>An update of a row; the trigger \<^verbatim>\<open>touch_updated_at\<close> sets the time.\<close>

definition update_campaign ::
  "string \<Rightarrow> string \<Rightarrow> (campaign_row \<Rightarrow> campaign_row) \<Rightarrow> campaign_db \<Rightarrow> campaign_db" where
  "update_campaign tenantID i f w = w\<lparr>cd_campaigns := map
     (\<lambda>c. if own_campaign tenantID i c then (f c)\<lparr>cp_UpdatedAt := en_clock w\<rparr> else c) (cd_campaigns w)\<rparr>"

definition wrapped :: "string \<Rightarrow> go_err + 'a \<Rightarrow> go_err + 'a" where
  "wrapped msg r = (case r of Inl e \<Rightarrow> Inl (Plain msg [e]) | Inr x \<Rightarrow> Inr x)"

definition not_found_or :: "string \<Rightarrow> go_err + 'a \<Rightarrow> go_err + 'a" where
  "not_found_or msg r = (case r of
     Inl e \<Rightarrow> Inl (if errors_Is e err_no_rows then ErrNotFound else Plain msg [e])
   | Inr x \<Rightarrow> Inr x)"

definition Campaign_Create :: "string \<Rightarrow> campaign_row \<Rightarrow> (campaign_db, go_err + campaign_row) state" where
  "Campaign_Create tenantID c =
     do { r \<leftarrow> WithTenant tenantID (\<lambda>w.
            let row = c\<lparr>cp_ID := fresh_id w, cp_TenantID := tenantID, cp_LastRunAt := None,
                  cp_CreatedAt := en_clock w, cp_UpdatedAt := en_clock w\<rparr>
            in if name_taken tenantID (cp_Name c) (fresh_id w) w then Inl err_database
               else Inr (row, (drop_id w)\<lparr>cd_campaigns := cd_campaigns w @ [row]\<rparr>));
          ret (wrapped ''create campaign'' r) }"

definition Campaign_Get :: "string \<Rightarrow> string \<Rightarrow> (campaign_db, go_err + campaign_row) state" where
  "Campaign_Get tenantID i =
     do { r \<leftarrow> ReadTenant tenantID (\<lambda>w. case find_campaign tenantID i w of
            None \<Rightarrow> Inl err_no_rows | Some c \<Rightarrow> Inr c);
          ret (not_found_or ''get campaign'' r) }"

definition Campaign_List :: "string \<Rightarrow> int \<Rightarrow> (campaign_db, go_err + campaign_row list) state" where
  "Campaign_List tenantID limit =
     do { let limit = (if limit \<le> 0 \<or> 200 < limit then 50 else limit);
          r \<leftarrow> ReadTenant tenantID (\<lambda>w. Inr (take (nat limit)
            (slice_stable (\<lambda>a b. cp_CreatedAt b < cp_CreatedAt a)
              (filter (\<lambda>c. cp_TenantID c = tenantID) (cd_campaigns w)))));
          ret (wrapped ''list campaigns'' r) }"

definition Campaign_Update ::
  "(string \<Rightarrow> Location option) \<Rightarrow> string \<Rightarrow> string \<Rightarrow> campaign_row \<Rightarrow> instant \<Rightarrow> (campaign_db, go_err + campaign_row) state" where
  "Campaign_Update zones tenantID i c now =
     (case firstOccurrence zones (cp_CronExpr c) (cp_Timezone c) now of
        Inl e \<Rightarrow> ret (Inl e)
      | Inr at \<Rightarrow>
          do { r \<leftarrow> WithTenant tenantID (\<lambda>w.
                 let w' = update_campaign tenantID i (\<lambda>old. old\<lparr>cp_Name := cp_Name c,
                       cp_ProjectIDs := cp_ProjectIDs c, cp_CronExpr := cp_CronExpr c,
                       cp_Timezone := cp_Timezone c, cp_BOMTypes := cp_BOMTypes c,
                       cp_ReportLevels := cp_ReportLevels c, cp_Standards := cp_Standards c,
                       cp_Formats := cp_Formats c,
                       cp_NextRunAt := (if cp_Enabled old then Some at else None)\<rparr>) w
                 in case find_campaign tenantID i w' of
                   None \<Rightarrow> Inl err_no_rows
                 | Some row \<Rightarrow> if name_taken tenantID (cp_Name c) i w then Inl err_database else Inr (row, w'));
               ret (not_found_or ''update campaign'' r) })"

definition SetEnabled ::
  "(string \<Rightarrow> Location option) \<Rightarrow> string \<Rightarrow> string \<Rightarrow> bool \<Rightarrow> instant \<Rightarrow> (campaign_db, go_err + campaign_row) state" where
  "SetEnabled zones tenantID i enabled now =
     do { r \<leftarrow> WithTenant tenantID (\<lambda>w. case find_campaign tenantID i w of
            None \<Rightarrow> Inl err_no_rows
          | Some current \<Rightarrow>
              (case (if enabled then map_sum id Some (firstOccurrence zones (cp_CronExpr current) (cp_Timezone current) now)
                     else Inr None) of
                 Inl e \<Rightarrow> Inl e
               | Inr at \<Rightarrow>
                   let w' = update_campaign tenantID i (\<lambda>c. c\<lparr>cp_Enabled := enabled, cp_NextRunAt := at\<rparr>) w
                   in case find_campaign tenantID i w' of None \<Rightarrow> Inl err_no_rows | Some row \<Rightarrow> Inr (row, w')));
          ret (not_found_or ''set campaign enabled'' r) }"

text \<open>Runs go with their campaign (\<^verbatim>\<open>ON DELETE CASCADE\<close>).\<close>

definition Campaign_Delete :: "string \<Rightarrow> string \<Rightarrow> (campaign_db, go_err + unit) state" where
  "Campaign_Delete tenantID i =
     do { r \<leftarrow> WithTenant tenantID (\<lambda>w. case find_campaign tenantID i w of
            None \<Rightarrow> Inl ErrNotFound
          | Some c \<Rightarrow> Inr ((), w\<lparr>cd_campaigns := filter (\<lambda>c. \<not> own_campaign tenantID i c) (cd_campaigns w),
                             cd_runs := filter (\<lambda>r. rn_CampaignID r \<noteq> i) (cd_runs w)\<rparr>));
          ret (case r of
            Inl e \<Rightarrow> Inl (if errors_Is e ErrNotFound then e else Plain ''delete campaign'' [e])
          | Inr x \<Rightarrow> Inr x) }"

definition ListRuns :: "string \<Rightarrow> string \<Rightarrow> int \<Rightarrow> (campaign_db, go_err + Run list) state" where
  "ListRuns tenantID campaignID limit =
     do { let limit = (if limit \<le> 0 \<or> 500 < limit then 100 else limit);
          r \<leftarrow> ReadTenant tenantID (\<lambda>w. Inr (take (nat limit)
            (slice_stable (\<lambda>a b. rn_ScheduledFor b < rn_ScheduledFor a)
              (filter (\<lambda>r. rn_TenantID r = tenantID \<and> rn_CampaignID r = campaignID) (cd_runs w)))));
          ret (wrapped ''list campaign runs'' r) }"

section \<open>The scheduler's persistence\<close>

text \<open>
  \<^verbatim>\<open>campaign.due_campaigns\<close>, across tenants, oldest cursor first. Postgres leaves the order of equal
  cursors open; here it is the order of the table.
\<close>

definition due :: "instant \<Rightarrow> campaign_row \<Rightarrow> bool" where
  "due now c \<longleftrightarrow> cp_Enabled c \<and> (case cp_NextRunAt c of None \<Rightarrow> False | Some at \<Rightarrow> at \<le> now)"

definition scheduled :: "campaign_row \<Rightarrow> Campaign" where
  "scheduled c = \<lparr>ca_ID = cp_ID c, ca_TenantID = cp_TenantID c, ca_Name = cp_Name c,
     ca_CronExpr = cp_CronExpr c, ca_Timezone = cp_Timezone c, ca_ProjectIDs = cp_ProjectIDs c,
     ca_BOMTypes = cp_BOMTypes c, ca_ReportLevels = cp_ReportLevels c, ca_Standards = cp_Standards c,
     ca_Formats = cp_Formats c, ca_Cursor = (case cp_NextRunAt c of None \<Rightarrow> zero_time | Some at \<Rightarrow> at)\<rparr>"

definition due_campaigns :: "instant \<Rightarrow> int \<Rightarrow> campaign_db \<Rightarrow> Campaign list" where
  "due_campaigns now limit w = take (nat (min (max limit 1) 1000))
     (slice_stable (\<lambda>a b. ca_Cursor a < ca_Cursor b) (map scheduled (filter (due now) (cd_campaigns w))))"

definition DueCampaigns :: "instant \<Rightarrow> int \<Rightarrow> (campaign_db, go_err + Campaign list) state" where
  "DueCampaigns now limit =
     do { r \<leftarrow> Db_Call (\<lambda>w. Inr (due_campaigns now limit w, w));
          ret (wrapped ''due campaigns'' r) }"

text \<open>
  The insert of a run: nothing when the campaign has a run for that instant
  (\<^verbatim>\<open>UNIQUE (campaign_id, scheduled_for)\<close> with \<^verbatim>\<open>ON CONFLICT DO NOTHING\<close>), an error when there is no
  such campaign (the foreign key).
\<close>

definition new_run :: "campaign_db \<Rightarrow> Campaign \<Rightarrow> instant \<Rightarrow> Run" where
  "new_run w c at = \<lparr>rn_ID = fresh_id w, rn_TenantID = ca_TenantID c, rn_CampaignID = ca_ID c,
     rn_ScheduledFor = at, rn_StartedAt = None, rn_FinishedAt = None, rn_Status = statusPending,
     rn_SkipReason = [], rn_ScanIDs = [], rn_Error = [], rn_CreatedAt = en_clock w\<rparr>"

definition run_exists :: "string \<Rightarrow> instant \<Rightarrow> campaign_db \<Rightarrow> bool" where
  "run_exists i at w = list_ex (\<lambda>r. rn_CampaignID r = i \<and> rn_ScheduledFor r = at) (cd_runs w)"

definition insert_campaign_run :: "Run \<Rightarrow> campaign_db \<Rightarrow> go_err + bool \<times> campaign_db" where
  "insert_campaign_run r w =
     (if run_exists (rn_CampaignID r) (rn_ScheduledFor r) w then Inr (False, w)
      else if \<not> list_ex (\<lambda>c. cp_ID c = rn_CampaignID r) (cd_campaigns w) then Inl err_database
      else Inr (True, (drop_id w)\<lparr>cd_runs := cd_runs w @ [r]\<rparr>))"

definition ClaimRun :: "Campaign \<Rightarrow> instant \<Rightarrow> (campaign_db, go_err + string \<times> bool) state" where
  "ClaimRun c at =
     do { r \<leftarrow> WithTenant (ca_TenantID c) (\<lambda>w.
            case insert_campaign_run (new_run w c at) w of
              Inl e \<Rightarrow> Inl e
            | Inr (inserted, w') \<Rightarrow>
                if inserted
                then Inr ((fresh_id w, True), w'\<lparr>cd_claims := cd_claims w @
                       [\<lparr>cm_RunID = fresh_id w, cm_Campaign = c, cm_ScheduledFor = at\<rparr>]\<rparr>)
                else Inr (([], False), w'));
          ret (wrapped ''claim run'' r) }"

definition RecordSkipped :: "Campaign \<Rightarrow> instant \<Rightarrow> string \<Rightarrow> (campaign_db, go_err + unit) state" where
  "RecordSkipped c at reason =
     do { r \<leftarrow> WithTenant (ca_TenantID c) (\<lambda>w.
            case insert_campaign_run ((new_run w c at)\<lparr>rn_Status := statusSkipped, rn_SkipReason := reason,
                   rn_FinishedAt := Some (en_clock w)\<rparr>) w of
              Inl e \<Rightarrow> Inl e
            | Inr (_, w') \<Rightarrow> Inr ((), w'));
          ret (wrapped ''record skipped run'' r) }"

definition update_run :: "string \<Rightarrow> string \<Rightarrow> (Run \<Rightarrow> Run) \<Rightarrow> campaign_db \<Rightarrow> campaign_db" where
  "update_run tenantID i f w = w\<lparr>cd_runs := map
     (\<lambda>r. if rn_TenantID r = tenantID \<and> rn_ID r = i then f r else r) (cd_runs w)\<rparr>"

definition StartRun :: "Campaign \<Rightarrow> string \<Rightarrow> string list \<Rightarrow> (campaign_db, go_err + unit) state" where
  "StartRun c runID scanIDs =
     do { r \<leftarrow> WithTenant (ca_TenantID c) (\<lambda>w. Inr ((), update_run (ca_TenantID c) runID
            (\<lambda>r. r\<lparr>rn_Status := statusRunStarted, rn_StartedAt := Some (en_clock w), rn_ScanIDs := scanIDs\<rparr>) w));
          ret (wrapped ''start run'' r) }"

definition FailRun :: "Campaign \<Rightarrow> string \<Rightarrow> string \<Rightarrow> (campaign_db, go_err + unit) state" where
  "FailRun c runID cause =
     do { r \<leftarrow> WithTenant (ca_TenantID c) (\<lambda>w. Inr ((), update_run (ca_TenantID c) runID
            (\<lambda>r. r\<lparr>rn_Status := statusRunFailed, rn_FinishedAt := Some (en_clock w), rn_Error := cause\<rparr>) w));
          ret (wrapped ''fail run'' r) }"

definition AdvanceCursor :: "Campaign \<Rightarrow> instant \<Rightarrow> instant \<Rightarrow> (campaign_db, go_err + unit) state" where
  "AdvanceCursor c next1 lastRun =
     do { let last1 = (if lastRun = zero_time then None else Some lastRun);
          r \<leftarrow> WithTenant (ca_TenantID c) (\<lambda>w. Inr ((), update_campaign (ca_TenantID c) (ca_ID c)
            (\<lambda>p. p\<lparr>cp_NextRunAt := Some next1, cp_LastRunAt := coalesce last1 (cp_LastRunAt p)\<rparr>) w));
          ret (wrapped ''advance campaign cursor'' r) }"

end
