(* ===== verification/Scheduler.thy ===== *)
theory Scheduler
  imports Campaign_Store
begin

text \<open>
  The scheduler (\<^verbatim>\<open>services/campaign/internal/scheduler/scheduler.go\<close>), the trigger it starts scans with
  (\<^verbatim>\<open>internal/trigger/trigger.go\<close>) and the manual run (\<^verbatim>\<open>services/campaign/deps.go\<close>). Several instances
  run at once, and between two calls of one the others go on, so an operation is not a function on the
  state but a program: a tree that makes one call of a port after the other and branches over its
  answer. \<open>execute\<close> runs a program alone; \<open>Scheduler_Steps\<close> interleaves any number of them.
\<close>

section \<open>Programs over the ports\<close>

datatype 'a prog =
    Done 'a
  | Acquire "go_err + bool \<Rightarrow> 'a prog"
  | Due instant int "go_err + Campaign list \<Rightarrow> 'a prog"
  | Claim Campaign instant "go_err + string \<times> bool \<Rightarrow> 'a prog"
  | Skip Campaign instant string "go_err + unit \<Rightarrow> 'a prog"
  | Start Campaign string "string list" "go_err + unit \<Rightarrow> 'a prog"
  | Fail Campaign string string "go_err + unit \<Rightarrow> 'a prog"
  | Advance Campaign instant instant "go_err + unit \<Rightarrow> 'a prog"
  | Mint "go_err + string \<Rightarrow> 'a prog"
  | Post scan_post "go_err + http_answer \<Rightarrow> 'a prog"
  | Notify string NotifyEventV1 "go_err + unit \<Rightarrow> 'a prog"
  | Fetch string string "go_err + campaign_row \<Rightarrow> 'a prog"

primrec andThen :: "'a prog \<Rightarrow> ('a \<Rightarrow> 'b prog) \<Rightarrow> 'b prog" where
  "andThen (Done x) f = f x"
| "andThen (Acquire k) f = Acquire (\<lambda>r. andThen (k r) f)"
| "andThen (Due now n k) f = Due now n (\<lambda>r. andThen (k r) f)"
| "andThen (Claim c at k) f = Claim c at (\<lambda>r. andThen (k r) f)"
| "andThen (Skip c at s k) f = Skip c at s (\<lambda>r. andThen (k r) f)"
| "andThen (Start c i ss k) f = Start c i ss (\<lambda>r. andThen (k r) f)"
| "andThen (Fail c i s k) f = Fail c i s (\<lambda>r. andThen (k r) f)"
| "andThen (Advance c at l k) f = Advance c at l (\<lambda>r. andThen (k r) f)"
| "andThen (Mint k) f = Mint (\<lambda>r. andThen (k r) f)"
| "andThen (Post p k) f = Post p (\<lambda>r. andThen (k r) f)"
| "andThen (Notify i e k) f = Notify i e (\<lambda>r. andThen (k r) f)"
| "andThen (Fetch t i k) f = Fetch t i (\<lambda>r. andThen (k r) f)"

text \<open>
  What a call does to the database and the environment. The lock and the token source answer what the
  environment says; a scan request is sent and answered.
\<close>

definition send_post :: "scan_post \<Rightarrow> (campaign_db, go_err + http_answer) state" where
  "send_post p = State (\<lambda>w. (cd_answers w p (length (cd_posts w)), w\<lparr>cd_posts := cd_posts w @ [p]\<rparr>))"

definition ask_env :: "(campaign_db \<Rightarrow> 'a) \<Rightarrow> (campaign_db, 'a) state" where
  "ask_env f = State (\<lambda>w. (f w, w))"

definition Notifier_Publish :: "string \<Rightarrow> NotifyEventV1 \<Rightarrow> (campaign_db, go_err + unit) state" where
  "Notifier_Publish dedupKey evt = Bus_Publish (Notify_Subject evt) dedupKey (PNotify evt)"

text \<open>One call of a program, and all of them.\<close>

fun advance :: "'a prog \<Rightarrow> (campaign_db, 'a prog) state" where
  "advance (Done x) = ret (Done x)"
| "advance (Acquire k) = do { r \<leftarrow> ask_env cd_lock; ret (k r) }"
| "advance (Due now n k) = do { r \<leftarrow> DueCampaigns now n; ret (k r) }"
| "advance (Claim c at k) = do { r \<leftarrow> ClaimRun c at; ret (k r) }"
| "advance (Skip c at s k) = do { r \<leftarrow> RecordSkipped c at s; ret (k r) }"
| "advance (Start c i ss k) = do { r \<leftarrow> StartRun c i ss; ret (k r) }"
| "advance (Fail c i s k) = do { r \<leftarrow> FailRun c i s; ret (k r) }"
| "advance (Advance c at l k) = do { r \<leftarrow> AdvanceCursor c at l; ret (k r) }"
| "advance (Mint k) = do { r \<leftarrow> ask_env cd_token; ret (k r) }"
| "advance (Post p k) = do { r \<leftarrow> send_post p; ret (k r) }"
| "advance (Notify i e k) = do { r \<leftarrow> Notifier_Publish i e; ret (k r) }"
| "advance (Fetch t i k) = do { r \<leftarrow> Campaign_Get t i; ret (k r) }"

primrec execute :: "'a prog \<Rightarrow> (campaign_db, 'a) state" where
  "execute (Done x) = ret x"
| "execute (Acquire k) = do { r \<leftarrow> ask_env cd_lock; execute (k r) }"
| "execute (Due now n k) = do { r \<leftarrow> DueCampaigns now n; execute (k r) }"
| "execute (Claim c at k) = do { r \<leftarrow> ClaimRun c at; execute (k r) }"
| "execute (Skip c at s k) = do { r \<leftarrow> RecordSkipped c at s; execute (k r) }"
| "execute (Start c i ss k) = do { r \<leftarrow> StartRun c i ss; execute (k r) }"
| "execute (Fail c i s k) = do { r \<leftarrow> FailRun c i s; execute (k r) }"
| "execute (Advance c at l k) = do { r \<leftarrow> AdvanceCursor c at l; execute (k r) }"
| "execute (Mint k) = do { r \<leftarrow> ask_env cd_token; execute (k r) }"
| "execute (Post p k) = do { r \<leftarrow> send_post p; execute (k r) }"
| "execute (Notify i e k) = do { r \<leftarrow> Notifier_Publish i e; execute (k r) }"
| "execute (Fetch t i k) = do { r \<leftarrow> Campaign_Get t i; execute (k r) }"

section \<open>The trigger\<close>

text \<open>The \<^verbatim>\<open>Idempotency-Key\<close> of a request is its run and its project.\<close>

definition idempotency_key :: "scan_post \<Rightarrow> string" where
  "idempotency_key p = po_RunID p @ '':'' @ po_ProjectID p"

definition scanRequest :: "Campaign \<Rightarrow> string \<Rightarrow> string \<Rightarrow> scan_post" where
  "scanRequest c runID projectID = \<lparr>po_TenantID = ca_TenantID c, po_ProjectID = projectID,
     po_BOMTypes = ca_BOMTypes c, po_TriggeredBy = ''campaign'', po_TriggerRef = ca_ID c, po_RunID = runID\<rparr>"

definition scan_answer :: "go_err + http_answer \<Rightarrow> go_err + string" where
  "scan_answer r = (case r of
     Inl e \<Rightarrow> Inl (Plain ''call scan service'' [e])
   | Inr a \<Rightarrow>
       if ha_Status a < 200 \<or> 300 \<le> ha_Status a
       then Inl (Plain (''scan service returned '' @ decimal (ha_Status a) @ '': '' @ trim_space (ha_Body a)) [])
       else case ha_ID a of
         None \<Rightarrow> Inl (Plain ''decode scan response'' [])
       | Some i \<Rightarrow> if i = [] then Inl (Plain ''scan service accepted the request but returned no scan id'' [])
                   else Inr i)"

definition startScan :: "Campaign \<Rightarrow> string \<Rightarrow> string \<Rightarrow> (go_err + string) prog" where
  "startScan c runID projectID = Post (scanRequest c runID projectID) (\<lambda>r. Done (scan_answer r))"

fun start_scans :: "Campaign \<Rightarrow> string \<Rightarrow> string list \<Rightarrow> string list \<Rightarrow> string list
    \<Rightarrow> (string list \<times> go_err option) prog" where
  "start_scans c runID [] started failures = Done (started,
     if failures = [] then None
     else Some (Plain (itoa (length failures) @ '' of '' @ itoa (length (ca_ProjectIDs c))
            @ '' projects could not be scanned: '' @ join ''; '' failures) []))"
| "start_scans c runID (p # ps) started failures =
     andThen (startScan c runID p) (\<lambda>r. case r of
         Inl e \<Rightarrow> start_scans c runID ps started (failures @ [p @ '': '' @ err_text e])
       | Inr scanID \<Rightarrow> start_scans c runID ps (started @ [scanID]) failures)"

definition Trigger :: "Campaign \<Rightarrow> string \<Rightarrow> (string list \<times> go_err option) prog" where
  "Trigger c runID = Mint (\<lambda>r. case r of
       Inl e \<Rightarrow> Done ([], Some (Plain ''mint service token'' [e]))
     | Inr token \<Rightarrow> start_scans c runID (ca_ProjectIDs c) [] [])"

section \<open>The scheduler\<close>

text \<open>
  \<open>sch_hasLock\<close> and \<open>sch_hasNotifier\<close> say whether the optional ports are there, \<open>sch_zones\<close> is the host's
  zone database.
\<close>

record Scheduler =
  sch_hasLock :: bool
  sch_hasNotifier :: bool
  sch_frontendURL :: string
  sch_batch :: int
  sch_zones :: "string \<Rightarrow> Location option"

record Options =
  op_hasStore :: bool
  op_hasTrigger :: bool
  op_hasLock :: bool
  op_hasNotifier :: bool
  op_FrontendURL :: string
  op_Batch :: int

definition Scheduler_New :: "(string \<Rightarrow> Location option) \<Rightarrow> Options \<Rightarrow> go_err + Scheduler" where
  "Scheduler_New zones opts =
     (if \<not> op_hasStore opts then Inl (Plain ''scheduler needs a store'' [])
      else if \<not> op_hasTrigger opts then Inl (Plain ''scheduler needs a trigger'' [])
      else Inr \<lparr>sch_hasLock = op_hasLock opts, sch_hasNotifier = op_hasNotifier opts,
             sch_frontendURL = op_FrontendURL opts,
             sch_batch = (if op_Batch opts \<le> 0 then 200 else op_Batch opts), sch_zones = zones\<rparr>)"

record Result =
  re_Leader :: bool
  re_Dispatched :: nat
  re_Claimed :: nat
  re_Skipped :: nat
  re_Failed :: nat

definition empty_result :: Result where
  "empty_result = \<lparr>re_Leader = False, re_Dispatched = 0, re_Claimed = 0, re_Skipped = 0, re_Failed = 0\<rparr>"

definition Campaign_Location :: "Scheduler \<Rightarrow> Campaign \<Rightarrow> go_err + Location" where
  "Campaign_Location s c =
     (if ca_Timezone c = [] then Inr UTC
      else case sch_zones s (ca_Timezone c) of
        None \<Rightarrow> Inl (Plain (''campaign '' @ ca_ID c @ '' has timezone '' @ quoted (ca_Timezone c)
               @ '', which this host's zone database does not know'')
               [Plain (''unknown time zone '' @ ca_Timezone c) []])
      | Some loc \<Rightarrow> Inr loc)"

definition campaign_failed_event :: "Scheduler \<Rightarrow> Campaign \<Rightarrow> string \<Rightarrow> instant \<Rightarrow> NotifyEventV1" where
  "campaign_failed_event s c cause now = empty_notification\<lparr>ne_Schema := NotifyEventSchema,
     ne_Event := NotifyEventCampaignFailed, ne_TenantID := ca_TenantID c, ne_CampaignID := ca_ID c,
     ne_CampaignName := ca_Name c, ne_Status := ''failed'', ne_Cause := cause,
     ne_URL := sch_frontendURL s @ ''/campaigns/'' @ ca_ID c, ne_OccurredAt := rfc3339 UTC now\<rparr>"

definition publishCampaignFailed :: "Scheduler \<Rightarrow> Campaign \<Rightarrow> string \<Rightarrow> string \<Rightarrow> instant \<Rightarrow> unit prog" where
  "publishCampaignFailed s c runID cause now =
     (if \<not> sch_hasNotifier s \<or> sch_frontendURL s = [] then Done ()
      else Notify runID (campaign_failed_event s c cause now) (\<lambda>_. Done ()))"

text \<open>A claimed occurrence: its scans, and what is recorded of them.\<close>

definition run_claimed :: "Scheduler \<Rightarrow> Campaign \<Rightarrow> string \<Rightarrow> instant \<Rightarrow> go_err option prog" where
  "run_claimed s c runID now =
     andThen (Trigger c runID) (\<lambda>(scanIDs, failed). case failed of
         Some e \<Rightarrow> Fail c runID (err_text e) (\<lambda>_.
             andThen (publishCampaignFailed s c runID (err_text e) now)
               (\<lambda>_. Done (Some (Plain ''trigger scans'' [e]))))
       | None \<Rightarrow> Start c runID scanIDs (\<lambda>r. Done (case r of
             Inl e \<Rightarrow> Some (Plain ''start run'' [e]) | Inr _ \<Rightarrow> None)))"

text \<open>
  The loop over the occurrences. Its result is what was counted, the last occurrence that some
  instance ran, and an error when one ended the loop.
\<close>

fun dispatch_loop :: "Scheduler \<Rightarrow> Campaign \<Rightarrow> instant \<Rightarrow> Occurrence list \<Rightarrow> Result \<Rightarrow> instant
    \<Rightarrow> (Result \<times> instant \<times> go_err option) prog" where
  "dispatch_loop s c now [] out lastFired = Done (out, lastFired, None)"
| "dispatch_loop s c now (occ # occs) out lastFired =
     (if oc_Skipped occ
      then Skip c (oc_ScheduledFor occ) (oc_Reason occ) (\<lambda>r. case r of
          Inl e \<Rightarrow> Done (out, lastFired, Some (Plain ''record skipped occurrence'' [e]))
        | Inr _ \<Rightarrow> dispatch_loop s c now occs (out\<lparr>re_Skipped := re_Skipped out + 1\<rparr>) lastFired)
      else Claim c (oc_ScheduledFor occ) (\<lambda>r. case r of
          Inl e \<Rightarrow> Done (out, lastFired, Some (Plain ''claim run'' [e]))
        | Inr (runID, claimed) \<Rightarrow>
            if \<not> claimed
            then dispatch_loop s c now occs (out\<lparr>re_Claimed := re_Claimed out + 1\<rparr>) (oc_ScheduledFor occ)
            else andThen (run_claimed s c runID now) (\<lambda>failed. case failed of
                Some e \<Rightarrow> Done (out, lastFired, Some e)
              | None \<Rightarrow> dispatch_loop s c now occs (out\<lparr>re_Dispatched := re_Dispatched out + 1\<rparr>)
                          (oc_ScheduledFor occ))))"

definition dispatch :: "Scheduler \<Rightarrow> Campaign \<Rightarrow> instant \<Rightarrow> (Result \<times> go_err option) prog" where
  "dispatch s c now =
     (case Parse (ca_CronExpr c) of
        Inl e \<Rightarrow> Done (empty_result, Some (Plain (''cron '' @ quoted (ca_CronExpr c)) [e]))
      | Inr spec \<Rightarrow>
          (case Campaign_Location s c of
             Inl e \<Rightarrow> Done (empty_result, Some e)
           | Inr loc \<Rightarrow>
               (case CatchUp spec (ca_Cursor c) now (Some loc) of
                  Inl e \<Rightarrow> Done (empty_result, Some (Plain ''compute occurrences'' [e]))
                | Inr occs \<Rightarrow>
                    if occs = [] then Done (empty_result, None)
                    else andThen (dispatch_loop s c now occs empty_result zero_time)
                      (\<lambda>(out, lastFired, failed). case failed of
                          Some e \<Rightarrow> Done (out, Some e)
                        | None \<Rightarrow>
                            (case Next spec (oc_ScheduledFor (last occs)) (Some loc) of
                               Inl e \<Rightarrow> Done (out, Some (Plain ''compute next occurrence'' [e]))
                             | Inr at \<Rightarrow> Advance c at lastFired (\<lambda>r. Done (out, case r of
                                 Inl e \<Rightarrow> Some (Plain ''advance cursor'' [e]) | Inr _ \<Rightarrow> None)))))))"

definition add_result :: "Result \<Rightarrow> Result \<Rightarrow> go_err option \<Rightarrow> Result" where
  "add_result out res failed = out\<lparr>re_Dispatched := re_Dispatched out + re_Dispatched res,
     re_Claimed := re_Claimed out + re_Claimed res, re_Skipped := re_Skipped out + re_Skipped res,
     re_Failed := re_Failed out + (if failed = None then 0 else 1)\<rparr>"

fun dispatch_all :: "Scheduler \<Rightarrow> instant \<Rightarrow> Campaign list \<Rightarrow> Result \<Rightarrow> Result prog" where
  "dispatch_all s now [] out = Done out"
| "dispatch_all s now (c # cs) out =
     andThen (dispatch s c now) (\<lambda>(res, failed). dispatch_all s now cs (add_result out res failed))"

definition poll :: "Scheduler \<Rightarrow> instant \<Rightarrow> (Result \<times> go_err option) prog" where
  "poll s now = Due now (sch_batch s) (\<lambda>r. case r of
       Inl e \<Rightarrow> Done (empty_result\<lparr>re_Leader := True\<rparr>, Some (Plain ''find due campaigns'' [e]))
     | Inr cs \<Rightarrow> andThen (dispatch_all s now cs (empty_result\<lparr>re_Leader := True\<rparr>)) (\<lambda>out. Done (out, None)))"

definition Tick :: "Scheduler \<Rightarrow> instant \<Rightarrow> (Result \<times> go_err option) prog" where
  "Tick s now =
     (if sch_hasLock s
      then Acquire (\<lambda>r. case r of
          Inl e \<Rightarrow> Done (empty_result, Some (Plain ''acquire leader lock'' [e]))
        | Inr held \<Rightarrow> if \<not> held then Done (empty_result, None) else poll s now)
      else poll s now)"

section \<open>The manual run\<close>

definition RunNow :: "string \<Rightarrow> string \<Rightarrow> instant \<Rightarrow> (string \<times> string list \<times> go_err option) prog" where
  "RunNow tenantID campaignID at = Fetch tenantID campaignID (\<lambda>r. case r of
       Inl e \<Rightarrow> Done ([], [], Some e)
     | Inr row \<Rightarrow>
         let c = (scheduled row)\<lparr>ca_Cursor := zero_time\<rparr>; occurrence = at div second_ns * second_ns
         in Claim c occurrence (\<lambda>r. case r of
              Inl e \<Rightarrow> Done ([], [], Some e)
            | Inr (runID, claimed) \<Rightarrow>
                if \<not> claimed
                then Done ([], [], Some (Plain (''this campaign was already triggered for '' @ rfc3339 UTC occurrence) []))
                else andThen (Trigger c runID) (\<lambda>(scanIDs, failed). case failed of
                    Some e \<Rightarrow>
                      andThen (if scanIDs = [] then Done (Inr ()) else Start c runID scanIDs Done)
                        (\<lambda>_. Fail c runID (err_text e) (\<lambda>_. Done (runID, scanIDs, Some e)))
                  | None \<Rightarrow> Start c runID scanIDs (\<lambda>r. Done (runID, scanIDs,
                      case r of Inl e \<Rightarrow> Some e | Inr _ \<Rightarrow> None)))))"

end
