(* ===== verification/Scheduler_Steps.thy ===== *)
theory Scheduler_Steps
  imports Scheduler "HOL-Library.Sublist"
begin

text \<open>
  Any number of scheduler instances and manual runs at work on one database, interleaved call by call,
  with instances that die between two calls, an API that edits campaigns meanwhile, and an environment
  that loses answers. The locale \<open>run_ledger\<close> says what such a pool of programs needs of the claims and
  of the scan requests to start the scans of an occurrence at most once; the model's database is its
  instance.
\<close>

section \<open>What a program may send\<close>

text \<open>
  The scan requests a claim is for, and programs that send, of the requests still owed to their
  latest claim, only the next one.
\<close>

definition planned :: "claim \<Rightarrow> scan_post list" where
  "planned cl = map (scanRequest (cm_Campaign cl) (cm_RunID cl)) (ca_ProjectIDs (cm_Campaign cl))"

definition posts_for :: "string \<Rightarrow> scan_post list \<Rightarrow> scan_post list" where
  "posts_for i ps = filter (\<lambda>p. po_RunID p = i) ps"

definition owed :: "Campaign \<Rightarrow> go_err + string \<times> bool \<Rightarrow> scan_post list" where
  "owed c r = (case r of
     Inr (i, True) \<Rightarrow> map (scanRequest c i) (ca_ProjectIDs c)
   | _ \<Rightarrow> [])"

primrec sends_only :: "scan_post list \<Rightarrow> 'a prog \<Rightarrow> bool" where
  "sends_only todo (Done x) = True"
| "sends_only todo (Acquire k) = (\<forall>r. sends_only todo (k r))"
| "sends_only todo (Due now n k) = (\<forall>r. sends_only todo (k r))"
| "sends_only todo (Claim c at k) = (\<forall>r. sends_only (owed c r) (k r))"
| "sends_only todo (Skip c at s k) = (\<forall>r. sends_only todo (k r))"
| "sends_only todo (Start c i ss k) = (\<forall>r. sends_only todo (k r))"
| "sends_only todo (Fail c i s k) = (\<forall>r. sends_only todo (k r))"
| "sends_only todo (Advance c at l k) = (\<forall>r. sends_only todo (k r))"
| "sends_only todo (Mint k) = (\<forall>r. sends_only todo (k r))"
| "sends_only todo (Post p k) = (case todo of [] \<Rightarrow> False | q # todo' \<Rightarrow> p = q \<and> (\<forall>r. sends_only todo' (k r)))"
| "sends_only todo (Notify i e k) = (\<forall>r. sends_only todo (k r))"
| "sends_only todo (Fetch t i k) = (\<forall>r. sends_only todo (k r))"

lemma sends_only_more: "sends_only [] p \<Longrightarrow> sends_only todo p"
  by (induction p arbitrary: todo) auto

lemma sends_only_then:
  "sends_only todo p \<Longrightarrow> (\<And>x. sends_only [] (f x)) \<Longrightarrow> sends_only todo (andThen p f)"
  by (induction p arbitrary: todo) (auto intro: sends_only_more split: list.splits)

lemma sends_start_scans:
  "sends_only (map (scanRequest c i) ps) (start_scans c i ps started failures)"
  by (induction ps arbitrary: started failures) (simp_all add: startScan_def split: sum.split)

lemma sends_Trigger: "sends_only (map (scanRequest c i) (ca_ProjectIDs c)) (Trigger c i)"
  by (simp add: Trigger_def sends_start_scans split: sum.split)

lemma sends_publish: "sends_only todo (publishCampaignFailed s c i cause now)"
  by (simp add: publishCampaignFailed_def)

lemma sends_run_claimed: "sends_only (map (scanRequest c i) (ca_ProjectIDs c)) (run_claimed s c i now)"
  unfolding run_claimed_def
  by (rule sends_only_then [OF sends_Trigger])
     (auto split: option.split intro!: sends_only_then sends_publish)

lemma sends_dispatch_loop: "sends_only [] (dispatch_loop s c now occs out l)"
  by (induction s c now occs out l rule: dispatch_loop.induct)
     (auto split: sum.split option.split simp: owed_def intro!: sends_only_then sends_run_claimed)

lemma sends_dispatch: "sends_only [] (dispatch s c now)"
  unfolding dispatch_def
  by (auto split: sum.split option.split intro!: sends_only_then sends_dispatch_loop)

lemma sends_dispatch_all: "sends_only [] (dispatch_all s now cs out)"
  by (induction cs arbitrary: out) (auto intro!: sends_only_then sends_dispatch)

lemma sends_Tick: "sends_only [] (Tick s now)"
  unfolding Tick_def poll_def
  by (auto split: sum.split intro!: sends_only_then sends_dispatch_all)

lemma sends_RunNow: "sends_only [] (RunNow t i at)"
  unfolding RunNow_def Let_def
  by (auto split: sum.split option.split simp: owed_def
      intro!: sends_only_then sends_Trigger [of "Campaign.ca_Cursor_update f c" for f c, simplified])

section \<open>The ledger of claims and requests\<close>

text \<open>One call of a program leads to one of these.\<close>

primrec follows :: "'a prog \<Rightarrow> 'a prog \<Rightarrow> bool" where
  "follows (Done x) q = (q = Done x)"
| "follows (Acquire k) q = (\<exists>r. q = k r)"
| "follows (Due now n k) q = (\<exists>r. q = k r)"
| "follows (Claim c at k) q = (\<exists>r. q = k r)"
| "follows (Skip c at s k) q = (\<exists>r. q = k r)"
| "follows (Start c i ss k) q = (\<exists>r. q = k r)"
| "follows (Fail c i s k) q = (\<exists>r. q = k r)"
| "follows (Advance c at l k) q = (\<exists>r. q = k r)"
| "follows (Mint k) q = (\<exists>r. q = k r)"
| "follows (Post p k) q = (\<exists>r. q = k r)"
| "follows (Notify i e k) q = (\<exists>r. q = k r)"
| "follows (Fetch t i k) q = (\<exists>r. q = k r)"

fun claims_or_posts :: "'a prog \<Rightarrow> bool" where
  "claims_or_posts (Claim c at k) = True"
| "claims_or_posts (Post p k) = True"
| "claims_or_posts p = False"

lemma sends_only_follows:
  "sends_only todo p \<Longrightarrow> \<not> claims_or_posts p \<Longrightarrow> follows p q \<Longrightarrow> sends_only todo q"
  by (cases p) auto

text \<open>
  Every run is claimed once, its requests so far are the first of those it is for, and the rest is
  owed by at most one program.
\<close>

definition run_of :: "scan_post list \<Rightarrow> string" where
  "run_of todo = po_RunID (hd todo)"

definition in_order :: "claim list \<Rightarrow> scan_post list \<Rightarrow> bool" where
  "in_order cls ps \<longleftrightarrow> distinct (map cm_RunID cls) \<and> po_RunID ` set ps \<subseteq> cm_RunID ` set cls
     \<and> list_all (\<lambda>cl. prefix (posts_for (cm_RunID cl) ps) (planned cl)) cls"

definition owned :: "claim list \<Rightarrow> scan_post list \<Rightarrow> scan_post list \<Rightarrow> bool" where
  "owned cls ps todo \<longleftrightarrow> todo = [] \<or> (\<exists>cl \<in> set cls. posts_for (cm_RunID cl) ps @ todo = planned cl)"

definition apart :: "scan_post list \<Rightarrow> scan_post list \<Rightarrow> bool" where
  "apart t u \<longleftrightarrow> t = [] \<or> u = [] \<or> run_of t \<noteq> run_of u"

definition shared_out :: "claim list \<Rightarrow> scan_post list \<Rightarrow> scan_post list list \<Rightarrow> bool" where
  "shared_out cls ps todos \<longleftrightarrow> (\<forall>j < length todos. owned cls ps (todos ! j))
     \<and> (\<forall>j < length todos. \<forall>k < length todos. j \<noteq> k \<longrightarrow> apart (todos ! j) (todos ! k))"

lemma shared_out_update:
  assumes "shared_out cls ps todos" and "owned cls' ps' t"
    and "\<And>j. j < length todos \<Longrightarrow> j \<noteq> i \<Longrightarrow> owned cls' ps' (todos ! j) \<and> apart t (todos ! j)"
  shows "shared_out cls' ps' (todos[i := t])"
proof -
  have "apart (todos ! j) t" if "j < length todos" "j \<noteq> i" for j
    using assms(3) [OF that] by (auto simp: apart_def)
  then have "apart (todos[i := t] ! j) (todos[i := t] ! k)" if "j < length todos" "k < length todos" "j \<noteq> k" for j k
    using assms(1,3) that by (cases "j = i"; cases "k = i") (simp_all add: shared_out_def)
  moreover have "owned cls' ps' (todos[i := t] ! j)" if "j < length todos" for j
    using assms(2,3) that by (cases "j = i") simp_all
  ultimately show ?thesis by (simp add: shared_out_def)
qed

lemma posts_for_simps [simp]:
  "posts_for i [] = []"
  "posts_for i (ps @ [p]) = posts_for i ps @ (if po_RunID p = i then [p] else [])"
  by (simp_all add: posts_for_def)

lemma posts_for_none: "i \<notin> po_RunID ` set ps \<Longrightarrow> posts_for i ps = []"
  by (auto simp: posts_for_def filter_empty_conv)

lemma planned_run: "p \<in> set (planned cl) \<Longrightarrow> po_RunID p = cm_RunID cl"
  by (auto simp: planned_def scanRequest_def)

lemma run_of_planned: "xs @ todo = planned cl \<Longrightarrow> todo \<noteq> [] \<Longrightarrow> run_of todo = cm_RunID cl"
  unfolding run_of_def by (rule planned_run, drule arg_cong [of _ _ set]) (metis Un_iff hd_in_set set_append)

lemma owed_granted: "owed c (Inr (i, True)) = planned \<lparr>cm_RunID = i, cm_Campaign = c, cm_ScheduledFor = at\<rparr>"
  by (simp add: owed_def planned_def)

text \<open>A claim of a fresh run.\<close>

lemma in_order_claim:
  assumes "in_order cls ps" "cm_RunID cl \<notin> cm_RunID ` set cls"
  shows "in_order (cls @ [cl]) ps"
proof -
  have "posts_for (cm_RunID cl) ps = []" using assms by (intro posts_for_none) (auto simp: in_order_def)
  with assms show ?thesis by (auto simp: in_order_def)
qed

lemma shared_out_claim:
  assumes "in_order cls ps" "shared_out cls ps todos" "cm_RunID cl \<notin> cm_RunID ` set cls"
  shows "shared_out (cls @ [cl]) ps (todos[i := planned cl])"
proof (rule shared_out_update [OF assms(2)])
  have "posts_for (cm_RunID cl) ps = []" using assms by (intro posts_for_none) (auto simp: in_order_def)
  then show "owned (cls @ [cl]) ps (planned cl)" by (simp add: owned_def)
next
  fix j assume j: "j < length todos" "j \<noteq> i"
  then have o: "owned cls ps (todos ! j)" using assms(2) by (simp add: shared_out_def)
  have "run_of (planned cl) = cm_RunID cl" if "planned cl \<noteq> []"
    by (rule run_of_planned [of "[]"]) (use that in auto)
  moreover have "run_of (todos ! j) \<in> cm_RunID ` set cls" if "todos ! j \<noteq> []"
    using o that by (auto simp: owned_def dest: run_of_planned)
  ultimately have "apart (planned cl) (todos ! j)" using assms(3) by (auto simp: apart_def)
  with o show "owned (cls @ [cl]) ps (todos ! j) \<and> apart (planned cl) (todos ! j)"
    by (auto simp: owned_def)
qed

text \<open>A request of the program that owes it.\<close>

lemma posted_by:
  assumes "shared_out cls ps todos" "i < length todos" "todos ! i = p # todo"
  obtains cl where "cl \<in> set cls" "posts_for (cm_RunID cl) ps @ p # todo = planned cl" "po_RunID p = cm_RunID cl"
proof -
  have "owned cls ps (p # todo)" using assms by (metis shared_out_def)
  then obtain cl where cl: "cl \<in> set cls" "posts_for (cm_RunID cl) ps @ p # todo = planned cl"
    by (auto simp: owned_def)
  then have "run_of (p # todo) = cm_RunID cl" by (intro run_of_planned) auto
  with cl that show thesis by (simp add: run_of_def)
qed

lemma in_order_post:
  assumes "in_order cls ps" "shared_out cls ps todos" "i < length todos" "todos ! i = p # todo"
  shows "in_order cls (ps @ [p])"
proof -
  obtain cl where cl: "cl \<in> set cls" "posts_for (cm_RunID cl) ps @ p # todo = planned cl" "po_RunID p = cm_RunID cl"
    using posted_by [OF assms(2-4)] by blast
  have "prefix (posts_for (cm_RunID c) (ps @ [p])) (planned c)" if "c \<in> set cls" for c
  proof (cases "c = cl")
    case True
    have "planned cl = (posts_for (cm_RunID cl) ps @ [p]) @ todo" using cl(2) by simp
    then show ?thesis unfolding True posts_for_simps cl(3) by (simp add: prefix_def)
  next
    case False
    then have "cm_RunID c \<noteq> cm_RunID cl"
      using assms(1) cl(1) that by (auto simp: in_order_def distinct_map inj_on_def)
    then show ?thesis using assms(1) that cl(3) by (simp add: in_order_def list_all_iff)
  qed
  with assms(1) cl show ?thesis by (auto simp: in_order_def list_all_iff)
qed

lemma shared_out_post:
  assumes "in_order cls ps" "shared_out cls ps todos" "i < length todos" "todos ! i = p # todo"
  shows "shared_out cls (ps @ [p]) (todos[i := todo])"
proof -
  obtain cl where cl: "cl \<in> set cls" "posts_for (cm_RunID cl) ps @ p # todo = planned cl" "po_RunID p = cm_RunID cl"
    using posted_by [OF assms(2-4)] by blast
  show ?thesis
  proof (rule shared_out_update [OF assms(2)])
    show "owned cls (ps @ [p]) todo" using cl by (auto simp: owned_def intro!: bexI [of _ cl])
  next
    fix j assume j: "j < length todos" "j \<noteq> i"
    then have o: "owned cls ps (todos ! j)" "apart (p # todo) (todos ! j)"
      using assms(2-4) unfolding shared_out_def by metis+
    have "owned cls (ps @ [p]) (todos ! j)"
    proof (cases "todos ! j = []")
      case False
      then obtain c where c: "c \<in> set cls" "posts_for (cm_RunID c) ps @ todos ! j = planned c"
        using o(1) by (auto simp: owned_def)
      then have "run_of (todos ! j) = cm_RunID c" using False by (intro run_of_planned) auto
      with o(2) False cl(3) have "po_RunID p \<noteq> cm_RunID c" by (simp add: apart_def run_of_def)
      with c show ?thesis by (auto simp: owned_def)
    qed (simp add: owned_def)
    moreover have "apart todo (todos ! j)"
    proof (cases "todo = []")
      case False
      then have "run_of todo = cm_RunID cl"
        using cl(2) by (intro run_of_planned [of "posts_for (cm_RunID cl) ps @ [p]"]) auto
      with o(2) cl(3) show ?thesis by (auto simp: apart_def run_of_def)
    qed (simp add: apart_def)
    ultimately show "owned cls (ps @ [p]) (todos ! j) \<and> apart todo (todos ! j)" ..
  qed
qed

lemma shared_out_drop: "shared_out cls ps todos \<Longrightarrow> shared_out cls ps (todos[i := []])"
  by (rule shared_out_update) (auto simp: shared_out_def owned_def apart_def)

lemma shared_out_add: "shared_out cls ps todos \<Longrightarrow> shared_out cls ps (todos @ [[]])"
  unfolding shared_out_def by (simp add: nth_append owned_def apart_def)

lemma shared_out_unanswered:
  "shared_out cls ps todos \<Longrightarrow> shared_out (cls @ [cl]) ps (todos[i := []])"
  by (rule shared_out_update) (auto simp: shared_out_def owned_def apart_def)

section \<open>Pools of programs over a store of claims\<close>

definition pool_in_order :: "claim list \<Rightarrow> scan_post list \<Rightarrow> 'a prog list \<Rightarrow> bool" where
  "pool_in_order cls ps pool \<longleftrightarrow>
     in_order cls ps \<and> (\<exists>todos. list_all2 sends_only todos pool \<and> shared_out cls ps todos)"

lemma pool_in_orderE:
  assumes "pool_in_order cls ps pool"
  obtains todos where "in_order cls ps" "shared_out cls ps todos" "length todos = length pool"
    "\<And>i. i < length pool \<Longrightarrow> sends_only (todos ! i) (pool ! i)" "list_all2 sends_only todos pool"
  using assms by (auto simp: pool_in_order_def list_all2_conv_all_nth)

lemma pool_in_orderI:
  assumes "in_order cls ps" "shared_out cls ps (todos[i := todo])"
    and "list_all2 sends_only todos pool" "sends_only todo q"
  shows "pool_in_order cls ps (pool[i := q])"
  using assms unfolding pool_in_order_def
  by (intro conjI exI [of _ "todos[i := todo]"] list_all2_update_cong) auto

lemma pool_add:
  assumes "pool_in_order cls ps pool" "sends_only [] p"
  shows "pool_in_order cls ps (pool @ [p])"
proof -
  from assms(1) obtain todos where t: "in_order cls ps" "shared_out cls ps todos" "list_all2 sends_only todos pool"
    by (auto simp: pool_in_order_def)
  have "list_all2 sends_only (todos @ [[]]) (pool @ [p])" using t(3) assms(2) by (simp add: list_all2_appendI)
  with t shared_out_add show ?thesis unfolding pool_in_order_def by blast
qed

lemma pool_drop: "pool_in_order cls ps pool \<Longrightarrow> sends_only [] p \<Longrightarrow> pool_in_order cls ps (pool[i := p])"
  by (erule pool_in_orderE) (auto intro: pool_in_orderI shared_out_drop)

text \<open>
  What the pool asks of the store and the scan service: a claim names a fresh run or grants nothing, and
  it may be recorded although the caller is told of an error; a request is sent once per call; no other
  call touches either.
\<close>

locale run_ledger =
  fixes call :: "'a prog \<Rightarrow> 's \<Rightarrow> 'a prog \<times> 's"
    and claims :: "'s \<Rightarrow> claim list"
    and posts :: "'s \<Rightarrow> scan_post list"
    and sound :: "'s \<Rightarrow> bool"
  assumes quiet: "\<not> claims_or_posts p \<Longrightarrow> call p w = (q, w')
      \<Longrightarrow> follows p q \<and> claims w' = claims w \<and> posts w' = posts w"
    and claimed: "sound w \<Longrightarrow> call (Claim c at k) w = (q, w') \<Longrightarrow> posts w' = posts w \<and> (\<exists>r. q = k r
      \<and> (claims w' = claims w \<and> owed c r = []
         \<or> (\<exists>i. i \<notin> cm_RunID ` set (claims w) \<and> (r = Inr (i, True) \<or> owed c r = [])
              \<and> claims w' = claims w @ [\<lparr>cm_RunID = i, cm_Campaign = c, cm_ScheduledFor = at\<rparr>])))"
    and posted: "call (Post x h) w = (q, w') \<Longrightarrow> claims w' = claims w \<and> posts w' = posts w @ [x] \<and> (\<exists>r. q = h r)"
begin

lemma pool_quiet:
  assumes "\<not> claims_or_posts (pool ! i)" "call (pool ! i) w = (q, w')" "i < length pool"
    and "pool_in_order (claims w) (posts w) pool"
  shows "pool_in_order (claims w') (posts w') (pool[i := q])"
proof -
  from assms(4) obtain todos where t: "in_order (claims w) (posts w)" "shared_out (claims w) (posts w) todos"
      "length todos = length pool" "list_all2 sends_only todos pool" "sends_only (todos ! i) (pool ! i)"
    using assms(3) by (auto elim: pool_in_orderE)
  have "sends_only (todos ! i) q" using sends_only_follows t(5) quiet [OF assms(1,2)] assms(1) by blast
  then have "pool_in_order (claims w) (posts w) (pool[i := q])"
    using t(1,2,4) by (intro pool_in_orderI [of _ _ todos i "todos ! i"]) simp_all
  then show ?thesis using quiet [OF assms(1,2)] by simp
qed

lemma pool_claim:
  assumes "sound w" "pool ! i = Claim c at k" "call (pool ! i) w = (q, w')" "i < length pool"
    and "pool_in_order (claims w) (posts w) pool"
  shows "pool_in_order (claims w') (posts w') (pool[i := q])"
proof -
  from assms(5) obtain todos where t: "in_order (claims w) (posts w)" "shared_out (claims w) (posts w) todos"
      "length todos = length pool" "list_all2 sends_only todos pool" "sends_only (todos ! i) (pool ! i)"
    using assms(4) by (auto elim: pool_in_orderE)
  obtain r where r: "q = k r" "posts w' = posts w"
    and cases: "claims w' = claims w \<and> owed c r = []
         \<or> (\<exists>j. j \<notin> cm_RunID ` set (claims w) \<and> (r = Inr (j, True) \<or> owed c r = [])
              \<and> claims w' = claims w @ [\<lparr>cm_RunID = j, cm_Campaign = c, cm_ScheduledFor = at\<rparr>])"
    using claimed [OF assms(1)] assms(2,3) by metis
  have q: "sends_only (owed c r) q" using t(5) by (simp add: assms(2) r(1))
  from cases show ?thesis
  proof (elim disjE exE conjE)
    assume "claims w' = claims w" "owed c r = []"
    then show ?thesis using pool_in_orderI [OF t(1) shared_out_drop [OF t(2)] t(4)] q r(2) by simp
  next
    fix j
    let ?cl = "\<lparr>cm_RunID = j, cm_Campaign = c, cm_ScheduledFor = at\<rparr>"
    assume j: "j \<notin> cm_RunID ` set (claims w)" "claims w' = claims w @ [?cl]"
    then have o: "in_order (claims w') (posts w')"
      using in_order_claim [OF t(1), of ?cl] r(2) by simp
    {
      assume "r = Inr (j, True)"
      then show ?thesis
        using pool_in_orderI [OF o _ t(4) q] shared_out_claim [OF t(1,2), of ?cl i] j r(2)
        by (simp add: owed_granted [where at = at])
    next
      assume "owed c r = []"
      with q have "sends_only [] q" by simp
      then show ?thesis
        using pool_in_orderI [OF o _ t(4)] shared_out_unanswered [OF t(2)] j(2) r(2) by metis
    }
  qed
qed

lemma pool_post:
  assumes "pool ! i = Post p k" "call (pool ! i) w = (q, w')" "i < length pool"
    and "pool_in_order (claims w) (posts w) pool"
  shows "pool_in_order (claims w') (posts w') (pool[i := q])"
proof -
  from assms(4) obtain todos where t: "in_order (claims w) (posts w)" "shared_out (claims w) (posts w) todos"
      "length todos = length pool" "list_all2 sends_only todos pool" "sends_only (todos ! i) (pool ! i)"
    using assms(3) by (auto elim: pool_in_orderE)
  obtain r where r: "q = k r" "claims w' = claims w" "posts w' = posts w @ [p]"
    using posted [of p k w q w'] assms(1,2) by auto
  obtain todo where todo: "todos ! i = p # todo" "sends_only todo q"
    using t(5) r(1) by (auto simp: assms(1) split: list.splits)
  show ?thesis
    using pool_in_orderI [OF in_order_post shared_out_post t(4) todo(2)] t(1-3) todo(1) assms(3) r by simp
qed

lemma pool_call:
  assumes "sound w" "call (pool ! i) w = (q, w')" "i < length pool"
    and "pool_in_order (claims w) (posts w) pool"
  shows "pool_in_order (claims w') (posts w') (pool[i := q])"
  using assms pool_quiet pool_claim pool_post by (cases "pool ! i") auto

end

end
