(* ===== verification/Scheduler_Safety.thy ===== *)
theory Scheduler_Safety
  imports Scheduler_Steps
begin

text \<open>
  The campaign database as an instance of \<open>run_ledger\<close>, the transitions of the whole system, and what
  holds in every reachable state: an occurrence is claimed once and its scans are asked for once.
\<close>

section \<open>The tables\<close>

text \<open>
  The keys of the campaign schema and of the history of claims: \<open>uuid\<close> and \<open>n\<close> are the source of ids,
  \<open>cids\<close> the ids of the campaigns, \<open>rks\<close> the id, campaign and instant of every run.
\<close>

definition claim_slot :: "claim \<Rightarrow> string \<times> instant" where
  "claim_slot cl = (ca_ID (cm_Campaign cl), cm_ScheduledFor cl)"

definition run_key :: "Run \<Rightarrow> string \<times> string \<times> instant" where
  "run_key r = (rn_ID r, rn_CampaignID r, rn_ScheduledFor r)"

definition keyed ::
  "(nat \<Rightarrow> string) \<Rightarrow> nat \<Rightarrow> string list \<Rightarrow> (string \<times> string \<times> instant) list \<Rightarrow> claim list \<Rightarrow> bool" where
  "keyed uuid n cids rks cls \<longleftrightarrow> inj uuid
     \<and> distinct cids \<and> set cids \<subseteq> uuid ` {..<n}
     \<and> distinct (map fst rks) \<and> distinct (map snd rks) \<and> fst ` set rks \<subseteq> uuid ` {..<n}
     \<and> distinct (map cm_RunID cls) \<and> distinct (map claim_slot cls) \<and> cm_RunID ` set cls \<subseteq> uuid ` {..<n}
     \<and> (\<forall>cl \<in> set cls. fst (claim_slot cl) \<in> uuid ` {..<n}
          \<and> (fst (claim_slot cl) \<in> set cids \<longrightarrow> (cm_RunID cl, claim_slot cl) \<in> set rks))"

lemma fresh_uuid: "inj uuid \<Longrightarrow> uuid n \<notin> uuid ` {..<n::nat}"
  by (simp add: inj_image_mem_iff)

lemma used_uuids: "uuid ` {..<Suc n} = insert (uuid n) (uuid ` {..<n})"
  by (simp add: lessThan_Suc)

lemma keyed_new_campaign: "keyed uuid n cids rks cls \<Longrightarrow> keyed uuid (Suc n) (cids @ [uuid n]) rks cls"
  using fresh_uuid [of uuid n] by (auto simp: keyed_def used_uuids) metis

lemma keyed_delete:
  "keyed uuid n cids rks cls
   \<Longrightarrow> keyed uuid n (filter (\<lambda>c. c \<noteq> i) cids) (filter (\<lambda>(r, c, at). c \<noteq> i) rks) cls"
  by (auto simp: keyed_def distinct_map_filter)

lemma keyed_new_run:
  assumes "keyed uuid n cids rks cls" "s \<notin> snd ` set rks"
  shows "keyed uuid (Suc n) cids (rks @ [(uuid n, s)]) cls"
  using assms fresh_uuid [of uuid n] by (auto simp: keyed_def used_uuids)

lemma keyed_claim:
  assumes "keyed uuid n cids rks cls" "claim_slot cl \<notin> snd ` set rks" "fst (claim_slot cl) \<in> set cids"
    and "cm_RunID cl = uuid n"
  shows "keyed uuid (Suc n) cids (rks @ [(uuid n, claim_slot cl)]) (cls @ [cl])"
proof -
  have "claim_slot c \<noteq> claim_slot cl" if "c \<in> set cls" for c
    using assms(1-3) that unfolding keyed_def by (metis image_eqI snd_conv)
  then show ?thesis
    using keyed_new_run [OF assms(1,2)] assms fresh_uuid [of uuid n]
    by (auto simp: keyed_def used_uuids) (metis image_eqI)+
qed

definition campaign_sound :: "campaign_db \<Rightarrow> bool" where
  "campaign_sound w \<longleftrightarrow> keyed (en_uuid w) (en_next w) (map cp_ID (cd_campaigns w)) (map run_key (cd_runs w)) (cd_claims w)"

section \<open>What a call keeps\<close>

text \<open>Most calls neither claim nor send, and keep the keys.\<close>

definition keeps :: "campaign_db \<Rightarrow> campaign_db \<Rightarrow> bool" where
  "keeps w w' \<longleftrightarrow> cd_claims w' = cd_claims w \<and> cd_posts w' = cd_posts w \<and> (campaign_sound w \<longrightarrow> campaign_sound w')"

interpretation ck: step_law keeps
  by unfold_locales (auto simp: keeps_def)

lemma cd_after_io [simp]:
  "cd_campaigns (after_io w) = cd_campaigns w" "cd_runs (after_io w) = cd_runs w"
  "cd_posts (after_io w) = cd_posts w" "cd_claims (after_io w) = cd_claims w"
  "cd_answers (after_io w) = cd_answers w" "cd_token (after_io w) = cd_token w" "cd_lock (after_io w) = cd_lock w"
  by (simp_all add: after_io_def)

lemma cd_drop_id [simp]:
  "cd_campaigns (drop_id w) = cd_campaigns w" "cd_runs (drop_id w) = cd_runs w"
  "cd_posts (drop_id w) = cd_posts w" "cd_claims (drop_id w) = cd_claims w" "en_next (drop_id w) = Suc (en_next w)"
  by (simp_all add: drop_id_def)

lemma keeps_io [simp]: "keeps w (after_io w)" "keeps w w"
  by (simp_all add: keeps_def campaign_sound_def)

lemma keeps_io_iff [simp]: "keeps (after_io w) w' = keeps w w'"
  by (simp add: keeps_def campaign_sound_def)

lemma keeps_tx: "(\<And>w x w'. fn w = Inr (x, w') \<Longrightarrow> keeps w w') \<Longrightarrow> state_io_rel keeps (WithTenant t fn)"
  by (rule law_WithTenant) (auto, metis keeps_io_iff)

lemma keeps_read: "state_io_rel keeps (ReadTenant t q)"
  by (rule law_ReadTenant) simp_all

lemma keeps_update_campaign:
  assumes "\<And>c. cp_ID (f c) = cp_ID c"
  shows "keeps w (update_campaign t i f w)"
proof -
  have "map cp_ID (cd_campaigns (update_campaign t i f w)) = map cp_ID (cd_campaigns w)"
    using assms by (simp add: update_campaign_def)
  then have "campaign_sound (update_campaign t i f w) = campaign_sound w"
    unfolding campaign_sound_def by (simp only: update_campaign_def) simp
  then show ?thesis by (simp add: keeps_def update_campaign_def)
qed

lemma keeps_update_run:
  assumes "\<And>r. run_key (f r) = run_key r"
  shows "keeps w (update_run t i f w)"
proof -
  have "map run_key (cd_runs (update_run t i f w)) = map run_key (cd_runs w)"
    using assms by (simp add: update_run_def)
  then have "campaign_sound (update_run t i f w) = campaign_sound w"
    unfolding campaign_sound_def by (simp only: update_run_def) simp
  then show ?thesis by (simp add: keeps_def update_run_def)
qed

lemma run_exists_iff: "run_exists i at w \<longleftrightarrow> (i, at) \<in> snd ` set (map run_key (cd_runs w))"
  by (force simp: run_exists_def list_ex_iff run_key_def)

lemma inserted_run:
  assumes "insert_campaign_run r w = Inr (b, w')"
  shows "\<not> b \<and> w' = w \<or> b \<and> \<not> run_exists (rn_CampaignID r) (rn_ScheduledFor r) w
    \<and> rn_CampaignID r \<in> cp_ID ` set (cd_campaigns w) \<and> w' = (drop_id w)\<lparr>cd_runs := cd_runs w @ [r]\<rparr>"
  using assms by (auto simp: insert_campaign_run_def list_ex_iff image_iff split: if_splits) metis

lemma keeps_insert_run:
  assumes "insert_campaign_run r w = Inr (b, w')" "rn_ID r = fresh_id w"
  shows "keeps w w'"
  using inserted_run [OF assms(1)] keyed_new_run [of "en_uuid w" "en_next w"] assms(2)
  by (auto simp: keeps_def campaign_sound_def run_exists_iff run_key_def fresh_id_def)

text \<open>The operations of the store but for the claim.\<close>

lemmas keeps_ops = keeps_tx keeps_read ck.laws law_intros

lemma keeps_Create: "state_io_rel keeps (Campaign_Create t c)"
  unfolding Campaign_Create_def
proof (intro keeps_ops)
  fix w w' :: campaign_db and x
  assume "(let row = c\<lparr>cp_ID := fresh_id w, cp_TenantID := t, cp_LastRunAt := None,
                  cp_CreatedAt := en_clock w, cp_UpdatedAt := en_clock w\<rparr>
           in if name_taken t (cp_Name c) (fresh_id w) w then Inl err_database
              else Inr (row, (drop_id w)\<lparr>cd_campaigns := cd_campaigns w @ [row]\<rparr>)) = Inr (x, w')"
  then have "map cp_ID (cd_campaigns w') = map cp_ID (cd_campaigns w) @ [fresh_id w]"
    "cd_runs w' = cd_runs w" "cd_claims w' = cd_claims w" "cd_posts w' = cd_posts w"
    "en_uuid w' = en_uuid w" "en_next w' = Suc (en_next w)"
    by (auto simp: Let_def split: if_splits)
  then show "keeps w w'"
    using keyed_new_campaign [of "en_uuid w" "en_next w"]
    by (auto simp: keeps_def campaign_sound_def fresh_id_def)
qed

lemma keeps_Update: "state_io_rel keeps (Campaign_Update zones t i c now)"
  unfolding Campaign_Update_def
  by (intro keeps_ops)
     (auto simp: Let_def intro: keeps_update_campaign split: option.splits if_splits)

lemma keeps_SetEnabled: "state_io_rel keeps (SetEnabled zones t i enabled now)"
  unfolding SetEnabled_def
  by (intro keeps_ops)
     (auto simp: Let_def intro: keeps_update_campaign split: option.splits if_splits sum.splits)

lemma keyed_unique: "keyed uuid n cids rks cls \<Longrightarrow> distinct cids"
  by (simp add: keyed_def)

lemma delete_by_id:
  assumes "distinct (map cp_ID cs)" "find (own_campaign t i) cs = Some c"
  shows "map cp_ID (filter (\<lambda>c. \<not> own_campaign t i c) cs) = filter (\<lambda>j. j \<noteq> i) (map cp_ID cs)"
proof -
  from assms(2) have c: "c \<in> set cs" "own_campaign t i c" by (auto simp: find_Some_iff)
  then have "own_campaign t i d \<longleftrightarrow> cp_ID d = i" if "d \<in> set cs" for d
    using that assms(1) by (auto simp: own_campaign_def distinct_map dest: inj_onD)
  then have "filter (\<lambda>c. \<not> own_campaign t i c) cs = filter (\<lambda>c. cp_ID c \<noteq> i) cs"
    by (intro filter_cong) auto
  then show ?thesis by (simp add: filter_map comp_def)
qed

lemma keeps_Delete: "state_io_rel keeps (Campaign_Delete t i)"
  unfolding Campaign_Delete_def
proof (intro keeps_ops)
  fix w w' :: campaign_db and x
  assume "(case find_campaign t i w of None \<Rightarrow> Inl ErrNotFound
    | Some c \<Rightarrow> Inr ((), w\<lparr>cd_campaigns := filter (\<lambda>c. \<not> own_campaign t i c) (cd_campaigns w),
                          cd_runs := filter (\<lambda>r. rn_CampaignID r \<noteq> i) (cd_runs w)\<rparr>)) = Inr (x, w')"
  then obtain c where f: "find (own_campaign t i) (cd_campaigns w) = Some c"
    and w': "w' = w\<lparr>cd_campaigns := filter (\<lambda>c. \<not> own_campaign t i c) (cd_campaigns w),
                   cd_runs := filter (\<lambda>r. rn_CampaignID r \<noteq> i) (cd_runs w)\<rparr>"
    by (auto simp: find_campaign_def split: option.splits)
  have "map run_key (cd_runs w') = filter (\<lambda>(r, c, at). c \<noteq> i) (map run_key (cd_runs w))"
    by (simp add: w' filter_map comp_def run_key_def)
  then have "campaign_sound w'" if "campaign_sound w"
    using keyed_delete [of "en_uuid w" "en_next w" _ _ _ i] that delete_by_id [OF _ f] keyed_unique
    unfolding campaign_sound_def by (auto simp: w')
  then show "keeps w w'" by (simp add: keeps_def w')
qed

lemma keeps_Due: "state_io_rel keeps (DueCampaigns now n)"
  unfolding DueCampaigns_def by (intro keeps_ops law_Db_Call) auto

lemma keeps_RecordSkipped: "state_io_rel keeps (RecordSkipped c at reason)"
  unfolding RecordSkipped_def
  by (intro keeps_ops) (auto simp: new_run_def intro: keeps_insert_run split: sum.splits)

lemma keeps_StartRun: "state_io_rel keeps (StartRun c i ss)"
  unfolding StartRun_def by (intro keeps_ops) (auto intro!: keeps_update_run simp: run_key_def)

lemma keeps_FailRun: "state_io_rel keeps (FailRun c i cause)"
  unfolding FailRun_def by (intro keeps_ops) (auto intro!: keeps_update_run simp: run_key_def)

lemma keeps_AdvanceCursor: "state_io_rel keeps (AdvanceCursor c at l)"
  unfolding AdvanceCursor_def by (intro keeps_ops) (auto intro!: keeps_update_campaign)

lemma keeps_Get: "state_io_rel keeps (Campaign_Get t i)"
  unfolding Campaign_Get_def by (intro keeps_ops)

lemma keeps_Notifier: "state_io_rel keeps (Notifier_Publish i e)"
  unfolding Notifier_Publish_def
  by (rule law_Bus_Publish) (simp_all add: keeps_def campaign_sound_def)

lemma keeps_ask: "state_io_rel keeps (ask_env f)"
  by (rule state_io_relI) (simp add: ask_env_def keeps_def)

section \<open>The claim\<close>

lemma claim_outcome:
  assumes "campaign_sound w" "run_state (ClaimRun c at) w = (r, w')"
  shows "campaign_sound w' \<and> cd_posts w' = cd_posts w
    \<and> (cd_claims w' = cd_claims w \<and> owed c r = []
       \<or> (\<exists>i. i \<notin> cm_RunID ` set (cd_claims w) \<and> (r = Inr (i, True) \<or> owed c r = [])
            \<and> cd_claims w' = cd_claims w @ [\<lparr>cm_RunID = i, cm_Campaign = c, cm_ScheduledFor = at\<rparr>]))"
proof -
  let ?v = "after_io w" and ?cl = "\<lparr>cm_RunID = fresh_id w, cm_Campaign = c, cm_ScheduledFor = at\<rparr>"
  let ?w = "(drop_id ?v)\<lparr>cd_runs := cd_runs w @ [new_run ?v c at], cd_claims := cd_claims w @ [?cl]\<rparr>"
  have fresh: "fresh_id ?v = fresh_id w" by (simp add: fresh_id_def)
  have io: "campaign_sound ?v" using assms(1) by (simp add: campaign_sound_def)
  have "w' = w \<and> owed c r = [] \<or> w' = ?v \<and> owed c r = []
      \<or> \<not> run_exists (ca_ID c) at ?v \<and> ca_ID c \<in> cp_ID ` set (cd_campaigns w) \<and> w' = ?w
        \<and> (r = Inr (fresh_id w, True) \<or> owed c r = [])"
    using assms(2) inserted_run [of "new_run ?v c at" ?v]
    by (auto simp: ClaimRun_def run_WithTenant wrapped_def owed_def new_run_def fresh
        split: if_splits sum.splits prod.splits bool.splits)
  then show ?thesis
  proof (elim disjE)
    assume new: "\<not> run_exists (ca_ID c) at ?v \<and> ca_ID c \<in> cp_ID ` set (cd_campaigns w) \<and> w' = ?w
        \<and> (r = Inr (fresh_id w, True) \<or> owed c r = [])"
    then have "campaign_sound w'"
      using keyed_claim [of "en_uuid w" "en_next w" _ _ _ ?cl] assms(1)
      by (auto simp: campaign_sound_def claim_slot_def run_exists_iff run_key_def new_run_def fresh_id_def)
    moreover have "fresh_id w \<notin> cm_RunID ` set (cd_claims w)"
      using assms(1) fresh_uuid [of "en_uuid w" "en_next w"]
      unfolding campaign_sound_def keyed_def fresh_id_def by blast
    ultimately show ?thesis using new by auto
  qed (use assms(1) io in auto)
qed

section \<open>The instance\<close>

lemma run_then_ret: "run_state (do { r \<leftarrow> m; ret (k r) }) w = (k (fst (run_state m w)), snd (run_state m w))"
  by (simp split: prod.splits)

lemma kept: "state_io_rel keeps m \<Longrightarrow> keeps w (snd (run_state m w))"
  by (auto simp: state_io_rel_def)

lemma keptI: "state_io_rel keeps m \<Longrightarrow> run_state m w = (r, w') \<Longrightarrow> keeps w w'"
  by (drule kept [of m w]) simp

lemma quiet_call:
  assumes "\<not> claims_or_posts p" "run_state (advance p) w = (q, w')"
  shows "follows p q \<and> keeps w w'"
  using assms
  by (cases p)
     (auto simp: run_then_ret simp del: run_state_bind intro!: kept keeps_ask keeps_Due keeps_RecordSkipped
        keeps_StartRun keeps_FailRun keeps_AdvanceCursor keeps_Notifier keeps_Get)

lemma sent_call:
  "run_state (advance (Post x k)) w = (q, w')
   \<Longrightarrow> cd_claims w' = cd_claims w \<and> cd_posts w' = cd_posts w @ [x] \<and> (\<exists>r. q = k r)
     \<and> (campaign_sound w \<longrightarrow> campaign_sound w')"
  by (auto simp: send_post_def campaign_sound_def)

lemma claim_call:
  assumes "campaign_sound w" "run_state (advance (Claim c at k)) w = (q, w')"
  shows "campaign_sound w' \<and> cd_posts w' = cd_posts w \<and> (\<exists>r. q = k r
    \<and> (cd_claims w' = cd_claims w \<and> owed c r = []
       \<or> (\<exists>i. i \<notin> cm_RunID ` set (cd_claims w) \<and> (r = Inr (i, True) \<or> owed c r = [])
            \<and> cd_claims w' = cd_claims w @ [\<lparr>cm_RunID = i, cm_Campaign = c, cm_ScheduledFor = at\<rparr>])))"
proof -
  obtain r where "run_state (ClaimRun c at) w = (r, w')" "q = k r"
    using assms(2) by (auto split: prod.splits)
  with claim_outcome [OF assms(1), of c at r w'] show ?thesis by blast
qed

lemma sound_call:
  assumes "campaign_sound w" "run_state (advance p) w = (q, w')"
  shows "campaign_sound w'"
proof (cases "claims_or_posts p")
  case True
  then obtain c at h x k where "p = Claim c at h \<or> p = Post x k" by (cases p) auto
  then show ?thesis using assms claim_call [of w c at h q w'] sent_call [of x k w q w'] by blast
next
  case False
  then show ?thesis using quiet_call [OF False assms(2)] assms(1) by (simp add: keeps_def)
qed

interpretation ledger: run_ledger "\<lambda>p. run_state (advance p)" cd_claims cd_posts campaign_sound
proof unfold_locales
  fix p q :: "'a prog" and w w' :: campaign_db
  assume "\<not> claims_or_posts p" "run_state (advance p) w = (q, w')"
  then show "follows p q \<and> cd_claims w' = cd_claims w \<and> cd_posts w' = cd_posts w"
    using quiet_call by (auto simp: keeps_def)
qed (use claim_call sent_call in blast)+

section \<open>The system\<close>

text \<open>
  Instances tick and people run campaigns by hand at any time and any number of times; one program makes
  one call; an instance dies. Meanwhile tenants edit their campaigns, and the environment moves its clock
  and decides how calls to come will end.
\<close>

inductive edits :: "(string \<Rightarrow> Location option) \<Rightarrow> campaign_db \<Rightarrow> campaign_db \<Rightarrow> bool" for zones where
  create: "run_state (Campaign_Create t c) w = (r, w') \<Longrightarrow> edits zones w w'"
| update: "run_state (Campaign_Update zones t i c now) w = (r, w') \<Longrightarrow> edits zones w w'"
| enable: "run_state (SetEnabled zones t i enabled now) w = (r, w') \<Longrightarrow> edits zones w w'"
| delete: "run_state (Campaign_Delete t i) w = (r, w') \<Longrightarrow> edits zones w w'"
| elapse: "edits zones w (w\<lparr>en_clock := now, en_outcomes := outcomes, cd_answers := answers, cd_token := token,
    cd_lock := lock\<rparr>)"

inductive campaign_step ::
  "(string \<Rightarrow> Location option) \<Rightarrow> campaign_db \<times> unit prog list \<Rightarrow> campaign_db \<times> unit prog list \<Rightarrow> bool" for zones where
  tick: "sch_zones s = zones \<Longrightarrow> campaign_step zones (w, ps) (w, ps @ [andThen (Tick s now) (\<lambda>_. Done ())])"
| run_now: "campaign_step zones (w, ps) (w, ps @ [andThen (RunNow t i at) (\<lambda>_. Done ())])"
| call: "i < length ps \<Longrightarrow> run_state (advance (ps ! i)) w = (q, w') \<Longrightarrow> campaign_step zones (w, ps) (w', ps[i := q])"
| die: "i < length ps \<Longrightarrow> campaign_step zones (w, ps) (w, ps[i := Done ()])"
| edit: "edits zones w w' \<Longrightarrow> campaign_step zones (w, ps) (w', ps)"

inductive_simps edits_simps: "edits zones w w'"
inductive_cases campaign_stepE: "campaign_step zones s s'"

text \<open>A database nobody has claimed from yet, with whatever campaigns and runs it has.\<close>

definition cold_start :: "campaign_db \<Rightarrow> bool" where
  "cold_start w \<longleftrightarrow> campaign_sound w \<and> cd_claims w = [] \<and> cd_posts w = []"

lemma edits_keep: "edits zones w w' \<Longrightarrow> keeps w w'"
proof (induction rule: edits.induct)
  case (elapse w now outcomes answers token lock)
  show ?case by (simp add: keeps_def campaign_sound_def)
qed (auto intro: keptI [OF keeps_Create] keptI [OF keeps_Update] keptI [OF keeps_SetEnabled] keptI [OF keeps_Delete])

definition orderly :: "campaign_db \<times> unit prog list \<Rightarrow> bool" where
  "orderly s \<longleftrightarrow> campaign_sound (fst s) \<and> pool_in_order (cd_claims (fst s)) (cd_posts (fst s)) (snd s)"

lemma orderly_step: "campaign_step zones s s' \<Longrightarrow> orderly s \<Longrightarrow> orderly s'"
proof (induction rule: campaign_step.induct)
  case (call i ps w q w')
  then show ?case using ledger.pool_call sound_call by (auto simp: orderly_def)
next
  case (edit w w' ps)
  then show ?case using edits_keep by (auto simp: orderly_def keeps_def)
qed (auto simp: orderly_def intro!: pool_add pool_drop sends_only_then sends_Tick sends_RunNow)

lemma orderly_reachable: "(campaign_step zones)\<^sup>*\<^sup>* s s' \<Longrightarrow> orderly s \<Longrightarrow> orderly s'"
  by (induction rule: rtranclp_induct) (auto intro: orderly_step)

lemma orderly_start: "cold_start w \<Longrightarrow> orderly (w, [])"
  by (auto simp: orderly_def cold_start_def pool_in_order_def in_order_def shared_out_def)

text \<open>
  C12. Whatever the lock says, whichever instances die and whichever answers are lost: two claims never
  name the same occurrence of a campaign or the same run, every scan request belongs to a claim, and the
  requests of a claim are the first of those for its campaign's projects, each sent once and in order.
\<close>

theorem every_occurrence_is_dispatched_at_most_once:
  assumes "cold_start w" "(campaign_step zones)\<^sup>*\<^sup>* (w, []) (w', ps)"
  shows "distinct (map claim_slot (cd_claims w')) \<and> distinct (map cm_RunID (cd_claims w'))
    \<and> po_RunID ` set (cd_posts w') \<subseteq> cm_RunID ` set (cd_claims w')
    \<and> list_all (\<lambda>cl. prefix (filter (\<lambda>p. po_RunID p = cm_RunID cl) (cd_posts w'))
          (map (scanRequest (cm_Campaign cl) (cm_RunID cl)) (ca_ProjectIDs (cm_Campaign cl)))) (cd_claims w')"
proof -
  have "orderly (w', ps)" using orderly_reachable [OF assms(2)] orderly_start [OF assms(1)] by simp
  then have "campaign_sound w'" "in_order (cd_claims w') (cd_posts w')"
    by (auto simp: orderly_def pool_in_order_def)
  then show ?thesis
    by (auto simp: campaign_sound_def keyed_def in_order_def posts_for_def planned_def)
qed

text \<open>
  The history of runs has one row for an occurrence, be it skipped or run, and a claim whose campaign
  still exists has its row.
\<close>

theorem run_history_has_one_row_per_occurrence:
  assumes "cold_start w" "(campaign_step zones)\<^sup>*\<^sup>* (w, []) (w', ps)"
  shows "distinct (map (\<lambda>r. (rn_CampaignID r, rn_ScheduledFor r)) (cd_runs w'))
    \<and> (\<forall>cl \<in> set (cd_claims w'). ca_ID (cm_Campaign cl) \<in> cp_ID ` set (cd_campaigns w')
        \<longrightarrow> (\<exists>r \<in> set (cd_runs w'). rn_ID r = cm_RunID cl \<and> rn_CampaignID r = ca_ID (cm_Campaign cl)
              \<and> rn_ScheduledFor r = cm_ScheduledFor cl))"
proof -
  have "orderly (w', ps)" using orderly_reachable [OF assms(2)] orderly_start [OF assms(1)] by simp
  then have k: "keyed (en_uuid w') (en_next w') (map cp_ID (cd_campaigns w')) (map run_key (cd_runs w')) (cd_claims w')"
    by (simp add: orderly_def campaign_sound_def)
  then have "distinct (map snd (map run_key (cd_runs w')))" by (simp add: keyed_def)
  then show ?thesis
    using k by (fastforce simp: keyed_def run_key_def comp_def claim_slot_def)
qed

end
