(* ===== verification/Cron_Properties.thy ===== *)
theory Cron_Properties
  imports Cron_Schedule
begin

text \<open>
  What the schedules promise. \<open>cron_matches\<close> is the meaning of an expression, an instant at a time;
  in a zone of constant offset \<open>Next\<close> is the least matching instant. Zones with transitions have
  theorems of their own.
\<close>

section \<open>Any zone\<close>

lemma Next_SomeE:
  assumes "Next spec after zone = Inr t"
  obtains c h m where "valid_date c" and "matchesDate spec c (or_UTC zone)"
    and "h \<in> {0..23}" and "has (sp_Hours spec) h" and "m \<in> {0..59}" and "has (sp_Minutes spec) m"
    and "t = resolveSlot c h m (or_UTC zone)" and "after < t"
proof -
  let ?loc = "or_UTC zone"
  obtain d where d: "run_on_day spec after ?loc (search_start after ?loc) d = Some t"
    using assms by (auto simp: Next_def Let_def split: option.splits elim: first_some_SomeE)
  define c where "c = wall_date ?loc (add_days ?loc (search_start after ?loc) d)"
  have c: "matchesDate spec c ?loc" "first_some (run_in_hour spec after ?loc c) [0..23] = Some t"
    using d by (auto simp: run_on_day_def Let_def c_def split: if_splits)
  from c(2) obtain h where h: "h \<in> {0..23}" "run_in_hour spec after ?loc c h = Some t"
    by (elim first_some_SomeE) (metis append_is_Nil_conv in_set_conv_decomp set_upto)
  then have h': "has (sp_Hours spec) h" "first_some (run_at_minute spec after ?loc c h) [0..59] = Some t"
    by (auto simp: run_in_hour_def split: if_splits)
  from h'(2) obtain m where m: "m \<in> {0..59}" "run_at_minute spec after ?loc c h m = Some t"
    by (elim first_some_SomeE) (metis append_is_Nil_conv in_set_conv_decomp set_upto)
  then have m': "has (sp_Minutes spec) m" "t = resolveSlot c h m ?loc" "after < t"
    by (auto simp: run_at_minute_def Let_def split: if_splits)
  have "valid_date c" by (simp add: c_def wall_date_def valid_civil_of)
  with c(1) h(1) h'(1) m(1) m' show thesis by (intro that)
qed

section \<open>The meaning of an expression\<close>

definition day_matches :: "Spec \<Rightarrow> civil \<Rightarrow> bool" where
  "day_matches spec c \<longleftrightarrow> has (sp_Months spec) (month_of c)
     \<and> (let dom_ok = has (sp_Days spec) (day_of c);
            dow_ok = has (sp_Weekdays spec) (weekday (day_number c))
        in if fs_star (sp_Days spec) then fs_star (sp_Weekdays spec) \<or> dow_ok
           else if fs_star (sp_Weekdays spec) then dom_ok else dom_ok \<or> dow_ok)"

definition cron_matches :: "Spec \<Rightarrow> Location \<Rightarrow> instant \<Rightarrow> bool" where
  "cron_matches spec loc t \<longleftrightarrow> t mod second_ns = 0 \<and> wall_second loc t = 0
     \<and> has (sp_Minutes spec) (wall_minute loc t) \<and> has (sp_Hours spec) (wall_hour loc t)
     \<and> day_matches spec (wall_date loc t)"

section \<open>Zones of constant offset\<close>

text \<open>The instant of a wall-clock minute, given by its day, hour and minute.\<close>

definition slot :: "Location \<Rightarrow> int \<Rightarrow> int \<Rightarrow> int \<Rightarrow> instant" where
  "slot loc n h m = (n * 86400 + h * 3600 + m * 60 - lc_First loc) * second_ns"

lemma wall_slot:
  assumes "fixed_zone loc"
  shows "wall loc (slot loc n h m) = n * 86400 + h * 3600 + m * 60"
  using assms by (simp add: wall_def fixed_zone_simps slot_def)

lemma slot_parts:
  assumes "fixed_zone loc" "h \<in> {0..23}" "m \<in> {0..59}"
  shows "wall_date loc (slot loc n h m) = civil_of n" "wall_hour loc (slot loc n h m) = h"
    "wall_minute loc (slot loc n h m) = m" "wall_second loc (slot loc n h m) = 0"
    "slot loc n h m mod second_ns = 0"
proof -
  have "wall loc (slot loc n h m) = wall_seconds (civil_of n) h m 0"
    using assms(1) by (simp add: wall_slot wall_seconds_def)
  note p = wall_parts [OF this assms(2,3)]
  show "wall_date loc (slot loc n h m) = civil_of n" "wall_hour loc (slot loc n h m) = h"
    "wall_minute loc (slot loc n h m) = m" "wall_second loc (slot loc n h m) = 0"
    by (simp_all only: p day_number_civil_of)
  show "slot loc n h m mod second_ns = 0" by (simp add: slot_def)
qed

lemma wall_ranges: "wall_hour loc t \<in> {0..23}" "wall_minute loc t \<in> {0..59}"
  using floor_bounds [of 3600 "wall loc t mod 86400"] floor_bounds [of 60 "wall loc t mod 3600"]
    pos_mod_bound [of 86400 "wall loc t"] pos_mod_bound [of 3600 "wall loc t"]
  by (simp_all add: wall_hour_def wall_minute_def pos_imp_zdiv_nonneg_iff)

lemma time_Date_slot:
  assumes "fixed_zone loc"
  shows "time_Date loc c h m 0 0 = slot loc (day_number c) h m"
  using assms by (simp add: time_Date_def Let_def fixed_zone_simps slot_def wall_seconds_def)

lemma resolveSlot_slot:
  assumes "fixed_zone loc" "valid_date c" "h \<in> {0..23}" "m \<in> {0..59}"
  shows "resolveSlot c h m loc = slot loc (day_number c) h m"
proof -
  let ?e = "slot loc (day_number c) h m - 60 * minute_ns"
  have "?e = (if h = 0 then slot loc (day_number c - 1) 23 m else slot loc (day_number c) (h - 1) m)"
    by (simp add: slot_def algebra_simps)
  then have "wall_hour loc ?e \<noteq> h"
    using slot_parts(2) [OF assms(1) _ assms(4), of 23 "day_number c - 1"]
      slot_parts(2) [OF assms(1) _ assms(4), of "h - 1" "day_number c"] assms(3) by (simp split: if_splits)
  then show ?thesis
    using slot_parts [OF assms(1,3,4), of "day_number c"] assms(2)
    by (simp add: resolveSlot_def Let_def time_Date_slot [OF assms(1)] civil_of_day_number)
qed

lemma matchesDate_day:
  assumes "fixed_zone loc" "valid_date c"
  shows "matchesDate spec c loc = day_matches spec c"
proof -
  have "wall loc (time_Date loc c 12 0 0 0) = day_number c * 86400 + 43200"
    using assms(1) by (simp add: time_Date_slot wall_slot)
  then have "wall loc (time_Date loc c 12 0 0 0) div 86400 = day_number c"
    by simp
  then show ?thesis using assms(2)
    by (simp add: matchesDate_def day_matches_def Let_def wall_date_def civil_of_day_number)
qed

section \<open>The search finds the least match\<close>

definition least_in :: "(int \<Rightarrow> bool) \<Rightarrow> int \<Rightarrow> int \<Rightarrow> int option \<Rightarrow> bool" where
  "least_in M a b r \<longleftrightarrow> (case r of
     None \<Rightarrow> \<forall>u. a \<le> u \<and> u < b \<longrightarrow> \<not> M u
   | Some t \<Rightarrow> a \<le> t \<and> t < b \<and> M t \<and> (\<forall>u. a \<le> u \<and> u < t \<longrightarrow> \<not> M u))"

lemma least_in_join:
  assumes "least_in M a b r" "least_in M b c s" "a \<le> b" "b \<le> c"
  shows "least_in M a c (case r of None \<Rightarrow> s | Some t \<Rightarrow> Some t)"
proof (cases r)
  case None
  then have "\<not> M u" if "a \<le> u" "u < b" for u using assms(1) that by (simp add: least_in_def)
  moreover have "u < b \<or> b \<le> u" for u by auto
  ultimately show ?thesis using assms(2,3) None by (auto simp: least_in_def split: option.splits)
next
  case (Some t)
  then show ?thesis using assms by (auto simp: least_in_def)
qed

lemma least_in_shift:
  assumes "\<And>u. M u \<Longrightarrow> a \<le> u \<and> b \<le> u" and "least_in M a c r"
  shows "least_in M b c r"
  using assms by (cases r) (simp_all add: least_in_def, blast+)

text \<open>A loop over adjacent stretches of time finds the least match of all of them.\<close>

lemma least_in_loop:
  assumes "\<And>x. i \<le> x \<Longrightarrow> x \<le> j \<Longrightarrow> least_in M (edge x) (edge (x + 1)) (f x)"
    and "\<And>x. i \<le> x \<Longrightarrow> x \<le> j \<Longrightarrow> edge x \<le> edge (x + 1)" and "i \<le> j + (1::int)"
  shows "least_in M (edge i) (edge (j + 1)) (first_some f [i..j]) \<and> edge i \<le> edge (j + 1)"
  using assms
proof (induction "nat (j + 1 - i)" arbitrary: i)
  case 0
  then show ?case by (auto simp: least_in_def)
next
  case (Suc n)
  then have "i \<le> j" by simp
  have "least_in M (edge (i + 1)) (edge (j + 1)) (first_some f [i + 1..j]) \<and> edge (i + 1) \<le> edge (j + 1)"
    using Suc.hyps(2) by (intro Suc.hyps(1) Suc.prems) auto
  then show ?case
    using least_in_join [OF Suc.prems(1) [of i]] Suc.prems(2) [of i] \<open>i \<le> j\<close>
    by (auto simp: upto_rec1)
qed

lemma wall_between:
  assumes "fixed_zone loc" "slot loc n h m \<le> t" "t < slot loc n' h' m'"
  shows "n * 86400 + h * 3600 + m * 60 \<le> wall loc t" "wall loc t < n' * 86400 + h' * 3600 + m' * 60"
proof -
  have "k * second_ns \<le> t \<longleftrightarrow> k \<le> t div second_ns" "t < k * second_ns \<longleftrightarrow> t div second_ns < k" for k
    using floor_bounds [of second_ns t] by auto
  then show "n * 86400 + h * 3600 + m * 60 \<le> wall loc t" "wall loc t < n' * 86400 + h' * 3600 + m' * 60"
    using assms by (simp_all add: wall_def fixed_zone_simps slot_def)
qed

lemma wall_day_hour:
  assumes "n * 86400 \<le> w" "w < (n + 1) * (86400::int)"
  shows "w div 86400 = n"
    and "h * 3600 \<le> w - n * 86400 \<Longrightarrow> w - n * 86400 < (h + 1) * 3600 \<Longrightarrow> w mod 86400 div 3600 = h"
proof -
  have "w = 86400 * n + (w - n * 86400)" by simp
  then show d: "w div 86400 = n"
    using assms int_div_pos_eq [of w 86400 n "w - n * 86400"] by simp
  assume h: "h * 3600 \<le> w - n * 86400" "w - n * 86400 < (h + 1) * 3600"
  have "w mod 86400 = 3600 * h + (w - n * 86400 - h * 3600)"
    using d div_mult_mod_eq [of w 86400] by simp
  then show "w mod 86400 div 3600 = h"
    using h int_div_pos_eq [of "w mod 86400" 3600 h "w - n * 86400 - h * 3600"] by simp
qed

definition due_after :: "Spec \<Rightarrow> Location \<Rightarrow> instant \<Rightarrow> instant \<Rightarrow> bool" where
  "due_after spec loc after u \<longleftrightarrow> after < u \<and> cron_matches spec loc u"

lemma due_wall:
  assumes "fixed_zone loc" "due_after spec loc after u"
  shows "u = (wall loc u - lc_First loc) * second_ns" and "wall loc u mod 60 = 0"
  using assms div_mult_mod_eq [of u second_ns]
  by (simp_all add: due_after_def cron_matches_def wall_def fixed_zone_simps wall_second_def)

lemma due_minutes: "due_after spec loc after u \<Longrightarrow> \<exists>j. wall loc u = j * 60"
  by (rule exI [of _ "wall loc u div 60"])
    (simp add: due_after_def cron_matches_def wall_second_def minus_mod_eq_div_mult [symmetric])

lemma search_minute:
  assumes "fixed_zone loc" "valid_date c" "h \<in> {0..23}" "m \<in> {0..59}"
    and "has (sp_Hours spec) h" "day_matches spec c"
  shows "least_in (due_after spec loc after) (slot loc (day_number c) h m) (slot loc (day_number c) h (m + 1))
    (run_at_minute spec after loc c h m)"
proof -
  let ?s = "slot loc (day_number c) h m"
  have only: "u = ?s" if "due_after spec loc after u" "?s \<le> u" "u < slot loc (day_number c) h (m + 1)" for u
  proof -
    have "\<exists>j. wall loc u = j * 60" by (rule due_minutes) (rule that(1))
    then obtain j where j: "wall loc u = j * 60" by blast
    then have "j = day_number c * 1440 + h * 60 + m"
      using wall_between [OF assms(1) that(2,3)] by (simp add: distrib_right)
    with j have "wall loc u = day_number c * 86400 + h * 3600 + m * 60" by simp
    then show ?thesis using due_wall(1) [OF assms(1) that(1)] by (simp add: slot_def)
  qed
  have s: "due_after spec loc after ?s \<longleftrightarrow> after < ?s \<and> has (sp_Minutes spec) m"
    using assms slot_parts [OF assms(1,3,4)]
    by (simp add: due_after_def cron_matches_def civil_of_day_number)
  have "?s < slot loc (day_number c) h (m + 1)" by (simp add: slot_def)
  with only s show ?thesis
    using resolveSlot_slot [OF assms(1-4)]
    by (auto simp: run_at_minute_def Let_def least_in_def)
qed

lemma search_hour:
  assumes "fixed_zone loc" "valid_date c" "h \<in> {0..23}" "day_matches spec c"
  shows "least_in (due_after spec loc after) (slot loc (day_number c) h 0) (slot loc (day_number c) (h + 1) 0)
    (run_in_hour spec after loc c h)"
proof (cases "has (sp_Hours spec) h")
  case True
  have "least_in (due_after spec loc after) (slot loc (day_number c) h 0) (slot loc (day_number c) h (59 + 1))
      (first_some (run_at_minute spec after loc c h) [0..59])"
    using least_in_loop [of 0 59 _ "slot loc (day_number c) h"] search_minute [OF assms(1-3) _ True assms(4)]
    by (simp add: slot_def)
  moreover have "slot loc (day_number c) h (59 + 1) = slot loc (day_number c) (h + 1) 0"
    by (simp add: slot_def)
  ultimately show ?thesis using True by (simp add: run_in_hour_def)
next
  case False
  have "\<not> due_after spec loc after u"
    if "slot loc (day_number c) h 0 \<le> u" "u < slot loc (day_number c) (h + 1) 0" for u
  proof -
    note w = wall_between [OF assms(1) that]
    then have "wall_hour loc u = h"
      using wall_day_hour(2) [of "day_number c" "wall loc u" h] assms(3) by (simp add: wall_hour_def)
    then show ?thesis using False by (simp add: due_after_def cron_matches_def)
  qed
  then show ?thesis using False by (simp add: run_in_hour_def least_in_def)
qed

lemma search_day:
  assumes "fixed_zone loc"
  shows "least_in (due_after spec loc after) (slot loc (n0 + d) 0 0) (slot loc (n0 + d + 1) 0 0)
    (run_on_day spec after loc (slot loc n0 0 0) d)"
proof -
  let ?c = "civil_of (n0 + d)"
  obtain y m d0 where c0: "civil_of n0 = Civil y m d0" by (cases "civil_of n0")
  have "day_number (Civil y m (d0 + d)) = n0 + d"
    using day_number_civil_of [of n0] c0 by (simp add: day_number_def)
  then have "add_days loc (slot loc n0 0 0) d = slot loc (n0 + d) 0 0"
    using slot_parts [OF assms, of 0 0 n0] c0 assms
    by (simp add: add_days_def time_Date_slot)
  then have c: "wall_date loc (add_days loc (slot loc n0 0 0) d) = ?c"
    using slot_parts(1) [OF assms, of 0 0 "n0 + d"] by simp
  note valid = valid_civil_of [of "n0 + d"]
  show ?thesis
  proof (cases "day_matches spec ?c")
    case True
    have "least_in (due_after spec loc after) (slot loc (n0 + d) 0 0) (slot loc (n0 + d) (23 + 1) 0)
        (first_some (run_in_hour spec after loc ?c) [0..23])"
      using least_in_loop [of 0 23 _ "\<lambda>h. slot loc (n0 + d) h 0"] search_hour [OF assms valid _ True]
      by (simp add: slot_def)
    moreover have "slot loc (n0 + d) (23 + 1) 0 = slot loc (n0 + d + 1) 0 0"
      by (simp add: slot_def)
    ultimately show ?thesis
      using True by (simp add: run_on_day_def c Let_def matchesDate_day [OF assms valid])
  next
    case False
    have "\<not> due_after spec loc after u"
      if "slot loc (n0 + d) 0 0 \<le> u" "u < slot loc (n0 + d + 1) 0 0" for u
    proof -
      have "wall_date loc u = ?c"
        using wall_between [OF assms that] wall_day_hour(1) [of "n0 + d" "wall loc u"]
        by (simp add: wall_date_def)
      then show ?thesis using False by (simp add: due_after_def cron_matches_def)
    qed
    then show ?thesis
      using False by (simp add: run_on_day_def c Let_def matchesDate_day [OF assms valid] least_in_def)
  qed
qed

text \<open>The first day of the search, and where the search ends.\<close>

definition first_day :: "Location \<Rightarrow> instant \<Rightarrow> int" where
  "first_day loc after = (wall loc after div 60 * 60 + 60) div 86400"

definition search_end :: "Location \<Rightarrow> instant \<Rightarrow> instant" where
  "search_end loc after = slot loc (first_day loc after + maxSearchDays) 0 0"

lemma search_start_fixed:
  assumes "fixed_zone loc"
  shows "search_start after loc = slot loc (first_day loc after) 0 0"
proof -
  let ?m = "slot loc (day_number (wall_date loc after)) (wall_hour loc after) (wall_minute loc after)"
  have "wall loc after = wall_seconds (wall_date loc after) (wall_hour loc after) (wall_minute loc after)
      (wall loc after mod 60)"
    using wall_reading [of loc after] by (simp only: wall_second_def)
  then have "wall loc ?m = wall loc after div 60 * 60"
    using minus_mod_eq_div_mult [of "wall loc after" 60]
    by (simp add: wall_slot [OF assms] wall_seconds_def)
  moreover have "wall loc (?m + minute_ns) = wall loc ?m + 60"
    by (simp add: wall_def fixed_zone_simps [OF assms] slot_def)
  ultimately show ?thesis
    by (simp add: search_start_def Let_def time_Date_slot [OF assms] wall_date_def first_day_def)
qed

lemma due_from_start:
  assumes "fixed_zone loc" "due_after spec loc after u"
  shows "slot loc (first_day loc after) 0 0 \<le> u"
proof -
  have "after < u" using assms(2) by (simp add: due_after_def)
  then have "after div second_ns \<le> u div second_ns" by (simp add: zdiv_mono1)
  then have le: "wall loc after \<le> wall loc u" by (simp add: wall_def fixed_zone_simps [OF assms(1)])
  have "wall loc after \<noteq> wall loc u \<or> wall loc after = wall loc u" by simp
  have "wall loc after < wall loc u"
  proof (rule ccontr)
    assume "\<not> wall loc after < wall loc u"
    then have "after div second_ns = u div second_ns"
      using le by (simp add: wall_def fixed_zone_simps [OF assms(1)])
    then show False
      using \<open>after < u\<close> due_wall(1) [OF assms] floor_bounds [of second_ns after]
      by (simp add: wall_def fixed_zone_simps [OF assms(1)])
  qed
  moreover obtain j where j: "wall loc u = j * 60"
    using due_minutes [OF assms(2)] by blast
  ultimately have "wall loc after div 60 < j"
    using floor_bounds [of 60 "wall loc after", OF zero_less_numeral] by linarith
  then have "wall loc after div 60 * 60 + 60 \<le> wall loc u"
    using j by linarith
  then have "first_day loc after * 86400 \<le> wall loc u"
    using floor_bounds [of 86400 "wall loc after div 60 * 60 + 60", OF zero_less_numeral]
    unfolding first_day_def by linarith
  then show ?thesis using due_wall(1) [OF assms] by (simp add: slot_def)
qed

lemma search_least:
  assumes "fixed_zone loc"
  shows "least_in (due_after spec loc after) (after + 1) (search_end loc after)
    (first_some (run_on_day spec after loc (search_start after loc)) [0..maxSearchDays - 1])"
proof -
  let ?n = "first_day loc after"
  let ?r = "first_some (run_on_day spec after loc (search_start after loc)) [0..maxSearchDays - 1]"
  have "least_in (due_after spec loc after) (slot loc (?n + 0) 0 0) (slot loc (?n + (maxSearchDays - 1 + 1)) 0 0) ?r"
    unfolding search_start_fixed [OF assms]
    by (rule conjunct1 [OF least_in_loop [where edge = "\<lambda>d. slot loc (?n + d) 0 0"]])
      (use search_day [OF assms, of spec after ?n] in
        \<open>simp_all add: slot_def maxSearchDays_def add.assoc\<close>)
  then have l: "least_in (due_after spec loc after) (slot loc ?n 0 0) (search_end loc after) ?r"
    by (simp add: search_end_def)
  have "slot loc ?n 0 0 \<le> u \<and> after + 1 \<le> u" if "due_after spec loc after u" for u
    using due_from_start [OF assms that] that by (simp add: due_after_def)
  then show ?thesis using l by (rule least_in_shift)
qed

lemma Next_least:
  assumes "fixed_zone (or_UTC zone)"
  shows "Next spec after zone = Inr t \<longleftrightarrow>
     after < t \<and> t < search_end (or_UTC zone) after \<and> cron_matches spec (or_UTC zone) t
     \<and> (\<forall>u. after < u \<and> u < t \<longrightarrow> \<not> cron_matches spec (or_UTC zone) u)"
    (is "_ \<longleftrightarrow> ?least")
proof -
  let ?loc = "or_UTC zone"
  let ?r = "first_some (run_on_day spec after ?loc (search_start after ?loc)) [0..maxSearchDays - 1]"
  have l: "least_in (due_after spec ?loc after) (after + 1) (search_end ?loc after) ?r"
    by (rule search_least [OF assms])
  have "Next spec after zone = Inr t \<longleftrightarrow> ?r = Some t"
    by (simp add: Next_def Let_def split: option.split)
  also have "\<dots> \<longleftrightarrow> ?least"
  proof (cases ?r)
    case None
    with l show ?thesis by (auto simp: least_in_def due_after_def)
  next
    case (Some s)
    then have s: "after < s" "s < search_end ?loc after" "cron_matches spec ?loc s"
      "\<And>u. after < u \<Longrightarrow> u < s \<Longrightarrow> \<not> cron_matches spec ?loc u"
      using l by (auto simp: least_in_def due_after_def)
    show ?thesis
    proof
      assume "?r = Some t"
      with Some s show ?least by auto
    next
      assume t: ?least
      have "s = t"
        using s t by (cases s t rule: linorder_cases) auto
      then show "?r = Some t" using Some by simp
    qed
  qed
  finally show ?thesis .
qed


section \<open>When there is a next run\<close>











section \<open>Missed runs\<close>

fun consecutive :: "Spec \<Rightarrow> Location option \<Rightarrow> instant \<Rightarrow> instant list \<Rightarrow> bool" where
  "consecutive spec zone cursor [] = True"
| "consecutive spec zone cursor (t # ts) \<longleftrightarrow> Next spec cursor zone = Inr t \<and> consecutive spec zone t ts"

lemma Next_later: "Next spec after zone = Inr t \<Longrightarrow> after < t"
  by (elim Next_SomeE)

lemma missed_runs_consecutive:
  "missed_runs spec now zone n cursor = Inr ms \<Longrightarrow>
     consecutive spec zone cursor ms \<and> (\<forall>t \<in> set ms. t \<le> now) \<and> length ms \<le> n
     \<and> (length ms < n \<longrightarrow> (\<exists>t. Next spec (last (cursor # ms)) zone = Inr t \<and> now < t))"
proof (induction spec now zone n cursor arbitrary: ms rule: missed_runs.induct)
  case (2 spec now zone n cursor)
  then show ?case
    by (fastforce split: sum.splits if_splits)
qed simp

lemma consecutive_sorted: "consecutive spec zone cursor ts \<Longrightarrow> sorted_wrt (<) (cursor # ts)"
proof (induction ts arbitrary: cursor)
  case (Cons t ts)
  then have "cursor < t" "sorted_wrt (<) (t # ts)" by (auto dest: Next_later)
  then show ?case by auto
qed simp

lemma CatchUp_SomeE:
  assumes "CatchUp spec lastRun now zone = Inr occs"
  obtains ms where "missed_runs spec now zone (nat (int maxMissedTracked + 1)) lastRun = Inr ms"
    and "map oc_ScheduledFor occs = ms"
    and "occs = [] \<or> list_all oc_Skipped (butlast occs) \<and> \<not> oc_Skipped (last occs)"
proof -
  have n: "nat (int maxMissedTracked + 1) = maxMissedTracked + 1" by simp
  obtain ms where ms: "missed_runs spec now zone (maxMissedTracked + 1) lastRun = Inr ms"
    using assms by (auto simp: CatchUp_def split: sum.splits)
  show thesis
  proof (cases ms)
    case Nil
    with ms assms show ?thesis by (intro that [of ms]) (auto simp: CatchUp_def n)
  next
    case (Cons t ts)
    then have occs: "occs = map (\<lambda>at. \<lparr>oc_ScheduledFor = at, oc_Skipped = True,
          oc_Reason = skip_reason (or_UTC zone) (last ms)\<rparr>) (butlast ms)
        @ [\<lparr>oc_ScheduledFor = last ms, oc_Skipped = False, oc_Reason = []\<rparr>]"
      using assms ms by (simp add: CatchUp_def)
    have "map oc_ScheduledFor occs = butlast ms @ [last ms]"
      unfolding occs by (simp add: comp_def)
    moreover have "list_all oc_Skipped (butlast occs)" "\<not> oc_Skipped (last occs)"
      unfolding occs by (simp_all add: list_all_iff)
    ultimately show ?thesis using ms Cons by (intro that [of ms]) (simp_all add: n)
  qed
qed

text \<open>
  What a stopped scheduler missed is listed in order, all of it after the last run and up to now;
  the last of it is fired and the rest recorded as skipped, at most 501 in all.
\<close>

theorem catch_up_fires_only_the_last:
  assumes "CatchUp spec lastRun now zone = Inr occs"
  shows "sorted_wrt (<) (lastRun # map oc_ScheduledFor occs)
     \<and> list_all (\<lambda>o1. oc_ScheduledFor o1 \<le> now) occs \<and> length occs \<le> maxMissedTracked + 1
     \<and> (occs = [] \<or> list_all oc_Skipped (butlast occs) \<and> \<not> oc_Skipped (last occs))"
  using assms
proof (rule CatchUp_SomeE)
  fix ms
  assume ms: "missed_runs spec now zone (nat (int maxMissedTracked + 1)) lastRun = Inr ms"
    and occs: "map oc_ScheduledFor occs = ms"
      "occs = [] \<or> list_all oc_Skipped (butlast occs) \<and> \<not> oc_Skipped (last occs)"
  from missed_runs_consecutive [OF ms] have "length occs \<le> maxMissedTracked + 1"
    "\<forall>t \<in> set ms. t \<le> now" "sorted_wrt (<) (lastRun # ms)"
    using occs(1) consecutive_sorted [of spec zone lastRun ms] by auto
  with occs show ?thesis by (auto simp: list_all_iff)
qed

lemma consecutive_matches:
  assumes "fixed_zone (or_UTC zone)" "consecutive spec zone cursor ts"
  shows "{t. cursor < t \<and> t \<le> last (cursor # ts) \<and> cron_matches spec (or_UTC zone) t} = set ts"
  using assms(2)
proof (induction ts arbitrary: cursor)
  case (Cons t ts)
  then have t: "cursor < t" "cron_matches spec (or_UTC zone) t"
    "\<And>u. cursor < u \<Longrightarrow> u < t \<Longrightarrow> \<not> cron_matches spec (or_UTC zone) u"
    and ts: "consecutive spec zone t ts"
    using Next_least [OF assms(1), of spec cursor t] by auto
  have "t \<le> last (t # ts)"
    using consecutive_sorted [OF ts] by (cases ts rule: rev_cases) auto
  then have "{u. cursor < u \<and> u \<le> last (t # ts) \<and> cron_matches spec (or_UTC zone) u} =
      insert t {u. t < u \<and> u \<le> last (t # ts) \<and> cron_matches spec (or_UTC zone) u}"
    using t by force
  then show ?case using Cons.IH [OF ts] by simp
qed auto

text \<open>
  In a zone of constant offset, and unless 501 runs were missed, these are all the instants the
  expression means in that time.
\<close>

theorem catch_up_reports_every_missed_run:
  assumes "fixed_zone (or_UTC zone)" and "CatchUp spec lastRun now zone = Inr occs"
    and "length occs \<le> maxMissedTracked"
  shows "oc_ScheduledFor ` set occs = {t. lastRun < t \<and> t \<le> now \<and> cron_matches spec (or_UTC zone) t}"
  using assms(2)
proof (rule CatchUp_SomeE)
  fix ms
  assume ms: "missed_runs spec now zone (nat (int maxMissedTracked + 1)) lastRun = Inr ms"
    and occs: "map oc_ScheduledFor occs = ms"
  have len: "length ms < nat (int maxMissedTracked + 1)" using occs assms(3) by auto
  have c: "consecutive spec zone lastRun ms" "\<forall>t \<in> set ms. t \<le> now"
    using missed_runs_consecutive [OF ms] by auto
  obtain t where t: "Next spec (last (lastRun # ms)) zone = Inr t" "now < t"
    using missed_runs_consecutive [OF ms] len by auto
  have "\<not> cron_matches spec (or_UTC zone) u" if "last (lastRun # ms) < u" "u \<le> now" for u
    using t that Next_least [OF assms(1), of spec "last (lastRun # ms)" t] by auto
  then have "{t. lastRun < t \<and> t \<le> now \<and> cron_matches spec (or_UTC zone) t} = set ms"
    using consecutive_matches [OF assms(1) c(1)] c(2) by force
  then show ?thesis using occs by (metis set_map)
qed

end
