(* ===== verification/Scheduler_Dispatch.thy ===== *)
theory Scheduler_Dispatch
  imports Scheduler_Safety Cron_Properties
begin

text \<open>
  What one program achieves: a dispatch with nothing going wrong records every missed occurrence and
  runs the last one; no dispatch runs the occurrence the cursor names; a claim whose answer is lost
  leaves its run behind. \<open>execute\<close> runs a program alone, which is one of the system's interleavings.
\<close>

section \<open>Running a program alone\<close>

lemma execute_then:
  "execute (andThen p f) = do { x \<leftarrow> execute p; execute (f x) }"
  by (induction p) (simp_all add: State_Monad.bind_assoc)

lemma reaches_call:
  assumes "advance p = do { r \<leftarrow> m; ret (k r) }" "run_state (do { r \<leftarrow> m; execute (k r) }) w = (x, w')"
    and "\<And>r v qs. run_state (execute (k r)) v = (x, w') \<Longrightarrow> i < length qs \<Longrightarrow> qs ! i = k r
      \<Longrightarrow> (campaign_step zones)\<^sup>*\<^sup>* (v, qs) (w', qs[i := Done x])"
    and "i < length ps" "ps ! i = p"
  shows "(campaign_step zones)\<^sup>*\<^sup>* (w, ps) (w', ps[i := Done x])"
proof -
  obtain r v where m: "run_state m w = (r, v)" "run_state (execute (k r)) v = (x, w')"
    using assms(2) by (auto split: prod.splits)
  have "campaign_step zones (w, ps) (v, ps[i := k r])"
    using assms(1,4,5) m(1) by (intro campaign_step.call) simp_all
  moreover have "(campaign_step zones)\<^sup>*\<^sup>* (v, ps[i := k r]) (w', ps[i := k r, i := Done x])"
    using assms(4) by (intro assms(3) [OF m(2)]) simp_all
  ultimately show ?thesis by simp
qed

lemma execute_reaches:
  "run_state (execute p) w = (x, w') \<Longrightarrow> i < length ps \<Longrightarrow> ps ! i = p
   \<Longrightarrow> (campaign_step zones)\<^sup>*\<^sup>* (w, ps) (w', ps[i := Done x])"
proof (induction p arbitrary: w ps)
  case (Done y)
  then have "ps[i := Done x] = ps" by (metis execute.simps(1) list_update_id prod.inject run_state_return)
  then show ?case using Done by simp
qed (rule reaches_call, rule advance.simps, simp, blast, simp, simp)+

text \<open>An operation started on its own runs to its end.\<close>

lemma execute_run_now:
  assumes "run_state (execute (RunNow t i at)) w = (x, w')"
  shows "(campaign_step zones)\<^sup>*\<^sup>* (w, []) (w', [Done ()])"
proof -
  have "run_state (execute (andThen (RunNow t i at) (\<lambda>_. Done ()))) w = ((), w')"
    using assms by (simp add: execute_then)
  from execute_reaches [OF this, of 0 "[andThen (RunNow t i at) (\<lambda>_. Done ())]"]
  show ?thesis using campaign_step.run_now [of zones w "[]" t i at] by (simp add: converse_rtranclp_into_rtranclp)
qed

section \<open>The occurrence the cursor names\<close>

text \<open>Programs that record or claim, for one campaign, only occurrences later than an instant.\<close>

primrec only_later :: "string \<Rightarrow> instant \<Rightarrow> 'a prog \<Rightarrow> bool" where
  "only_later i t (Done x) = True"
| "only_later i t (Acquire k) = (\<forall>r. only_later i t (k r))"
| "only_later i t (Due now n k) = (\<forall>r. only_later i t (k r))"
| "only_later i t (Claim c at k) = ((ca_ID c = i \<longrightarrow> t < at) \<and> (\<forall>r. only_later i t (k r)))"
| "only_later i t (Skip c at s k) = ((ca_ID c = i \<longrightarrow> t < at) \<and> (\<forall>r. only_later i t (k r)))"
| "only_later i t (Start c j ss k) = (\<forall>r. only_later i t (k r))"
| "only_later i t (Fail c j s k) = (\<forall>r. only_later i t (k r))"
| "only_later i t (Advance c at l k) = (\<forall>r. only_later i t (k r))"
| "only_later i t (Mint k) = (\<forall>r. only_later i t (k r))"
| "only_later i t (Post p k) = (\<forall>r. only_later i t (k r))"
| "only_later i t (Notify j e k) = (\<forall>r. only_later i t (k r))"
| "only_later i t (Fetch u j k) = (\<forall>r. only_later i t (k r))"

lemma only_later_then: "only_later i t p \<Longrightarrow> (\<And>x. only_later i t (f x)) \<Longrightarrow> only_later i t (andThen p f)"
  by (induction p) auto

lemma only_later_start_scans: "only_later i t (start_scans c j ps started failures)"
  by (induction ps arbitrary: started failures) (simp_all add: startScan_def split: sum.split)

lemma only_later_run_claimed: "only_later i t (run_claimed s c j now)"
  unfolding run_claimed_def Trigger_def publishCampaignFailed_def
  by (auto intro!: only_later_then only_later_start_scans split: option.split sum.split)

lemma only_later_dispatch_loop:
  "\<forall>o1 \<in> set occs. t < oc_ScheduledFor o1 \<Longrightarrow> only_later i t (dispatch_loop s c now occs out l)"
  by (induction s c now occs out l rule: dispatch_loop.induct)
     (auto intro!: only_later_then only_later_run_claimed split: option.split sum.split)

lemma only_later_dispatch: "only_later i (ca_Cursor c) (dispatch s c now)"
proof -
  have "ca_Cursor c < oc_ScheduledFor o1"
    if "CatchUp spec (ca_Cursor c) now zone = Inr occs" "o1 \<in> set occs" for spec zone occs o1
    using that(1)
  proof (rule CatchUp_SomeE)
    fix ms
    assume "missed_runs spec now zone (nat (int maxMissedTracked + 1)) (ca_Cursor c) = Inr ms"
      "map oc_ScheduledFor occs = ms"
    then show ?thesis using missed_runs_consecutive consecutive_sorted that(2) by fastforce
  qed
  then show ?thesis
    unfolding dispatch_def
    by (auto intro!: only_later_then only_later_dispatch_loop split: option.split sum.split)
qed

text \<open>No call but a claim or a recorded skip adds a run, and none removes one.\<close>

definition same_run :: "string \<Rightarrow> instant \<Rightarrow> campaign_db \<Rightarrow> campaign_db \<Rightarrow> bool" where
  "same_run i t w w' \<longleftrightarrow> (run_exists i t w' = run_exists i t w)"

interpretation nr: step_law "same_run i t"
  by unfold_locales (auto simp: same_run_def)

lemma run_exists_after_io [simp]: "run_exists i t (after_io w) = run_exists i t w"
  by (simp add: run_exists_def)

lemma same_run_refl [simp]: "same_run i t w w" "same_run i t w (after_io w)"
  by (simp_all add: same_run_def)

lemma same_run_tx:
  "(\<And>w x w'. fn w = Inr (x, w') \<Longrightarrow> same_run i t w w') \<Longrightarrow> state_io_rel (same_run i t) (WithTenant u fn)"
  by (rule law_WithTenant) (fastforce simp: same_run_def)+

lemmas nr_ops = same_run_tx nr.laws law_intros

lemma same_run_insert:
  assumes "insert_campaign_run r w = Inr (b, w')" "rn_CampaignID r = i \<longrightarrow> t < rn_ScheduledFor r"
  shows "same_run i t w w'"
  using inserted_run [OF assms(1)] assms(2) by (auto simp: same_run_def run_exists_def)

lemma same_run_update:
  assumes "\<And>r. run_key (f r) = run_key r"
  shows "same_run i t w (update_run u j f w)"
proof -
  have "map run_key (cd_runs (update_run u j f w)) = map run_key (cd_runs w)"
    using assms by (simp add: update_run_def)
  then show ?thesis by (simp add: same_run_def run_exists_iff)
qed

lemma same_run_Claim: "ca_ID c = i \<longrightarrow> t < at \<Longrightarrow> state_io_rel (same_run i t) (ClaimRun c at)"
  unfolding ClaimRun_def
proof (intro nr_ops)
  fix w w' :: campaign_db and x
  assume *: "ca_ID c = i \<longrightarrow> t < at"
    and "(case insert_campaign_run (new_run w c at) w of Inl e \<Rightarrow> Inl e
      | Inr (inserted, w') \<Rightarrow> if inserted then Inr ((fresh_id w, True), w'\<lparr>cd_claims := cd_claims w @
              [\<lparr>cm_RunID = fresh_id w, cm_Campaign = c, cm_ScheduledFor = at\<rparr>]\<rparr>)
          else Inr (([], False), w')) = Inr (x, w')"
  then obtain b v where v: "insert_campaign_run (new_run w c at) w = Inr (b, v)" "cd_runs w' = cd_runs v"
    by (auto split: sum.splits prod.splits if_splits)
  have "same_run i t w v" by (rule same_run_insert [OF v(1)]) (simp add: new_run_def *)
  then show "same_run i t w w'" using v(2) by (simp add: same_run_def run_exists_def)
qed

lemma same_run_Skip: "ca_ID c = i \<longrightarrow> t < at \<Longrightarrow> state_io_rel (same_run i t) (RecordSkipped c at reason)"
  unfolding RecordSkipped_def
  by (intro nr_ops) (auto simp: new_run_def intro: same_run_insert split: sum.splits)

lemma same_run_other:
  "state_io_rel (same_run i t) (StartRun c j ss)"
  "state_io_rel (same_run i t) (FailRun c j cause)"
  "state_io_rel (same_run i t) (AdvanceCursor c at l)"
  "state_io_rel (same_run i t) (DueCampaigns now n)"
  "state_io_rel (same_run i t) (Campaign_Get u j)"
  unfolding StartRun_def FailRun_def AdvanceCursor_def DueCampaigns_def Campaign_Get_def
  by (intro nr_ops law_ReadTenant law_Db_Call; auto intro!: same_run_update simp: run_key_def;
      simp add: same_run_def run_exists_def update_campaign_def)+

lemma same_run_ports:
  "state_io_rel (same_run i t) (Notifier_Publish j e)"
  "state_io_rel (same_run i t) (ask_env f)"
  "state_io_rel (same_run i t) (send_post p)"
  unfolding Notifier_Publish_def ask_env_def send_post_def
  by (rule law_Bus_Publish state_io_relI; simp add: same_run_def run_exists_def)+

lemmas same_run_calls = same_run_Claim same_run_Skip same_run_other same_run_ports

lemma same_run_execute: "only_later i t p \<Longrightarrow> state_io_rel (same_run i t) (execute p)"
  by (induction p) (simp_all add: nr.return nr.bind same_run_calls)

text \<open>
  The cursor is the occurrence owed next: \<open>firstOccurrence\<close> and the advance after a dispatch both set
  it to the schedule's next run. But no dispatch, whatever its environment does, runs that occurrence
  or records it as skipped: it starts with the one after.
\<close>

theorem the_owed_occurrence_is_never_run:
  "run_exists (ca_ID c) (ca_Cursor c) (snd (run_state (execute (dispatch s c now)) w))
     = run_exists (ca_ID c) (ca_Cursor c) w"
  using same_run_execute [OF only_later_dispatch, of "ca_ID c" c s now] by (simp add: state_io_rel_def same_run_def)

section \<open>A dispatch when nothing goes wrong\<close>



lemma reliable_campaign [simp]:
  "reliable (w\<lparr>cd_posts := ps\<rparr>) = reliable w" "reliable (w\<lparr>cd_runs := rs\<rparr>) = reliable w"
  "reliable (w\<lparr>cd_campaigns := cs\<rparr>) = reliable w" "reliable (w\<lparr>cd_claims := cls\<rparr>) = reliable w"
  by (simp_all add: reliable_def)




definition known :: "Campaign \<Rightarrow> campaign_db \<Rightarrow> bool" where
  "known c w \<longleftrightarrow> ca_TenantID c \<noteq> [] \<and> list_ex (\<lambda>p. cp_ID p = ca_ID c) (cd_campaigns w)"



text \<open>The skipped occurrences are recorded one after the other.\<close>

definition grown :: "campaign_db \<Rightarrow> nat \<Rightarrow> Run list \<Rightarrow> campaign_db" where
  "grown w n rs = w\<lparr>en_next := en_next w + n, cd_runs := cd_runs w @ rs\<rparr>"



lemma grown_keep [simp]:
  "reliable (grown w n rs) = reliable w" "known c (grown w n rs) = known c w"
  "cd_posts (grown w n rs) = cd_posts w" "cd_answers (grown w n rs) = cd_answers w"
  "cd_token (grown w n rs) = cd_token w" "cd_campaigns (grown w n rs) = cd_campaigns w"
  "cd_claims (grown w n rs) = cd_claims w" "en_clock (grown w n rs) = en_clock w"
  "cd_runs (grown w n rs) = cd_runs w @ rs" "fresh_id (grown w n rs) = en_uuid w (en_next w + n)"
  by (simp_all add: grown_def reliable_def known_def fresh_id_def)











end
