(* ===== verification/Text_Laws.thy ===== *)
theory Text_Laws
  imports Go_Text
begin

text \<open>
  Laws of text shared by the components that print and parse it: what trimming leaves, the fields of a
  line, splitting what was joined, and reading a decimal that was printed.
\<close>

section \<open>Text without white space\<close>

definition graphic :: "string \<Rightarrow> bool" where
  "graphic s \<longleftrightarrow> list_all (\<lambda>c. 33 \<le> byte c \<and> byte c \<le> 126) s"

lemma graphic_simps [simp]:
  "graphic []" "graphic (c # s) \<longleftrightarrow> 33 \<le> byte c \<and> byte c \<le> 126 \<and> graphic s"
  "graphic (s @ t) \<longleftrightarrow> graphic s \<and> graphic t"
  by (auto simp: graphic_def)

lemma space_ends:
  assumes "w \<in> set space_encodings" "c \<in> set w"
  shows "byte c \<le> 32 \<or> 127 \<le> byte c"
  using assms by (auto simp: space_encodings_def bytes_def)

lemma leading_space_0:
  "\<forall>w \<in> set ws. w \<noteq> [] \<and> (\<forall>c \<in> set w. byte c \<le> 32 \<or> 127 \<le> byte c)
   \<Longrightarrow> 33 \<le> byte c \<Longrightarrow> byte c \<le> 126 \<Longrightarrow> leading_space ws (c # s) = 0"
  by (induction ws) (auto simp: prefix_def Cons_eq_append_conv)

lemma trailing_space_0:
  "\<forall>w \<in> set ws. w \<noteq> [] \<and> (\<forall>c \<in> set w. byte c \<le> 32 \<or> 127 \<le> byte c)
   \<Longrightarrow> 33 \<le> byte c \<Longrightarrow> byte c \<le> 126 \<Longrightarrow> trailing_space ws (s @ [c]) = 0"
  by (induction ws) (auto simp: suffix_def append_eq_append_conv2 Cons_eq_append_conv)

lemma space_encodings_ends:
  "\<forall>w \<in> set space_encodings. w \<noteq> [] \<and> (\<forall>c \<in> set w. byte c \<le> 32 \<or> 127 \<le> byte c)"
  using space_ends space_encodings_whole by blast

lemma leading_space_graphic:
  "33 \<le> byte c \<Longrightarrow> byte c \<le> 126 \<Longrightarrow> leading_space space_encodings (c # s) = 0"
  by (rule leading_space_0 [OF space_encodings_ends])

text \<open>Nothing is trimmed from a text that begins and ends with a graphic character.\<close>

lemma trim_space_ends:
  assumes "33 \<le> byte (hd s)" "byte (hd s) \<le> 126" "33 \<le> byte (last s)" "byte (last s) \<le> 126" "s \<noteq> []"
  shows "trim_space s = s"
proof -
  have "trim_left s = s"
    using assms leading_space_graphic [of "hd s" "tl s"] by (subst trim_left.simps) simp
  moreover have "trim_right s = s"
    using assms trailing_space_0 [OF space_encodings_ends, of "last s" "butlast s"]
    by (subst trim_right.simps) simp
  ultimately show ?thesis by (simp add: trim_space_def)
qed

lemma graphic_ends:
  "graphic s \<Longrightarrow> s \<noteq> [] \<Longrightarrow> 33 \<le> byte (hd s) \<and> byte (hd s) \<le> 126 \<and> 33 \<le> byte (last s) \<and> byte (last s) \<le> 126"
  by (simp add: graphic_def list_all_iff)

lemma trim_space_graphic: "graphic s \<Longrightarrow> trim_space s = s"
proof (cases "s = []")
  case True
  then show ?thesis by (simp add: trim_space_def trim_left.simps trim_right.simps)
next
  case False
  assume "graphic s"
  with False show ?thesis using graphic_ends [of s] by (simp add: trim_space_ends)
qed

lemma leading_space_byte:
  "[c] \<in> set ws \<Longrightarrow> \<forall>w \<in> set ws. w \<noteq> [] \<and> (hd w = c \<longrightarrow> w = [c]) \<Longrightarrow> leading_space ws (c # s) = 1"
  by (induction ws) (auto simp: prefix_def Cons_eq_append_conv neq_Nil_conv)

lemma leading_blank: "leading_space space_encodings (CHR '' '' # s) = 1"
proof (rule leading_space_byte)
  have blank: "CHR '' '' = char_of (32::nat)" by (simp add: char_of_def bit_iff_odd)
  show "[CHR '' ''] \<in> set space_encodings"
    by (simp add: space_encodings_def bytes_def blank)
  show "\<forall>w \<in> set space_encodings. w \<noteq> [] \<and> (hd w = CHR '' '' \<longrightarrow> w = [CHR '' ''])"
    by (simp add: space_encodings_def bytes_def blank)
qed

text \<open>Words of graphic characters, one blank apart, are the fields of their line.\<close>

lemma fields_from_graphic:
  "graphic v \<Longrightarrow> fields_from w (v @ s) = fields_from (w @ v) s"
proof (induction v arbitrary: w)
  case (Cons c v)
  then show ?case using leading_space_graphic [of c "v @ s"] by (simp add: Let_def)
qed simp

lemma fields_join:
  "\<forall>w \<in> set ws. graphic w \<and> w \<noteq> [] \<Longrightarrow> Go_Text.fields (join '' '' ws) = ws"
proof -
  assume "\<forall>w \<in> set ws. graphic w \<and> w \<noteq> []"
  then have "fields_from [] (join '' '' ws) = ws"
  proof (induction "'' ''" ws rule: join.induct)
    case (2 s)
    then show ?case using fields_from_graphic [of s "[]" "[]"] by simp
  next
    case (3 s t ts)
    then show ?case using fields_from_graphic [of s "[]" "'' '' @ join '' '' (t # ts)"] leading_blank
      by (simp add: Let_def)
  qed simp
  then show ?thesis by (simp add: Go_Text.fields_def)
qed

lemma split_on_none: "d \<notin> set s \<Longrightarrow> split_on d s = [s]"
  by (induction s) auto

lemma split_on_append: "d \<notin> set s \<Longrightarrow> split_on d (s @ d # t) = s # split_on d t"
  by (induction s) auto

lemma split_on_join:
  "ws \<noteq> [] \<Longrightarrow> \<forall>w \<in> set ws. d \<notin> set w \<Longrightarrow> split_on d (join [d] ws) = ws"
  by (induction "[d]" ws rule: join.induct) (auto simp: split_on_none split_on_append)

lemma cut_at_append: "d \<notin> set s \<Longrightarrow> cut_at d (s @ d # t) = Some (s, t)"
  by (induction s) auto

lemma cut_at_none: "d \<notin> set s \<Longrightarrow> cut_at d s = None"
  by (induction s) auto

section \<open>Decimals\<close>

lemma itoa_digits: "list_all is_digit (itoa n)"
proof (induction n rule: itoa.induct)
  case (1 n)
  have "is_digit (char_of (48 + k))" if "k < 10" for k :: nat
    using that by (simp add: is_digit_def)
  with 1 show ?case by (subst itoa.simps) auto
qed

lemma digits_value_append: "digits_value (ds @ [c]) = 10 * digits_value ds + digit_value c"
  by (simp add: digits_value_def)

lemma digits_value_itoa: "digits_value (itoa n) = int n"
proof (induction n rule: itoa.induct)
  case (1 n)
  have "10 * int (n div 10) + int (n mod 10) = int n"
    using div_mult_mod_eq [of n 10] by linarith
  with 1 show ?case
    by (subst itoa.simps) (auto simp: digits_value_append digit_value_def digits_value_def [of "[_]"])
qed

lemma atoi_itoa: "n < 2 ^ 63 \<Longrightarrow> atoi (itoa n) = Some (int n)"
proof -
  assume n: "n < 2 ^ 63"
  have "is_digit (hd (itoa n))"
    using itoa_digits [of n] itoa_nonempty [of n] by (cases "itoa n") auto
  then have "hd (itoa n) \<noteq> CHR ''-''" "hd (itoa n) \<noteq> CHR ''+''"
    by (auto simp: is_digit_def)
  then show ?thesis
    using n itoa_digits [of n] itoa_nonempty [of n] digits_value_itoa [of n]
    by (simp add: atoi_def Let_def)
qed

lemma digit_graphic: "list_all is_digit s \<Longrightarrow> graphic s"
  by (auto simp: graphic_def list_all_iff is_digit_def)

lemma digit_not: "list_all is_digit s \<Longrightarrow> \<not> is_digit c \<Longrightarrow> c \<notin> set s"
  by (auto simp: list_all_iff)

lemma atoi_decimal:
  assumes "- (2 ^ 63) \<le> n" "n < 2 ^ 63"
  shows "atoi (decimal n) = Some n"
proof (cases "n < 0")
  case True
  have "list_all is_digit (itoa (nat (- n)))" "itoa (nat (- n)) \<noteq> []" by (simp_all add: itoa_digits itoa_nonempty)
  with True assms show ?thesis by (simp add: decimal_def atoi_def Let_def digits_value_itoa)
next
  case False
  with assms show ?thesis by (simp add: decimal_def atoi_itoa)
qed

end
