(* ===== verification/Cron_Text.thy ===== *)
theory Cron_Text
  imports Cron_Schedule Text_Laws
begin

text \<open>
  Printing and parsing of cron expressions: an expression written out from its parts is parsed to a
  schedule that contains exactly the values the parts denote.
\<close>

section \<open>Fields\<close>

datatype cron_range = Any | Only nat | Between nat nat

type_synonym cron_part = "cron_range \<times> nat option"

fun show_range :: "cron_range \<Rightarrow> string" where
  "show_range Any = ''*''"
| "show_range (Only n) = itoa n"
| "show_range (Between a b) = itoa a @ ''-'' @ itoa b"

definition show_part :: "cron_part \<Rightarrow> string" where
  "show_part p = show_range (fst p) @ (case snd p of None \<Rightarrow> [] | Some n \<Rightarrow> ''/'' @ itoa n)"

definition show_field :: "cron_part list \<Rightarrow> string" where
  "show_field ps = join '','' (map show_part ps)"

fun range_bounds :: "int \<Rightarrow> int \<Rightarrow> cron_range \<Rightarrow> int \<times> int" where
  "range_bounds min1 max1 Any = (min1, max1)"
| "range_bounds min1 max1 (Only n) = (int n, int n)"
| "range_bounds min1 max1 (Between a b) = (int a, int b)"

definition part_stride :: "cron_part \<Rightarrow> int" where
  "part_stride p = (case snd p of None \<Rightarrow> 1 | Some n \<Rightarrow> int n)"

text \<open>What a part means, and when it is a part of a field with the given range.\<close>

definition denotes :: "int \<Rightarrow> int \<Rightarrow> cron_part \<Rightarrow> int \<Rightarrow> bool" where
  "denotes min1 max1 p v \<longleftrightarrow> (case range_bounds min1 max1 (fst p) of (lo, hi) \<Rightarrow>
     lo \<le> v \<and> v \<le> hi \<and> part_stride p dvd v - lo)"

definition wf_part :: "int \<Rightarrow> int \<Rightarrow> cron_part \<Rightarrow> bool" where
  "wf_part min1 max1 p \<longleftrightarrow> (case range_bounds min1 max1 (fst p) of (lo, hi) \<Rightarrow>
     min1 \<le> lo \<and> lo \<le> hi \<and> hi \<le> max1 \<and> 1 \<le> part_stride p \<and> part_stride p < 2 ^ 62)"

definition wf_field :: "int \<Rightarrow> int \<Rightarrow> cron_part list \<Rightarrow> bool" where
  "wf_field min1 max1 ps \<longleftrightarrow> ps \<noteq> [] \<and> list_all (wf_part min1 max1) ps"

definition field_denotes :: "int \<Rightarrow> int \<Rightarrow> cron_part list \<Rightarrow> int \<Rightarrow> bool" where
  "field_denotes min1 max1 ps v \<longleftrightarrow> list_ex (\<lambda>p. denotes min1 max1 p v) ps"

definition has_star :: "cron_part list \<Rightarrow> bool" where
  "has_star ps \<longleftrightarrow> list_ex (\<lambda>p. fst p = Any) ps"

lemma set_stepped:
  "- (2 ^ 63) \<le> v \<Longrightarrow> hi < 2 ^ 61 \<Longrightarrow> 1 \<le> step \<Longrightarrow> step < 2 ^ 62
   \<Longrightarrow> set (stepped v hi step) = {x. v \<le> x \<and> x \<le> hi \<and> step dvd x - v}"
proof (induction v hi step rule: stepped.induct)
  case (1 v hi step)
  show ?case
  proof (cases "v \<le> hi")
    case True
    then have "signed_take_bit 63 (v + step) = v + step"
      using 1(2-5) by (subst wrapped_sum) auto
    moreover have "{x. v \<le> x \<and> x \<le> hi \<and> step dvd x - v} =
        insert v {x. v + step \<le> x \<and> x \<le> hi \<and> step dvd x - (v + step)}"
    proof (intro set_eqI iffI)
      fix x
      assume x: "x \<in> {x. v \<le> x \<and> x \<le> hi \<and> step dvd x - v}"
      then have "step dvd (x - v) - step" using dvd_diff [of step "x - v" step] by simp
      then have "step dvd x - (v + step)" by (simp add: algebra_simps)
      with x show "x \<in> insert v {x. v + step \<le> x \<and> x \<le> hi \<and> step dvd x - (v + step)}"
        using zdvd_imp_le [of step "x - v"] by (cases "x = v") auto
    next
      fix x
      assume x: "x \<in> insert v {x. v + step \<le> x \<and> x \<le> hi \<and> step dvd x - (v + step)}"
      have "step dvd x - (v + step) \<Longrightarrow> step dvd x - v"
        using dvd_add [of step "x - (v + step)" step] by simp
      with x show "x \<in> {x. v \<le> x \<and> x \<le> hi \<and> step dvd x - v}"
        using True 1(4) by auto
    qed
    ultimately show ?thesis
      using 1 True by (subst stepped.simps) simp
  next
    case False
    then show ?thesis by (subst stepped.simps) auto
  qed
qed

definition numbers_unnamed :: "(string \<times> int) list \<Rightarrow> bool" where
  "numbers_unnamed names \<longleftrightarrow> list_all (\<lambda>(k, v). \<not> list_all is_digit k) names"

lemma parseValue_itoa:
  assumes "numbers_unnamed names" "n < 2 ^ 63"
  shows "parseValue (itoa n) names = Inr (int n)"
proof -
  have "to_lower (itoa n) = itoa n"
    using itoa_digits [of n]
    by (auto simp: to_lower_def lower_char_def is_digit_def list_all_iff intro!: map_idI)
  moreover have "map_of names (itoa n) = None"
    using assms(1) itoa_digits [of n] by (auto simp: numbers_unnamed_def list_all_iff map_of_eq_None_iff)
  ultimately show ?thesis
    using trim_space_graphic [OF digit_graphic [OF itoa_digits]] atoi_itoa [OF assms(2)]
    by (simp add: parseValue_def Let_def)
qed

lemma itoa_free: "\<not> is_digit c \<Longrightarrow> c \<notin> set (itoa n)"
  by (rule digit_not [OF itoa_digits])

lemma itoa_not_star: "itoa n \<noteq> ''*'' \<and> itoa a @ s \<noteq> ''*''"
proof -
  have "CHR ''*'' \<notin> set (itoa k)" for k by (rule itoa_free) (simp add: is_digit_def)
  then have "hd (itoa k) \<noteq> CHR ''*''" for k by (metis hd_in_set itoa_nonempty)
  then show ?thesis by (metis hd_append2 itoa_nonempty list.sel(1))
qed

lemma not_digits: "\<not> is_digit (CHR ''*'')" "\<not> is_digit (CHR ''-'')" "\<not> is_digit (CHR ''/'')" "\<not> is_digit (CHR '','')"
  by (simp_all add: is_digit_def)

lemma show_range_text:
  "graphic (show_range r)" "CHR ''/'' \<notin> set (show_range r)" "CHR '','' \<notin> set (show_range r)" "show_range r \<noteq> []"
  using digit_graphic [OF itoa_digits] itoa_free not_digits itoa_nonempty
  by (cases r; simp)+

lemma show_part_text: "graphic (show_part p)" "CHR '','' \<notin> set (show_part p)" "show_part p \<noteq> []"
  using digit_graphic [OF itoa_digits] itoa_free not_digits show_range_text
  by (auto simp: show_part_def split: option.splits)

lemma part_step_show:
  "1 \<le> part_stride p \<Longrightarrow> part_stride p < 2 ^ 62 \<Longrightarrow> part_step (show_part p) = Inr (show_range (fst p), part_stride p)"
  using show_range_text(2) [of "fst p"]
  by (auto simp: part_step_def show_part_def part_stride_def cut_at_none cut_at_append atoi_itoa
      split: option.splits)

lemma part_bounds_show:
  assumes "numbers_unnamed names" "max1 < 2 ^ 62" "0 \<le> min1"
    and "range_bounds min1 max1 r = (lo, hi)" "lo \<le> hi" "hi \<le> max1"
  shows "part_bounds (show_range r) min1 max1 names = Inr (lo, hi)"
  using assms
  by (cases r) (auto simp: part_bounds_def itoa_not_star cut_at_none cut_at_append itoa_free not_digits
      parseValue_itoa)

text \<open>The set a field is parsed to.\<close>

definition part_values :: "int \<Rightarrow> int \<Rightarrow> cron_part \<Rightarrow> int list" where
  "part_values min1 max1 p = (case range_bounds min1 max1 (fst p) of (lo, hi) \<Rightarrow> stepped lo hi (part_stride p))"

definition field_of :: "int \<Rightarrow> int \<Rightarrow> cron_part list \<Rightarrow> fieldSet" where
  "field_of min1 max1 ps = \<lparr>fs_values = concat (map (part_values min1 max1) ps), fs_star = has_star ps\<rparr>"

lemma set_part_values:
  assumes "max1 < 2 ^ 61" "0 \<le> min1" "wf_part min1 max1 p"
  shows "set (part_values min1 max1 p) = {v. denotes min1 max1 p v} \<and> part_values min1 max1 p \<noteq> []"
proof -
  obtain lo hi where b: "range_bounds min1 max1 (fst p) = (lo, hi)" by fastforce
  then have vs: "set (part_values min1 max1 p) = {v. denotes min1 max1 p v}"
    using set_stepped [of lo hi "part_stride p"] assms by (auto simp: wf_part_def denotes_def part_values_def)
  moreover have "lo \<in> set (part_values min1 max1 p)"
    using assms(3) b by (simp add: vs denotes_def wf_part_def)
  ultimately show ?thesis by auto
qed

lemma has_field_of:
  assumes "max1 < 2 ^ 61" "0 \<le> min1" "wf_field min1 max1 ps"
  shows "has (field_of min1 max1 ps) = field_denotes min1 max1 ps" "fs_values (field_of min1 max1 ps) \<noteq> []"
proof -
  show "has (field_of min1 max1 ps) = field_denotes min1 max1 ps"
    using set_part_values [OF assms(1,2)] assms(3)
    by (auto simp: field_of_def has_def field_denotes_def wf_field_def list_all_iff list_ex_iff fun_eq_iff)
  have "hd ps \<in> set ps" "wf_part min1 max1 (hd ps)"
    using assms(3) by (auto simp: wf_field_def list_all_iff)
  then show "fs_values (field_of min1 max1 ps) \<noteq> []"
    using set_part_values [OF assms(1,2), of "hd ps"] by (auto simp: field_of_def)
qed

lemma parse_part_show:
  assumes "numbers_unnamed names" "max1 < 2 ^ 61" "0 \<le> min1" "wf_part min1 max1 p"
  shows "parse_part field min1 max1 names out (show_part p) =
      Inr \<lparr>fs_values = fs_values out @ part_values min1 max1 p, fs_star = (fs_star out \<or> fst p = Any)\<rparr>"
proof -
  obtain lo hi where b: "range_bounds min1 max1 (fst p) = (lo, hi)" by fastforce
  have wf: "min1 \<le> lo" "lo \<le> hi" "hi \<le> max1" "1 \<le> part_stride p" "part_stride p < 2 ^ 62"
    using assms(4) b by (simp_all add: wf_part_def)
  have star: "show_range (fst p) = ''*'' \<longleftrightarrow> fst p = Any"
    using itoa_not_star by (cases "fst p") auto
  have "part_bounds (show_range (fst p)) min1 max1 names = Inr (lo, hi)"
    using assms(2) wf b by (intro part_bounds_show assms(1,3)) auto
  then show ?thesis
    using wf b show_part_text [of p] part_step_show [of p]
    by (simp add: parse_part_def trim_space_graphic Let_def star part_values_def)
qed

lemma parse_parts_show:
  assumes "numbers_unnamed names" "max1 < 2 ^ 61" "0 \<le> min1" "list_all (wf_part min1 max1) ps"
  shows "parse_parts field min1 max1 names out (map show_part ps) =
      Inr \<lparr>fs_values = fs_values out @ concat (map (part_values min1 max1) ps),
           fs_star = (fs_star out \<or> has_star ps)\<rparr>"
  using assms(4)
proof (induction ps arbitrary: out)
  case (Cons p ps)
  then show ?case
    using parse_part_show [OF assms(1-3), of p field out] by (simp add: has_star_def disj_assoc)
qed (simp add: has_star_def)

lemma parseField_show:
  assumes "numbers_unnamed names" "max1 < 2 ^ 61" "0 \<le> min1" "wf_field min1 max1 ps"
  shows "parseField (show_field ps) min1 max1 names = Inr (field_of min1 max1 ps)"
proof -
  have "split_on (CHR '','') (show_field ps) = map show_part ps"
    unfolding show_field_def using assms(4) show_part_text(2)
    by (intro split_on_join) (auto simp: wf_field_def)
  then show ?thesis
    using parse_parts_show [OF assms(1-3), of ps "show_field ps" "\<lparr>fs_values = [], fs_star = False\<rparr>"]
      has_field_of(2) [OF assms(2-4)] assms(4)
    by (simp add: parseField_def wf_field_def field_of_def)
qed

lemma join_text: "ws \<noteq> [] \<Longrightarrow> \<forall>w \<in> set ws. graphic w \<and> w \<noteq> [] \<Longrightarrow> graphic sep \<Longrightarrow>
    graphic (join sep ws) \<and> join sep ws \<noteq> []"
  by (induction sep ws rule: join.induct) auto

lemma show_field_text: "wf_field min1 max1 ps \<Longrightarrow> graphic (show_field ps) \<and> show_field ps \<noteq> []"
  unfolding show_field_def wf_field_def using show_part_text by (intro join_text) auto

section \<open>Expressions\<close>

text \<open>The five fields, each a list of parts, and their line of text.\<close>

record cron_line =
  cl_Minutes :: "cron_part list"
  cl_Hours :: "cron_part list"
  cl_Days :: "cron_part list"
  cl_Months :: "cron_part list"
  cl_Weekdays :: "cron_part list"

definition wf_line :: "cron_line \<Rightarrow> bool" where
  "wf_line l \<longleftrightarrow> wf_field 0 59 (cl_Minutes l) \<and> wf_field 0 23 (cl_Hours l) \<and> wf_field 1 31 (cl_Days l)
     \<and> wf_field 1 12 (cl_Months l) \<and> wf_field 0 7 (cl_Weekdays l)"

definition show_line :: "cron_line \<Rightarrow> string" where
  "show_line l = join '' '' (map show_field [cl_Minutes l, cl_Hours l, cl_Days l, cl_Months l, cl_Weekdays l])"

definition spec_of :: "cron_line \<Rightarrow> Spec" where
  "spec_of l = \<lparr>sp_Minutes = field_of 0 59 (cl_Minutes l), sp_Hours = field_of 0 23 (cl_Hours l),
     sp_Days = field_of 1 31 (cl_Days l), sp_Months = field_of 1 12 (cl_Months l),
     sp_Weekdays = sunday_both (field_of 0 7 (cl_Weekdays l)), sp_raw = show_line l\<rparr>"

lemma Parse_show_line:
  assumes "wf_line l"
  shows "Parse (show_line l) = Inr (spec_of l)"
proof -
  have wf: "wf_field 0 59 (cl_Minutes l)" "wf_field 0 23 (cl_Hours l)" "wf_field 1 31 (cl_Days l)"
    "wf_field 1 12 (cl_Months l)" "wf_field 0 7 (cl_Weekdays l)"
    using assms by (simp_all add: wf_line_def)
  have names: "numbers_unnamed []" "numbers_unnamed monthNames" "numbers_unnamed dayNames"
    by (simp_all add: numbers_unnamed_def monthNames_def dayNames_def is_digit_def)
  have ends: "graphic (show_field (cl_Minutes l)) \<and> show_field (cl_Minutes l) \<noteq> []"
    "graphic (show_field (cl_Weekdays l)) \<and> show_field (cl_Weekdays l) \<noteq> []"
    using show_field_text wf by auto
  have "hd (show_line l) = hd (show_field (cl_Minutes l))" "show_line l \<noteq> []"
    "last (show_line l) = last (show_field (cl_Weekdays l))"
    using ends by (simp_all add: show_line_def)
  then have "trim_space (show_line l) = show_line l"
    using graphic_ends [of "show_field (cl_Minutes l)"] graphic_ends [of "show_field (cl_Weekdays l)"] ends
    by (intro trim_space_ends) auto
  moreover have "Go_Text.fields (show_line l) =
      map show_field [cl_Minutes l, cl_Hours l, cl_Days l, cl_Months l, cl_Weekdays l]"
    unfolding show_line_def using show_field_text wf by (intro fields_join) auto
  ultimately show ?thesis
    using parseField_show [OF names(1) _ _ wf(1)] parseField_show [OF names(1) _ _ wf(2)]
      parseField_show [OF names(1) _ _ wf(3)] parseField_show [OF names(2) _ _ wf(4)]
      parseField_show [OF names(3) _ _ wf(5)]
    by (simp add: Parse_def in_field_def spec_of_def)
qed

text \<open>
  C15. An expression written out from its parts is accepted, and its schedule has in each field exactly
  the values the parts denote, with Sunday both 0 and 7; it remembers the line.
\<close>

theorem parse_reads_what_was_written:
  assumes "wf_line l"
  shows "case Parse (show_line l) of
      Inl e \<Rightarrow> False
    | Inr s \<Rightarrow> Spec_String s = show_line l
        \<and> has (sp_Minutes s) = field_denotes 0 59 (cl_Minutes l)
        \<and> has (sp_Hours s) = field_denotes 0 23 (cl_Hours l)
        \<and> has (sp_Days s) = field_denotes 1 31 (cl_Days l)
        \<and> has (sp_Months s) = field_denotes 1 12 (cl_Months l)
        \<and> has (sp_Weekdays s) = (\<lambda>v. field_denotes 0 7 (cl_Weekdays l) v
             \<or> v = 0 \<and> field_denotes 0 7 (cl_Weekdays l) 7)
        \<and> fs_star (sp_Days s) = has_star (cl_Days l) \<and> fs_star (sp_Weekdays s) = has_star (cl_Weekdays l)"
proof -
  have "has (sunday_both f) = (\<lambda>v. has f v \<or> v = 0 \<and> has f 7)" "fs_star (sunday_both f) = fs_star f" for f
    by (auto simp: sunday_both_def has_def fun_eq_iff)
  then show ?thesis
    using assms has_field_of(1) [of 59 0] has_field_of(1) [of 23 0] has_field_of(1) [of 31 1]
      has_field_of(1) [of 12 1] has_field_of(1) [of 7 0]
    by (simp add: Parse_show_line wf_line_def spec_of_def Spec_String_def) (simp add: field_of_def)
qed

end
