(* ===== verification/Cron_Zones.thy ===== *)
theory Cron_Zones
  imports Cron_Properties
begin

text \<open>
  Slots in zones whose offset changes. The zones are ordinary ones: whole-minute offsets of less than
  a day, transitions at least four days apart and by less than 23 hours. A slot that exists runs at
  its wall clock, the first time that clock shows it; a slot in the gap of a spring-forward day runs
  as long after midnight as its wall clock says.
\<close>

section \<open>Ordinary zones\<close>

definition ordinary_zone :: "Location \<Rightarrow> bool" where
  "ordinary_zone loc \<longleftrightarrow>
     (let offsets = lc_First loc # map snd (lc_Trans loc) in
       list_all (\<lambda>z. \<bar>z\<bar> < 86400 \<and> z mod 60 = 0) offsets
       \<and> sorted_wrt (\<lambda>a b. fst a + 345600 \<le> fst b) (lc_Trans loc)
       \<and> list_all (\<lambda>(a, b). \<bar>a - b\<bar> < 82800) (zip offsets (map snd (lc_Trans loc))))"

text \<open>Any four days see at most one transition, from \<open>a\<close> to \<open>b\<close>.\<close>

definition one_change :: "(int \<Rightarrow> int) \<Rightarrow> int \<Rightarrow> int \<Rightarrow> int \<Rightarrow> int \<Rightarrow> int \<Rightarrow> bool" where
  "one_change off lo hi at a b \<longleftrightarrow> (\<forall>u. lo \<le> u \<and> u \<le> hi \<longrightarrow> off u = (if u < at then a else b))
     \<and> \<bar>a\<bar> < 86400 \<and> \<bar>b\<bar> < 86400 \<and> a mod 60 = 0 \<and> b mod 60 = 0 \<and> \<bar>a - b\<bar> < 82800"

lemma zone_from_one_change:
  assumes "list_all (\<lambda>z. \<bar>z\<bar> < 86400 \<and> z mod 60 = 0) (z0 # map snd zs)"
    and "sorted_wrt (\<lambda>a b. fst a + 345600 \<le> fst b) zs"
    and "list_all (\<lambda>(a, b). \<bar>a - b\<bar> < 82800) (zip (z0 # map snd zs) (map snd zs))"
    and "hi < lo + 345600"
  shows "\<exists>at a b. one_change (\<lambda>u. fst (zone_from z0 s zs u)) lo hi at a b"
  using assms
proof (induction zs arbitrary: z0 s)
  case Nil
  then have "one_change (\<lambda>u. fst (zone_from z0 s [] u)) lo hi 0 z0 z0"
    by (simp add: one_change_def)
  then show ?case by blast
next
  case (Cons z zs)
  obtain at next1 where z: "z = (at, next1)" by fastforce
  consider "hi < at" | "at \<le> lo" | "lo < at" "at \<le> hi" by linarith
  then show ?case
  proof cases
    case 1
    then have "one_change (\<lambda>u. fst (zone_from z0 s (z # zs) u)) lo hi at z0 next1"
      using Cons.prems by (auto simp: one_change_def z)
    then show ?thesis by blast
  next
    case 2
    obtain t a b where "one_change (\<lambda>u. fst (zone_from next1 (Some at) zs u)) lo hi t a b"
      using Cons.IH [of next1 "Some at"] Cons.prems by (auto simp: z)
    with 2 have "one_change (\<lambda>u. fst (zone_from z0 s (z # zs) u)) lo hi t a b"
      by (auto simp: one_change_def z)
    then show ?thesis by blast
  next
    case 3
    have "fst (zone_from next1 (Some at) zs u) = next1" if "u \<le> hi" for u
      using that 3 Cons.prems(2,4) by (cases zs) (auto simp: z)
    then have "one_change (\<lambda>u. fst (zone_from z0 s (z # zs) u)) lo hi at z0 next1"
      using Cons.prems 3 by (auto simp: one_change_def z)
    then show ?thesis by blast
  qed
qed

lemma one_change_near:
  assumes "ordinary_zone loc" "hi < lo + 345600"
  obtains at a b where "one_change (offset_at loc) lo hi at a b"
  using zone_from_one_change [of "lc_First loc" "lc_Trans loc" hi lo None] assms
  unfolding ordinary_zone_def offset_at_def Location_lookup_def Let_def by blast

text \<open>Within the stretch that a lookup reports, the offset is the one it reports.\<close>

lemma zone_from_start:
  "zone_from z0 (Some a) zs u = (z, start, fin) \<Longrightarrow> \<forall>t \<in> set zs. a \<le> fst t
   \<Longrightarrow> sorted_wrt (\<lambda>a b. fst a + 345600 \<le> fst b) zs \<Longrightarrow> \<exists>b. start = Some b \<and> a \<le> b"
proof (induction zs arbitrary: z0 a)
  case (Cons t zs)
  obtain at next1 where t: "t = (at, next1)" by fastforce
  show ?case
  proof (cases "u < at")
    case False
    then have "\<exists>b. start = Some b \<and> at \<le> b"
      using Cons.IH [of next1 at] Cons.prems by (force simp: t)
    then show ?thesis using Cons.prems(2) t by force
  qed (use Cons.prems t in auto)
qed auto

lemma zone_from_stretch:
  assumes "zone_from z0 s zs u = (z, start, fin)" "sorted_wrt (\<lambda>a b. fst a + 345600 \<le> fst b) zs"
    and "in_stretch start fin v"
  shows "fst (zone_from z0 s zs v) = z"
  using assms
proof (induction zs arbitrary: z0 s)
  case (Cons t zs)
  obtain at next1 where t: "t = (at, next1)" by fastforce
  show ?case
  proof (cases "u < at")
    case True
    with Cons.prems show ?thesis by (auto simp: t in_stretch_def)
  next
    case False
    then have "\<exists>b. start = Some b \<and> at \<le> b"
      using zone_from_start [of next1 at zs u z start fin] Cons.prems(1,2) by (force simp: t)
    then have "at \<le> v" using Cons.prems(3) by (auto simp: in_stretch_def)
    with False Cons show ?thesis by (auto simp: t)
  qed
qed simp

text \<open>\<^verbatim>\<open>time.Date\<close> applies the offset of the wall clock read as UTC, or the one in force where that leads.\<close>

lemma zone_shift_cases:
  assumes "ordinary_zone loc"
  shows "zone_shift loc x = offset_at loc x \<and> offset_at loc (x - offset_at loc x) = offset_at loc x
    \<or> zone_shift loc x = offset_at loc (x - offset_at loc x)"
proof -
  obtain z start fin where l: "Location_lookup loc x = (z, start, fin)" by (cases "Location_lookup loc x")
  then have z: "offset_at loc x = z" by (simp add: offset_at_def)
  have "in_stretch start fin v \<Longrightarrow> offset_at loc v = z" for v
    using zone_from_stretch [of "lc_First loc" None "lc_Trans loc" x z start fin v] l assms
    by (auto simp: offset_at_def Location_lookup_def ordinary_zone_def Let_def)
  then show ?thesis by (auto simp: zone_shift_def l z)
qed

text \<open>A wall clock that is shown is found.\<close>

lemma zone_shift_found:
  assumes "ordinary_zone loc" and "t + offset_at loc t = x"
  shows "offset_at loc (x - zone_shift loc x) = zone_shift loc x"
proof -
  obtain at a b where c: "one_change (offset_at loc) (x - 172000) (x + 172000) at a b"
    by (rule one_change_near [OF assms(1), of "x + 172000" "x - 172000"]) simp
  define z where "z = offset_at loc x"
  have off: "offset_at loc u = (if u < at then a else b)" if "x - 172000 \<le> u" "u \<le> x + 172000" for u
    using c that by (simp add: one_change_def)
  have ab: "\<bar>a\<bar> < 86400" "\<bar>b\<bar> < 86400" using c by (simp_all add: one_change_def)
  obtain at' a' b' where c': "one_change (offset_at loc) t t at' a' b'"
    by (rule one_change_near [OF assms(1), of t t]) simp
  then have t: "\<bar>offset_at loc t\<bar> < 86400" by (auto simp: one_change_def split: if_splits)
  have z: "z = (if x < at then a else b)" using off [of x] by (simp add: z_def)
  have u: "offset_at loc (x - z) = (if x - z < at then a else b)"
    using ab z by (intro off) (auto split: if_splits)
  have t': "t = x - offset_at loc t" using assms(2) by simp
  then have "offset_at loc t = (if t < at then a else b)"
    using t by (intro off) auto
  with t' z u zone_shift_cases [OF assms(1), of x] show ?thesis
    unfolding z_def [symmetric]
    by (auto split: if_splits)
qed

section \<open>Slots that exist\<close>

lemma wall_of_seconds: "wall loc (u * second_ns) = u + offset_at loc u"
  by (simp add: wall_def)



text \<open>Two wall clocks with the same hour and minute, on whole minutes and within a day, are equal.\<close>

lemma same_clock:
  fixes x y :: int
  assumes "x mod 60 = 0" "y mod 60 = 0"
    and "y mod 86400 div 3600 = x mod 86400 div 3600" "y mod 3600 div 60 = x mod 3600 div 60"
    and "\<bar>y - x\<bar> < 86400"
  shows "y = x"
proof -
  have "z = z div 86400 * 86400 + z mod 86400 div 3600 * 3600 + z mod 3600 div 60 * 60 + z mod 60" for z :: int
    using wall_seconds_of [of z] by (simp only: wall_seconds_def day_number_civil_of)
  from this [of x] this [of y] have d: "y - x = (y div 86400 - x div 86400) * 86400"
    unfolding assms(1-4) left_diff_distrib by linarith
  with assms(5) have "\<bar>y div 86400 - x div 86400\<bar> < 1" by (simp add: abs_mult)
  with d show ?thesis by simp
qed

lemma off_clock:
  assumes "h \<in> {0..23}" "m \<in> {0..59}" and "0 < d" "d < 86400" "d mod 60 = 0"
    and "wall loc t = wall_seconds c h m 0 + d \<or> wall loc t = wall_seconds c h m 0 - d"
  shows "wall_hour loc t \<noteq> h \<or> wall_minute loc t \<noteq> m"
proof (rule ccontr)
  let ?x = "wall_seconds c h m 0"
  assume "\<not> ?thesis"
  then have c: "wall_hour loc t = h" "wall_minute loc t = m" by simp_all
  have "0 \<le> h" "h < 24" "0 \<le> m" "m < 60" using assms(1,2) by simp_all
  note p = wall_seconds_parts [OF this]
  have clock: "wall loc t mod 86400 div 3600 = ?x mod 86400 div 3600"
    "wall loc t mod 3600 div 60 = ?x mod 3600 div 60"
    by (simp_all only: p c [unfolded wall_hour_def wall_minute_def])
  have x: "60 dvd ?x" using wall_seconds_parts(4) [of h m c] assms(1,2) by (simp add: dvd_eq_mod_eq_0)
  have "60 dvd d" using assms(5) by (simp add: dvd_eq_mod_eq_0)
  with x assms(6) have "60 dvd wall loc t" by auto
  with x have "?x mod 60 = 0" "wall loc t mod 60 = 0" by (simp_all only: dvd_eq_mod_eq_0)
  moreover have "\<bar>wall loc t - ?x\<bar> < 86400" using assms(3,4,6) by auto
  ultimately have "wall loc t = ?x" by (rule same_clock [OF _ _ clock])
  then show False using assms(3,6) by auto
qed



section \<open>Slots in a gap\<close>

text \<open>
  A wall clock that no instant shows lies in the gap of a transition. If the day's midnight exists,
  the slot runs as long after midnight as its wall clock says, when the clock is already past it.
\<close>

theorem slot_in_a_gap_runs_after_the_gap:
  assumes "ordinary_zone loc" "valid_date c" "h \<in> {0..23}" "m \<in> {0..59}"
    and "\<nexists>t. wall loc t = wall_seconds c h m 0" and "wall loc midnight = wall_seconds c 0 0 0"
    and "midnight mod second_ns = 0"
  shows "resolveSlot c h m loc = midnight + (h * 60 + m) * minute_ns
     \<and> wall_seconds c h m 0 < wall loc (resolveSlot c h m loc)"
proof -
  let ?x = "wall_seconds c h m 0" and ?m = "wall_seconds c 0 0 0"
  define k where "k = ?x - ?m"
  have k: "k = h * 3600 + m * 60" "0 \<le> k" "k < 86400"
    using assms(3,4) by (simp_all add: k_def wall_seconds_def)
  obtain at a b where c: "one_change (offset_at loc) (?m - 86400) (?m + 258000) at a b"
    by (rule one_change_near [OF assms(1), of "?m + 258000" "?m - 86400"]) simp
  then have off: "offset_at loc v = (if v < at then a else b)" if "?m - 86400 \<le> v" "v \<le> ?m + 258000" for v
    using that by (simp add: one_change_def)
  have ab: "\<bar>a\<bar> < 86400" "\<bar>b\<bar> < 86400" using c by (simp_all add: one_change_def)
  have none: "u + offset_at loc u \<noteq> ?x" for u
    using assms(5) wall_of_seconds [of loc u] by metis
  have gap: "at \<le> ?x - a" "?x - b < at"
    using none [of "?x - a"] none [of "?x - b"] off [of "?x - a"] off [of "?x - b"] ab k
    by (auto simp: k_def split: if_splits)
  define d where "d = midnight div second_ns"
  have midnight: "midnight = d * second_ns" "d + offset_at loc d = ?m"
    using assms(6,7) div_mult_mod_eq [of midnight second_ns] by (simp_all add: d_def wall_def)
  have shift: "zone_shift loc x = a \<or> zone_shift loc x = b" if "?m \<le> x" "x < ?m + 86400" for x
    using zone_shift_cases [OF assms(1), of x] off [of x] off [of "x - offset_at loc x"] ab that
    by (auto split: if_splits)
  have "offset_at loc (?m - zone_shift loc ?m) = zone_shift loc ?m"
    using zone_shift_found [OF assms(1) midnight(2)] .
  then have start: "?m - zone_shift loc ?m = ?m - a"
    using shift [of ?m] off [of "?m - b"] gap ab k by (auto simp: k_def split: if_splits)
  obtain at' a' b' where c': "one_change (offset_at loc) d d at' a' b'"
    by (rule one_change_near [OF assms(1), of d d]) simp
  then have "\<bar>offset_at loc d\<bar> < 86400" by (auto simp: one_change_def split: if_splits)
  then have "offset_at loc d = (if d < at then a else b)"
    using midnight(2) by (intro off) linarith+
  then have "d = ?m - a"
    using midnight(2) gap k by (auto simp: k_def split: if_splits)
  then have dayStart: "time_Date loc c 0 0 0 0 = midnight"
    using start midnight(1) by (simp add: time_Date_def Let_def)
  define u where "u = ?x - zone_shift loc ?x"
  have u: "time_Date loc c h m 0 0 = u * second_ns" "u = ?x - a \<or> u = ?x - b"
    using shift [of ?x] k by (auto simp: time_Date_def Let_def u_def k_def)
  have "wall loc (u * second_ns) = ?x + (b - a) \<or> wall loc (u * second_ns) = ?x - (b - a)"
  proof -
    have "offset_at loc u = (if u < at then a else b)"
      using u(2) ab k by (intro off) (auto simp: k_def)
    then show ?thesis using u(2) gap by (auto simp: wall_of_seconds)
  qed
  moreover have "0 < b - a" "b - a < 82800" "(b - a) mod 60 = 0"
    using c gap by (auto simp: one_change_def mod_diff_eq [of b 60 a, symmetric])
  ultimately have "wall_hour loc (u * second_ns) \<noteq> h \<or> wall_minute loc (u * second_ns) \<noteq> m"
    using off_clock [OF assms(3,4), of "b - a" loc "u * second_ns" c] by simp
  moreover have "midnight + (h * 60 + m) * minute_ns = (?x - a) * second_ns"
    using midnight(1) \<open>d = ?m - a\<close> k(1) by (simp add: k_def algebra_simps)
  moreover have "u * second_ns \<le> (?x - a) * second_ns"
    using u(2) gap by auto
  ultimately have r: "resolveSlot c h m loc = (?x - a) * second_ns"
    unfolding resolveSlot_def u(1) dayStart Let_def by auto
  have "wall loc ((?x - a) * second_ns) = ?x - a + b"
    unfolding wall_of_seconds using gap(1) off [of "?x - a"] ab k by (simp add: k_def)
  with r show ?thesis
    using gap \<open>midnight + _ = _\<close> by simp
qed

end
