(* ===== verification/Cron_Examples.thy ===== *)
theory Cron_Examples
  imports Cron_Text Cron_Zones
begin

text \<open>
  Concrete schedules: the instances at which the theorems on schedules are applied, and the schedules
  that the code does not run the way its comments say.
\<close>

definition utc_time :: "int \<Rightarrow> int \<Rightarrow> int \<Rightarrow> int \<Rightarrow> int \<Rightarrow> instant" where
  "utc_time y mo d h mi = time_Date UTC (Civil y mo d) h mi 0 0"

abbreviation only :: "nat \<Rightarrow> cron_part list" where "only n \<equiv> [(Only n, None)]"
abbreviation every :: "cron_part list" where "every \<equiv> [(Any, None)]"

text \<open>Daily at a time of day, and on every other day of the month.\<close>

definition daily :: "nat \<Rightarrow> nat \<Rightarrow> cron_line" where
  "daily h mi = \<lparr>cl_Minutes = only mi, cl_Hours = only h, cl_Days = every, cl_Months = every, cl_Weekdays = every\<rparr>"

definition other_days :: cron_line where
  "other_days = (daily 0 0)\<lparr>cl_Days := [(Any, Some 2)]\<rparr>"

lemma show_other_days: "show_line other_days = ''0 0 */2 * *''"
  by (simp add: show_line_def other_days_def daily_def show_field_def show_part_def itoa.simps
      char_of_def bit_iff_odd)

lemma wf_other_days: "wf_line other_days"
  by (simp add: wf_line_def other_days_def daily_def wf_field_def wf_part_def part_stride_def)

lemma wf_daily: "h < 24 \<Longrightarrow> mi < 60 \<Longrightarrow> wf_line (daily h mi)"
  by (simp add: wf_line_def daily_def wf_field_def wf_part_def part_stride_def)

theorem parse_reads_what_was_written_witness:
  "case Parse ''0 0 */2 * *'' of
     Inl e \<Rightarrow> False
   | Inr s \<Rightarrow> has (sp_Days s) 3 \<and> \<not> has (sp_Days s) 2 \<and> fs_star (sp_Days s)"
  using parse_reads_what_was_written [OF wf_other_days] unfolding show_other_days
  by (auto simp: other_days_def daily_def field_denotes_def denotes_def part_stride_def has_star_def
      split: sum.splits)

definition half_past_two :: Spec where
  "half_past_two = spec_of (daily 2 30)"

lemma half_past_two_next: "Next half_past_two (utc_time 2026 1 1 12 0) None = Inr (utc_time 2026 1 2 2 30)"
  by code_simp




lemma half_past_two_catch_up:
  obtains occs where "CatchUp half_past_two (utc_time 2026 1 1 12 0) (utc_time 2026 1 4 0 0) None = Inr occs"
    and "map oc_ScheduledFor occs = [utc_time 2026 1 2 2 30, utc_time 2026 1 3 2 30]"
proof -
  have next1: "Next half_past_two (utc_time 2026 1 2 2 30) None = Inr (utc_time 2026 1 3 2 30)"
    "Next half_past_two (utc_time 2026 1 3 2 30) None = Inr (utc_time 2026 1 4 2 30)"
    by code_simp+
  have less: "utc_time 2026 1 2 2 30 < utc_time 2026 1 4 0 0" "utc_time 2026 1 3 2 30 < utc_time 2026 1 4 0 0"
    "utc_time 2026 1 4 0 0 < utc_time 2026 1 4 2 30"
    by code_simp+
  have n: "maxMissedTracked + 1 = Suc (Suc (Suc 498))" by (simp add: maxMissedTracked_def)
  have "missed_runs half_past_two (utc_time 2026 1 4 0 0) None (Suc (Suc (Suc k))) (utc_time 2026 1 1 12 0)
      = Inr [utc_time 2026 1 2 2 30, utc_time 2026 1 3 2 30]" for k
    using less by (simp add: half_past_two_next next1)
  from this [of 498, folded n] have "missed_runs half_past_two (utc_time 2026 1 4 0 0) None (maxMissedTracked + 1)
      (utc_time 2026 1 1 12 0) = Inr [utc_time 2026 1 2 2 30, utc_time 2026 1 3 2 30]" .
  then have "CatchUp half_past_two (utc_time 2026 1 1 12 0) (utc_time 2026 1 4 0 0) None = Inr
      [\<lparr>oc_ScheduledFor = utc_time 2026 1 2 2 30, oc_Skipped = True,
        oc_Reason = skip_reason (or_UTC None) (utc_time 2026 1 3 2 30)\<rparr>,
       \<lparr>oc_ScheduledFor = utc_time 2026 1 3 2 30, oc_Skipped = False, oc_Reason = []\<rparr>]"
    by (simp add: CatchUp_def del: missed_runs.simps)
  then show thesis by (rule that) simp
qed

theorem catch_up_fires_only_the_last_witness:
  "case CatchUp half_past_two (utc_time 2026 1 1 12 0) (utc_time 2026 1 4 0 0) None of
     Inl e \<Rightarrow> False
   | Inr occs \<Rightarrow> map oc_Skipped occs = [True, False]"
proof (rule half_past_two_catch_up)
  fix occs
  assume occs: "CatchUp half_past_two (utc_time 2026 1 1 12 0) (utc_time 2026 1 4 0 0) None = Inr occs"
    "map oc_ScheduledFor occs = [utc_time 2026 1 2 2 30, utc_time 2026 1 3 2 30]"
  then obtain a b where "occs = [a, b]" by (auto simp: map_eq_Cons_conv)
  then show ?thesis using catch_up_fires_only_the_last [OF occs(1)] occs(1) by simp
qed

theorem catch_up_reports_every_missed_run_witness:
  "{t. utc_time 2026 1 1 12 0 < t \<and> t \<le> utc_time 2026 1 4 0 0 \<and> cron_matches half_past_two UTC t} =
     {utc_time 2026 1 2 2 30, utc_time 2026 1 3 2 30}"
proof (rule half_past_two_catch_up)
  fix occs
  assume occs: "CatchUp half_past_two (utc_time 2026 1 1 12 0) (utc_time 2026 1 4 0 0) None = Inr occs"
    "map oc_ScheduledFor occs = [utc_time 2026 1 2 2 30, utc_time 2026 1 3 2 30]"
  from occs(2) have "length occs = 2" by (metis length_map length_Cons list.size(3) numeral_2_eq_2)
  then have "length occs \<le> maxMissedTracked" by (simp add: maxMissedTracked_def)
  then show ?thesis
    using catch_up_reports_every_missed_run [OF _ occs(1)] arg_cong [OF occs(2), of set]
    by (simp add: or_UTC_def UTC_def)
qed

text \<open>Central European time in 2026, and Chilean time, whose spring-forward gap begins at midnight.\<close>

definition berlin :: Location where
  "berlin = \<lparr>lc_First = 3600, lc_Trans = [(1774746000, 7200), (1792890000, 3600)]\<rparr>"

definition santiago :: Location where
  "santiago = \<lparr>lc_First = - 14400, lc_Trans = [(1788667200, - 10800)]\<rparr>"

lemma ordinary_berlin: "ordinary_zone berlin"
  by (simp add: ordinary_zone_def berlin_def)


theorem slot_in_a_gap_runs_after_the_gap_witness:
  "resolveSlot (Civil 2026 3 29) 2 30 berlin = utc_time 2026 3 28 23 0 + 150 * minute_ns"
proof -
  have v: "valid_date (Civil 2026 3 29)" "utc_time 2026 3 28 23 0 mod second_ns = 0"
    "wall berlin (utc_time 2026 3 28 23 0) = wall_seconds (Civil 2026 3 29) 0 0 0"
    by code_simp+
  have "wall_seconds (Civil 2026 3 29) 2 30 0 = 1774751400" by code_simp
  then have "\<nexists>t. wall berlin t = wall_seconds (Civil 2026 3 29) 2 30 0"
    by (auto simp: wall_def offset_at_def Location_lookup_def berlin_def)
  then show ?thesis
    using slot_in_a_gap_runs_after_the_gap [OF ordinary_berlin v(1) _ _ _ v(3,2), of 2 30] by simp
qed

section \<open>Schedules that do not run as written\<close>

text \<open>
  Every other day of the month is written as a stepped star; the step is parsed, and then the star
  makes the day restriction void: the schedule runs on the second, too.
\<close>

theorem stepped_star_runs_every_day:
  "case Parse ''0 0 */2 * *'' of
     Inl e \<Rightarrow> False
   | Inr s \<Rightarrow> \<not> has (sp_Days s) 2 \<and> Next s (utc_time 2026 1 1 0 0) None = Inr (utc_time 2026 1 2 0 0)"
proof -
  have "\<not> has (sp_Days (spec_of other_days)) 2" by code_simp
  moreover have "Next (spec_of other_days) (utc_time 2026 1 1 0 0) None = Inr (utc_time 2026 1 2 0 0)"
    by code_simp
  ultimately show ?thesis
    using Parse_show_line [OF wf_other_days] by (simp add: show_other_days)
qed

text \<open>
  In a zone that springs forward at midnight, the day of the change is skipped altogether: a daily run
  at 03:00 is not made on 6 September 2026 in Chile, though the clock shows 03:00 that day.
\<close>

theorem midnight_gap_swallows_the_day:
  "Next (spec_of (daily 3 0)) (utc_time 2026 9 5 12 0) (Some santiago) = Inr (utc_time 2026 9 7 6 0)
   \<and> cron_matches (spec_of (daily 3 0)) santiago (utc_time 2026 9 6 6 0)"
  by code_simp

end
