(* ===== verification/Scheduler_Examples.thy ===== *)
theory Scheduler_Examples
  imports Scheduler_Dispatch Cron_Examples
begin

text \<open>A campaign over two projects, daily at 02:30 UTC, and what instances of the scheduler do with it.\<close>

definition demo_row :: campaign_row where
  "demo_row = \<lparr>cp_ID = ''0'', cp_TenantID = ''t1'', cp_Name = ''nightly'', cp_ProjectIDs = [''p1'', ''p2''],
     cp_CronExpr = show_line (daily 2 30), cp_Timezone = [], cp_BOMTypes = [''sbom''], cp_ReportLevels = [],
     cp_Standards = [], cp_Formats = [], cp_Enabled = True, cp_NextRunAt = Some (utc_time 2026 1 1 12 0),
     cp_LastRunAt = None, cp_CreatedBy = ''u1'', cp_CreatedAt = 0, cp_UpdatedAt = 0\<rparr>"

definition demo_db :: campaign_db where
  "demo_db = \<lparr>en_outbox = [], en_clock = 0, en_uuid = itoa, en_next = 1, en_outcomes = [],
     cd_campaigns = [demo_row], cd_runs = [], cd_posts = [],
     cd_answers = (\<lambda>p n. Inr \<lparr>ha_Status = 201, ha_Body = [], ha_ID = Some (''s'' @ itoa n)\<rparr>),
     cd_token = Inr ''token'', cd_lock = Inr True, cd_claims = []\<rparr>"

lemma demo_sound: "campaign_sound demo_db"
proof -
  have zero: "itoa 0 = ''0''" by code_simp
  have "inj itoa" by (rule injI) (rule itoa_inj)
  moreover have "''0'' \<in> itoa ` {..<1}" by (rule image_eqI [of _ _ 0]) (simp_all only: zero lessThan_iff zero_less_one)
  ultimately show ?thesis
    by (simp add: campaign_sound_def demo_db_def demo_row_def keyed_def del: itoa.simps)
qed

lemma demo_start: "cold_start demo_db"
  using demo_sound by (simp add: cold_start_def demo_db_def)

definition demo_run :: "campaign_db" where
  "demo_run = snd (run_state (execute (RunNow ''t1'' ''0'' 0)) demo_db)"

lemma demo_reached: "(campaign_step zones)\<^sup>*\<^sup>* (demo_db, []) (demo_run, [Done ()])"
  unfolding demo_run_def by (rule execute_run_now [OF surjective_pairing])

lemmas demo_simps = demo_db_def demo_row_def next_outcome_def after_io_def run_ReadTenant run_WithTenant
  find_campaign_def own_campaign_def not_found_or_def wrapped_def scheduled_def fresh_id_def drop_id_def
  ask_env_def send_post_def scan_answer_def scanRequest_def execute_then

lemma demo_run_tables:
  "length (cd_claims demo_run) = 1 \<and> map po_ProjectID (cd_posts demo_run) = [''p1'', ''p2'']"
  by (simp add: demo_run_def RunNow_def Campaign_Get_def ClaimRun_def Trigger_def startScan_def StartRun_def
      insert_campaign_run_def run_exists_def new_run_def update_run_def demo_simps Let_def del: itoa.simps)

theorem every_occurrence_is_dispatched_at_most_once_witness:
  "length (cd_claims demo_run) = 1 \<and> map po_ProjectID (cd_posts demo_run) = [''p1'', ''p2'']
    \<and> po_RunID ` set (cd_posts demo_run) \<subseteq> cm_RunID ` set (cd_claims demo_run)"
  using every_occurrence_is_dispatched_at_most_once [OF demo_start demo_reached] demo_run_tables by simp

lemma demo_run_rows:
  "map cp_ID (cd_campaigns demo_run) = [''0''] \<and> map (\<lambda>cl. ca_ID (cm_Campaign cl)) (cd_claims demo_run) = [''0'']"
  by (simp add: demo_run_def RunNow_def Campaign_Get_def ClaimRun_def Trigger_def startScan_def StartRun_def
      insert_campaign_run_def run_exists_def new_run_def update_run_def demo_simps Let_def del: itoa.simps)

theorem run_history_has_one_row_per_occurrence_witness:
  "\<exists>r \<in> set (cd_runs demo_run). rn_CampaignID r = ''0'' \<and> rn_ID r \<in> cm_RunID ` set (cd_claims demo_run)"
proof -
  obtain cl where cl: "cd_claims demo_run = [cl]" "ca_ID (cm_Campaign cl) = ''0''" "''0'' \<in> cp_ID ` set (cd_campaigns demo_run)"
    using demo_run_rows by (auto simp: map_eq_Cons_conv)
  then show ?thesis
    using run_history_has_one_row_per_occurrence [OF demo_start demo_reached] by auto
qed

section \<open>A dispatch after two nights\<close>






section \<open>A claim whose answer is lost\<close>

text \<open>
  Its run was inserted, but the instance that claimed it does not know; every later attempt finds the
  occurrence taken. The run stays pending, and nothing is ever scanned.
\<close>

theorem lost_acknowledgement_strands_the_run:
  "let w = snd (run_state (execute (RunNow ''t1'' ''0'' 0)) (demo_db\<lparr>en_outcomes := [Io_Ok, Io_AckLost]\<rparr>));
       w' = snd (run_state (execute (RunNow ''t1'' ''0'' 0)) w)
   in map rn_Status (cd_runs w') = [statusPending] \<and> cd_posts w' = []"
  by (simp add: RunNow_def Campaign_Get_def ClaimRun_def insert_campaign_run_def run_exists_def new_run_def
      demo_simps Let_def del: itoa.simps)

end
