(* ===== verification/Sha256.thy ===== *)
theory Sha256
  imports Go_Text "HOL-Library.Word"
begin

unbundle bit_operations_syntax

text \<open>
  The parts of Go's \<^verbatim>\<open>crypto/sha256\<close>, \<^verbatim>\<open>crypto/hmac\<close> and \<^verbatim>\<open>encoding/hex\<close> that signing uses: FIPS 180-4
  on 32-bit words that wrap, and RFC 2104. A Go string or byte slice is the list of its bytes.
\<close>

definition sha256_K :: "32 word list" where
  "sha256_K =
     [1116352408, 1899447441, 3049323471, 3921009573, 961987163, 1508970993, 2453635748, 2870763221,
      3624381080, 310598401, 607225278, 1426881987, 1925078388, 2162078206, 2614888103, 3248222580,
      3835390401, 4022224774, 264347078, 604807628, 770255983, 1249150122, 1555081692, 1996064986,
      2554220882, 2821834349, 2952996808, 3210313671, 3336571891, 3584528711, 113926993, 338241895,
      666307205, 773529912, 1294757372, 1396182291, 1695183700, 1986661051, 2177026350, 2456956037,
      2730485921, 2820302411, 3259730800, 3345764771, 3516065817, 3600352804, 4094571909, 275423344,
      430227734, 506948616, 659060556, 883997877, 958139571, 1322822218, 1537002063, 1747873779,
      1955562222, 2024104815, 2227730452, 2361852424, 2428436474, 2756734187, 3204031479, 3329325298]"

type_synonym sha_state = "32 word list"

definition sha256_init :: sha_state where
  "sha256_init = [1779033703, 3144134277, 1013904242, 2773480762, 1359893119, 2600822924, 528734635, 1541459225]"

definition rotr :: "nat \<Rightarrow> 32 word \<Rightarrow> 32 word" where
  "rotr n x = drop_bit n x OR push_bit (32 - n) x"

definition expand_step :: "32 word list \<Rightarrow> 32 word list" where
  "expand_step ws =
     (let n = length ws; v1 = ws ! (n - 2); v2 = ws ! (n - 15)
      in ws @ [(rotr 17 v1 XOR rotr 19 v1 XOR drop_bit 10 v1) + ws ! (n - 7)
             + (rotr 7 v2 XOR rotr 18 v2 XOR drop_bit 3 v2) + ws ! (n - 16)])"

fun sha256_round :: "sha_state \<Rightarrow> 32 word \<times> 32 word \<Rightarrow> sha_state" where
  "sha256_round [a, b, c, d, e, f, g, h] (k, w) =
     (let t1 = h + (rotr 6 e XOR rotr 11 e XOR rotr 25 e) + ((e AND f) XOR (NOT e AND g)) + k + w;
          t2 = (rotr 2 a XOR rotr 13 a XOR rotr 22 a) + ((a AND b) XOR (a AND c) XOR (b AND c))
      in [t1 + t2, a, b, c, d + t1, e, f, g])"
| "sha256_round s kw = s"

definition word_of_bytes :: "string \<Rightarrow> 32 word" where
  "word_of_bytes bs = foldl (\<lambda>w b. push_bit 8 w OR word_of_nat (byte b)) 0 bs"

fun chunks :: "nat \<Rightarrow> 'a list \<Rightarrow> 'a list list" where
  "chunks n xs = (if n = 0 \<or> xs = [] then [] else take n xs # chunks n (drop n xs))"

declare chunks.simps [simp del]

definition sha256_block :: "sha_state \<Rightarrow> string \<Rightarrow> sha_state" where
  "sha256_block s block =
     (let ws = (expand_step ^^ 48) (map word_of_bytes (chunks 4 block))
      in map2 (+) s (foldl sha256_round s (zip sha256_K ws)))"

definition be_bytes :: "nat \<Rightarrow> nat \<Rightarrow> string" where
  "be_bytes k n = map (\<lambda>i. char_of (n div 256 ^ (k - 1 - i))) [0..<k]"

definition sha256_pad :: "string \<Rightarrow> string" where
  "sha256_pad msg = msg @ bytes (128 # replicate ((119 - length msg mod 64) mod 64) 0)
     @ be_bytes 8 (8 * length msg mod 2 ^ 64)"

definition sha256 :: "string \<Rightarrow> string" where
  "sha256 msg = concat (map (\<lambda>w. be_bytes 4 (unat w)) (foldl sha256_block sha256_init (chunks 64 (sha256_pad msg))))"

definition xor_byte :: "nat \<Rightarrow> char \<Rightarrow> char" where
  "xor_byte m c = char_of (byte c XOR m)"

definition hmac_sha256 :: "string \<Rightarrow> string \<Rightarrow> string" where
  "hmac_sha256 key msg =
     (let k0 = (if 64 < length key then sha256 key else key);
          k = k0 @ replicate (64 - length k0) (char_of (0::nat))
      in sha256 (map (xor_byte 0x5c) k @ sha256 (map (xor_byte 0x36) k @ msg)))"

definition hex_digit :: "nat \<Rightarrow> char" where
  "hex_digit n = ''0123456789abcdef'' ! n"

definition hex_encode :: "string \<Rightarrow> string" where
  "hex_encode s = concat (map (\<lambda>c. [hex_digit (byte c div 16), hex_digit (byte c mod 16)]) s)"

section \<open>Shapes\<close>

lemma length_sha256_round [simp]: "length s = 8 \<Longrightarrow> length (sha256_round s kw) = 8"
  by (cases "(s, kw)" rule: sha256_round.cases) (auto simp: Let_def)

lemma length_rounds [simp]: "length s = 8 \<Longrightarrow> length (foldl sha256_round s kws) = 8"
  by (induction kws arbitrary: s) simp_all

lemma length_blocks: "length s = 8 \<Longrightarrow> length (foldl sha256_block s bs) = 8"
  by (induction bs arbitrary: s) (simp_all add: sha256_block_def Let_def)

lemma length_sha256: "length (sha256 msg) = 32"
proof -
  have "length (concat (map (\<lambda>w. be_bytes 4 (unat w)) ws)) = 4 * length ws" for ws :: "32 word list"
    by (induction ws) (simp_all add: be_bytes_def)
  then show ?thesis by (simp add: sha256_def length_blocks sha256_init_def)
qed

lemma length_hex_encode: "length (hex_encode s) = 2 * length s"
  by (induction s) (simp_all add: hex_encode_def)

lemma hex_digit_in: "n < 16 \<Longrightarrow> hex_digit n \<in> set ''0123456789abcdef''"
  unfolding hex_digit_def by (rule nth_mem) simp

lemma set_hex_encode: "set (hex_encode s) \<subseteq> set ''0123456789abcdef''"
proof
  fix x
  assume "x \<in> set (hex_encode s)"
  moreover have "set (hex_encode s) = (\<Union>c \<in> set s. {hex_digit (byte c div 16), hex_digit (byte c mod 16)})"
    by (induction s) (auto simp: hex_encode_def)
  ultimately obtain c where "x = hex_digit (byte c div 16) \<or> x = hex_digit (byte c mod 16)" by auto
  moreover have "hex_digit (byte c div 16) \<in> set ''0123456789abcdef''"
    by (rule hex_digit_in) (simp add: less_mult_imp_div_less)
  moreover have "hex_digit (byte c mod 16) \<in> set ''0123456789abcdef''"
    by (rule hex_digit_in) simp
  ultimately show "x \<in> set ''0123456789abcdef''" by (elim disjE) (simp_all only:)
qed

end
