(* ===== verification/Go_Json.thy ===== *)
theory Go_Json
  imports Go_Text Sha256
begin

text \<open>
  Strings as runes, the way \<^verbatim>\<open>range\<close> and \<^verbatim>\<open>strings.Map\<close> walk them, and the part of \<^verbatim>\<open>encoding/json\<close>
  that writes flat objects of strings and numbers.
\<close>

section \<open>Runes\<close>

text \<open>The length of the UTF-8 sequence a string starts with, 0 when it starts with none.\<close>

fun rune_length :: "string \<Rightarrow> nat" where
  "rune_length [] = 0"
| "rune_length (c # cs) =
     (case utf8_lead (byte c) of
        None \<Rightarrow> 0
      | Some (n, lo, hi) \<Rightarrow> if utf8_char c (take n cs) then Suc n else 0)"

definition replacement_char :: string where
  "replacement_char = bytes [239, 191, 189]"

text \<open>
  The runes of a string, each with the bytes it takes; a byte that starts no sequence counts as one and
  becomes the replacement character.
\<close>

function runes :: "string \<Rightarrow> (string \<times> nat) list" where
  "runes [] = []"
| "runes (c # cs) =
     (let n = rune_length (c # cs) in
      if n = 0 then (replacement_char, 1) # runes cs
      else (take n (c # cs), n) # runes (drop n (c # cs)))"
  by pat_completeness auto
termination
  by (relation "measure length") auto

definition map_runes :: "(string \<Rightarrow> string) \<Rightarrow> string \<Rightarrow> string" where
  "map_runes f s = concat (map (f \<circ> fst) (runes s))"

section \<open>JSON\<close>

text \<open>
  What \<^verbatim>\<open>encoding/json\<close> writes for a string: quotes, backslashes and control characters are escaped, so
  are the characters that mean something in HTML and the two line separators of JavaScript; a byte
  that belongs to no UTF-8 sequence is written as the replacement character.
\<close>

definition hex_escape :: "nat \<Rightarrow> string" where
  "hex_escape n = bytes [92] @ ''u00'' @ [hex_digit (n div 16), hex_digit (n mod 16)]"

definition json_ascii :: "char \<Rightarrow> string" where
  "json_ascii c = (let n = byte c in
     if n = 34 \<or> n = 92 then bytes [92, n]
     else if n = 8 then bytes [92] @ ''b''
     else if n = 12 then bytes [92] @ ''f''
     else if n = 10 then bytes [92] @ ''n''
     else if n = 13 then bytes [92] @ ''r''
     else if n = 9 then bytes [92] @ ''t''
     else if n < 32 \<or> n = 60 \<or> n = 62 \<or> n = 38 then hex_escape n
     else [c])"

definition line_separators :: "(string \<times> string) list" where
  "line_separators = [(bytes [226, 128, 168], bytes [92] @ ''u2028''), (bytes [226, 128, 169], bytes [92] @ ''u2029'')]"

definition json_rune :: "string \<times> nat \<Rightarrow> string" where
  "json_rune = (\<lambda>(r, n).
     if length r = 1 then json_ascii (hd r)
     else if n = 1 then bytes [92] @ ''ufffd''
     else case map_of line_separators r of Some e \<Rightarrow> e | None \<Rightarrow> r)"

definition json_chars :: "string \<Rightarrow> string" where
  "json_chars s = concat (map json_rune (runes s))"

definition json_string :: "string \<Rightarrow> string" where
  "json_string s = bytes [34] @ json_chars s @ bytes [34]"

definition json_field :: "string \<Rightarrow> string \<Rightarrow> string" where
  "json_field name v = json_string name @ '':'' @ v"

text \<open>\<^verbatim>\<open>omitempty\<close>: an empty string and a zero are left out.\<close>

definition str_field :: "string \<times> string \<Rightarrow> string list" where
  "str_field = (\<lambda>(name, v). if v = [] then [] else [json_field name (json_string v)])"

definition int_field :: "string \<times> int \<Rightarrow> string list" where
  "int_field = (\<lambda>(name, n). if n = 0 then [] else [json_field name (decimal n)])"

definition json_object :: "string list \<Rightarrow> string" where
  "json_object fs = ''{'' @ join '','' fs @ ''}''"

end
