(* ===== verification/Webhook.thy ===== *)
theory Webhook
  imports Errs Go_Time Sha256 Go_Json
begin

text \<open>
  \<^verbatim>\<open>services/notification/internal/webhook/webhook.go\<close>: the payload a receiver gets, its JSON, its
  signature and how a receiver checks it, and the retry schedule of a delivery.
\<close>

section \<open>Events and payloads\<close>

abbreviation EventScanCompleted :: string where "EventScanCompleted \<equiv> ''scan.completed''"
abbreviation EventNewCriticalFindings :: string where "EventNewCriticalFindings \<equiv> ''findings.new_critical''"
abbreviation EventCampaignFailed :: string where "EventCampaignFailed \<equiv> ''campaign.failed''"
abbreviation EventReportReady :: string where "EventReportReady \<equiv> ''report.ready''"

definition webhook_Events :: "string list" where
  "webhook_Events = [EventScanCompleted, EventNewCriticalFindings, EventCampaignFailed, EventReportReady]"

definition webhook_Event_Valid :: "string \<Rightarrow> bool" where
  "webhook_Event_Valid e \<longleftrightarrow> list_ex (\<lambda>known. e = known) webhook_Events"

record Counts =
  ct_Components :: int
  ct_Findings :: int
  ct_Critical :: int
  ct_High :: int
  ct_EnginesUnavailable :: int

record Payload =
  pa_Event :: string
  pa_Timestamp :: string
  pa_DeliveryID :: string
  pa_TenantID :: string
  pa_ProjectID :: string
  pa_ScanID :: string
  pa_ReportID :: string
  pa_CampaignID :: string
  pa_Status :: string
  pa_Counts :: Counts
  pa_URL :: string

text \<open>The fields in the order of the struct.\<close>

definition json_counts :: "Counts \<Rightarrow> string" where
  "json_counts c = json_object (concat (map int_field
     [(''components'', ct_Components c), (''findings'', ct_Findings c), (''critical'', ct_Critical c),
      (''high'', ct_High c), (''engines_unavailable'', ct_EnginesUnavailable c)]))"

definition json_payload :: "Payload \<Rightarrow> string" where
  "json_payload p = json_object
     ([json_field ''event'' (json_string (pa_Event p)), json_field ''timestamp'' (json_string (pa_Timestamp p)),
       json_field ''delivery_id'' (json_string (pa_DeliveryID p)), json_field ''tenant_id'' (json_string (pa_TenantID p))]
      @ concat (map str_field [(''project_id'', pa_ProjectID p), (''scan_id'', pa_ScanID p),
          (''report_id'', pa_ReportID p), (''campaign_id'', pa_CampaignID p), (''status'', pa_Status p)])
      @ [json_field ''counts'' (json_counts (pa_Counts p))] @ str_field (''url'', pa_URL p))"

definition Encode :: "Payload \<Rightarrow> go_err + string" where
  "Encode p =
     (if \<not> webhook_Event_Valid (pa_Event p)
      then Inl (Plain (''webhook event '' @ quoted (pa_Event p) @ '' is not one this build emits'') [])
      else if pa_Timestamp p = [] then Inl (Plain ''webhook payload has no timestamp; the signature covers it'' [])
      else if pa_TenantID p = [] then Inl (Plain ''webhook payload has no tenant id'' [])
      else Inr (json_payload p))"

section \<open>Signing and checking\<close>

definition SignatureHeader :: string where "SignatureHeader = ''X-AxeBOM-Signature''"
definition TimestampHeader :: string where "TimestampHeader = ''X-AxeBOM-Timestamp''"

definition MaxAge :: int where
  "MaxAge = 5 * minute_ns"

text \<open>
  \<^verbatim>\<open>time.Unix(sec, 0)\<close> and \<^verbatim>\<open>Time.Unix()\<close>: a \<^verbatim>\<open>Time\<close> counts its seconds from the year 1 in 64 bits, so
  the shift wraps. \<^verbatim>\<open>Time.Sub\<close> saturates, and the negation of a \<^verbatim>\<open>Duration\<close> wraps.
\<close>

definition int64 :: "int \<Rightarrow> int" where
  "int64 n = signed_take_bit 63 n"

definition unix_to_internal :: int where
  "unix_to_internal = 62135596800"

definition time_Unix :: "int \<Rightarrow> instant" where
  "time_Unix sec = (int64 (sec + unix_to_internal) - unix_to_internal) * second_ns"

definition Unix_of :: "instant \<Rightarrow> int" where
  "Unix_of t = int64 (t div second_ns)"

definition time_Sub :: "instant \<Rightarrow> instant \<Rightarrow> int" where
  "time_Sub t u = max (- (2 ^ 63)) (min (2 ^ 63 - 1) (t - u))"

definition Sign :: "string \<Rightarrow> instant \<Rightarrow> string \<Rightarrow> string" where
  "Sign body timestamp secret =
     (let unix = decimal (Unix_of timestamp)
      in ''v1='' @ hex_encode (hmac_sha256 secret (unix @ ''.'' @ body)) @ '',t='' @ unix)"

fun header_parts :: "string list \<Rightarrow> string \<Rightarrow> int \<Rightarrow> go_err + string \<times> int" where
  "header_parts [] signature unix = Inr (signature, unix)"
| "header_parts (part # parts) signature unix =
     (case cut_at (CHR ''='') (trim_space part) of
        None \<Rightarrow> header_parts parts signature unix
      | Some (key, v) \<Rightarrow>
          if key = ''v1'' then header_parts parts v unix
          else if key = ''t'' then
            (case atoi v of
               None \<Rightarrow> Inl (Plain ''webhook signature has an unreadable timestamp'' [])
             | Some n \<Rightarrow> header_parts parts signature n)
          else header_parts parts signature unix)"

definition parseHeader :: "string \<Rightarrow> go_err + string \<times> int" where
  "parseHeader header =
     (case header_parts (split_on (CHR '','') header) [] 0 of
        Inl e \<Rightarrow> Inl e
      | Inr (signature, unix) \<Rightarrow>
          if signature = []
          then Inl (Plain ''webhook signature header has no v1 component; this build only issues v1'' [])
          else if unix = 0 then Inl (Plain ''webhook signature header has no timestamp'' [])
          else Inr (signature, unix))"

datatype verify_error = Unreadable go_err | Mismatch | ErrReplay (Age: int)

definition Verify :: "string \<Rightarrow> string \<Rightarrow> string \<Rightarrow> instant \<Rightarrow> verify_error + unit" where
  "Verify body header secret now =
     (case parseHeader header of
        Inl e \<Rightarrow> Inl (Unreadable e)
      | Inr (signature, unix) \<Rightarrow>
          (case parseHeader (Sign body (time_Unix unix) secret) of
             Inl e \<Rightarrow> Inl (Unreadable e)
           | Inr (expectedMAC, _) \<Rightarrow>
               if signature \<noteq> expectedMAC then Inl Mismatch
               else let age = time_Sub now (time_Unix unix);
                        age = (if age < 0 then int64 (- age) else age)
                    in if MaxAge < age then Inl (ErrReplay age) else Inr ()))"

section \<open>Outcomes of a delivery\<close>

definition MaxAttempts :: int where
  "MaxAttempts = 5"

definition Backoff :: "int \<Rightarrow> int" where
  "Backoff attempt =
     (let schedule = [30 * second_ns, 2 * minute_ns, 10 * minute_ns, 60 * minute_ns];
          i = attempt - 1;
          i = (if i < 0 then 0 else i);
          i = (if int (length schedule) \<le> i then int (length schedule) - 1 else i)
      in schedule ! nat i)"

record Outcome =
  ou_Delivered :: bool
  ou_Retryable :: bool
  ou_Status :: int
  ou_Attempt :: int
  ou_Reason :: string

definition Classify :: "int \<Rightarrow> int \<Rightarrow> Outcome" where
  "Classify status attempt =
     (let out = \<lparr>ou_Delivered = False, ou_Retryable = False, ou_Status = status, ou_Attempt = attempt, ou_Reason = []\<rparr>
      in if 200 \<le> status \<and> status < 300 then out\<lparr>ou_Delivered := True\<rparr>
         else if status = 408 \<or> status = 429
         then out\<lparr>ou_Retryable := True, ou_Reason := ''the receiver asked us to slow down or timed out''\<rparr>
         else if 400 \<le> status \<and> status < 500
         then out\<lparr>ou_Reason := ''the receiver rejected the delivery; retrying would send the same thing to somebody who already refused it''\<rparr>
         else out\<lparr>ou_Retryable := True, ou_Reason := ''the receiver is unavailable''\<rparr>)"

definition ShouldDeadLetter :: "Outcome \<Rightarrow> bool" where
  "ShouldDeadLetter o1 = (if ou_Delivered o1 then False else \<not> ou_Retryable o1 \<or> MaxAttempts \<le> ou_Attempt o1)"

end
