(* ===== verification/Vault.thy ===== *)
theory Vault
  imports Tenant_Db Text_Laws
begin

text \<open>
  \<^verbatim>\<open>libs/go-shared/vault/vault.go\<close>: where credentials live. A reference names a secret by facts the server
  knows, its path is derived from them, and a stored path is only ever compared with the derived one.
  Both stores of the package are here, the in-process \<^verbatim>\<open>Memory\<close> and the \<^verbatim>\<open>Client\<close> of a KV v2 server; the
  server is the table of its paths, with failures taken from the outcomes of I/O. A
  \<^verbatim>\<open>map[string]string\<close> is an association list.
\<close>

section \<open>References and paths\<close>

abbreviation vault_ErrNotFound :: go_err where "vault_ErrNotFound \<equiv> Plain ''secret not found'' []"
abbreviation ErrRefNotOwned :: go_err where
  "ErrRefNotOwned \<equiv> Plain ''credential reference does not belong to this tenant'' []"

abbreviation KindRepoToken :: string where "KindRepoToken \<equiv> ''repo-token''"
abbreviation KindWebhookSecret :: string where "KindWebhookSecret \<equiv> ''webhook-secret''"

record Ref =
  rf_TenantID :: string
  rf_Kind :: string
  rf_ID :: string

type_synonym secret = "(string \<times> string) list"

definition Kind_valid :: "string \<Rightarrow> bool" where
  "Kind_valid k \<longleftrightarrow> k = KindRepoToken \<or> k = KindWebhookSecret"

text \<open>The characters slash, backslash, dot and percent, then NUL, LF and CR.\<close>

definition path_breaker :: "char \<Rightarrow> bool" where
  "path_breaker c \<longleftrightarrow> byte c \<in> {47, 92, 46, 37} \<or> byte c \<in> {0, 10, 13}"

definition Ref_validate :: "Ref \<Rightarrow> go_err option" where
  "Ref_validate r =
     (if \<not> Kind_valid (rf_Kind r) then Some (Plain (''vault: unknown secret kind '' @ quoted (rf_Kind r)) [])
      else if rf_TenantID r = [] then Some (Plain ''vault: empty tenant id'' [])
      else if rf_ID r = [] then Some (Plain ''vault: empty id'' [])
      else first_some (\<lambda>s. if list_ex path_breaker s
             then Some (Plain (''vault: identifier '' @ quoted s @ '' contains a path separator or control character'') [])
             else None) [rf_TenantID r, rf_ID r])"

definition Ref_Path :: "Ref \<Rightarrow> go_err + string" where
  "Ref_Path r = (case Ref_validate r of
     Some e \<Rightarrow> Inl e
   | None \<Rightarrow> Inr (''axebom/tenants/'' @ rf_TenantID r @ ''/'' @ rf_Kind r @ ''/'' @ rf_ID r))"

definition checkOwnership :: "Ref \<Rightarrow> string \<Rightarrow> go_err + string" where
  "checkOwnership ref stored = (case Ref_Path ref of
     Inl e \<Rightarrow> Inl e
   | Inr want \<Rightarrow> if stored \<noteq> [] \<and> stored \<noteq> want then Inl ErrRefNotOwned else Inr want)"

section \<open>The in-process store\<close>

type_synonym memory = "string \<Rightarrow> secret option"

definition Memory_Put :: "Ref \<Rightarrow> secret \<Rightarrow> (memory, go_err + string) state" where
  "Memory_Put ref data = (case Ref_Path ref of
     Inl e \<Rightarrow> ret (Inl e)
   | Inr path \<Rightarrow> State (\<lambda>m. (Inr path, m(path \<mapsto> data))))"

definition Memory_Get :: "Ref \<Rightarrow> string \<Rightarrow> (memory, go_err + secret) state" where
  "Memory_Get ref stored = (case checkOwnership ref stored of
     Inl e \<Rightarrow> ret (Inl e)
   | Inr path \<Rightarrow> State (\<lambda>m. (case m path of None \<Rightarrow> Inl vault_ErrNotFound | Some v \<Rightarrow> Inr v, m)))"

definition Memory_Delete :: "Ref \<Rightarrow> string \<Rightarrow> (memory, go_err + unit) state" where
  "Memory_Delete ref stored = (case checkOwnership ref stored of
     Inl e \<Rightarrow> ret (Inl e)
   | Inr path \<Rightarrow> State (\<lambda>m. (Inr (), m(path := None))))"

section \<open>The client of a server\<close>

record vault_env = env +
  ve_secrets :: "string \<Rightarrow> secret option"

text \<open>A request: its answer is a status with a body; a request or an answer can be lost.\<close>

definition vaultRequest ::
  "('a vault_env_scheme \<Rightarrow> (int \<times> secret) \<times> 'a vault_env_scheme) \<Rightarrow> ('a vault_env_scheme, go_err + secret) state" where
  "vaultRequest serve = State (\<lambda>w.
     if next_outcome w = Io_Fails then (Inl (Plain ''vault request failed'' []), after_io w)
     else let ((status, raw), w') = serve (after_io w)
          in (if next_outcome w = Io_AckLost then Inl (Plain ''vault request failed'' [])
              else if status = 404 then Inl vault_ErrNotFound
              else if 400 \<le> status then Inl (Plain (''vault returned '' @ decimal status) [])
              else Inr raw, w'))"

definition kv_write :: "string \<Rightarrow> secret \<Rightarrow> 'a vault_env_scheme \<Rightarrow> (int \<times> secret) \<times> 'a vault_env_scheme" where
  "kv_write path data w = ((200, []), w\<lparr>ve_secrets := (ve_secrets w)(path \<mapsto> data)\<rparr>)"

definition kv_read :: "string \<Rightarrow> 'a vault_env_scheme \<Rightarrow> (int \<times> secret) \<times> 'a vault_env_scheme" where
  "kv_read path w = (case ve_secrets w path of None \<Rightarrow> (404, []) | Some data \<Rightarrow> (200, data), w)"

definition kv_erase :: "string \<Rightarrow> 'a vault_env_scheme \<Rightarrow> (int \<times> secret) \<times> 'a vault_env_scheme" where
  "kv_erase path w = ((204, []), w\<lparr>ve_secrets := (ve_secrets w)(path := None)\<rparr>)"

definition Client_Put :: "Ref \<Rightarrow> secret \<Rightarrow> ('a vault_env_scheme, go_err + string) state" where
  "Client_Put ref data = (case Ref_Path ref of
     Inl e \<Rightarrow> ret (Inl e)
   | Inr path \<Rightarrow> do { r \<leftarrow> vaultRequest (kv_write path data);
                      ret (case r of Inl e \<Rightarrow> Inl e | Inr _ \<Rightarrow> Inr path) })"

definition Client_Get :: "Ref \<Rightarrow> string \<Rightarrow> ('a vault_env_scheme, go_err + secret) state" where
  "Client_Get ref stored = (case checkOwnership ref stored of
     Inl e \<Rightarrow> ret (Inl e)
   | Inr path \<Rightarrow> do { r \<leftarrow> vaultRequest (kv_read path);
                      ret (case r of Inl e \<Rightarrow> Inl e
                           | Inr data \<Rightarrow> if data = [] then Inl vault_ErrNotFound else Inr data) })"

definition Client_Delete :: "Ref \<Rightarrow> string \<Rightarrow> ('a vault_env_scheme, go_err + unit) state" where
  "Client_Delete ref stored = (case checkOwnership ref stored of
     Inl e \<Rightarrow> ret (Inl e)
   | Inr path \<Rightarrow> do { r \<leftarrow> vaultRequest (kv_erase path);
                      ret (case r of Inl e \<Rightarrow> if errors_Is e vault_ErrNotFound then Inr () else Inl e
                           | Inr _ \<Rightarrow> Inr ()) })"

section \<open>A path belongs to one reference\<close>

lemma Ref_Path_InrD:
  assumes "Ref_Path r = Inr p"
  shows "p = ''axebom/tenants/'' @ rf_TenantID r @ ''/'' @ rf_Kind r @ ''/'' @ rf_ID r"
    and "CHR ''/'' \<notin> set (rf_TenantID r)" and "CHR ''/'' \<notin> set (rf_Kind r)" and "CHR ''/'' \<notin> set (rf_ID r)"
proof -
  have ok: "Ref_validate r = None"
    and "p = ''axebom/tenants/'' @ rf_TenantID r @ ''/'' @ rf_Kind r @ ''/'' @ rf_ID r"
    using assms by (auto simp: Ref_Path_def split: option.splits)
  then show "p = ''axebom/tenants/'' @ rf_TenantID r @ ''/'' @ rf_Kind r @ ''/'' @ rf_ID r" by simp
  have "Kind_valid (rf_Kind r)" and "\<not> list_ex path_breaker (rf_TenantID r)" "\<not> list_ex path_breaker (rf_ID r)"
    using ok by (auto simp: Ref_validate_def split: if_splits)
  moreover have "path_breaker (CHR ''/'')" by (simp add: path_breaker_def)
  ultimately show "CHR ''/'' \<notin> set (rf_TenantID r)" "CHR ''/'' \<notin> set (rf_Kind r)" "CHR ''/'' \<notin> set (rf_ID r)"
    by (auto simp: list_ex_iff Kind_valid_def)
qed

lemma Ref_Path_inj:
  assumes "Ref_Path r = Inr p" "Ref_Path s = Inr p"
  shows "r = s"
proof -
  have parts: "split_on (CHR ''/'') (drop (length ''axebom/tenants/'') p) = [rf_TenantID x, rf_Kind x, rf_ID x]"
    if "Ref_Path x = Inr p" for x :: Ref
    using Ref_Path_InrD [OF that] by (simp add: split_on_append split_on_none)
  have "rf_TenantID r = rf_TenantID s \<and> rf_Kind r = rf_Kind s \<and> rf_ID r = rf_ID s"
    using parts [OF assms(1)] parts [OF assms(2)] by (metis list.inject)
  then show ?thesis by (intro Ref.equality) simp_all
qed

lemma checkOwnership_InrD: "checkOwnership r s = Inr p \<Longrightarrow> Ref_Path r = Inr p \<and> (s = [] \<or> s = p)"
  by (auto simp: checkOwnership_def split: sum.splits if_splits)

section \<open>What a store promises\<close>

text \<open>Uses of a store by its three operations, one after the other.\<close>

datatype vault_use = Putting Ref secret | Getting Ref string | Deleting Ref string

primrec use_store ::
  "(Ref \<Rightarrow> secret \<Rightarrow> ('w, go_err + string) state) \<Rightarrow> (Ref \<Rightarrow> string \<Rightarrow> ('w, go_err + secret) state)
   \<Rightarrow> (Ref \<Rightarrow> string \<Rightarrow> ('w, go_err + unit) state) \<Rightarrow> vault_use \<Rightarrow> 'w \<Rightarrow> 'w" where
  "use_store put get delete (Putting r d) w = snd (run_state (put r d) w)"
| "use_store put get delete (Getting r s) w = snd (run_state (get r s) w)"
| "use_store put get delete (Deleting r s) w = snd (run_state (delete r s) w)"

text \<open>
  The contract: what a path holds changes only under the reference it belongs to, and what is read is
  what the path of the reference holds; a stored path that is not the derived one is refused.
\<close>

locale secret_store =
  fixes put :: "Ref \<Rightarrow> secret \<Rightarrow> ('w, go_err + string) state"
    and get :: "Ref \<Rightarrow> string \<Rightarrow> ('w, go_err + secret) state"
    and delete :: "Ref \<Rightarrow> string \<Rightarrow> ('w, go_err + unit) state"
    and holds :: "'w \<Rightarrow> string \<Rightarrow> secret option"
  assumes put_effect: "run_state (put r d) w = (a, w')
      \<Longrightarrow> holds w' = holds w \<or> (\<exists>p. Ref_Path r = Inr p \<and> holds w' = (holds w)(p \<mapsto> d))"
    and put_stores: "run_state (put r d) w = (Inr p, w') \<Longrightarrow> Ref_Path r = Inr p \<and> holds w' = (holds w)(p \<mapsto> d)"
    and get_reads: "run_state (get r s) w = (b, w')
      \<Longrightarrow> holds w' = holds w \<and> (\<forall>d. b = Inr d \<longrightarrow> (\<exists>p. Ref_Path r = Inr p \<and> (s = [] \<or> s = p) \<and> holds w p = Some d))"
    and delete_effect: "run_state (delete r s) w = (c, w')
      \<Longrightarrow> holds w' = holds w \<or> (\<exists>p. Ref_Path r = Inr p \<and> holds w' = (holds w)(p := None))"
    and delete_erases: "run_state (delete r s) w = (Inr u, w') \<Longrightarrow> Ref_Path r = Inr p \<Longrightarrow> holds w' p = None"
begin

lemma holds_used:
  assumes "holds (fold (use_store put get delete) us w) p = Some d"
  shows "holds w p = Some d \<or> (\<exists>r. Putting r d \<in> set us \<and> Ref_Path r = Inr p)"
  using assms
proof (induction us arbitrary: w)
  case (Cons u us)
  let ?w = "use_store put get delete u w"
  have step: "holds ?w p = Some d \<Longrightarrow> holds w p = Some d \<or> (\<exists>r. u = Putting r d \<and> Ref_Path r = Inr p)"
  proof (cases u)
    case (Putting r e)
    obtain a where "run_state (put r e) w = (a, ?w)" by (cases "run_state (put r e) w") (simp add: Putting)
    from put_effect [OF this] show "holds ?w p = Some d \<Longrightarrow> ?thesis"
      by (elim disjE exE conjE) (simp_all add: Putting split: if_splits)
  next
    case (Getting r s)
    obtain a where "run_state (get r s) w = (a, ?w)" by (cases "run_state (get r s) w") (simp add: Getting)
    then show "holds ?w p = Some d \<Longrightarrow> ?thesis" using get_reads [of r s w a ?w] by simp
  next
    case (Deleting r s)
    obtain a where "run_state (delete r s) w = (a, ?w)" by (cases "run_state (delete r s) w") (simp add: Deleting)
    from delete_effect [OF this] show "holds ?w p = Some d \<Longrightarrow> ?thesis"
      by (elim disjE exE conjE) (simp_all split: if_splits)
  qed
  from Cons.IH [of ?w] Cons.prems have "holds ?w p = Some d \<or> (\<exists>r. Putting r d \<in> set us \<and> Ref_Path r = Inr p)" by simp
  then show ?case using step by auto
qed simp

text \<open>A secret that is read was put under the very reference it is read with.\<close>

lemma read_was_put:
  assumes "run_state (get r s) (fold (use_store put get delete) us w) = (Inr d, w')"
    and "holds w = Map.empty"
  shows "Putting r d \<in> set us"
proof -
  obtain p where p: "Ref_Path r = Inr p" "holds (fold (use_store put get delete) us w) p = Some d"
    using get_reads [OF assms(1)] by blast
  obtain r' where "Putting r' d \<in> set us" "Ref_Path r' = Inr p"
    using holds_used [OF p(2)] by (auto simp: assms(2))
  then show ?thesis using Ref_Path_inj [OF p(1)] by metis
qed

end

interpretation in_memory: secret_store Memory_Put Memory_Get Memory_Delete "\<lambda>m. m"
proof unfold_locales
  fix r :: Ref and d s p u and m m' :: memory
  show "run_state (Memory_Put r d) m = (a, m') \<Longrightarrow> m' = m \<or> (\<exists>p. Ref_Path r = Inr p \<and> m' = m(p \<mapsto> d))" for a
    by (cases "Ref_Path r") (simp_all add: Memory_Put_def, blast)
  show "run_state (Memory_Put r d) m = (Inr p, m') \<Longrightarrow> Ref_Path r = Inr p \<and> m' = m(p \<mapsto> d)"
    by (auto simp: Memory_Put_def split: sum.splits)
  show "run_state (Memory_Get r s) m = (b, m')
      \<Longrightarrow> m' = m \<and> (\<forall>d. b = Inr d \<longrightarrow> (\<exists>p. Ref_Path r = Inr p \<and> (s = [] \<or> s = p) \<and> m p = Some d))" for b
    by (auto simp: Memory_Get_def dest!: checkOwnership_InrD split: sum.splits option.splits)
  show "run_state (Memory_Delete r s) m = (c, m') \<Longrightarrow> m' = m \<or> (\<exists>p. Ref_Path r = Inr p \<and> m' = m(p := None))" for c
    by (cases "checkOwnership r s") (auto simp: Memory_Delete_def dest!: checkOwnership_InrD)
  show "run_state (Memory_Delete r s) m = (Inr u, m') \<Longrightarrow> Ref_Path r = Inr p \<Longrightarrow> m' p = None"
    by (auto simp: Memory_Delete_def dest!: checkOwnership_InrD split: sum.splits)
qed

lemma ve_after_io [simp]: "ve_secrets (after_io w) = ve_secrets w"
  by (simp add: after_io_def)

lemmas client_defs = Client_Put_def Client_Get_def Client_Delete_def vaultRequest_def kv_write_def kv_read_def kv_erase_def

interpretation on_server: secret_store Client_Put Client_Get Client_Delete ve_secrets
proof unfold_locales
  fix r :: Ref and d s p u and w w' :: "'a vault_env_scheme"
  show "run_state (Client_Put r d) w = (a, w')
      \<Longrightarrow> ve_secrets w' = ve_secrets w \<or> (\<exists>p. Ref_Path r = Inr p \<and> ve_secrets w' = (ve_secrets w)(p \<mapsto> d))" for a
    by (cases "Ref_Path r") (auto simp: client_defs Let_def split: if_splits)
  show "run_state (Client_Put r d) w = (Inr p, w') \<Longrightarrow> Ref_Path r = Inr p \<and> ve_secrets w' = (ve_secrets w)(p \<mapsto> d)"
    by (cases "Ref_Path r") (auto simp: client_defs Let_def split: if_splits)
  show "run_state (Client_Get r s) w = (b, w') \<Longrightarrow> ve_secrets w' = ve_secrets w
      \<and> (\<forall>d. b = Inr d \<longrightarrow> (\<exists>p. Ref_Path r = Inr p \<and> (s = [] \<or> s = p) \<and> ve_secrets w p = Some d))" for b
    by (auto simp: client_defs Let_def dest!: checkOwnership_InrD split: sum.splits if_splits option.splits)
  show "run_state (Client_Delete r s) w = (c, w')
      \<Longrightarrow> ve_secrets w' = ve_secrets w \<or> (\<exists>p. Ref_Path r = Inr p \<and> ve_secrets w' = (ve_secrets w)(p := None))" for c
    by (cases "checkOwnership r s") (auto simp: client_defs Let_def dest!: checkOwnership_InrD split: if_splits)
  show "run_state (Client_Delete r s) w = (Inr u, w') \<Longrightarrow> Ref_Path r = Inr p \<Longrightarrow> ve_secrets w' p = None"
    by (cases "checkOwnership r s") (auto simp: client_defs Let_def dest!: checkOwnership_InrD split: if_splits)
qed

section \<open>Isolation of secrets\<close>

text \<open>
  C34. Whatever is done with the secrets of all tenants, kinds and rows, in whatever order and with whatever
  failures, a secret that is read under a reference was stored under that very reference: same tenant, same
  kind, same row. A path that somebody put into the row does not help.
\<close>

theorem secret_is_read_under_its_own_reference:
  fixes w :: "'a vault_env_scheme"
  assumes "run_state (Client_Get r stored) (fold (use_store Client_Put Client_Get Client_Delete) us w) = (Inr d, w')"
    and "ve_secrets w = Map.empty"
  shows "Putting r d \<in> set us \<and> (stored = [] \<or> Ref_Path r = Inr stored)"
  using on_server.read_was_put [OF assms] on_server.get_reads [OF assms(1)] by auto

definition empty_vault :: vault_env where
  "empty_vault = \<lparr>en_outbox = [], en_clock = 0, en_uuid = (\<lambda>n. []), en_next = 0, en_outcomes = [], ve_secrets = Map.empty\<rparr>"

definition sample_ref :: "string \<Rightarrow> Ref" where
  "sample_ref t = \<lparr>rf_TenantID = t, rf_Kind = KindRepoToken, rf_ID = ''c''\<rparr>"

theorem secret_is_read_under_its_own_reference_witness:
  "Putting (sample_ref ''t'') [(''token'', ''x'')] \<in> set [Putting (sample_ref ''t'') [(''token'', ''x'')], Putting (sample_ref ''u'') []]"
proof -
  let ?us = "[Putting (sample_ref ''t'') [(''token'', ''x'')], Putting (sample_ref ''u'') []]"
  let ?w = "fold (use_store Client_Put Client_Get Client_Delete) ?us empty_vault"
  have path: "Ref_Path (sample_ref ''t'') = Inr ''axebom/tenants/t/repo-token/c''"
      "Ref_Path (sample_ref ''u'') = Inr ''axebom/tenants/u/repo-token/c''"
    by (simp_all add: Ref_Path_def Ref_validate_def sample_ref_def Kind_valid_def path_breaker_def)
  have "next_outcome empty_vault = Io_Ok" "after_io empty_vault = empty_vault"
    by (simp_all add: empty_vault_def next_outcome_def after_io_def)
  then have "fst (run_state (Client_Get (sample_ref ''t'') []) ?w) = Inr [(''token'', ''x'')]"
    by (simp add: client_defs checkOwnership_def path next_outcome_def after_io_def)
  then have "run_state (Client_Get (sample_ref ''t'') []) ?w
      = (Inr [(''token'', ''x'')], snd (run_state (Client_Get (sample_ref ''t'') []) ?w))"
    by (metis prod.collapse)
  from secret_is_read_under_its_own_reference [OF this] show ?thesis by (simp add: empty_vault_def)
qed

text \<open>The in-process store that tests use behaves as the client of a reachable server does, secret by secret.\<close>

theorem memory_store_agrees_with_client:
  fixes w :: "'a vault_env_scheme"
  assumes "reliable w" "d \<noteq> []" "\<And>p. ve_secrets w p \<noteq> Some []"
  shows "run_state (Memory_Put r d) (ve_secrets w) = map_prod id ve_secrets (run_state (Client_Put r d) w)"
    and "run_state (Memory_Get r s) (ve_secrets w) = map_prod id ve_secrets (run_state (Client_Get r s) w)"
    and "run_state (Memory_Delete r s) (ve_secrets w) = map_prod id ve_secrets (run_state (Client_Delete r s) w)"
proof -
  show "run_state (Memory_Put r d) (ve_secrets w) = map_prod id ve_secrets (run_state (Client_Put r d) w)"
    using assms(1) by (cases "Ref_Path r") (simp_all add: Memory_Put_def client_defs)
  show "run_state (Memory_Get r s) (ve_secrets w) = map_prod id ve_secrets (run_state (Client_Get r s) w)"
    using assms(1,3) by (cases "checkOwnership r s") (auto simp: Memory_Get_def client_defs split: option.splits)
  show "run_state (Memory_Delete r s) (ve_secrets w) = map_prod id ve_secrets (run_state (Client_Delete r s) w)"
    using assms(1) by (cases "checkOwnership r s") (simp_all add: Memory_Delete_def client_defs)
qed

end
