(* ===== verification/Go_Url.thy ===== *)
theory Go_Url
  imports Errs
begin

text \<open>
  What the program reads of a \<^verbatim>\<open>*url.URL\<close>. How \<^verbatim>\<open>net/url\<close> gets it from a text changes between releases
  of Go and is a parameter of what uses it, so what is shown holds for every parser.
\<close>

record URL =
  ur_Scheme :: string
  ur_Host :: string
  ur_HasUser :: bool
  ur_Hostname :: string

end
