(* ===== verification/Notify_Store.thy ===== *)
theory Notify_Store
  imports Webhook Vault Go_Url
begin

text \<open>
  \<^verbatim>\<open>services/notification/internal/subscription/subscription.go\<close> (which events a subscription wants) and
  \<^verbatim>\<open>internal/store\<close> with its schema (\<^verbatim>\<open>migrations/notify\<close>): subscriptions, the queue of deliveries and
  the poller's claim. The stored payload is the value it encodes. Row-level security adds the tenant to
  every predicate of a tenant's transaction. An id in a request is any text; one that is no uuid fails in
  the database, here it finds no row.
\<close>

section \<open>Rows\<close>

abbreviation KindEmail :: string where "KindEmail \<equiv> ''email''"
abbreviation KindWebhook :: string where "KindWebhook \<equiv> ''webhook''"

text \<open>A slice is a list or nil.\<close>

definition slice :: "'a list option \<Rightarrow> 'a list" where
  "slice xs = (case xs of None \<Rightarrow> [] | Some l \<Rightarrow> l)"

record Subscription =
  sb_ID :: string
  sb_TenantID :: string
  sb_Kind :: string
  sb_Target :: string
  sb_Events :: "string list option"
  sb_SecretRef :: string
  sb_Enabled :: bool
  sb_CreatedBy :: string

record subscription_row =
  sw_Subscription :: Subscription
  sw_CreatedAt :: instant

abbreviation delivery_pending :: string where "delivery_pending \<equiv> ''pending''"
abbreviation delivery_processing :: string where "delivery_processing \<equiv> ''processing''"
abbreviation delivery_delivered :: string where "delivery_delivered \<equiv> ''delivered''"
abbreviation delivery_dead :: string where "delivery_dead \<equiv> ''dead_lettered''"

record Delivery =
  dl_ID :: string
  dl_TenantID :: string
  dl_SubscriptionID :: string
  dl_EventType :: string
  dl_Payload :: Payload
  dl_Attempt :: int
  dl_Status :: string
  dl_ResponseCode :: int
  dl_Error :: string
  dl_NextRetryAt :: "instant option"
  dl_CreatedAt :: instant
  dl_DeliveredAt :: "instant option"

text \<open>
  A request the delivery client sends, and what the mail relay gets. The receivers and the relay belong to
  the environment and see how much was sent before; so do the parser of URLs (\<^verbatim>\<open>net/url\<close>) and the
  source of randomness. Requests and mails are a history.
\<close>

record hook_request =
  hr_Target :: string
  hr_Body :: string
  hr_Signature :: string
  hr_Timestamp :: string
  hr_DeliveryID :: string
  hr_Event :: string

record mail_sent =
  ml_To :: string
  ml_Subject :: string
  ml_Text :: string
  ml_DeliveryID :: string

record notify_db = vault_env +
  nd_subscriptions :: "subscription_row list"
  nd_deliveries :: "Delivery list"
  nd_requests :: "hook_request list"
  nd_mails :: "mail_sent list"
  nd_receiver :: "hook_request \<Rightarrow> nat \<Rightarrow> go_err + int \<times> string"
  nd_relay :: "mail_sent \<Rightarrow> nat \<Rightarrow> go_err option"
  nd_parse :: "string \<Rightarrow> go_err + URL"
  nd_random :: string

section \<open>Subscriptions\<close>

definition Matches :: "Subscription \<Rightarrow> string \<Rightarrow> bool" where
  "Matches s event =
     (if \<not> sb_Enabled s then False
      else if slice (sb_Events s) = [] then True
      else list_ex (\<lambda>e. e = event) (slice (sb_Events s)))"

text \<open>\<open>ContainsAny\<close> with the characters CR, LF, NUL, comma and semicolon, then \<open>LastIndex\<close> of the at sign.\<close>

definition last_at :: "string \<Rightarrow> int" where
  "last_at s = (case cut_at (CHR 0x40) (rev s) of
     None \<Rightarrow> - 1 | Some (after, before) \<Rightarrow> int (length before))"

definition validateEmail :: "string \<Rightarrow> go_err + unit" where
  "validateEmail target =
     (if list_ex (\<lambda>c. byte c \<in> {13, 10, 0, 44, 59}) target
      then Inl (errs_New ValidationFieldInvalid ''email target contains a control or separator character'')
      else if last_at target \<le> 0 \<or> last_at target = int (length target) - 1
      then Inl (errs_New ValidationFieldInvalid (quoted target @ '' is not an email address''))
      else if 320 < length target then Inl (errs_New ValidationFieldInvalid ''email target is too long'')
      else Inr ())"

definition blocked_hosts :: "string list" where
  "blocked_hosts = [''localhost'', ''127.0.0.1'', ''::1'', ''0.0.0.0'', ''169.254.169.254'', ''metadata.google.internal'']"

definition ValidateWebhookURL :: "(string \<Rightarrow> go_err + URL) \<Rightarrow> string \<Rightarrow> go_err + unit" where
  "ValidateWebhookURL parse raw =
     (case parse raw of
        Inl e \<Rightarrow> Inl (errs_New ValidationFieldInvalid (''webhook URL is unparseable: '' @ err_text e))
      | Inr u \<Rightarrow>
          if ur_Scheme u \<noteq> ''https''
          then Inl (errs_New ValidationFieldInvalid (''webhook URL must be https; '' @ quoted (ur_Scheme u)
                 @ '' would send a signed payload in the clear''))
          else if ur_Host u = [] then Inl (errs_New ValidationFieldInvalid ''webhook URL has no host'')
          else if ur_HasUser u
          then Inl (errs_New ValidationFieldInvalid ''webhook URL must not embed credentials; use the signing secret instead'')
          else let host = to_lower (ur_Hostname u) in
            case first_some (\<lambda>blocked. if host = blocked
                   then Some (errs_New FetchPrivateAddressBlocked (''webhook URL points at '' @ host
                     @ '', which is not reachable from outside this platform and is a common target for exfiltration''))
                   else None) blocked_hosts of
              Some e \<Rightarrow> Inl e
            | None \<Rightarrow> if suffix ''.internal'' host \<or> suffix ''.local'' host
                then Inl (errs_New FetchPrivateAddressBlocked (''webhook URL points at the internal name '' @ host))
                else Inr ())"

definition Subscription_Validate :: "(string \<Rightarrow> go_err + URL) \<Rightarrow> Subscription \<Rightarrow> go_err + unit" where
  "Subscription_Validate parse s =
     (let channel =
        (if sb_Kind s = KindEmail then validateEmail (sb_Target s)
         else if sb_Kind s = KindWebhook then
           (case ValidateWebhookURL parse (sb_Target s) of
              Inl e \<Rightarrow> Inl e
            | Inr _ \<Rightarrow> if sb_SecretRef s = []
                then Inl (errs_New ValidationFieldRequired
                  ''a webhook subscription needs a signing secret; an unsigned delivery cannot be distinguished from a forged one by the receiver'')
                else Inr ())
         else Inl (errs_New ValidationFieldInvalid
                (quoted (sb_Kind s) @ '' is not a delivery channel this build supports'')))
      in case channel of
           Inl e \<Rightarrow> Inl e
         | Inr _ \<Rightarrow> (case first_some (\<lambda>e. if \<not> webhook_Event_Valid e
               then Some (errs_New ValidationFieldInvalid (quoted e @ '' is not an event this build emits'')) else None)
             (slice (sb_Events s)) of
               Some e \<Rightarrow> Inl e | None \<Rightarrow> Inr ()))"

section \<open>The table of subscriptions\<close>

definition own_subscription :: "string \<Rightarrow> string \<Rightarrow> subscription_row \<Rightarrow> bool" where
  "own_subscription tenantID i r \<longleftrightarrow> sb_TenantID (sw_Subscription r) = tenantID \<and> sb_ID (sw_Subscription r) = i"

definition find_subscription :: "string \<Rightarrow> string \<Rightarrow> notify_db \<Rightarrow> Subscription option" where
  "find_subscription tenantID i w = map_option sw_Subscription (find (own_subscription tenantID i) (nd_subscriptions w))"

text \<open>\<^verbatim>\<open>UNIQUE (tenant_id, kind, target)\<close>.\<close>

definition target_taken :: "string \<Rightarrow> Subscription \<Rightarrow> notify_db \<Rightarrow> bool" where
  "target_taken tenantID sub w = list_ex (\<lambda>r. sb_TenantID (sw_Subscription r) = tenantID
     \<and> sb_Kind (sw_Subscription r) = sb_Kind sub \<and> sb_Target (sw_Subscription r) = sb_Target sub) (nd_subscriptions w)"

definition notify_wrapped :: "string \<Rightarrow> go_err + 'a \<Rightarrow> go_err + 'a" where
  "notify_wrapped msg r = (case r of Inl e \<Rightarrow> Inl (Plain msg [e]) | Inr x \<Rightarrow> Inr x)"

abbreviation err_no_row :: go_err where "err_no_row \<equiv> Plain ''no rows in result set'' []"

definition missing_or :: "string \<Rightarrow> go_err + 'a \<Rightarrow> go_err + 'a" where
  "missing_or msg r = (case r of
     Inl e \<Rightarrow> Inl (if errors_Is e err_no_row then ErrNotFound else Plain msg [e])
   | Inr x \<Rightarrow> Inr x)"

text \<open>The driver sends a nil slice as NULL, and \<^verbatim>\<open>events\<close> is \<^verbatim>\<open>NOT NULL\<close>.\<close>

definition CreateSubscription :: "string \<Rightarrow> Subscription \<Rightarrow> (notify_db, go_err + Subscription) state" where
  "CreateSubscription tenantID sub =
     do { r \<leftarrow> WithTenant tenantID (\<lambda>w.
            let row = sub\<lparr>sb_ID := fresh_id w, sb_TenantID := tenantID\<rparr>
            in if sb_Kind sub \<noteq> KindEmail \<and> sb_Kind sub \<noteq> KindWebhook then Inl err_database
               else if sb_Events sub = None then Inl err_database
               else if target_taken tenantID sub w then Inl err_database
               else Inr (row, (drop_id w)\<lparr>nd_subscriptions := nd_subscriptions w @
                      [\<lparr>sw_Subscription = row, sw_CreatedAt = en_clock w\<rparr>]\<rparr>));
          ret (notify_wrapped ''create subscription'' r) }"

definition list_subscriptions :: "string \<Rightarrow> notify_db \<Rightarrow> Subscription list" where
  "list_subscriptions tenantID w = map sw_Subscription
     (slice_stable (\<lambda>a b. sw_CreatedAt b < sw_CreatedAt a)
       (filter (\<lambda>r. sb_TenantID (sw_Subscription r) = tenantID) (nd_subscriptions w)))"

definition ListSubscriptions :: "string \<Rightarrow> (notify_db, go_err + Subscription list) state" where
  "ListSubscriptions tenantID =
     do { r \<leftarrow> ReadTenant tenantID (\<lambda>w. Inr (list_subscriptions tenantID w));
          ret (notify_wrapped ''list subscriptions'' r) }"

definition MatchingSubscriptions :: "string \<Rightarrow> string \<Rightarrow> (notify_db, go_err + Subscription list) state" where
  "MatchingSubscriptions tenantID event =
     do { r \<leftarrow> ListSubscriptions tenantID;
          ret (map_sum id (filter (\<lambda>sub. Matches sub event)) r) }"

definition change_subscription ::
  "string \<Rightarrow> string \<Rightarrow> string \<Rightarrow> (Subscription \<Rightarrow> Subscription) \<Rightarrow> (notify_db, go_err + Subscription) state" where
  "change_subscription msg tenantID i f =
     do { r \<leftarrow> WithTenant tenantID (\<lambda>w. case find_subscription tenantID i w of
            None \<Rightarrow> Inl err_no_row
          | Some sub \<Rightarrow> Inr (f sub, w\<lparr>nd_subscriptions := map (\<lambda>r. if own_subscription tenantID i r
                then r\<lparr>sw_Subscription := f (sw_Subscription r)\<rparr> else r) (nd_subscriptions w)\<rparr>));
          ret (missing_or msg r) }"

definition SetSubscriptionEnabled :: "string \<Rightarrow> string \<Rightarrow> bool \<Rightarrow> (notify_db, go_err + Subscription) state" where
  "SetSubscriptionEnabled tenantID i enabled =
     change_subscription ''set subscription enabled'' tenantID i (\<lambda>s. s\<lparr>sb_Enabled := enabled\<rparr>)"

definition SetSubscriptionSecretRef :: "string \<Rightarrow> string \<Rightarrow> string \<Rightarrow> (notify_db, go_err + Subscription) state" where
  "SetSubscriptionSecretRef tenantID i ref =
     change_subscription ''set subscription secret ref'' tenantID i (\<lambda>s. s\<lparr>sb_SecretRef := ref\<rparr>)"

text \<open>Deliveries go with their subscription (\<^verbatim>\<open>ON DELETE CASCADE\<close>).\<close>

definition DeleteSubscription :: "string \<Rightarrow> string \<Rightarrow> (notify_db, go_err + unit) state" where
  "DeleteSubscription tenantID i =
     do { r \<leftarrow> WithTenant tenantID (\<lambda>w. case find_subscription tenantID i w of
            None \<Rightarrow> Inl ErrNotFound
          | Some _ \<Rightarrow> Inr ((), w\<lparr>nd_subscriptions := filter (\<lambda>r. \<not> own_subscription tenantID i r) (nd_subscriptions w),
                nd_deliveries := filter (\<lambda>d. dl_SubscriptionID d \<noteq> i) (nd_deliveries w)\<rparr>));
          ret (case r of
            Inl e \<Rightarrow> Inl (if errors_Is e ErrNotFound then e else Plain ''delete subscription'' [e])
          | Inr x \<Rightarrow> Inr x) }"

definition GetSubscription :: "string \<Rightarrow> string \<Rightarrow> (notify_db, go_err + Subscription) state" where
  "GetSubscription tenantID i =
     do { r \<leftarrow> ReadTenant tenantID (\<lambda>w. case find_subscription tenantID i w of
            None \<Rightarrow> Inl err_no_row | Some s \<Rightarrow> Inr s);
          ret (missing_or ''get subscription'' r) }"

section \<open>The queue of deliveries\<close>

text \<open>The insert fails when there is no such subscription (the foreign key).\<close>

definition new_delivery :: "notify_db \<Rightarrow> string \<Rightarrow> string \<Rightarrow> Payload \<Rightarrow> Delivery" where
  "new_delivery w tenantID subscriptionID payload =
     \<lparr>dl_ID = fresh_id w, dl_TenantID = tenantID, dl_SubscriptionID = subscriptionID,
      dl_EventType = pa_Event payload, dl_Payload = payload, dl_Attempt = 1, dl_Status = delivery_pending,
      dl_ResponseCode = 0, dl_Error = [], dl_NextRetryAt = None, dl_CreatedAt = en_clock w, dl_DeliveredAt = None\<rparr>"

definition EnqueueDelivery :: "string \<Rightarrow> string \<Rightarrow> Payload \<Rightarrow> (notify_db, go_err + string) state" where
  "EnqueueDelivery tenantID subscriptionID payload =
     do { r \<leftarrow> WithTenant tenantID (\<lambda>w.
            if \<not> list_ex (\<lambda>r. sb_ID (sw_Subscription r) = subscriptionID) (nd_subscriptions w) then Inl err_database
            else Inr (fresh_id w, (drop_id w)\<lparr>nd_deliveries := nd_deliveries w @
                   [new_delivery w tenantID subscriptionID payload]\<rparr>));
          ret (notify_wrapped ''enqueue delivery'' r) }"

definition delivery_statuses :: "string list" where
  "delivery_statuses = [delivery_pending, delivery_processing, delivery_delivered, ''failed'', delivery_dead]"

definition own_delivery :: "string \<Rightarrow> string \<Rightarrow> Delivery \<Rightarrow> bool" where
  "own_delivery tenantID i d \<longleftrightarrow> dl_TenantID d = tenantID \<and> dl_ID d = i"

text \<open>The update fails when it would give a row a status or an attempt that the table forbids.\<close>

definition RecordAttempt ::
  "string \<Rightarrow> string \<Rightarrow> string \<Rightarrow> int \<Rightarrow> int \<Rightarrow> string \<Rightarrow> instant option \<Rightarrow> (notify_db, go_err + unit) state" where
  "RecordAttempt tenantID deliveryID status attempt responseCode cause nextRetryAt =
     do { r \<leftarrow> WithTenant tenantID (\<lambda>w.
            if list_ex (own_delivery tenantID deliveryID) (nd_deliveries w)
               \<and> (attempt < 1 \<or> \<not> List.member delivery_statuses status)
            then Inl err_database
            else Inr ((), w\<lparr>nd_deliveries := map (\<lambda>d. if own_delivery tenantID deliveryID d
                   then d\<lparr>dl_Status := status, dl_Attempt := attempt, dl_ResponseCode := responseCode,
                          dl_Error := cause, dl_NextRetryAt := nextRetryAt,
                          dl_DeliveredAt := (if status = delivery_delivered then Some (en_clock w) else dl_DeliveredAt d)\<rparr>
                   else d) (nd_deliveries w)\<rparr>));
          ret (notify_wrapped ''record delivery attempt'' r) }"

definition ListDeliveries :: "string \<Rightarrow> string \<Rightarrow> int \<Rightarrow> (notify_db, go_err + Delivery list) state" where
  "ListDeliveries tenantID subscriptionID limit =
     do { let limit = (if limit \<le> 0 \<or> 200 < limit then 50 else limit);
          r \<leftarrow> ReadTenant tenantID (\<lambda>w. Inr (take (nat limit)
            (slice_stable (\<lambda>a b. dl_CreatedAt b < dl_CreatedAt a)
              (filter (\<lambda>d. dl_TenantID d = tenantID \<and> dl_SubscriptionID d = subscriptionID) (nd_deliveries w)))));
          ret (notify_wrapped ''list deliveries'' r) }"

text \<open>
  \<^verbatim>\<open>notify.claim_due_deliveries\<close>, across tenants: the due rows that waited longest become \<open>processing\<close>.
  Postgres leaves the order of equal times and of the answer open; here the answer has the order of the
  choice, and equal times that of the table.
\<close>

definition delivery_due :: "instant \<Rightarrow> Delivery \<Rightarrow> bool" where
  "delivery_due now d \<longleftrightarrow> dl_Status d = delivery_pending
     \<and> (case dl_NextRetryAt d of None \<Rightarrow> True | Some at \<Rightarrow> at \<le> now)"

definition waiting_since :: "Delivery \<Rightarrow> instant" where
  "waiting_since d = (case dl_NextRetryAt d of None \<Rightarrow> dl_CreatedAt d | Some at \<Rightarrow> at)"

definition due_deliveries :: "instant \<Rightarrow> int \<Rightarrow> notify_db \<Rightarrow> Delivery list" where
  "due_deliveries now limit w = take (nat (min (max limit 1) 1000))
     (slice_stable (\<lambda>a b. waiting_since a < waiting_since b) (filter (delivery_due now) (nd_deliveries w)))"

definition claim_due_deliveries :: "instant \<Rightarrow> int \<Rightarrow> notify_db \<Rightarrow> Delivery list \<times> notify_db" where
  "claim_due_deliveries now limit w =
     (let claimed = due_deliveries now limit w
      in (claimed, w\<lparr>nd_deliveries := map (\<lambda>d. if List.member (map dl_ID claimed) (dl_ID d)
            then d\<lparr>dl_Status := delivery_processing\<rparr> else d) (nd_deliveries w)\<rparr>))"

definition ClaimDueDeliveries :: "instant \<Rightarrow> int \<Rightarrow> (notify_db, go_err + Delivery list) state" where
  "ClaimDueDeliveries now limit =
     do { r \<leftarrow> Db_Call (\<lambda>w. Inr (claim_due_deliveries now limit w));
          ret (notify_wrapped ''claim due deliveries'' r) }"

section \<open>What validation accepts\<close>

lemma ValidateWebhookURL_accepts:
  assumes "ValidateWebhookURL P raw = Inr ()"
  shows "\<exists>u. P raw = Inr u \<and> ur_Scheme u = ''https'' \<and> ur_Host u \<noteq> [] \<and> \<not> ur_HasUser u
      \<and> to_lower (ur_Hostname u) \<notin> set blocked_hosts
      \<and> \<not> suffix ''.internal'' (to_lower (ur_Hostname u)) \<and> \<not> suffix ''.local'' (to_lower (ur_Hostname u))"
proof (cases "P raw")
  case (Inl e)
  with assms show ?thesis by (simp add: ValidateWebhookURL_def)
next
  case (Inr u)
  let ?err = "\<lambda>host. errs_New FetchPrivateAddressBlocked (''webhook URL points at '' @ host
     @ '', which is not reachable from outside this platform and is a common target for exfiltration'')"
  let ?host = "to_lower (ur_Hostname u)"
  have front: "ur_Scheme u = ''https''" "ur_Host u \<noteq> []" "\<not> ur_HasUser u"
    using assms Inr by (simp_all add: ValidateWebhookURL_def split: if_splits)
  have "first_some (\<lambda>blocked. if ?host = blocked then Some (?err ?host) else None) blocked_hosts = None"
    using assms front Inr by (cases "first_some (\<lambda>blocked. if ?host = blocked then Some (?err ?host) else None) blocked_hosts")
      (simp_all add: ValidateWebhookURL_def Let_def)
  then have "?host \<notin> set blocked_hosts" by (auto simp: first_some_None)
  moreover have "\<not> suffix ''.internal'' ?host" "\<not> suffix ''.local'' ?host"
    using assms front Inr by (auto simp: ValidateWebhookURL_def Let_def split: option.splits if_splits)
  ultimately show ?thesis using front Inr by blast
qed

end
