(* ===== verification/Email.thy ===== *)
theory Email
  imports Go_Json Go_Time Errs
begin

text \<open>
  \<^verbatim>\<open>services/notification/internal/email/email.go\<close>: the subject and the plain-text part of a message,
  written out from their templates, and the cleaning of the subject. The HTML part says the same
  through \<^verbatim>\<open>html/template\<close> and is not modelled.
\<close>

abbreviation KindScanCompleted :: string where "KindScanCompleted \<equiv> ''scan_completed''"
abbreviation KindNewCriticalFindings :: string where "KindNewCriticalFindings \<equiv> ''new_critical_findings''"
abbreviation KindCampaignFailed :: string where "KindCampaignFailed \<equiv> ''campaign_failed''"

record EmailData =
  ed_ProjectName :: string
  ed_CampaignName :: string
  ed_Status :: string
  ed_Components :: int
  ed_Findings :: int
  ed_Critical :: int
  ed_High :: int
  ed_EnginesUnavailable :: int
  ed_UnavailableEngines :: "string list"
  ed_URL :: string
  ed_OccurredAt :: string
  ed_Cause :: string

record EmailMessage =
  em_Subject :: string
  em_Text :: string

definition newline :: string where "newline = bytes [10]"
definition mail_dash :: string where "mail_dash = bytes [226, 128, 148]"

definition headings :: "(string \<times> string) list" where
  "headings = [(KindScanCompleted, ''A scan finished''), (KindNewCriticalFindings, ''New critical findings''),
     (KindCampaignFailed, ''A scheduled scan did not complete'')]"

definition subject_of :: "string \<Rightarrow> EmailData \<Rightarrow> string" where
  "subject_of kind d =
     (if kind = KindScanCompleted then ''Scan '' @ ed_Status d @ '' '' @ mail_dash @ '' '' @ ed_ProjectName d
      else if kind = KindNewCriticalFindings
      then decimal (ed_Critical d) @ '' new critical finding(s) '' @ mail_dash @ '' '' @ ed_ProjectName d
      else if kind = KindCampaignFailed then ''Scheduled scan failed '' @ mail_dash @ '' '' @ ed_CampaignName d
      else [])"

definition text_body :: "string \<Rightarrow> EmailData \<Rightarrow> bool \<Rightarrow> string" where
  "text_body heading d showCounts =
     heading @ newline @ newline @ ''Project: '' @ ed_ProjectName d @ newline
     @ (if ed_CampaignName d \<noteq> [] then ''Campaign: '' @ ed_CampaignName d @ newline else [])
     @ ''Status: '' @ ed_Status d @ newline @ ''When: '' @ ed_OccurredAt d @ newline
     @ (if showCounts
        then newline @ ''Components: '' @ decimal (ed_Components d) @ newline
          @ ''Findings: '' @ decimal (ed_Findings d) @ '' ('' @ decimal (ed_Critical d) @ '' critical, ''
          @ decimal (ed_High d) @ '' high)'' @ newline
        else [])
     @ (if ed_EnginesUnavailable d \<noteq> 0
        then newline @ decimal (ed_EnginesUnavailable d) @ '' engine(s) could not run''
          @ (if ed_UnavailableEngines d \<noteq> [] then '': '' @ join '', '' (ed_UnavailableEngines d) else []) @ ''.''
          @ newline @ ''Findings from the ecosystems those engines cover are NOT included in these numbers.'' @ newline
        else [])
     @ (if ed_Cause d \<noteq> [] then newline @ ''Cause: '' @ ed_Cause d @ newline else [])
     @ newline @ ''Open it: '' @ ed_URL d @ newline @ newline @ ''--'' @ newline
     @ ''This message carries no component or vulnerability detail. Sign in to see it.'' @ newline"

section \<open>The subject as a header\<close>

definition maxSubject :: nat where
  "maxSubject = 200"

definition header_rune :: "string \<Rightarrow> string" where
  "header_rune r = (if r = bytes [13] \<or> r = bytes [10] \<or> r = bytes [0] then '' '' else r)"

text \<open>The loop over the starts of the runes: \<open>i\<close> is where the rest begins, \<open>end1\<close> the last start within the budget.\<close>

fun last_start :: "nat \<Rightarrow> nat \<Rightarrow> nat \<Rightarrow> (string \<times> nat) list \<Rightarrow> nat" where
  "last_start budget i end1 [] = end1"
| "last_start budget i end1 ((r, n) # rs) =
     (if budget < i then end1 else last_start budget (i + n) i rs)"

definition sanitizeHeader :: "string \<Rightarrow> string" where
  "sanitizeHeader s =
     (let s = join '' '' (Go_Text.fields (map_runes header_rune s)) in
      if length s \<le> maxSubject then s
      else take (last_start (maxSubject - length ellipsis) 0 0 (runes s)) s @ ellipsis)"

definition Render :: "string \<Rightarrow> EmailData \<Rightarrow> instant \<Rightarrow> go_err + EmailMessage" where
  "Render kind d now =
     (case map_of headings kind of
        None \<Rightarrow> Inl (Plain (''email: '' @ quoted kind @ '' is not a message this build sends'') [])
      | Some heading \<Rightarrow>
          if ed_URL d = []
          then Inl (Plain (''email: '' @ quoted kind @ '' needs a URL; the body carries no detail without it'') [])
          else let d = (if ed_OccurredAt d = [] then d\<lparr>ed_OccurredAt := rfc3339 UTC now\<rparr> else d)
               in Inr \<lparr>em_Subject = sanitizeHeader (subject_of kind d),
                       em_Text = text_body heading d (kind \<noteq> KindCampaignFailed)\<rparr>)"

section \<open>A subject stays one line\<close>

lemma last_start_bound: "end1 \<le> budget \<Longrightarrow> last_start budget i end1 rs \<le> budget"
  by (induction budget i end1 rs rule: last_start.induct) simp_all

lemma set_join: "set (join sep ws) \<subseteq> set sep \<union> \<Union> (set ` set ws)"
  by (induction sep ws rule: join.induct) auto

lemma set_fields_from: "w' \<in> set (fields_from w s) \<Longrightarrow> set w' \<subseteq> set w \<union> set s"
proof (induction w s rule: fields_from.induct)
  case (2 w c cs)
  then show ?case
    using set_drop_subset [of "leading_space space_encodings (c # cs)" "c # cs"]
    by (fastforce simp: Let_def split: if_splits)
qed (auto split: if_splits)

lemma utf8_char_bytes: "utf8_char c w \<Longrightarrow> w \<noteq> [] \<Longrightarrow> x \<in> set (c # w) \<Longrightarrow> 128 \<le> byte x"
  by (auto simp: utf8_char_def utf8_lead_def is_cont_def list_all_iff split: if_splits)

text \<open>A rune is one character or bytes beyond ASCII.\<close>

lemma rune_length_SomeD:
  assumes "rune_length (c # cs) \<noteq> 0"
  shows "\<exists>m. rune_length (c # cs) = Suc m \<and> utf8_char c (take m cs)"
  using assms by (auto split: option.splits if_splits)

lemma runes_bytes: "rn \<in> set (runes s) \<Longrightarrow> length (fst rn) = 1 \<or> (\<forall>x \<in> set (fst rn). 128 \<le> byte x)"
proof (induction s rule: runes.induct)
  case (2 c cs)
  show ?case
  proof (cases "rune_length (c # cs) = 0")
    case True
    then show ?thesis using 2 by (auto simp: replacement_char_def bytes_def simp del: rune_length.simps)
  next
    case False
    then obtain m where m: "rune_length (c # cs) = Suc m" "utf8_char c (take m cs)" using rune_length_SomeD by blast
    have "length (c # take m cs) = 1 \<or> (\<forall>x \<in> set (c # take m cs). 128 \<le> byte x)"
      using utf8_char_bytes [OF m(2)] by (cases "take m cs = []") auto
    then show ?thesis using 2(2) [OF refl] 2(3) m(1) False by (auto simp del: rune_length.simps)
  qed
qed simp

text \<open>No byte of the subject ends a header line or a C string.\<close>

definition one_line :: "string \<Rightarrow> bool" where
  "one_line s \<longleftrightarrow> (\<forall>x \<in> set s. byte x \<noteq> 13 \<and> byte x \<noteq> 10 \<and> byte x \<noteq> 0)"

lemma header_rune_one_line:
  assumes "rn \<in> set (runes s)"
  shows "one_line (header_rune (fst rn))"
proof (cases "length (fst rn) = 1")
  case True
  then obtain c where c: "fst rn = [c]" by (auto simp: length_Suc_conv)
  have "c = char_of n \<longleftrightarrow> byte c = n" if "n < 256" for n :: nat using that by auto
  then show ?thesis by (simp add: one_line_def header_rune_def bytes_def c)
next
  case False
  then have "\<forall>x \<in> set (fst rn). 128 \<le> byte x" using runes_bytes [OF assms] by blast
  then show ?thesis by (fastforce simp: one_line_def header_rune_def)
qed

lemma one_line_fields: "one_line s \<Longrightarrow> one_line (join '' '' (Go_Text.fields s))"
  unfolding one_line_def Go_Text.fields_def
  using set_join [of "'' ''" "fields_from [] s"] set_fields_from [of _ "[]" s] by fastforce

lemma one_line_parts: "one_line (s @ t) \<longleftrightarrow> one_line s \<and> one_line t" "one_line s \<Longrightarrow> one_line (take n s)"
  by (auto simp: one_line_def dest: in_set_takeD)

lemma sanitizeHeader_one_line: "one_line (sanitizeHeader s)"
proof -
  have "one_line (map_runes header_rune s)"
    using header_rune_one_line [of _ s] unfolding one_line_def map_runes_def by fastforce
  then have "one_line (join '' '' (Go_Text.fields (map_runes header_rune s)))" by (rule one_line_fields)
  moreover have "one_line ellipsis" by (simp add: one_line_def ellipsis_def bytes_def)
  ultimately show ?thesis unfolding sanitizeHeader_def Let_def by (simp add: one_line_parts)
qed

lemma length_sanitizeHeader: "length (sanitizeHeader s) \<le> maxSubject"
  using last_start_bound [of 0 197 0 "runes (join '' '' (Go_Text.fields (map_runes header_rune s)))"]
  by (auto simp: sanitizeHeader_def Let_def maxSubject_def ellipsis_def bytes_def min_def)

text \<open>
  Whatever a project is called, the subject of a message is one header line of at most 200 bytes: it
  has no carriage return, no line feed and no NUL.
\<close>

theorem subject_is_one_header_line:
  assumes "Render kind d now = Inr m"
  shows "length (em_Subject m) \<le> 200 \<and> (\<forall>x \<in> set (em_Subject m). byte x \<noteq> 13 \<and> byte x \<noteq> 10 \<and> byte x \<noteq> 0)"
proof -
  have "\<exists>s. em_Subject m = sanitizeHeader s"
    using assms by (auto simp: Render_def Let_def split: option.splits if_splits)
  then show ?thesis
    using sanitizeHeader_one_line length_sanitizeHeader by (auto simp: one_line_def maxSubject_def)
qed

definition sample_data :: EmailData where
  "sample_data = \<lparr>ed_ProjectName = ''x'' @ bytes [13, 10] @ ''Bcc: a'', ed_CampaignName = [], ed_Status = ''failed'',
     ed_Components = 0, ed_Findings = 0, ed_Critical = 0, ed_High = 0, ed_EnginesUnavailable = 0,
     ed_UnavailableEngines = [], ed_URL = ''https://x/y'', ed_OccurredAt = ''now'', ed_Cause = []\<rparr>"

theorem subject_is_one_header_line_witness:
  "case Render KindScanCompleted sample_data 0 of Inl e \<Rightarrow> False | Inr m \<Rightarrow> length (em_Subject m) \<le> 200"
proof -
  obtain m where m: "Render KindScanCompleted sample_data 0 = Inr m"
    by (simp add: Render_def headings_def sample_data_def Let_def)
  then show ?thesis using subject_is_one_header_line [OF m] by simp
qed

end
