(* ===== verification/Delivery.thy ===== *)
theory Delivery
  imports Notify_Store Email
begin

text \<open>
  How the notification service delivers: the signed POST of \<^verbatim>\<open>internal/delivery/delivery.go\<close> with the
  secret of \<^verbatim>\<open>deps.go\<close>, the attempt that records its outcome (\<^verbatim>\<open>internal/worker/attempt.go\<close>), the
  consumer that fans an event out (\<^verbatim>\<open>consumer.go\<close>) and the poller that retries (\<^verbatim>\<open>poller.go\<close>). One
  handler's clock stands still. Mail is handed to the relay as subject and text.
\<close>

section \<open>The client\<close>

definition Timeout :: int where "Timeout = 10 * second_ns"
definition MaxResponseBytes :: nat where "MaxResponseBytes = 8 * 1024"

record DeliveryResult = Outcome +
  re_Response :: string
  re_NextRetryAt :: "instant option"
  re_DeadLettered :: bool

definition vaultSecrets_Resolve :: "string \<Rightarrow> string \<Rightarrow> string \<Rightarrow> (notify_db, go_err + string) state" where
  "vaultSecrets_Resolve tenantID subscriptionID storedRef =
     do { r \<leftarrow> Client_Get \<lparr>rf_TenantID = tenantID, rf_Kind = KindWebhookSecret, rf_ID = subscriptionID\<rparr> storedRef;
          ret (case r of
            Inl e \<Rightarrow> Inl e
          | Inr data \<Rightarrow> (case map_of data ''secret'' of
                None \<Rightarrow> Inl (Plain (''the vault entry for subscription '' @ subscriptionID @ '' has no secret field'') [])
              | Some secret \<Rightarrow> Inr secret)) }"

definition http_Do :: "hook_request \<Rightarrow> (notify_db, go_err + int \<times> string) state" where
  "http_Do req = State (\<lambda>w. (nd_receiver w req (length (nd_requests w)), w\<lparr>nd_requests := nd_requests w @ [req]\<rparr>))"

definition isBlockedAddress :: "go_err \<Rightarrow> bool" where
  "isBlockedAddress err = errs_Is err FetchPrivateAddressBlocked"

definition schedule :: "DeliveryResult \<Rightarrow> int \<Rightarrow> instant \<Rightarrow> DeliveryResult" where
  "schedule r attempt sentAt =
     (if ShouldDeadLetter (Outcome.truncate r) then r\<lparr>re_DeadLettered := True\<rparr>
      else if ou_Delivered r then r
      else r\<lparr>re_NextRetryAt := Some (sentAt + Backoff attempt)\<rparr>)"

definition transportFailure :: "go_err \<Rightarrow> int \<Rightarrow> instant \<Rightarrow> DeliveryResult" where
  "transportFailure err attempt sentAt =
     (let retryable = \<not> isBlockedAddress err;
          reason = (if isBlockedAddress err
            then ''the endpoint resolves to an address this platform will not connect to: '' @ err_text err
            else ''the endpoint could not be reached: '' @ err_text err)
      in schedule \<lparr>ou_Delivered = False, ou_Retryable = retryable, ou_Status = 0, ou_Attempt = attempt,
           ou_Reason = reason, re_Response = [], re_NextRetryAt = None, re_DeadLettered = False\<rparr> attempt sentAt)"

definition answered :: "int \<Rightarrow> string \<Rightarrow> int \<Rightarrow> instant \<Rightarrow> DeliveryResult" where
  "answered status raw attempt sentAt =
     schedule (Outcome.extend (Classify status attempt)
       (DeliveryResult.fields (take MaxResponseBytes raw) None False)) attempt sentAt"

definition hook_of :: "Subscription \<Rightarrow> Payload \<Rightarrow> string \<Rightarrow> string \<Rightarrow> instant \<Rightarrow> hook_request" where
  "hook_of sub payload body secret sentAt =
     \<lparr>hr_Target = sb_Target sub, hr_Body = body, hr_Signature = Sign body sentAt secret,
      hr_Timestamp = rfc3339 UTC sentAt, hr_DeliveryID = pa_DeliveryID payload, hr_Event = pa_Event payload\<rparr>"

definition Deliver :: "Subscription \<Rightarrow> Payload \<Rightarrow> int \<Rightarrow> (notify_db, go_err + DeliveryResult) state" where
  "Deliver sub payload attempt =
     (if sb_Kind sub \<noteq> KindWebhook
      then ret (Inl (Plain (''delivery: '' @ sb_ID sub @ '' is not a webhook subscription'') []))
      else case Encode payload of
        Inl e \<Rightarrow> ret (Inl e)
      | Inr body \<Rightarrow>
          do { r \<leftarrow> vaultSecrets_Resolve (sb_TenantID sub) (sb_ID sub) (sb_SecretRef sub);
               case r of
                 Inl e \<Rightarrow> ret (Inl (Plain (''resolve webhook secret for '' @ sb_ID sub) [e]))
               | Inr secret \<Rightarrow>
                   if secret = [] then ret (Inl (Plain (''webhook secret for '' @ sb_ID sub @ '' is empty'') []))
                   else do {
                     sentAt \<leftarrow> time_now;
                     w \<leftarrow> State_Monad.get;
                     case nd_parse w (sb_Target sub) of
                       Inl e \<Rightarrow> ret (Inl e)
                     | Inr _ \<Rightarrow>
                         do { resp \<leftarrow> http_Do (hook_of sub payload body secret sentAt);
                              case resp of
                                Inl e \<Rightarrow> ret (Inr (transportFailure e attempt sentAt))
                              | Inr (status, raw) \<Rightarrow> ret (Inr (answered status raw attempt sentAt)) } } })"

section \<open>One attempt\<close>

definition record_attempt ::
  "string \<Rightarrow> string \<Rightarrow> string \<Rightarrow> int \<Rightarrow> int \<Rightarrow> string \<Rightarrow> instant option \<Rightarrow> (notify_db, unit) state" where
  "record_attempt tenantID deliveryID status attempt responseCode cause nextRetryAt =
     do { _ \<leftarrow> RecordAttempt tenantID deliveryID status attempt responseCode cause nextRetryAt; ret () }"

definition deadLetter :: "string \<Rightarrow> string \<Rightarrow> int \<Rightarrow> string \<Rightarrow> (notify_db, unit) state" where
  "deadLetter tenantID deliveryID attempt cause =
     record_attempt tenantID deliveryID delivery_dead attempt 0 cause None"

definition emailKindFor :: "string \<Rightarrow> string option" where
  "emailKindFor e =
     (if e = EventScanCompleted then Some KindScanCompleted
      else if e = EventNewCriticalFindings then Some KindNewCriticalFindings
      else if e = EventCampaignFailed then Some KindCampaignFailed else None)"

definition toEmailData :: "Payload \<Rightarrow> EmailData" where
  "toEmailData p = \<lparr>ed_ProjectName = pa_ProjectID p, ed_CampaignName = pa_CampaignID p, ed_Status = pa_Status p,
     ed_Components = ct_Components (pa_Counts p), ed_Findings = ct_Findings (pa_Counts p),
     ed_Critical = ct_Critical (pa_Counts p), ed_High = ct_High (pa_Counts p),
     ed_EnginesUnavailable = ct_EnginesUnavailable (pa_Counts p), ed_UnavailableEngines = [],
     ed_URL = pa_URL p, ed_OccurredAt = pa_Timestamp p, ed_Cause = []\<rparr>"

definition attemptWebhook :: "string \<Rightarrow> string \<Rightarrow> Subscription \<Rightarrow> Payload \<Rightarrow> int \<Rightarrow> (notify_db, unit) state" where
  "attemptWebhook tenantID deliveryID sub payload attempt =
     do { r \<leftarrow> Deliver sub payload attempt;
          case r of
            Inl e \<Rightarrow> deadLetter tenantID deliveryID attempt (err_text e)
          | Inr result \<Rightarrow>
              let status = (if ou_Delivered result then delivery_delivered
                            else if re_DeadLettered result then delivery_dead else delivery_pending)
              in record_attempt tenantID deliveryID status (ou_Attempt result) (ou_Status result)
                   (ou_Reason result) (re_NextRetryAt result) }"

text \<open>The mail names no delivery; the history keeps which one it was sent for.\<close>

definition mail_Send :: "string \<Rightarrow> EmailMessage \<Rightarrow> string \<Rightarrow> (notify_db, go_err + unit) state" where
  "mail_Send to msg deliveryID = State (\<lambda>w.
     let m = \<lparr>ml_To = to, ml_Subject = em_Subject msg, ml_Text = em_Text msg, ml_DeliveryID = deliveryID\<rparr>
     in (case nd_relay w m (length (nd_mails w)) of Some e \<Rightarrow> Inl (Plain ''smtp'' [e]) | None \<Rightarrow> Inr (),
         w\<lparr>nd_mails := nd_mails w @ [m]\<rparr>))"

definition attemptEmail :: "string \<Rightarrow> string \<Rightarrow> Subscription \<Rightarrow> Payload \<Rightarrow> int \<Rightarrow> (notify_db, unit) state" where
  "attemptEmail tenantID deliveryID sub payload attempt =
     (case emailKindFor (pa_Event payload) of
        None \<Rightarrow> deadLetter tenantID deliveryID attempt (''event '' @ quoted (pa_Event payload) @ '' has no email form'')
      | Some kind \<Rightarrow>
          do { now \<leftarrow> time_now;
               case Render kind (toEmailData payload) now of
                 Inl e \<Rightarrow> deadLetter tenantID deliveryID attempt (err_text e)
               | Inr msg \<Rightarrow>
                   do { r \<leftarrow> mail_Send (sb_Target sub) msg deliveryID;
                        case r of
                          Inl e \<Rightarrow>
                            if MaxAttempts \<le> attempt then deadLetter tenantID deliveryID attempt (err_text e)
                            else record_attempt tenantID deliveryID delivery_pending attempt 0 (err_text e)
                                   (Some (now + Backoff attempt))
                        | Inr _ \<Rightarrow> record_attempt tenantID deliveryID delivery_delivered attempt 0 [] None } })"

definition Attempt :: "string \<Rightarrow> Subscription \<Rightarrow> string \<Rightarrow> Payload \<Rightarrow> int \<Rightarrow> (notify_db, unit) state" where
  "Attempt tenantID sub deliveryID payload attempt =
     (let payload = payload\<lparr>pa_DeliveryID := deliveryID\<rparr> in
      if sb_Kind sub = KindWebhook then attemptWebhook tenantID deliveryID sub payload attempt
      else if sb_Kind sub = KindEmail then attemptEmail tenantID deliveryID sub payload attempt
      else deadLetter tenantID deliveryID attempt
             (''subscription '' @ sb_ID sub @ '' has an unknown kind '' @ quoted (sb_Kind sub)))"

section \<open>The consumer\<close>

definition Notify_Validate :: "NotifyEventV1 \<Rightarrow> go_err + unit" where
  "Notify_Validate e =
     (if ne_Event e = [] then Inl (Plain ''notify event has no event type'' [])
      else if ne_TenantID e = [] then Inl (Plain ''notify event has no tenant id'' [])
      else if ne_OccurredAt e = [] then Inl (Plain ''notify event has no occurred_at'' [])
      else Inr ())"

definition toWebhookPayload :: "NotifyEventV1 \<Rightarrow> Payload" where
  "toWebhookPayload e = \<lparr>pa_Event = ne_Event e, pa_Timestamp = ne_OccurredAt e, pa_DeliveryID = [],
     pa_TenantID = ne_TenantID e, pa_ProjectID = ne_ProjectID e, pa_ScanID = ne_ScanID e,
     pa_ReportID = ne_ReportID e, pa_CampaignID = ne_CampaignID e, pa_Status = ne_Status e,
     pa_Counts = \<lparr>ct_Components = ne_Components e, ct_Findings = ne_Findings e, ct_Critical = ne_Critical e,
        ct_High = ne_High e, ct_EnginesUnavailable = ne_EnginesUnavailable e\<rparr>,
     pa_URL = ne_URL e\<rparr>"

definition fan_out :: "string \<Rightarrow> Payload \<Rightarrow> unit \<Rightarrow> Subscription \<Rightarrow> (notify_db, unit) state" where
  "fan_out tenantID payload u sub =
     (if sb_Kind sub = KindEmail \<and> emailKindFor (pa_Event payload) = None then ret ()
      else do { r \<leftarrow> EnqueueDelivery tenantID (sb_ID sub) payload;
                case r of Inl _ \<Rightarrow> ret () | Inr i \<Rightarrow> Attempt tenantID sub i payload 1 })"

definition Consumer_handle :: "NotifyEventV1 \<Rightarrow> (notify_db, go_err + unit) state" where
  "Consumer_handle evt =
     (case Notify_Validate evt of
        Inl e \<Rightarrow> ret (Inl e)
      | Inr _ \<Rightarrow>
          if \<not> webhook_Event_Valid (ne_Event evt)
          then ret (Inl (Plain (''unknown notify event '' @ quoted (ne_Event evt)) []))
          else do { r \<leftarrow> MatchingSubscriptions (ne_TenantID evt) (ne_Event evt);
                    case r of
                      Inl e \<Rightarrow> ret (Inl (Plain [] [ErrRetry, e]))
                    | Inr subs \<Rightarrow>
                        do { _ \<leftarrow> fold_state (fan_out (ne_TenantID evt) (toWebhookPayload evt)) () subs;
                             ret (Inr ()) } })"

section \<open>The poller\<close>

definition ClaimBatchSize :: int where "ClaimBatchSize = 100"

definition retry_one :: "unit \<Rightarrow> Delivery \<Rightarrow> (notify_db, unit) state" where
  "retry_one u d =
     do { r \<leftarrow> GetSubscription (dl_TenantID d) (dl_SubscriptionID d);
          case r of
            Inl e \<Rightarrow> deadLetter (dl_TenantID d) (dl_ID d) (dl_Attempt d) (err_text e)
          | Inr sub \<Rightarrow> Attempt (dl_TenantID d) sub (dl_ID d) (dl_Payload d) (dl_Attempt d + 1) }"

definition Poller_tick :: "(notify_db, unit) state" where
  "Poller_tick =
     do { now \<leftarrow> time_now;
          r \<leftarrow> ClaimDueDeliveries now ClaimBatchSize;
          case r of Inl _ \<Rightarrow> ret () | Inr due \<Rightarrow> fold_state retry_one () due }"

end
