(* ===== verification/Notify_Api.thy ===== *)
theory Notify_Api
  imports Delivery Authz
begin

text \<open>
  The HTTP surface of the notification service: \<^verbatim>\<open>internal/handler/handler.go\<close> with the routes of
  \<^verbatim>\<open>routes.go\<close> that change subscriptions or read them, after the body is decoded and the tenant is
  known. Row-level security and the vault's paths keep the tenants apart.
\<close>

section \<open>Answers\<close>

record SubscriptionResponse =
  so_ID :: string
  so_Kind :: string
  so_Target :: string
  so_Events :: "string list"
  so_HasSecret :: bool
  so_Enabled :: bool

definition toResponse :: "Subscription \<Rightarrow> SubscriptionResponse" where
  "toResponse s = \<lparr>so_ID = sb_ID s, so_Kind = sb_Kind s, so_Target = sb_Target s, so_Events = slice (sb_Events s),
     so_HasSecret = (sb_SecretRef s \<noteq> []), so_Enabled = sb_Enabled s\<rparr>"

record DeliveryResponse =
  dr_ID :: string
  dr_EventType :: string
  dr_Attempt :: int
  dr_Status :: string
  dr_ResponseCode :: int
  dr_Error :: string
  dr_NextRetryAt :: string
  dr_CreatedAt :: string
  dr_DeliveredAt :: string

definition time_text :: "instant option \<Rightarrow> string" where
  "time_text t = (case t of None \<Rightarrow> [] | Some at \<Rightarrow> rfc3339 UTC at)"

definition toDeliveryResponse :: "Delivery \<Rightarrow> DeliveryResponse" where
  "toDeliveryResponse d = \<lparr>dr_ID = dl_ID d, dr_EventType = dl_EventType d, dr_Attempt = dl_Attempt d,
     dr_Status = dl_Status d, dr_ResponseCode = dl_ResponseCode d, dr_Error = dl_Error d,
     dr_NextRetryAt = time_text (dl_NextRetryAt d), dr_CreatedAt = rfc3339 UTC (dl_CreatedAt d),
     dr_DeliveredAt = time_text (dl_DeliveredAt d)\<rparr>"

section \<open>Handlers\<close>

record SubscriptionRequest =
  sq_Kind :: string
  sq_Target :: string
  sq_Events :: "string list option"
  sq_Secret :: string

definition pendingRef :: string where "pendingRef = ''pending''"
definition minSecretLen :: nat where "minSecretLen = 32"

text \<open>\<^verbatim>\<open>rand.Read\<close> fills the buffer or ends the program.\<close>

definition generateSecret :: "(notify_db, string) state" where
  "generateSecret = State (\<lambda>w. (hex_encode (nd_random w), w))"

definition secret_ref :: "string \<Rightarrow> string \<Rightarrow> Ref" where
  "secret_ref tenantID i = \<lparr>rf_TenantID = tenantID, rf_Kind = KindWebhookSecret, rf_ID = i\<rparr>"

text \<open>What follows the insert of a webhook: the secret is stored and the row points at it.\<close>

definition store_secret :: "string \<Rightarrow> Subscription \<Rightarrow> string \<Rightarrow> (notify_db, go_err + Subscription) state" where
  "store_secret tenantID created secret =
     do { r \<leftarrow> Client_Put (secret_ref tenantID (sb_ID created)) [(''secret'', secret)];
          case r of
            Inl e \<Rightarrow> do { _ \<leftarrow> DeleteSubscription tenantID (sb_ID created); ret (Inl e) }
          | Inr stored \<Rightarrow> SetSubscriptionSecretRef tenantID (sb_ID created) stored }"

definition insert_subscription ::
  "string \<Rightarrow> Subscription \<Rightarrow> string \<Rightarrow> (notify_db, go_err + SubscriptionResponse \<times> string) state" where
  "insert_subscription tenantID sub secret =
     do { r \<leftarrow> CreateSubscription tenantID sub;
          case r of
            Inl e \<Rightarrow> ret (Inl e)
          | Inr created \<Rightarrow>
              if sb_Kind sub = KindWebhook
              then do { r \<leftarrow> store_secret tenantID created secret;
                        ret (map_sum id (\<lambda>updated. (toResponse updated, secret)) r) }
              else ret (Inr (toResponse created, secret)) }"

definition requested_subscription :: "string \<Rightarrow> SubscriptionRequest \<Rightarrow> Subscription" where
  "requested_subscription tenantID req =
     \<lparr>sb_ID = [], sb_TenantID = tenantID, sb_Kind = sq_Kind req, sb_Target = sq_Target req, sb_Events = sq_Events req,
      sb_SecretRef = (if sq_Kind req \<noteq> KindWebhook then [] else pendingRef), sb_Enabled = True, sb_CreatedBy = []\<rparr>"

definition Notify_Create ::
  "string \<Rightarrow> SubscriptionRequest \<Rightarrow> (notify_db, go_err + SubscriptionResponse \<times> string) state" where
  "Notify_Create tenantID req =
     do { w \<leftarrow> State_Monad.get;
          let sub = requested_subscription tenantID req;
          case Subscription_Validate (nd_parse w) sub of
            Inl e \<Rightarrow> ret (Inl e)
          | Inr _ \<Rightarrow>
              if sb_Kind sub \<noteq> KindWebhook then insert_subscription tenantID sub []
              else do {
                secret \<leftarrow> (if sq_Secret req = [] then generateSecret else ret (sq_Secret req));
                if length secret < minSecretLen
                then ret (Inl (errs_New ValidationFieldInvalid
                  (''a webhook signing secret must be at least '' @ itoa minSecretLen
                   @ '' characters; a short secret is brute-forceable against a captured delivery'')))
                else insert_subscription tenantID sub secret } }"

definition mapNotFound :: "go_err \<Rightarrow> go_err" where
  "mapNotFound err = (if errors_Is err ErrNotFound then errs_New NotFoundResource ''no such subscription'' else err)"

definition Notify_List :: "string \<Rightarrow> (notify_db, go_err + SubscriptionResponse list) state" where
  "Notify_List tenantID =
     do { r \<leftarrow> ListSubscriptions tenantID; ret (map_sum id (map toResponse) r) }"

definition Notify_SetEnabled :: "string \<Rightarrow> string \<Rightarrow> bool \<Rightarrow> (notify_db, go_err + SubscriptionResponse) state" where
  "Notify_SetEnabled tenantID i enabled =
     do { r \<leftarrow> SetSubscriptionEnabled tenantID i enabled; ret (map_sum mapNotFound toResponse r) }"

definition Notify_Delete :: "string \<Rightarrow> string \<Rightarrow> (notify_db, go_err + unit) state" where
  "Notify_Delete tenantID i =
     do { r \<leftarrow> DeleteSubscription tenantID i;
          case r of
            Inl e \<Rightarrow> ret (Inl (mapNotFound e))
          | Inr _ \<Rightarrow> (case Ref_Path (secret_ref tenantID i) of
                Inl _ \<Rightarrow> ret (Inr ())
              | Inr path \<Rightarrow> do { _ \<leftarrow> Client_Delete (secret_ref tenantID i) path; ret (Inr ()) }) }"

text \<open>A limit that is no number, or out of range, ends up at the default.\<close>

definition Notify_Deliveries :: "string \<Rightarrow> string \<Rightarrow> string \<Rightarrow> (notify_db, go_err + DeliveryResponse list) state" where
  "Notify_Deliveries tenantID i limit =
     do { r \<leftarrow> ListDeliveries tenantID i (case atoi limit of Some n \<Rightarrow> n | None \<Rightarrow> 0);
          ret (map_sum id (map toDeliveryResponse) r) }"

section \<open>Routes\<close>

definition notification_routes :: "(string \<times> Permission) list" where
  "notification_routes =
     [(''POST /v1/notifications/subscriptions'', (ResourceTenant, ActionUpdate)),
      (''GET /v1/notifications/subscriptions'', (ResourceTenant, ActionRead)),
      (''POST /v1/notifications/subscriptions/{id}/enabled'', (ResourceTenant, ActionUpdate)),
      (''DELETE /v1/notifications/subscriptions/{id}'', (ResourceTenant, ActionUpdate)),
      (''GET /v1/notifications/subscriptions/{id}/deliveries'', (ResourceTenant, ActionRead)),
      (''GET /v1/notifications/events'', (ResourceTenant, ActionRead))]"

end
