(* ===== verification/Notify_Laws.thy ===== *)
theory Notify_Laws
  imports Notify_Api
begin

text \<open>
  What the operations of the notification service can change: a delivery attempt sends at most one
  message and settles at most its own row; the other operations send nothing.
\<close>

section \<open>Fields\<close>

lemma nd_after_io [simp]:
  "nd_subscriptions (after_io w) = nd_subscriptions w" "nd_deliveries (after_io w) = nd_deliveries w"
  "nd_requests (after_io w) = nd_requests w" "nd_mails (after_io w) = nd_mails w"
  "nd_receiver (after_io w) = nd_receiver w" "nd_relay (after_io w) = nd_relay w"
  "nd_parse (after_io w) = nd_parse w" "nd_random (after_io w) = nd_random w"
  by (simp_all add: after_io_def)

lemma nd_drop_id [simp]:
  "nd_subscriptions (drop_id w) = nd_subscriptions w" "nd_deliveries (drop_id w) = nd_deliveries w"
  "nd_requests (drop_id w) = nd_requests w" "nd_mails (drop_id w) = nd_mails w"
  "nd_receiver (drop_id w) = nd_receiver w" "nd_relay (drop_id w) = nd_relay w"
  "nd_parse (drop_id w) = nd_parse w" "nd_random (drop_id w) = nd_random w"
  "ve_secrets (drop_id w) = ve_secrets w" "en_next (drop_id w) = Suc (en_next w)"
  by (simp_all add: drop_id_def)

section \<open>Messages\<close>

text \<open>\<open>tells rs ms\<close>: the requests \<open>rs\<close> and the mails \<open>ms\<close> go out, and nothing else but outcomes of I/O.\<close>

definition tells :: "hook_request list \<Rightarrow> mail_sent list \<Rightarrow> notify_db \<Rightarrow> notify_db \<Rightarrow> bool" where
  "tells rs ms w w' \<longleftrightarrow> nd_subscriptions w' = nd_subscriptions w \<and> nd_deliveries w' = nd_deliveries w
     \<and> nd_parse w' = nd_parse w \<and> en_next w' = en_next w \<and> en_uuid w' = en_uuid w \<and> en_clock w' = en_clock w
     \<and> nd_requests w' = nd_requests w @ rs \<and> nd_mails w' = nd_mails w @ ms"

lemma tells_trans: "tells rs ms u v \<Longrightarrow> tells rs' ms' v w \<Longrightarrow> tells (rs @ rs') (ms @ ms') u w"
  by (auto simp: tells_def)

lemma tells_nothing [simp]: "tells [] [] w w" "tells [] [] w (after_io w)"
  by (simp_all add: tells_def)

lemma tells_Client_Get: "tells [] [] w (snd (run_state (Client_Get r s) w))"
  by (auto simp: Client_Get_def vaultRequest_def kv_read_def Let_def split: sum.splits option.splits prod.splits)

lemma tells_Resolve: "tells [] [] w (snd (run_state (vaultSecrets_Resolve t s ref) w))"
  using tells_Client_Get [of w "\<lparr>rf_TenantID = t, rf_Kind = KindWebhookSecret, rf_ID = s\<rparr>" ref]
  by (auto simp: vaultSecrets_Resolve_def split: prod.splits)

lemma run_Resolve_reliable:
  assumes "reliable w" "Ref_Path \<lparr>rf_TenantID = t, rf_Kind = KindWebhookSecret, rf_ID = s\<rparr> = Inr path"
    and "ve_secrets w path = Some [(''secret'', secret)]"
  shows "run_state (vaultSecrets_Resolve t s path) w = (Inr secret, w)"
  using assms by (simp add: vaultSecrets_Resolve_def Client_Get_def vaultRequest_def kv_read_def checkOwnership_def)

text \<open>The message of one attempt at a delivery: none, the signed request, or the rendered mail.\<close>

definition message_for ::
  "string \<Rightarrow> Subscription \<Rightarrow> Payload \<Rightarrow> hook_request list \<Rightarrow> mail_sent list \<Rightarrow> bool" where
  "message_for i sub p rs ms \<longleftrightarrow> rs = [] \<and> ms = []
     \<or> sb_Kind sub = KindWebhook \<and> ms = [] \<and> (\<exists>body secret at. Encode (p\<lparr>pa_DeliveryID := i\<rparr>) = Inr body \<and> secret \<noteq> []
          \<and> rs = [hook_of sub (p\<lparr>pa_DeliveryID := i\<rparr>) body secret at])
     \<or> sb_Kind sub = KindEmail \<and> rs = [] \<and> (\<exists>kind d now msg. Render kind d now = Inr msg
          \<and> ms = [\<lparr>ml_To = sb_Target sub, ml_Subject = em_Subject msg, ml_Text = em_Text msg, ml_DeliveryID = i\<rparr>])"

text \<open>How many messages went out for a delivery.\<close>

definition messages_for :: "hook_request list \<Rightarrow> mail_sent list \<Rightarrow> string \<Rightarrow> nat" where
  "messages_for rs ms i = length (filter (\<lambda>r. hr_DeliveryID r = i) rs) + length (filter (\<lambda>m. ml_DeliveryID m = i) ms)"

definition posts :: "notify_db \<Rightarrow> string \<Rightarrow> nat" where
  "posts w = messages_for (nd_requests w) (nd_mails w)"

lemma messages_for_append [simp]:
  "messages_for (rs @ rs') (ms @ ms') i = messages_for rs ms i + messages_for rs' ms' i"
  "messages_for [] [] i = 0"
  by (simp_all add: messages_for_def)

lemma message_for_count:
  "message_for i sub p rs ms \<Longrightarrow> messages_for rs ms j \<le> (if j = i then 1 else 0)"
  by (auto simp: message_for_def messages_for_def hook_of_def)

text \<open>Every result of the client carries the attempt, and a retry only before the last attempt.\<close>

definition proper_result :: "int \<Rightarrow> go_err + DeliveryResult \<Rightarrow> bool" where
  "proper_result attempt r = (case r of
     Inl _ \<Rightarrow> True
   | Inr x \<Rightarrow> ou_Attempt x = attempt \<and> (\<not> ou_Delivered x \<longrightarrow> \<not> re_DeadLettered x \<longrightarrow> attempt < MaxAttempts))"

lemma schedule_simps [simp]:
  "ou_Attempt (schedule r n at) = ou_Attempt r" "ou_Delivered (schedule r n at) = ou_Delivered r"
  "ou_Status (schedule r n at) = ou_Status r" "ou_Reason (schedule r n at) = ou_Reason r"
  by (simp_all add: schedule_def)

lemma schedule_pending:
  "\<not> ou_Delivered (schedule r n at) \<Longrightarrow> \<not> re_DeadLettered (schedule r n at) \<Longrightarrow> ou_Attempt r < MaxAttempts"
  by (auto simp: schedule_def ShouldDeadLetter_def Outcome.defs split: if_splits)

lemma Classify_Attempt [simp]: "ou_Attempt (Classify status n) = n"
  by (simp add: Classify_def Let_def)

lemma extend_simps [simp]:
  "ou_Attempt (Outcome.extend o1 x) = ou_Attempt o1" "ou_Delivered (Outcome.extend o1 x) = ou_Delivered o1"
  "ou_Status (Outcome.extend o1 x) = ou_Status o1" "ou_Reason (Outcome.extend o1 x) = ou_Reason o1"
  "ou_Retryable (Outcome.extend o1 x) = ou_Retryable o1"
  by (simp_all add: Outcome.defs)

lemma proper_schedule: "ou_Attempt r = n \<Longrightarrow> proper_result n (Inr (schedule r n at))"
  using schedule_pending [of r n at] by (simp add: proper_result_def)

lemma proper_transportFailure: "proper_result n (Inr (transportFailure e n at))"
  by (simp add: transportFailure_def Let_def proper_schedule)

lemma proper_answered: "proper_result n (Inr (answered st raw n at))"
  by (simp add: answered_def proper_schedule)

text \<open>The run of a delivery whose payload is complete, from the secret on.\<close>

lemma run_Deliver:
  assumes "sb_Kind sub = KindWebhook" "Encode payload = Inr body"
    and "run_state (vaultSecrets_Resolve (sb_TenantID sub) (sb_ID sub) (sb_SecretRef sub)) w = (s, v)"
  shows "run_state (Deliver sub payload n) w = (case s of
     Inl e \<Rightarrow> (Inl (Plain (''resolve webhook secret for '' @ sb_ID sub) [e]), v)
   | Inr secret \<Rightarrow>
       if secret = [] then (Inl (Plain (''webhook secret for '' @ sb_ID sub @ '' is empty'') []), v)
       else case nd_parse v (sb_Target sub) of
         Inl e \<Rightarrow> (Inl e, v)
       | Inr _ \<Rightarrow> let req = hook_of sub payload body secret (en_clock v) in
           (case nd_receiver v req (length (nd_requests v)) of
              Inl e \<Rightarrow> Inr (transportFailure e n (en_clock v))
            | Inr (st, raw) \<Rightarrow> Inr (answered st raw n (en_clock v)),
            v\<lparr>nd_requests := nd_requests v @ [req]\<rparr>))"
  using assms by (auto simp: Deliver_def run_simps http_Do_def Let_def split: sum.splits prod.splits)

lemma Deliver_refused:
  assumes "sb_Kind sub \<noteq> KindWebhook \<or> (\<forall>body. Encode q \<noteq> Inr body)"
  shows "\<exists>e. run_state (Deliver sub q n) w = (Inl e, w)"
  using assms by (cases "sb_Kind sub = KindWebhook"; cases "Encode q") (simp_all add: Deliver_def)

lemma Deliver_effect:
  assumes run: "run_state (Deliver sub q n) w = (r, w')" and q: "q = p\<lparr>pa_DeliveryID := i\<rparr>"
  shows "proper_result n r \<and> (\<exists>rs. tells rs [] w w' \<and> message_for i sub p rs [])"
proof -
  have silent: "message_for i sub p [] []" by (simp add: message_for_def)
  show ?thesis
  proof (cases "sb_Kind sub = KindWebhook \<and> (\<exists>body. Encode q = Inr body)")
    case False
    then obtain e where "run_state (Deliver sub q n) w = (Inl e, w)" using Deliver_refused by blast
    with run have "r = Inl e" "w' = w" by simp_all
    then have "proper_result n r" "tells [] [] w w'" by (simp_all add: proper_result_def)
    with silent show ?thesis by blast
  next
    case True
    then obtain body where body: "Encode q = Inr body" and kind: "sb_Kind sub = KindWebhook" by blast
    obtain s v where res: "run_state (vaultSecrets_Resolve (sb_TenantID sub) (sb_ID sub) (sb_SecretRef sub)) w = (s, v)"
      by fastforce
    have v: "tells [] [] w v" using tells_Resolve [of w] res by (metis snd_conv)
    note run' = run [unfolded run_Deliver [OF kind body res, of n]]
    show ?thesis
    proof (cases "\<exists>secret u. s = Inr secret \<and> secret \<noteq> [] \<and> nd_parse v (sb_Target sub) = Inr u")
      case False
      with run' have "(\<exists>e. r = Inl e) \<and> w' = v"
        by (cases s; cases "nd_parse v (sb_Target sub)") (auto split: if_splits)
      with silent v show ?thesis by (auto simp: proper_result_def)
    next
      case True
      then obtain secret u where s: "s = Inr secret" "secret \<noteq> []" "nd_parse v (sb_Target sub) = Inr u" by blast
      let ?req = "hook_of sub q body secret (en_clock v)"
      have w': "w' = v\<lparr>nd_requests := nd_requests v @ [?req]\<rparr>" and r: "proper_result n r"
        using run' proper_transportFailure proper_answered by (auto simp: s Let_def split: sum.splits prod.splits)
      have "tells [?req] [] v w'" by (simp add: w' tells_def)
      then have "tells [?req] [] w w'" using tells_trans [OF v] by fastforce
      moreover have "message_for i sub p [?req] []" unfolding message_for_def using kind body s(2) q by blast
      ultimately show ?thesis using r by blast
    qed
  qed
qed

section \<open>Recording the outcome\<close>

text \<open>
  \<open>settles n f\<close>: a row keeps what it is about, gets the attempt \<open>n\<close>, and is delivered, dead-lettered
  or, before the last attempt, pending.
\<close>

definition settles :: "int \<Rightarrow> (Delivery \<Rightarrow> Delivery) \<Rightarrow> bool" where
  "settles n f \<longleftrightarrow> (\<forall>d. dl_ID (f d) = dl_ID d \<and> dl_TenantID (f d) = dl_TenantID d
     \<and> dl_SubscriptionID (f d) = dl_SubscriptionID d \<and> dl_EventType (f d) = dl_EventType d
     \<and> dl_Payload (f d) = dl_Payload d \<and> dl_Attempt (f d) = n
     \<and> (dl_Status (f d) = delivery_delivered \<and> dl_DeliveredAt (f d) \<noteq> None \<or> dl_Status (f d) = delivery_dead
        \<or> dl_Status (f d) = delivery_pending \<and> n < MaxAttempts))"

definition attempted ::
  "string \<Rightarrow> string \<Rightarrow> int \<Rightarrow> hook_request list \<Rightarrow> mail_sent list \<Rightarrow> notify_db \<Rightarrow> notify_db \<Rightarrow> bool" where
  "attempted t i n rs ms w w' \<longleftrightarrow> nd_subscriptions w' = nd_subscriptions w
     \<and> nd_parse w' = nd_parse w \<and> en_next w' = en_next w \<and> en_uuid w' = en_uuid w
     \<and> nd_requests w' = nd_requests w @ rs \<and> nd_mails w' = nd_mails w @ ms
     \<and> (nd_deliveries w' = nd_deliveries w \<or>
        (\<exists>f. settles n f \<and> nd_deliveries w' = map (\<lambda>d. if own_delivery t i d then f d else d) (nd_deliveries w)))"

lemma attempted_tells: "tells rs ms u v \<Longrightarrow> attempted t i n [] [] v w \<Longrightarrow> attempted t i n rs ms u w"
  unfolding tells_def attempted_def by (elim conjE) (intro conjI; simp)

lemma record_attempted:
  assumes "st = delivery_delivered \<or> st = delivery_dead \<or> st = delivery_pending \<and> n < MaxAttempts"
  shows "attempted t i n [] [] w (snd (run_state (record_attempt t i st n rc ca at) w))"
proof -
  let ?f = "\<lambda>d. d\<lparr>dl_Status := st, dl_Attempt := n, dl_ResponseCode := rc, dl_Error := ca, dl_NextRetryAt := at,
                 dl_DeliveredAt := (if st = delivery_delivered then Some (en_clock w) else dl_DeliveredAt d)\<rparr>"
  have f: "settles n ?f" using assms by (auto simp: settles_def)
  have "snd (run_state (record_attempt t i st n rc ca at) w) \<in>
      {w, after_io w, (after_io w)\<lparr>nd_deliveries := map (\<lambda>d. if own_delivery t i d then ?f d else d) (nd_deliveries w)\<rparr>}"
    by (simp add: record_attempt_def RecordAttempt_def notify_wrapped_def run_WithTenant split: prod.splits)
  then show ?thesis using f by (auto simp: attempted_def)
qed

lemmas record_delivered = record_attempted [of delivery_delivered, simplified]
lemmas record_dead = record_attempted [of delivery_dead, simplified]

lemma deadLetter_attempted: "attempted t i n [] [] w (snd (run_state (deadLetter t i n c) w))"
  by (simp add: deadLetter_def record_dead)

lemma attempted_webhook:
  "\<exists>rs. attempted t i n rs [] w (snd (run_state (attemptWebhook t i sub (p\<lparr>pa_DeliveryID := i\<rparr>) n) w))
     \<and> message_for i sub p rs []"
proof -
  obtain r v where run: "run_state (Deliver sub (p\<lparr>pa_DeliveryID := i\<rparr>) n) w = (r, v)" by fastforce
  then obtain rs where rs: "tells rs [] w v" "message_for i sub p rs []" and r: "proper_result n r"
    using Deliver_effect [OF run refl] by blast
  have "attempted t i n rs [] w (snd (run_state (attemptWebhook t i sub (p\<lparr>pa_DeliveryID := i\<rparr>) n) w))"
  proof (cases r)
    case (Inl e)
    then show ?thesis using attempted_tells [OF rs(1) deadLetter_attempted] by (simp add: attemptWebhook_def run)
  next
    case (Inr x)
    let ?st = "if ou_Delivered x then delivery_delivered else if re_DeadLettered x then delivery_dead else delivery_pending"
    have n: "ou_Attempt x = n" and "?st = delivery_delivered \<or> ?st = delivery_dead \<or> ?st = delivery_pending \<and> n < MaxAttempts"
      using r by (auto simp: proper_result_def Inr)
    from attempted_tells [OF rs(1) record_attempted [OF this(2)]] show ?thesis
      by (simp add: attemptWebhook_def run Inr n Let_def)
  qed
  with rs(2) show ?thesis by blast
qed

lemma attempted_email:
  assumes "sb_Kind sub = KindEmail"
  shows "\<exists>ms. attempted t i n [] ms w (snd (run_state (attemptEmail t i sub p n) w)) \<and> message_for i sub q [] ms"
proof (cases "\<exists>kind msg. emailKindFor (pa_Event p) = Some kind \<and> Render kind (toEmailData p) (en_clock w) = Inr msg")
  case False
  have "attempted t i n [] [] w (snd (run_state (attemptEmail t i sub p n) w))"
    using False deadLetter_attempted
    by (cases "emailKindFor (pa_Event p)"; cases "Render (the (emailKindFor (pa_Event p))) (toEmailData p) (en_clock w)")
      (simp_all add: attemptEmail_def run_simps)
  moreover have "message_for i sub q [] []" by (simp add: message_for_def)
  ultimately show ?thesis by blast
next
  case True
  then obtain kind msg where k: "emailKindFor (pa_Event p) = Some kind" and m: "Render kind (toEmailData p) (en_clock w) = Inr msg"
    by blast
  let ?m = "\<lparr>ml_To = sb_Target sub, ml_Subject = em_Subject msg, ml_Text = em_Text msg, ml_DeliveryID = i\<rparr>"
  let ?v = "w\<lparr>nd_mails := nd_mails w @ [?m]\<rparr>"
  have v: "tells [] [?m] w ?v" by (simp add: tells_def)
  have send: "run_state (mail_Send (sb_Target sub) msg i) w
      = (case nd_relay w ?m (length (nd_mails w)) of Some e \<Rightarrow> Inl (Plain ''smtp'' [e]) | None \<Rightarrow> Inr (), ?v)"
    by (simp add: mail_Send_def Let_def)
  note rest = attempted_tells [OF v record_dead] attempted_tells [OF v record_delivered]
    attempted_tells [OF v record_attempted [of delivery_pending n]]
  have "attempted t i n [] [?m] w (snd (run_state (attemptEmail t i sub p n) w))"
  proof (cases "nd_relay w ?m (length (nd_mails w))")
    case None
    then show ?thesis using rest by (simp add: attemptEmail_def run_simps k m send)
  next
    case (Some e)
    then show ?thesis using rest by (cases "MaxAttempts \<le> n") (simp_all add: attemptEmail_def run_simps k m send deadLetter_def)
  qed
  moreover have "message_for i sub q [] [?m]" unfolding message_for_def using m assms by blast
  ultimately show ?thesis by blast
qed

lemma Attempt_attempted:
  "\<exists>rs ms. attempted t i n rs ms w (snd (run_state (Attempt t sub i p n) w)) \<and> message_for i sub p rs ms"
proof -
  have "message_for i sub p [] []" by (simp add: message_for_def)
  then show ?thesis
    using attempted_webhook [of t i n w sub p] attempted_email [of sub t i n w "p\<lparr>pa_DeliveryID := i\<rparr>" p] deadLetter_attempted
    by (fastforce simp: Attempt_def Let_def)
qed

section \<open>Enqueueing, claiming and retrying\<close>

definition enqueued :: "string \<Rightarrow> string \<Rightarrow> Payload \<Rightarrow> notify_db \<Rightarrow> notify_db \<Rightarrow> bool" where
  "enqueued t s p w w' \<longleftrightarrow> nd_subscriptions w' = nd_subscriptions w \<and> nd_requests w' = nd_requests w
     \<and> nd_mails w' = nd_mails w \<and> nd_parse w' = nd_parse w \<and> en_uuid w' = en_uuid w \<and> en_next w' = Suc (en_next w)
     \<and> nd_deliveries w' = nd_deliveries w @ [new_delivery w t s p]
     \<and> list_ex (\<lambda>r. sb_ID (sw_Subscription r) = s) (nd_subscriptions w)"

lemma EnqueueDelivery_cases:
  assumes "run_state (EnqueueDelivery t s p) w = (r, w')"
  obtains (failed) e where "r = Inl e" "tells [] [] w w'"
  | (lost) e where "r = Inl e" "enqueued t s p w w'"
  | (queued) "r = Inr (fresh_id w)" "enqueued t s p w w'"
proof -
  have fresh [simp]: "fresh_id (after_io w) = fresh_id w" by (simp add: fresh_id_def)
  have row [simp]: "new_delivery (after_io w) t s p = new_delivery w t s p" by (simp add: new_delivery_def)
  have "(\<exists>e. r = Inl e \<and> tells [] [] w w') \<or> (\<exists>e. r = Inl e \<and> enqueued t s p w w')
      \<or> r = Inr (fresh_id w) \<and> enqueued t s p w w'"
    using assms
    by (cases "t = []"; cases "next_outcome w"; cases "list_ex (\<lambda>r. sb_ID (sw_Subscription r) = s) (nd_subscriptions w)")
      (auto simp: EnqueueDelivery_def run_WithTenant notify_wrapped_def enqueued_def)
  then show thesis using failed lost queued by blast
qed

lemma fan_out_cases:
  assumes "run_state (fan_out t p u sub) w = (r, w')"
  obtains (skipped) "tells [] [] w w'"
  | (lost) "enqueued t (sb_ID sub) p w w'"
  | (tried) v rs ms where "enqueued t (sb_ID sub) p w v" "attempted t (fresh_id w) 1 rs ms v w'"
      "message_for (fresh_id w) sub p rs ms"
proof (cases "sb_Kind sub = KindEmail \<and> emailKindFor (pa_Event p) = None")
  case True
  then show thesis using assms skipped by (simp add: fan_out_def)
next
  case False
  obtain x v where enq: "run_state (EnqueueDelivery t (sb_ID sub) p) w = (x, v)" by fastforce
  from enq show thesis
  proof (cases rule: EnqueueDelivery_cases)
    case (failed e)
    then show thesis using assms False enq skipped by (auto simp: fan_out_def)
  next
    case (lost e)
    then show thesis using assms False enq \<open>enqueued t (sb_ID sub) p w w' \<Longrightarrow> thesis\<close> by (auto simp: fan_out_def)
  next
    case queued
    then have "w' = snd (run_state (Attempt t sub (fresh_id w) p 1) v)"
      using assms False enq by (auto simp: fan_out_def)
    then show thesis using tried queued(2) Attempt_attempted by metis
  qed
qed

text \<open>A retry with the row as it was claimed: dead-lettered without a message, or attempted once more.\<close>

lemma retry_one_cases:
  assumes "run_state (retry_one u d) w = (r, w')"
  obtains (gone) "attempted (dl_TenantID d) (dl_ID d) (dl_Attempt d) [] [] w w'"
  | (tried) sub rs ms where "attempted (dl_TenantID d) (dl_ID d) (dl_Attempt d + 1) rs ms w w'"
      "find_subscription (dl_TenantID d) (dl_SubscriptionID d) w = Some sub"
      "message_for (dl_ID d) sub (dl_Payload d) rs ms"
proof -
  obtain x v where look: "run_state (GetSubscription (dl_TenantID d) (dl_SubscriptionID d)) w = (x, v)" by fastforce
  have v: "tells [] [] w v"
    and found: "x = Inr sub \<Longrightarrow> find_subscription (dl_TenantID d) (dl_SubscriptionID d) w = Some sub" for sub
    using look by (auto simp: GetSubscription_def run_ReadTenant missing_or_def find_subscription_def
        split: option.splits if_splits sum.splits)
  show thesis
  proof (cases x)
    case (Inl e)
    then have "w' = snd (run_state (deadLetter (dl_TenantID d) (dl_ID d) (dl_Attempt d) (err_text e)) v)"
      using assms look by (simp add: retry_one_def)
    then show thesis using gone attempted_tells [OF v deadLetter_attempted] by simp
  next
    case (Inr sub)
    then have w': "w' = snd (run_state (Attempt (dl_TenantID d) sub (dl_ID d) (dl_Payload d) (dl_Attempt d + 1)) v)"
      using assms look by (simp add: retry_one_def)
    obtain rs ms where a: "attempted (dl_TenantID d) (dl_ID d) (dl_Attempt d + 1) rs ms v w'"
      and m: "message_for (dl_ID d) sub (dl_Payload d) rs ms"
      using Attempt_attempted w' by metis
    have "attempted (dl_TenantID d) (dl_ID d) (dl_Attempt d + 1) rs ms w w'"
      using a v unfolding attempted_def tells_def by simp
    then show thesis using tried found [OF Inr] m by blast
  qed
qed

lemma claim_cases:
  assumes "run_state (ClaimDueDeliveries now n) w = (r, w')"
  obtains (failed) e where "r = Inl e" "tells [] [] w w'"
  | (claimed) "r = Inr (due_deliveries now n w) \<or> (\<exists>e. r = Inl e)"
      "w' = (after_io w)\<lparr>nd_deliveries := map (\<lambda>d. if List.member (map dl_ID (due_deliveries now n w)) (dl_ID d)
          then d\<lparr>dl_Status := delivery_processing\<rparr> else d) (nd_deliveries w)\<rparr>"
proof -
  have due [simp]: "due_deliveries now n (after_io w) = due_deliveries now n w" by (simp add: due_deliveries_def)
  show thesis
    using assms failed claimed
    by (cases "next_outcome w") (auto simp: ClaimDueDeliveries_def Db_Call_def claim_due_deliveries_def Let_def notify_wrapped_def)
qed

end
