(* ===== verification/Notify_Steps.thy ===== *)
theory Notify_Steps
  imports Notify_Laws
begin

text \<open>
  The notification service as a system: events, ticks of any number of pollers, requests and the
  environment in any order, with the claimed deliveries that pollers hold next to the database; a poller
  may die with one. An event's fan-out runs to its end before the next step. The invariant of the tables
  and of what has been sent holds in every reachable state.
\<close>

section \<open>Steps\<close>

inductive notify_step :: "notify_db \<times> Delivery list \<Rightarrow> notify_db \<times> Delivery list \<Rightarrow> bool" where
  event: "notify_step (w, fl) (snd (run_state (Consumer_handle evt) w), fl)"
| claim: "run_state (ClaimDueDeliveries now n) w = (Inr due, w') \<Longrightarrow> notify_step (w, fl) (w', fl @ due)"
| claim_lost: "run_state (ClaimDueDeliveries now n) w = (Inl e, w') \<Longrightarrow> notify_step (w, fl) (w', fl)"
| retry: "notify_step (w, xs @ d # ys) (snd (run_state (retry_one () d) w), xs @ ys)"
| crash: "notify_step (w, xs @ d # ys) (w, xs @ ys)"
| create: "notify_step (w, fl) (snd (run_state (Notify_Create t req) w), fl)"
| enable: "notify_step (w, fl) (snd (run_state (Notify_SetEnabled t i b) w), fl)"
| delete: "notify_step (w, fl) (snd (run_state (Notify_Delete t i) w), fl)"
| environment: "en_clock w \<le> now \<Longrightarrow> notify_step (w, fl)
    (w\<lparr>en_clock := now, en_outcomes := os, nd_receiver := rc, nd_relay := rl, nd_random := rd\<rparr>, fl)"

definition notify_reaches :: "notify_db \<times> Delivery list \<Rightarrow> notify_db \<times> Delivery list \<Rightarrow> bool" where
  "notify_reaches = notify_step\<^sup>*\<^sup>*"

text \<open>A tick is a claim followed by the retries, which other steps may come between.\<close>

lemma retries_are_steps:
  "notify_reaches (w, fl @ ds) (snd (run_state (fold_state retry_one u ds) w), fl)"
proof (induction ds arbitrary: u w)
  case (Cons d ds)
  obtain x v where run: "run_state (retry_one () d) w = (x, v)" by (cases "run_state (retry_one () d) w")
  have "notify_step (w, fl @ d # ds) (v, fl @ ds)" using notify_step.retry [of w fl d ds] run by simp
  moreover have "notify_reaches (v, fl @ ds) (snd (run_state (fold_state retry_one x ds) v), fl)" by (rule Cons.IH)
  ultimately show ?case using run unfolding notify_reaches_def by (simp add: converse_rtranclp_into_rtranclp)
qed (simp add: notify_reaches_def)

lemma tick_is_steps: "notify_reaches (w, fl) (snd (run_state Poller_tick w), fl)"
proof -
  obtain r v where claim: "run_state (ClaimDueDeliveries (en_clock w) ClaimBatchSize) w = (r, v)"
    by (cases "run_state (ClaimDueDeliveries (en_clock w) ClaimBatchSize) w")
  show ?thesis
  proof (cases r)
    case (Inl e)
    then show ?thesis using notify_step.claim_lost [of "en_clock w" ClaimBatchSize w e v fl] claim
      by (auto simp: Poller_tick_def run_simps notify_reaches_def)
  next
    case (Inr due)
    then have "notify_step (w, fl) (v, fl @ due)" using notify_step.claim claim by blast
    then show ?thesis using retries_are_steps [of v fl due "()"] claim Inr
      unfolding notify_reaches_def by (simp add: Poller_tick_def run_simps converse_rtranclp_into_rtranclp)
  qed
qed

section \<open>The invariant\<close>

text \<open>The ids given out so far.\<close>

definition ids_used :: "notify_db \<Rightarrow> string set" where
  "ids_used w = en_uuid w ` {..<en_next w}"

definition subscription_ok :: "notify_db \<Rightarrow> Subscription \<Rightarrow> bool" where
  "subscription_ok w s \<longleftrightarrow> sb_ID s \<in> ids_used w
     \<and> (sb_Kind s = KindEmail \<and> validateEmail (sb_Target s) = Inr ()
        \<or> sb_Kind s = KindWebhook \<and> ValidateWebhookURL (nd_parse w) (sb_Target s) = Inr ())
     \<and> sb_Events s \<noteq> None \<and> list_all webhook_Event_Valid (slice (sb_Events s))"

definition subscriptions_ok :: "notify_db \<Rightarrow> bool" where
  "subscriptions_ok w \<longleftrightarrow> distinct (map (sb_ID \<circ> sw_Subscription) (nd_subscriptions w))
     \<and> distinct (map ((\<lambda>s. (sb_TenantID s, sb_Kind s, sb_Target s)) \<circ> sw_Subscription) (nd_subscriptions w))
     \<and> list_all (subscription_ok w \<circ> sw_Subscription) (nd_subscriptions w)"

text \<open>What a delivery is about: an event of the tenant of its subscription.\<close>

definition about_ok :: "Delivery \<Rightarrow> bool" where
  "about_ok d \<longleftrightarrow> dl_EventType d = pa_Event (dl_Payload d) \<and> webhook_Event_Valid (dl_EventType d)
     \<and> pa_TenantID (dl_Payload d) = dl_TenantID d"

definition parent_exists :: "notify_db \<Rightarrow> Delivery \<Rightarrow> bool" where
  "parent_exists w d \<longleftrightarrow> (\<exists>r \<in> set (nd_subscriptions w). own_subscription (dl_TenantID d) (dl_SubscriptionID d) r)"

definition delivery_ok :: "notify_db \<Rightarrow> Delivery \<Rightarrow> bool" where
  "delivery_ok w d \<longleftrightarrow> dl_ID d \<in> ids_used w \<and> about_ok d \<and> parent_exists w d
     \<and> 1 \<le> dl_Attempt d \<and> dl_Attempt d \<le> MaxAttempts \<and> List.member delivery_statuses (dl_Status d)
     \<and> (dl_Status d = delivery_delivered \<longrightarrow> dl_DeliveredAt d \<noteq> None)
     \<and> (dl_Status d = delivery_pending \<longrightarrow> int (posts w (dl_ID d)) \<le> dl_Attempt d \<and> dl_Attempt d < MaxAttempts)"

definition deliveries_ok :: "notify_db \<Rightarrow> bool" where
  "deliveries_ok w \<longleftrightarrow> distinct (map dl_ID (nd_deliveries w)) \<and> (\<forall>d \<in> set (nd_deliveries w). delivery_ok w d)"

text \<open>A claimed delivery has tries left, and its row, while it is there, says that it is being tried.\<close>

definition held_ok :: "notify_db \<Rightarrow> Delivery \<Rightarrow> bool" where
  "held_ok w c \<longleftrightarrow> dl_ID c \<in> ids_used w \<and> about_ok c \<and> 1 \<le> dl_Attempt c
     \<and> int (posts w (dl_ID c)) \<le> dl_Attempt c \<and> dl_Attempt c < MaxAttempts
     \<and> (\<forall>d \<in> set (nd_deliveries w). dl_ID d = dl_ID c \<longrightarrow> dl_Status d = delivery_processing)"

definition sent_ok :: "notify_db \<Rightarrow> bool" where
  "sent_ok w \<longleftrightarrow> (\<forall>i. int (posts w i) \<le> MaxAttempts \<and> (i \<notin> ids_used w \<longrightarrow> posts w i = 0))
     \<and> (\<forall>r \<in> set (nd_requests w). ValidateWebhookURL (nd_parse w) (hr_Target r) = Inr ())
     \<and> (\<forall>m \<in> set (nd_mails w). validateEmail (ml_To m) = Inr () \<and> one_line (ml_Subject m))"

definition notify_sound :: "(string \<Rightarrow> go_err + URL) \<Rightarrow> Delivery list \<Rightarrow> notify_db \<Rightarrow> bool" where
  "notify_sound parse fl w \<longleftrightarrow> nd_parse w = parse \<and> inj (en_uuid w) \<and> subscriptions_ok w \<and> deliveries_ok w
     \<and> distinct (map dl_ID fl) \<and> (\<forall>c \<in> set fl. held_ok w c) \<and> sent_ok w"

text \<open>The parts read the ids, the parser, the subscriptions and the messages of the state.\<close>

lemma subscription_ok_cong:
  "ids_used w' = ids_used w \<Longrightarrow> nd_parse w' = nd_parse w \<Longrightarrow> subscription_ok w' = subscription_ok w"
  by (rule ext) (simp add: subscription_ok_def)

lemma subscriptions_ok_cong:
  "ids_used w' = ids_used w \<Longrightarrow> nd_parse w' = nd_parse w \<Longrightarrow> nd_subscriptions w' = nd_subscriptions w
   \<Longrightarrow> subscriptions_ok w' = subscriptions_ok w"
  by (simp add: subscriptions_ok_def subscription_ok_cong [of w' w])

lemma delivery_ok_cong:
  "ids_used w' = ids_used w \<Longrightarrow> nd_subscriptions w' = nd_subscriptions w \<Longrightarrow> posts w' = posts w
   \<Longrightarrow> delivery_ok w' = delivery_ok w"
  by (rule ext) (simp add: delivery_ok_def parent_exists_def)

lemma tells_nothing_same:
  assumes "tells [] [] w w'"
  shows "nd_subscriptions w' = nd_subscriptions w" "nd_deliveries w' = nd_deliveries w" "nd_parse w' = nd_parse w"
    "ids_used w' = ids_used w" "en_uuid w' = en_uuid w" "posts w' = posts w" "nd_requests w' = nd_requests w"
    "nd_mails w' = nd_mails w"
  using assms by (auto simp: tells_def ids_used_def posts_def)

lemma sound_tells_nothing:
  assumes "tells [] [] w w'"
  shows "notify_sound P fl w' = notify_sound P fl w"
  using tells_nothing_same [OF assms] subscriptions_ok_cong [of w' w] delivery_ok_cong [of w' w]
  by (simp add: notify_sound_def deliveries_ok_def held_ok_def sent_ok_def)

lemma sound_drop: "notify_sound P (xs @ d # ys) w \<Longrightarrow> notify_sound P (xs @ ys) w"
  by (simp add: notify_sound_def)

section \<open>Attempts keep it\<close>

text \<open>The messages of an attempt are fit to be sent when its subscription is.\<close>

definition messages_ok :: "notify_db \<Rightarrow> hook_request list \<Rightarrow> mail_sent list \<Rightarrow> bool" where
  "messages_ok w rs ms \<longleftrightarrow> (\<forall>r \<in> set rs. ValidateWebhookURL (nd_parse w) (hr_Target r) = Inr ())
     \<and> (\<forall>m \<in> set ms. validateEmail (ml_To m) = Inr () \<and> one_line (ml_Subject m))"

lemma message_for_ok:
  assumes "message_for i sub p rs ms" "subscription_ok w sub"
  shows "messages_ok w rs ms"
proof -
  have "one_line (em_Subject msg)" if "Render kind d now = Inr msg" for kind d now msg
    using that sanitizeHeader_one_line by (auto simp: Render_def Let_def split: option.splits if_splits)
  with assms show ?thesis
    by (auto simp: message_for_def messages_ok_def subscription_ok_def hook_of_def)
qed

lemma posts_attempted: "attempted t i n rs ms w w' \<Longrightarrow> posts w' j = posts w j + messages_for rs ms j"
  by (simp add: attempted_def posts_def)

lemma attempted_row:
  assumes "attempted t i n rs ms w w'" "d' \<in> set (nd_deliveries w')"
  shows "d' \<in> set (nd_deliveries w) \<or> (\<exists>f d. settles n f \<and> d \<in> set (nd_deliveries w) \<and> dl_ID d = i \<and> d' = f d)"
proof (cases "nd_deliveries w' = nd_deliveries w")
  case False
  then obtain f where f: "settles n f"
    and rows: "nd_deliveries w' = map (\<lambda>d. if own_delivery t i d then f d else d) (nd_deliveries w)"
    using assms(1) by (auto simp: attempted_def)
  then obtain d where "d \<in> set (nd_deliveries w)" "d' = (if own_delivery t i d then f d else d)"
    using assms(2) by auto
  with f show ?thesis by (cases "own_delivery t i d") (auto simp: own_delivery_def)
qed (use assms in simp)

lemma attempted_ids:
  assumes "attempted t i n rs ms w w'"
  shows "map dl_ID (nd_deliveries w') = map dl_ID (nd_deliveries w)"
  using assms by (auto simp: attempted_def settles_def)

lemma settles_ok:
  assumes "settles n f" "delivery_ok w d" "ids_used w' = ids_used w" "nd_subscriptions w' = nd_subscriptions w"
    and "1 \<le> n" "n \<le> MaxAttempts" "int (posts w' (dl_ID d)) \<le> n"
  shows "delivery_ok w' (f d)"
proof -
  have f: "dl_ID (f d) = dl_ID d" "dl_TenantID (f d) = dl_TenantID d" "dl_SubscriptionID (f d) = dl_SubscriptionID d"
      "dl_EventType (f d) = dl_EventType d" "dl_Payload (f d) = dl_Payload d" "dl_Attempt (f d) = n"
    and st: "dl_Status (f d) = delivery_delivered \<and> dl_DeliveredAt (f d) \<noteq> None \<or> dl_Status (f d) = delivery_dead
        \<or> dl_Status (f d) = delivery_pending \<and> n < MaxAttempts"
    using assms(1) unfolding settles_def by blast+
  have "List.member delivery_statuses (dl_Status (f d))" using st by (auto simp: delivery_statuses_def)
  moreover have "about_ok d" "parent_exists w d" using assms(2) by (simp_all add: delivery_ok_def)
  then have "about_ok (f d)" "parent_exists w' (f d)"
    unfolding about_ok_def parent_exists_def f assms(4) by blast+
  ultimately show ?thesis using assms(2,3,5-7) f st by (auto simp: delivery_ok_def)
qed

lemma sound_attempted:
  assumes sound: "notify_sound P fl w" and a: "attempted t i n rs ms w w'"
    and i: "i \<in> ids_used w" "i \<notin> dl_ID ` set fl"
    and n: "1 \<le> n" "n \<le> MaxAttempts" "int (posts w i + k) \<le> n"
    and waiting: "\<And>d. d \<in> set (nd_deliveries w) \<Longrightarrow> dl_ID d = i \<Longrightarrow> dl_Status d = delivery_pending \<Longrightarrow> n \<le> dl_Attempt d"
    and m: "\<And>j. messages_for rs ms j \<le> (if j = i then k else 0)" "messages_ok w rs ms"
  shows "notify_sound P fl w'"
proof -
  have same: "nd_subscriptions w' = nd_subscriptions w" "nd_parse w' = nd_parse w" "en_uuid w' = en_uuid w"
      "ids_used w' = ids_used w" "nd_requests w' = nd_requests w @ rs" "nd_mails w' = nd_mails w @ ms"
    using a by (simp_all add: attempted_def ids_used_def)
  have others: "posts w' j = posts w j" if "j \<noteq> i" for j
    using posts_attempted [OF a, of j] m(1) [of j] that by simp
  have mine: "int (posts w' i) \<le> n" using posts_attempted [OF a, of i] m(1) [of i] n(3) by simp
  have row: "delivery_ok w' d'" if "d' \<in> set (nd_deliveries w')" for d'
    using attempted_row [OF a that]
  proof (elim disjE exE conjE)
    fix f d assume "settles n f" "d \<in> set (nd_deliveries w)" "dl_ID d = i" "d' = f d"
    then show ?thesis using settles_ok [of n f w d w'] sound same n mine
      by (simp add: notify_sound_def deliveries_ok_def)
  next
    assume "d' \<in> set (nd_deliveries w)"
    then have old: "delivery_ok w d'" using sound by (simp add: notify_sound_def deliveries_ok_def)
    have "int (posts w' (dl_ID d')) \<le> dl_Attempt d' \<and> dl_Attempt d' < MaxAttempts" if "dl_Status d' = delivery_pending"
    proof (cases "dl_ID d' = i")
      case False
      then show ?thesis using old that others by (simp add: delivery_ok_def)
    next
      case True
      then have "n \<le> dl_Attempt d'" using waiting \<open>d' \<in> set (nd_deliveries w)\<close> that by blast
      then show ?thesis using old that mine True by (simp add: delivery_ok_def)
    qed
    then show ?thesis using old same by (simp add: delivery_ok_def parent_exists_def)
  qed
  have held: "held_ok w' c" if c: "c \<in> set fl" for c
  proof -
    have "dl_ID c \<noteq> i" using i(2) c by auto
    have old: "held_ok w c" using sound c by (simp add: notify_sound_def)
    have "dl_Status d' = delivery_processing" if "d' \<in> set (nd_deliveries w')" "dl_ID d' = dl_ID c" for d'
      using attempted_row [OF a that(1)] old that(2) \<open>dl_ID c \<noteq> i\<close> by (auto simp: held_ok_def settles_def)
    then show ?thesis using old others [OF \<open>dl_ID c \<noteq> i\<close>] same by (simp add: held_ok_def)
  qed
  have "int (posts w' j) \<le> MaxAttempts \<and> (j \<notin> ids_used w' \<longrightarrow> posts w' j = 0)" for j
    using sound others [of j] mine n(2) i(1) same(4) by (cases "j = i") (auto simp: notify_sound_def sent_ok_def)
  moreover have "subscriptions_ok w'" "distinct (map dl_ID (nd_deliveries w'))"
    using sound subscriptions_ok_cong [OF same(4,2,1)] attempted_ids [OF a] by (simp_all add: notify_sound_def deliveries_ok_def)
  ultimately show ?thesis
    using sound row held same m(2) by (auto simp: notify_sound_def deliveries_ok_def sent_ok_def messages_ok_def)
qed

section \<open>An event keeps it\<close>

lemma sound_enqueued:
  assumes sound: "notify_sound P fl w" and e: "enqueued t s p w v"
    and parent: "\<exists>r \<in> set (nd_subscriptions w). own_subscription t s r"
    and about: "webhook_Event_Valid (pa_Event p)" "pa_TenantID p = t"
  shows "notify_sound P fl v" "fresh_id w \<in> ids_used v" "fresh_id w \<notin> dl_ID ` set fl" "posts v (fresh_id w) = 0"
    and "d \<in> set (nd_deliveries v) \<Longrightarrow> dl_ID d = fresh_id w \<Longrightarrow> dl_Attempt d = 1"
proof -
  have same: "nd_subscriptions v = nd_subscriptions w" "nd_parse v = nd_parse w" "en_uuid v = en_uuid w" "posts v = posts w"
      "nd_requests v = nd_requests w" "nd_mails v = nd_mails w"
      "nd_deliveries v = nd_deliveries w @ [new_delivery w t s p]"
    and next1: "en_next v = Suc (en_next w)"
    using e by (auto simp: enqueued_def posts_def)
  have ids: "ids_used v = insert (fresh_id w) (ids_used w)"
    by (simp add: ids_used_def same next1 fresh_id_def lessThan_Suc)
  have "inj (en_uuid w)" using sound by (simp add: notify_sound_def)
  then have new: "fresh_id w \<notin> ids_used w" by (auto simp: ids_used_def fresh_id_def inj_eq)
  have old: "delivery_ok w d" if "d \<in> set (nd_deliveries w)" for d
    using sound that by (simp add: notify_sound_def deliveries_ok_def)
  show "fresh_id w \<in> ids_used v" by (simp add: ids)
  show not_held: "fresh_id w \<notin> dl_ID ` set fl" using sound new by (auto simp: notify_sound_def held_ok_def)
  show none: "posts v (fresh_id w) = 0" using sound new same(4) by (simp add: notify_sound_def sent_ok_def)
  have fresh: "dl_ID d \<noteq> fresh_id w" if "d \<in> set (nd_deliveries w)" for d
    using old [OF that] new by (auto simp: delivery_ok_def)
  then show "d \<in> set (nd_deliveries v) \<Longrightarrow> dl_ID d = fresh_id w \<Longrightarrow> dl_Attempt d = 1"
    by (auto simp: same new_delivery_def)
  have "delivery_ok v (new_delivery w t s p)"
    using none parent about
    by (simp add: delivery_ok_def new_delivery_def ids about_ok_def parent_exists_def same MaxAttempts_def delivery_statuses_def)
  moreover have "delivery_ok v d" if "d \<in> set (nd_deliveries w)" for d
    using old [OF that] by (simp add: delivery_ok_def ids same parent_exists_def)
  moreover have "held_ok v c" if "c \<in> set fl" for c
    using sound that not_held by (auto simp: notify_sound_def held_ok_def ids same new_delivery_def)
  moreover have "subscriptions_ok v"
    using sound by (auto simp: notify_sound_def subscriptions_ok_def subscription_ok_def list_all_iff same ids)
  moreover have "fresh_id w \<notin> dl_ID ` set (nd_deliveries w)" using fresh by force
  then have "distinct (map dl_ID (nd_deliveries v))"
    using sound by (simp add: notify_sound_def deliveries_ok_def same new_delivery_def)
  ultimately show "notify_sound P fl v"
    using sound by (auto simp: notify_sound_def deliveries_ok_def sent_ok_def same ids)
qed

lemma sound_fan_out:
  assumes sound: "notify_sound P fl w" and run: "run_state (fan_out t p u sub) w = (r, w')"
    and sub: "sub \<in> sw_Subscription ` set (nd_subscriptions w)" "sb_TenantID sub = t"
    and about: "webhook_Event_Valid (pa_Event p)" "pa_TenantID p = t"
  shows "notify_sound P fl w' \<and> nd_subscriptions w' = nd_subscriptions w"
proof -
  have parent: "\<exists>r \<in> set (nd_subscriptions w). own_subscription t (sb_ID sub) r"
    using sub by (auto simp: own_subscription_def)
  have ok: "subscription_ok w sub"
    using sound sub(1) by (auto simp: notify_sound_def subscriptions_ok_def list_all_iff)
  note enq = sound_enqueued [OF sound _ parent about]
  from run show ?thesis
  proof (cases rule: fan_out_cases)
    case skipped
    then show ?thesis using sound sound_tells_nothing [OF skipped] tells_nothing_same(1) [OF skipped] by simp
  next
    case lost
    then show ?thesis using enq(1) by (simp add: enqueued_def)
  next
    case (tried v rs ms)
    have "messages_ok v rs ms"
      using message_for_ok [OF tried(3) ok] tried(1) by (simp add: messages_ok_def enqueued_def)
    moreover have "(1::int) \<le> dl_Attempt d" if "d \<in> set (nd_deliveries v)" "dl_ID d = fresh_id w" for d
      using enq(5) [OF tried(1) that] by simp
    ultimately have "notify_sound P fl w'"
      using sound_attempted [OF enq(1) [OF tried(1)] tried(2) enq(2,3) [OF tried(1)], of 1] enq(4) [OF tried(1)]
        message_for_count [OF tried(3)] by (simp add: MaxAttempts_def)
    moreover have "nd_subscriptions w' = nd_subscriptions w"
      using tried(1,2) by (simp add: enqueued_def attempted_def)
    ultimately show ?thesis by blast
  qed
qed

lemma sound_fan_outs:
  assumes "notify_sound P fl w" and "\<forall>sub \<in> set subs. sub \<in> sw_Subscription ` set (nd_subscriptions w) \<and> sb_TenantID sub = t"
    and "webhook_Event_Valid (pa_Event p)" "pa_TenantID p = t"
  shows "notify_sound P fl (snd (run_state (fold_state (fan_out t p) u subs) w))"
  using assms
proof (induction subs arbitrary: u w)
  case (Cons sub subs)
  obtain x v where run: "run_state (fan_out t p u sub) w = (x, v)" by (cases "run_state (fan_out t p u sub) w")
  have "notify_sound P fl v \<and> nd_subscriptions v = nd_subscriptions w"
    using sound_fan_out [OF Cons.prems(1) run] Cons.prems(2-4) by simp
  then have "notify_sound P fl (snd (run_state (fold_state (fan_out t p) x subs) v))"
    using Cons.IH Cons.prems(2-4) by simp
  then show ?case using run by simp
qed simp

lemma MatchingSubscriptions_result:
  assumes "run_state (MatchingSubscriptions t event) w = (r, v)"
  shows "tells [] [] w v \<and> (\<forall>subs. r = Inr subs \<longrightarrow> subs = filter (\<lambda>s. Matches s event) (list_subscriptions t w))"
proof -
  have "list_subscriptions t (after_io w) = list_subscriptions t w" by (simp add: list_subscriptions_def)
  then show ?thesis using assms
    by (auto simp: MatchingSubscriptions_def ListSubscriptions_def run_ReadTenant notify_wrapped_def
        split: if_splits sum.splits prod.splits)
qed

lemma list_subscriptions_members:
  "sub \<in> set (list_subscriptions t w) \<longleftrightarrow> sub \<in> sw_Subscription ` set (nd_subscriptions w) \<and> sb_TenantID sub = t"
  by (auto simp: list_subscriptions_def)

lemma sound_event:
  assumes "notify_sound P fl w"
  shows "notify_sound P fl (snd (run_state (Consumer_handle evt) w))"
proof (cases "Notify_Validate evt = Inr () \<and> webhook_Event_Valid (ne_Event evt)")
  case False
  then have "snd (run_state (Consumer_handle evt) w) = w"
    by (cases "Notify_Validate evt") (auto simp: Consumer_handle_def)
  with assms show ?thesis by simp
next
  case True
  obtain r v where look: "run_state (MatchingSubscriptions (ne_TenantID evt) (ne_Event evt)) w = (r, v)" by fastforce
  have v: "tells [] [] w v" "notify_sound P fl v"
    using MatchingSubscriptions_result [OF look] sound_tells_nothing assms by blast+
  show ?thesis
  proof (cases r)
    case (Inl e)
    then show ?thesis using True look v(2) by (simp add: Consumer_handle_def)
  next
    case (Inr subs)
    then have "subs = filter (\<lambda>s. Matches s (ne_Event evt)) (list_subscriptions (ne_TenantID evt) w)"
      using MatchingSubscriptions_result [OF look] by simp
    then have "\<forall>sub \<in> set subs. sub \<in> sw_Subscription ` set (nd_subscriptions v) \<and> sb_TenantID sub = ne_TenantID evt"
      using v(1) by (auto simp: list_subscriptions_members tells_def)
    then have "notify_sound P fl (snd (run_state (fold_state (fan_out (ne_TenantID evt) (toWebhookPayload evt)) () subs) v))"
      using sound_fan_outs [OF v(2), of subs "ne_TenantID evt" "toWebhookPayload evt" "()"] True
      by (simp add: toWebhookPayload_def)
    then show ?thesis using True look Inr
      by (cases "run_state (fold_state (fan_out (ne_TenantID evt) (toWebhookPayload evt)) () subs) v")
        (simp add: Consumer_handle_def)
  qed
qed

section \<open>Claims and retries keep it\<close>

lemma due_deliveries_members:
  "d \<in> set (due_deliveries now n w) \<Longrightarrow> d \<in> set (nd_deliveries w) \<and> dl_Status d = delivery_pending"
  by (auto simp: due_deliveries_def delivery_due_def dest!: in_set_takeD)

lemma distinct_slice_stable: "distinct (map key (slice_stable lt xs)) = distinct (map key xs)"
proof -
  have "mset (map key (slice_stable lt xs)) = mset (map key xs)" by simp
  then show ?thesis by (metis mset_eq_imp_distinct_iff)
qed

lemma distinct_due_deliveries:
  "distinct (map dl_ID (nd_deliveries w)) \<Longrightarrow> distinct (map dl_ID (due_deliveries now n w))"
  unfolding due_deliveries_def take_map [symmetric]
  by (intro distinct_take) (simp add: distinct_slice_stable distinct_map_filter)

lemma sound_claimed:
  assumes sound: "notify_sound P fl w"
    and w': "w' = (after_io w)\<lparr>nd_deliveries := map (\<lambda>d. if List.member (map dl_ID (due_deliveries now n w)) (dl_ID d)
          then d\<lparr>dl_Status := delivery_processing\<rparr> else d) (nd_deliveries w)\<rparr>"
  shows "notify_sound P (fl @ due_deliveries now n w) w'"
proof -
  let ?due = "due_deliveries now n w" and ?f = "\<lambda>d. if List.member (map dl_ID (due_deliveries now n w)) (dl_ID d)
          then d\<lparr>dl_Status := delivery_processing\<rparr> else d"
  have same: "nd_subscriptions w' = nd_subscriptions w" "nd_parse w' = nd_parse w" "en_uuid w' = en_uuid w"
      "ids_used w' = ids_used w" "nd_requests w' = nd_requests w" "nd_mails w' = nd_mails w" "posts w' = posts w"
      "nd_deliveries w' = map ?f (nd_deliveries w)"
    by (auto simp: w' ids_used_def posts_def)
  have ok: "delivery_ok w d" if "d \<in> set (nd_deliveries w)" for d
    using sound that by (simp add: notify_sound_def deliveries_ok_def)
  have ids: "map dl_ID (map ?f (nd_deliveries w)) = map dl_ID (nd_deliveries w)" by simp
  have rows: "delivery_ok w' (?f d)" if "d \<in> set (nd_deliveries w)" for d
    using ok [OF that] by (auto simp: delivery_ok_def about_ok_def parent_exists_def same delivery_statuses_def)
  have not_held: "dl_ID d \<noteq> dl_ID c" if "d \<in> set ?due" "c \<in> set fl" for d c
    using due_deliveries_members [OF that(1)] sound that(2) by (auto simp: notify_sound_def held_ok_def)
  have "held_ok w' c" if "c \<in> set fl" for c
    using sound that by (auto simp: notify_sound_def held_ok_def same)
  moreover have "held_ok w' c" if "c \<in> set ?due" for c
  proof -
    have "dl_ID c \<in> set (map dl_ID ?due)" using that by simp
    then have busy: "dl_Status d = delivery_processing" if "d \<in> set (nd_deliveries w')" "dl_ID d = dl_ID c" for d
      using that by (auto simp: same split: if_splits)
    have pending: "dl_Status c = delivery_pending" and "delivery_ok w c"
      using ok due_deliveries_members [OF that] by blast+
    then have "dl_ID c \<in> ids_used w" "about_ok c" "1 \<le> dl_Attempt c" "int (posts w (dl_ID c)) \<le> dl_Attempt c"
      "dl_Attempt c < MaxAttempts"
      by (simp_all add: delivery_ok_def)
    with busy show ?thesis unfolding held_ok_def same by blast
  qed
  moreover have "distinct (map dl_ID (fl @ ?due))"
  proof -
    have "distinct (map dl_ID fl)" "distinct (map dl_ID ?due)"
      using sound distinct_due_deliveries [of w now n] by (simp_all add: notify_sound_def deliveries_ok_def)
    moreover have "dl_ID ` set fl \<inter> dl_ID ` set ?due = {}" using not_held by force
    ultimately show ?thesis by simp
  qed
  moreover have "deliveries_ok w'"
  proof -
    have "distinct (map dl_ID (nd_deliveries w'))"
      using sound unfolding same(8) ids by (simp add: notify_sound_def deliveries_ok_def)
    moreover have "delivery_ok w' d" if "d \<in> set (nd_deliveries w')" for d
      using that rows unfolding same(8) by fastforce
    ultimately show ?thesis by (simp add: deliveries_ok_def)
  qed
  moreover have "sent_ok w' = sent_ok w" by (simp add: sent_ok_def same)
  then have "subscriptions_ok w'" "sent_ok w'" "nd_parse w' = P" "inj (en_uuid w')"
    using sound subscriptions_ok_cong [OF same(4,2,1)] by (simp_all add: notify_sound_def same)
  ultimately show ?thesis by (auto simp: notify_sound_def)
qed

lemma sound_less: "notify_sound P (fl @ ds) w \<Longrightarrow> notify_sound P fl w"
  by (simp add: notify_sound_def)

lemma sound_claim:
  assumes sound: "notify_sound P fl w" and run: "run_state (ClaimDueDeliveries now n) w = (r, w')"
  shows "notify_sound P fl w'" and "r = Inr due \<Longrightarrow> notify_sound P (fl @ due) w'"
proof -
  from run have "notify_sound P fl w' \<and> (\<forall>due. r = Inr due \<longrightarrow> notify_sound P (fl @ due) w')"
  proof (cases rule: claim_cases)
    case (failed e)
    then show ?thesis using sound sound_tells_nothing [OF failed(2)] by simp
  next
    case claimed
    then show ?thesis using sound_claimed [OF sound claimed(2)] sound_less by auto
  qed
  then show "notify_sound P fl w'" "r = Inr due \<Longrightarrow> notify_sound P (fl @ due) w'" by blast+
qed

lemma find_subscription_member:
  "find_subscription t i w = Some sub \<Longrightarrow> sub \<in> sw_Subscription ` set (nd_subscriptions w) \<and> sb_TenantID sub = t \<and> sb_ID sub = i"
  by (auto simp: find_subscription_def own_subscription_def find_Some_iff)

lemma sound_retry:
  assumes sound: "notify_sound P (xs @ d # ys) w" and run: "run_state (retry_one u d) w = (r, w')"
  shows "notify_sound P (xs @ ys) w'"
proof -
  have less: "notify_sound P (xs @ ys) w" using sound by (rule sound_drop)
  have held: "held_ok w d" and alone: "dl_ID d \<notin> dl_ID ` set (xs @ ys)"
    using sound by (auto simp: notify_sound_def)
  then have i: "dl_ID d \<in> ids_used w" and n: "1 \<le> dl_Attempt d" "int (posts w (dl_ID d)) \<le> dl_Attempt d" "dl_Attempt d < MaxAttempts"
    and busy: "\<And>x. x \<in> set (nd_deliveries w) \<Longrightarrow> dl_ID x = dl_ID d \<Longrightarrow> dl_Status x \<noteq> delivery_pending"
    by (auto simp: held_ok_def)
  from run show ?thesis
  proof (cases rule: retry_one_cases)
    case gone
    show ?thesis
      by (rule sound_attempted [OF less gone i alone, of 0])
        (use n busy in \<open>auto simp: messages_ok_def\<close>)
  next
    case (tried sub rs ms)
    have "subscription_ok w sub"
      using find_subscription_member [OF tried(2)] sound
      by (auto simp: notify_sound_def subscriptions_ok_def list_all_iff)
    then show ?thesis
      using n busy message_for_ok [OF tried(3)] message_for_count [OF tried(3)]
      by (intro sound_attempted [OF less tried(1) i alone, of 1]) auto
  qed
qed

section \<open>Requests keep it\<close>

definition keeps_notify_sound :: "(string \<Rightarrow> go_err + URL) \<Rightarrow> Delivery list \<Rightarrow> notify_db \<Rightarrow> notify_db \<Rightarrow> bool" where
  "keeps_notify_sound P fl w w' \<longleftrightarrow> (notify_sound P fl w \<longrightarrow> notify_sound P fl w')"

interpretation ns: step_law "keeps_notify_sound P fl" for P fl
  by unfold_locales (auto simp: keeps_notify_sound_def)

lemma keeps_tells: "tells [] [] w w' \<Longrightarrow> keeps_notify_sound P fl w w'"
  using sound_tells_nothing by (simp add: keeps_notify_sound_def)

lemma sound_after_io [simp]: "notify_sound P fl (after_io w) = notify_sound P fl w"
  by (rule sound_tells_nothing) simp

lemma notify_keeps_tx:
  assumes "\<And>w x w'. notify_sound P fl w \<Longrightarrow> fn w = Inr (x, w') \<Longrightarrow> notify_sound P fl w'"
  shows "state_io_rel (keeps_notify_sound P fl) (WithTenant u fn)"
proof (rule law_WithTenant)
  fix w x w'
  assume "fn (after_io w) = Inr (x, w')"
  then show "keeps_notify_sound P fl w w'" using assms [of "after_io w" x w'] by (simp add: keeps_notify_sound_def)
qed (simp_all add: keeps_notify_sound_def)

lemma keeps_vault:
  "state_io_rel (keeps_notify_sound P fl) (Client_Put r d)" "state_io_rel (keeps_notify_sound P fl) (Client_Delete r s)"
  by (rule state_io_relI, rule keeps_tells,
      auto simp: client_defs Let_def tells_def split: sum.splits if_splits)+

lemma sound_edited:
  assumes "notify_sound P fl w"
    and "\<And>s. sb_ID (f s) = sb_ID s \<and> sb_TenantID (f s) = sb_TenantID s \<and> sb_Kind (f s) = sb_Kind s
      \<and> sb_Target (f s) = sb_Target s \<and> sb_Events (f s) = sb_Events s"
  shows "notify_sound P fl (w\<lparr>nd_subscriptions := map (\<lambda>r. if Q r
    then r\<lparr>sw_Subscription := f (sw_Subscription r)\<rparr> else r) (nd_subscriptions w)\<rparr>)" (is "notify_sound P fl ?w")
proof -
  let ?g = "\<lambda>r. if Q r then r\<lparr>sw_Subscription := f (sw_Subscription r)\<rparr> else r"
  have g: "sb_ID (sw_Subscription (?g r)) = sb_ID (sw_Subscription r)"
      "sb_TenantID (sw_Subscription (?g r)) = sb_TenantID (sw_Subscription r)"
      "sb_Kind (sw_Subscription (?g r)) = sb_Kind (sw_Subscription r)"
      "sb_Target (sw_Subscription (?g r)) = sb_Target (sw_Subscription r)"
      "sb_Events (sw_Subscription (?g r)) = sb_Events (sw_Subscription r)" for r
    using assms(2) by simp_all
  have same: "ids_used ?w = ids_used w" "posts ?w = posts w" "nd_parse ?w = nd_parse w" "nd_deliveries ?w = nd_deliveries w"
      "nd_requests ?w = nd_requests w" "nd_mails ?w = nd_mails w" "en_uuid ?w = en_uuid w"
      "nd_subscriptions ?w = map ?g (nd_subscriptions w)"
    by (auto simp: ids_used_def posts_def)
  have "subscription_ok ?w (sw_Subscription (?g r)) = subscription_ok w (sw_Subscription r)" for r
    unfolding subscription_ok_def g same ..
  then have rows: "list_all (subscription_ok ?w \<circ> sw_Subscription) (map ?g (nd_subscriptions w))
      = list_all (subscription_ok w \<circ> sw_Subscription) (nd_subscriptions w)"
    unfolding list.pred_map comp_def by presburger
  have keys: "map (k \<circ> sw_Subscription) (map ?g (nd_subscriptions w)) = map (k \<circ> sw_Subscription) (nd_subscriptions w)"
    if "\<And>r. k (sw_Subscription (?g r)) = k (sw_Subscription r)" for k :: "Subscription \<Rightarrow> 'k"
    unfolding map_map comp_def that ..
  have "map ((\<lambda>s. (sb_TenantID s, sb_Kind s, sb_Target s)) \<circ> sw_Subscription) (map ?g (nd_subscriptions w))
      = map ((\<lambda>s. (sb_TenantID s, sb_Kind s, sb_Target s)) \<circ> sw_Subscription) (nd_subscriptions w)"
    by (rule keys) (simp only: g)
  then have subs: "subscriptions_ok ?w = subscriptions_ok w"
    unfolding subscriptions_ok_def same rows keys [of sb_ID, OF g(1)] by (rule arg_cong)
  have "own_subscription t i (?g r) = own_subscription t i r" for t i r
    unfolding own_subscription_def g ..
  then have "parent_exists ?w d = parent_exists w d" for d
    unfolding parent_exists_def same set_map bex_simps by simp
  then have "deliveries_ok ?w = deliveries_ok w"
    unfolding deliveries_ok_def delivery_ok_def same by simp
  moreover have "held_ok ?w = held_ok w" "sent_ok ?w = sent_ok w"
    unfolding held_ok_def sent_ok_def same by simp_all
  ultimately show ?thesis using assms(1) subs unfolding notify_sound_def same by simp
qed

lemma sound_deleted:
  assumes sound: "notify_sound P fl w"
  shows "notify_sound P fl (w\<lparr>nd_subscriptions := filter (\<lambda>r. \<not> own_subscription t i r) (nd_subscriptions w),
    nd_deliveries := filter (\<lambda>d. dl_SubscriptionID d \<noteq> i) (nd_deliveries w)\<rparr>)" (is "notify_sound P fl ?w")
proof -
  have same: "ids_used ?w = ids_used w" "posts ?w = posts w" "nd_parse ?w = nd_parse w"
      "nd_requests ?w = nd_requests w" "nd_mails ?w = nd_mails w" "en_uuid ?w = en_uuid w"
    by (auto simp: ids_used_def posts_def)
  have "parent_exists ?w d" if "parent_exists w d" "dl_SubscriptionID d \<noteq> i" for d
    using that by (auto simp: parent_exists_def own_subscription_def)
  moreover have "subscription_ok ?w = subscription_ok w" by (rule subscription_ok_cong) (simp_all add: same)
  ultimately show ?thesis
    using sound by (auto simp: notify_sound_def subscriptions_ok_def deliveries_ok_def delivery_ok_def held_ok_def sent_ok_def
        same distinct_map_filter list_all_iff)
qed

lemma sound_created:
  assumes sound: "notify_sound P fl w" and free: "\<not> target_taken t sub w"
    and ok: "sb_Kind sub = KindEmail \<and> validateEmail (sb_Target sub) = Inr ()
        \<or> sb_Kind sub = KindWebhook \<and> ValidateWebhookURL P (sb_Target sub) = Inr ()"
      "sb_Events sub \<noteq> None" "list_all webhook_Event_Valid (slice (sb_Events sub))"
  shows "notify_sound P fl ((drop_id w)\<lparr>nd_subscriptions := nd_subscriptions w @
    [\<lparr>sw_Subscription = sub\<lparr>sb_ID := fresh_id w, sb_TenantID := t\<rparr>, sw_CreatedAt = at\<rparr>]\<rparr>)" (is "notify_sound P fl ?w")
proof -
  let ?row = "\<lparr>sw_Subscription = sub\<lparr>sb_ID := fresh_id w, sb_TenantID := t\<rparr>, sw_CreatedAt = at\<rparr>"
  have same: "posts ?w = posts w" "nd_parse ?w = nd_parse w" "nd_requests ?w = nd_requests w" "nd_mails ?w = nd_mails w"
      "en_uuid ?w = en_uuid w" "nd_deliveries ?w = nd_deliveries w" "nd_subscriptions ?w = nd_subscriptions w @ [?row]"
    by (auto simp: posts_def)
  have ids: "ids_used ?w = insert (fresh_id w) (ids_used w)"
    by (simp add: ids_used_def fresh_id_def lessThan_Suc)
  have "inj (en_uuid w)" using sound by (simp add: notify_sound_def)
  then have new: "fresh_id w \<notin> ids_used w" by (auto simp: ids_used_def fresh_id_def inj_eq)
  have old: "subscription_ok w (sw_Subscription r)" if "r \<in> set (nd_subscriptions w)" for r
    using sound that by (simp add: notify_sound_def subscriptions_ok_def list_all_iff)
  have "sb_ID (sw_Subscription r) \<noteq> fresh_id w" if "r \<in> set (nd_subscriptions w)" for r
    using old [OF that] new by (auto simp: subscription_ok_def)
  then have "fresh_id w \<notin> (sb_ID \<circ> sw_Subscription) ` set (nd_subscriptions w)" by force
  moreover have "(t, sb_Kind sub, sb_Target sub)
      \<notin> ((\<lambda>s. (sb_TenantID s, sb_Kind s, sb_Target s)) \<circ> sw_Subscription) ` set (nd_subscriptions w)"
    using free by (force simp: target_taken_def list_ex_iff)
  moreover have "subscription_ok ?w (sw_Subscription ?row)"
    using ok sound by (auto simp: subscription_ok_def ids same notify_sound_def)
  moreover have "subscription_ok ?w (sw_Subscription r)" if "r \<in> set (nd_subscriptions w)" for r
    using old [OF that] by (auto simp: subscription_ok_def ids same)
  ultimately have "subscriptions_ok ?w"
    using sound by (simp add: notify_sound_def subscriptions_ok_def same list_all_iff)
  moreover have "delivery_ok ?w d" if "delivery_ok w d" for d
    using that by (auto simp: delivery_ok_def parent_exists_def same ids)
  moreover have "held_ok ?w c" if "held_ok w c" for c
    using that by (simp add: held_ok_def same ids)
  ultimately show ?thesis
    using sound by (auto simp: notify_sound_def deliveries_ok_def sent_ok_def same ids)
qed

lemma keeps_change:
  assumes "\<And>s. sb_ID (f s) = sb_ID s \<and> sb_TenantID (f s) = sb_TenantID s \<and> sb_Kind (f s) = sb_Kind s
      \<and> sb_Target (f s) = sb_Target s \<and> sb_Events (f s) = sb_Events s"
  shows "state_io_rel (keeps_notify_sound P fl) (change_subscription msg t i f)"
  unfolding change_subscription_def
  using sound_edited [OF _ assms]
  by (intro ns.bind ns.return notify_keeps_tx) (auto split: option.splits)

lemma keeps_changes:
  "state_io_rel (keeps_notify_sound P fl) (SetSubscriptionEnabled t i b)"
  "state_io_rel (keeps_notify_sound P fl) (SetSubscriptionSecretRef t i s)"
  by (simp_all add: SetSubscriptionEnabled_def SetSubscriptionSecretRef_def keeps_change)

lemma keeps_delete: "state_io_rel (keeps_notify_sound P fl) (DeleteSubscription t i)"
  unfolding DeleteSubscription_def
  using sound_deleted by (intro ns.bind ns.return notify_keeps_tx) (auto split: option.splits)

lemma validated:
  assumes "Subscription_Validate P sub = Inr ()"
  shows "sb_Kind sub = KindEmail \<and> validateEmail (sb_Target sub) = Inr ()
      \<or> sb_Kind sub = KindWebhook \<and> ValidateWebhookURL P (sb_Target sub) = Inr ()"
    and "list_all webhook_Event_Valid (slice (sb_Events sub))"
proof -
  show "sb_Kind sub = KindEmail \<and> validateEmail (sb_Target sub) = Inr ()
      \<or> sb_Kind sub = KindWebhook \<and> ValidateWebhookURL P (sb_Target sub) = Inr ()"
    using assms by (auto simp: Subscription_Validate_def Let_def split: sum.splits if_splits)
  have "first_some (\<lambda>e. if \<not> webhook_Event_Valid e
      then Some (errs_New ValidationFieldInvalid (quoted e @ '' is not an event this build emits'')) else None)
      (slice (sb_Events sub)) = None"
    using assms by (auto simp: Subscription_Validate_def Let_def split: sum.splits option.splits)
  then show "list_all webhook_Event_Valid (slice (sb_Events sub))"
    by (auto simp: first_some_None list_all_iff split: if_splits)
qed

lemma keeps_create:
  assumes "Subscription_Validate P sub = Inr ()"
  shows "state_io_rel (keeps_notify_sound P fl) (CreateSubscription t sub)"
  unfolding CreateSubscription_def
proof (intro ns.bind ns.return notify_keeps_tx)
  fix w x w'
  assume sound: "notify_sound P fl w"
    and "(let row = sub\<lparr>sb_ID := fresh_id w, sb_TenantID := t\<rparr>
      in if sb_Kind sub \<noteq> KindEmail \<and> sb_Kind sub \<noteq> KindWebhook then Inl err_database
         else if sb_Events sub = None then Inl err_database
         else if target_taken t sub w then Inl err_database
         else Inr (row, (drop_id w)\<lparr>nd_subscriptions := nd_subscriptions w @
                [\<lparr>sw_Subscription = row, sw_CreatedAt = en_clock w\<rparr>]\<rparr>)) = Inr (x, w')"
  then show "notify_sound P fl w'"
    using sound_created [OF sound _ validated(1) [OF assms] _ validated(2) [OF assms]]
    by (auto simp: Let_def split: if_splits)
qed

lemma keeps_insert:
  assumes "Subscription_Validate P sub = Inr ()"
  shows "state_io_rel (keeps_notify_sound P fl) (insert_subscription t sub secret)"
  unfolding insert_subscription_def store_secret_def
  by (intro ns.bind ns.return law_intros keeps_create [OF assms] keeps_vault keeps_delete keeps_changes)

lemma sound_run: "state_io_rel (keeps_notify_sound P fl) m \<Longrightarrow> notify_sound P fl w \<Longrightarrow> notify_sound P fl (snd (run_state m w))"
  unfolding state_io_rel_def keeps_notify_sound_def by blast

lemma sound_Notify_Create:
  assumes "notify_sound P fl w"
  shows "notify_sound P fl (snd (run_state (Notify_Create t req) w))"
proof (cases "Subscription_Validate (nd_parse w) (requested_subscription t req)")
  case (Inl e)
  with assms show ?thesis by (simp add: Notify_Create_def Let_def)
next
  case (Inr u)
  have "nd_parse w = P" using assms by (simp add: notify_sound_def)
  then have valid: "Subscription_Validate P (requested_subscription t req) = Inr ()" using Inr by simp
  have "state_io_rel (keeps_notify_sound P fl) generateSecret"
    by (rule state_io_relI) (simp add: generateSecret_def keeps_notify_sound_def)
  then have law: "state_io_rel (keeps_notify_sound P fl)
      (if sb_Kind (requested_subscription t req) \<noteq> KindWebhook then insert_subscription t (requested_subscription t req) []
       else do {
         secret \<leftarrow> (if sq_Secret req = [] then generateSecret else ret (sq_Secret req));
         if length secret < minSecretLen
         then ret (Inl (errs_New ValidationFieldInvalid
           (''a webhook signing secret must be at least '' @ itoa minSecretLen
            @ '' characters; a short secret is brute-forceable against a captured delivery'')))
         else insert_subscription t (requested_subscription t req) secret })" (is "state_io_rel _ ?m")
    by (intro ns.bind ns.return law_intros keeps_insert [OF valid])
  have eq: "run_state (Notify_Create t req) w = run_state ?m w"
    by (simp add: Notify_Create_def Let_def Inr)
  show ?thesis unfolding eq by (rule sound_run [OF law assms])
qed

lemma keeps_api:
  "state_io_rel (keeps_notify_sound P fl) (Notify_SetEnabled t i b)" "state_io_rel (keeps_notify_sound P fl) (Notify_Delete t i)"
  unfolding Notify_SetEnabled_def Notify_Delete_def
  by (intro ns.bind ns.return law_intros keeps_delete keeps_changes keeps_vault)+

section \<open>Every reachable state\<close>

lemma sound_environment:
  "notify_sound P fl (w\<lparr>en_clock := now, en_outcomes := os, nd_receiver := rc, nd_relay := rl, nd_random := rd\<rparr>)
   = notify_sound P fl w" (is "notify_sound P fl ?w = _")
proof -
  have same: "nd_subscriptions ?w = nd_subscriptions w" "nd_deliveries ?w = nd_deliveries w" "nd_parse ?w = nd_parse w"
      "ids_used ?w = ids_used w" "en_uuid ?w = en_uuid w" "posts ?w = posts w" "nd_requests ?w = nd_requests w"
      "nd_mails ?w = nd_mails w"
    by (auto simp: ids_used_def posts_def)
  show ?thesis
    unfolding notify_sound_def deliveries_ok_def held_ok_def sent_ok_def subscriptions_ok_cong [OF same(4,3,1)]
      delivery_ok_cong [OF same(4,1,6)] same ..
qed

lemma sound_step:
  assumes "notify_step x y" "notify_sound P (snd x) (fst x)"
  shows "notify_sound P (snd y) (fst y)"
  using assms
proof cases
  case (event w fl evt)
  then show ?thesis using assms(2) sound_event by simp
next
  case (claim now n w due w' fl)
  then show ?thesis using assms(2) sound_claim(2) [of P fl w now n "Inr due" w' due] by simp
next
  case (claim_lost now n w e w' fl)
  then show ?thesis using assms(2) sound_claim(1) [of P fl w now n "Inl e" w'] by simp
next
  case (retry w xs d ys)
  then show ?thesis using assms(2) sound_retry [of P xs d ys w "()"] by (simp add: prod_eq_iff)
next
  case (crash w xs d ys)
  then show ?thesis using assms(2) sound_drop by simp
next
  case (create w fl t req)
  then show ?thesis using assms(2) sound_Notify_Create by simp
next
  case (enable w fl t i b)
  then show ?thesis using assms(2) sound_run [OF keeps_api(1) [of P fl t i b]] by simp
next
  case (delete w fl t i)
  then show ?thesis using assms(2) sound_run [OF keeps_api(2) [of P fl t i]] by simp
next
  case (environment w now fl os rc rl rd)
  then show ?thesis using assms(2) by (simp add: sound_environment)
qed

lemma sound_reaches:
  "notify_reaches x y \<Longrightarrow> notify_sound P (snd x) (fst x) \<Longrightarrow> notify_sound P (snd y) (fst y)"
  unfolding notify_reaches_def by (induction rule: rtranclp_induct) (auto intro: sound_step)

text \<open>The service before its first event or request.\<close>

definition notify_start :: "notify_db \<Rightarrow> bool" where
  "notify_start w \<longleftrightarrow> inj (en_uuid w) \<and> nd_subscriptions w = [] \<and> nd_deliveries w = []
     \<and> nd_requests w = [] \<and> nd_mails w = []"

lemma sound_start: "notify_start w \<Longrightarrow> notify_sound (nd_parse w) [] w"
  by (simp add: notify_start_def notify_sound_def subscriptions_ok_def deliveries_ok_def sent_ok_def posts_def MaxAttempts_def)

lemma sound_always: "notify_start w0 \<Longrightarrow> notify_reaches (w0, []) (w, fl) \<Longrightarrow> notify_sound (nd_parse w0) fl w"
  using sound_reaches [of "(w0, [])" "(w, fl)"] sound_start by simp

end
