(* ===== verification/Notify_Safety.thy ===== *)
theory Notify_Safety
  imports Notify_Steps
begin

text \<open>
  What becomes of a delivery nobody works on any more: delivered, dead-lettered, or claimed by a poller
  that died. No step touches it again but the deletion of its subscription, and nothing more is sent for it.
\<close>

section \<open>A row at rest\<close>

definition rests :: "Delivery \<Rightarrow> notify_db \<Rightarrow> bool" where
  "rests d w \<longleftrightarrow> dl_ID d \<in> ids_used w \<and> (\<forall>r \<in> set (nd_deliveries w). dl_ID r = dl_ID d \<longrightarrow> r = d)"

definition leaves_alone :: "Delivery \<Rightarrow> notify_db \<Rightarrow> notify_db \<Rightarrow> bool" where
  "leaves_alone d w w' \<longleftrightarrow> (rests d w \<longrightarrow> rests d w' \<and> posts w' (dl_ID d) = posts w (dl_ID d))"

interpretation la: step_law "leaves_alone d" for d
  by unfold_locales (auto simp: leaves_alone_def)

lemma leaves_same:
  assumes "nd_deliveries w' = nd_deliveries w" "ids_used w \<subseteq> ids_used w'" "posts w' = posts w"
  shows "leaves_alone d w w'"
  using assms by (auto simp: leaves_alone_def rests_def)

lemma leaves_tells: "tells [] [] w w' \<Longrightarrow> leaves_alone d w w'"
  using tells_nothing_same [of w w'] by (intro leaves_same) simp_all

lemma leaves_attempted:
  assumes a: "attempted t i n rs ms w w'" and i: "i \<noteq> dl_ID d" and none: "messages_for rs ms (dl_ID d) = 0"
  shows "leaves_alone d w w'"
proof -
  have "ids_used w' = ids_used w" using a by (simp add: attempted_def ids_used_def)
  moreover have "r \<in> set (nd_deliveries w)" if "r \<in> set (nd_deliveries w')" "dl_ID r = dl_ID d" for r
    using attempted_row [OF a that(1)] i that(2) by (auto simp: settles_def)
  ultimately show ?thesis
    using posts_attempted [OF a] none by (simp add: leaves_alone_def rests_def)
qed

lemma leaves_enqueued:
  assumes "inj (en_uuid w)" "enqueued t s p w v"
  shows "leaves_alone d w v"
proof -
  have "ids_used v = insert (fresh_id w) (ids_used w)" "posts v = posts w"
      and rows: "nd_deliveries v = nd_deliveries w @ [new_delivery w t s p]"
    using assms(2) by (auto simp: enqueued_def ids_used_def fresh_id_def lessThan_Suc posts_def)
  moreover have "fresh_id w \<notin> ids_used w" using assms(1) by (auto simp: ids_used_def fresh_id_def inj_eq)
  ultimately show ?thesis by (auto simp: leaves_alone_def rests_def new_delivery_def)
qed

lemma rests_not_due:
  assumes "rests d w" "dl_Status d \<noteq> delivery_pending" "c \<in> set (due_deliveries now n w)"
  shows "dl_ID c \<noteq> dl_ID d"
  using due_deliveries_members [OF assms(3)] assms(1,2) by (auto simp: rests_def)

lemma leaves_claimed:
  assumes w': "w' = (after_io w)\<lparr>nd_deliveries := map (\<lambda>d. if List.member (map dl_ID (due_deliveries now n w)) (dl_ID d)
          then d\<lparr>dl_Status := delivery_processing\<rparr> else d) (nd_deliveries w)\<rparr>"
    and d: "dl_Status d \<noteq> delivery_pending"
  shows "leaves_alone d w w'"
proof -
  let ?f = "\<lambda>d. if List.member (map dl_ID (due_deliveries now n w)) (dl_ID d) then d\<lparr>dl_Status := delivery_processing\<rparr> else d"
  have rows: "nd_deliveries w' = map ?f (nd_deliveries w)" and same: "ids_used w' = ids_used w" "posts w' = posts w"
    by (auto simp: w' ids_used_def posts_def)
  have "r' = d" if rest: "rests d w" and r': "r' \<in> set (nd_deliveries w')" "dl_ID r' = dl_ID d" for r'
  proof -
    obtain r where r: "r \<in> set (nd_deliveries w)" "r' = ?f r" using r'(1) unfolding rows by auto
    then have "dl_ID r = dl_ID d" using r'(2) by (simp split: if_splits)
    then have "r = d" using rest r(1) by (simp add: rests_def)
    moreover have "dl_ID d \<notin> dl_ID ` set (due_deliveries now n w)" using rests_not_due [OF rest d] by fastforce
    ultimately show ?thesis unfolding r(2) by simp
  qed
  then show ?thesis using same by (simp add: leaves_alone_def rests_def)
qed

section \<open>No step touches it\<close>

lemma leaves_fan_out:
  assumes sound: "inj (en_uuid w)" and run: "run_state (fan_out t p u sub) w = (r, w')"
  shows "leaves_alone d w w' \<and> en_uuid w' = en_uuid w"
  using run
proof (cases rule: fan_out_cases)
  case skipped
  then show ?thesis using leaves_tells by (auto simp: tells_def)
next
  case lost
  then show ?thesis using leaves_enqueued [OF sound] by (simp add: enqueued_def)
next
  case (tried v rs ms)
  have uuid: "en_uuid w' = en_uuid w" using tried(1,2) by (simp add: enqueued_def attempted_def)
  have "leaves_alone d w w'"
  proof (cases "dl_ID d = fresh_id w")
    case True
    have "fresh_id w \<notin> ids_used w" using sound by (auto simp: ids_used_def fresh_id_def inj_eq)
    then show ?thesis using True by (simp add: leaves_alone_def rests_def)
  next
    case False
    then have "leaves_alone d v w'"
      using leaves_attempted [OF tried(2)] message_for_count [OF tried(3), of "dl_ID d"] by simp
    then show ?thesis using leaves_enqueued [OF sound tried(1)] la.law_trans by blast
  qed
  with uuid show ?thesis by blast
qed

lemma leaves_fan_outs:
  "inj (en_uuid w) \<Longrightarrow> leaves_alone d w (snd (run_state (fold_state (fan_out t p) u subs) w))"
proof (induction subs arbitrary: u w)
  case (Cons sub subs)
  obtain x v where run: "run_state (fan_out t p u sub) w = (x, v)" by (cases "run_state (fan_out t p u sub) w")
  have v: "leaves_alone d w v" "inj (en_uuid v)" using leaves_fan_out [OF Cons.prems run] Cons.prems by auto
  have "leaves_alone d v (snd (run_state (fold_state (fan_out t p) x subs) v))" using Cons.IH v(2) by blast
  then show ?case using run la.law_trans [OF v(1)] by simp
qed (simp add: la.law_refl)

lemma leaves_event:
  assumes "inj (en_uuid w)"
  shows "leaves_alone d w (snd (run_state (Consumer_handle evt) w))"
proof (cases "Notify_Validate evt = Inr () \<and> webhook_Event_Valid (ne_Event evt)")
  case False
  then have "snd (run_state (Consumer_handle evt) w) = w"
    by (cases "Notify_Validate evt") (auto simp: Consumer_handle_def)
  then show ?thesis by (simp add: la.law_refl)
next
  case True
  obtain r v where look: "run_state (MatchingSubscriptions (ne_TenantID evt) (ne_Event evt)) w = (r, v)" by fastforce
  have v: "leaves_alone d w v" "inj (en_uuid v)"
    using MatchingSubscriptions_result [OF look] leaves_tells assms by (auto simp: tells_def)
  show ?thesis
  proof (cases r)
    case (Inl e)
    then show ?thesis using True look v(1) by (simp add: Consumer_handle_def)
  next
    case (Inr subs)
    let ?m = "fold_state (fan_out (ne_TenantID evt) (toWebhookPayload evt)) () subs"
    have "leaves_alone d w (snd (run_state ?m v))" using la.law_trans [OF v(1) leaves_fan_outs [OF v(2)]] .
    then show ?thesis using True look Inr by (cases "run_state ?m v") (simp add: Consumer_handle_def)
  qed
qed

lemma leaves_retry:
  assumes "run_state (retry_one u c) w = (r, w')" "dl_ID c \<noteq> dl_ID d"
  shows "leaves_alone d w w'"
  using assms(1)
proof (cases rule: retry_one_cases)
  case gone
  then show ?thesis using leaves_attempted assms(2) by simp
next
  case (tried sub rs ms)
  then show ?thesis
    using leaves_attempted [OF tried(1)] message_for_count [OF tried(3), of "dl_ID d"] assms(2) by simp
qed

lemma leaves_after_io [simp]: "leaves_alone d (after_io w) w' = leaves_alone d w w'"
proof -
  have "rests d (after_io w) = rests d w" "posts (after_io w) = posts w"
    by (auto simp: rests_def ids_used_def posts_def)
  then show ?thesis by (simp add: leaves_alone_def)
qed

lemma leaves_tx:
  assumes "\<And>w x w'. fn w = Inr (x, w') \<Longrightarrow> leaves_alone d w w'"
  shows "state_io_rel (leaves_alone d) (WithTenant u fn)"
proof (rule law_WithTenant)
  fix w x w'
  assume "fn (after_io w) = Inr (x, w')"
  then show "leaves_alone d w w'" using assms [of "after_io w" x w'] by simp
qed (simp_all add: la.law_refl leaves_tells)

lemma leaves_vault:
  "state_io_rel (leaves_alone d) (Client_Put r s)" "state_io_rel (leaves_alone d) (Client_Delete r p)"
  by (rule state_io_relI, rule leaves_tells,
      auto simp: client_defs Let_def tells_def split: sum.splits if_splits)+

lemma leaves_changes:
  "state_io_rel (leaves_alone d) (SetSubscriptionEnabled t i b)"
  "state_io_rel (leaves_alone d) (SetSubscriptionSecretRef t i s)"
  unfolding SetSubscriptionEnabled_def SetSubscriptionSecretRef_def change_subscription_def
  by (intro la.bind la.return leaves_tx leaves_same;
      auto simp: ids_used_def posts_def split: option.splits)+

lemma leaves_delete: "state_io_rel (leaves_alone d) (DeleteSubscription t i)"
  unfolding DeleteSubscription_def
  by (intro la.bind la.return leaves_tx)
    (auto simp: leaves_alone_def rests_def ids_used_def posts_def split: option.splits)

lemma leaves_create: "state_io_rel (leaves_alone d) (CreateSubscription t sub)"
  unfolding CreateSubscription_def
  by (intro la.bind la.return leaves_tx leaves_same)
    (auto simp: Let_def ids_used_def posts_def split: if_splits)

lemma leaves_insert: "state_io_rel (leaves_alone d) (insert_subscription t sub secret)"
  unfolding insert_subscription_def store_secret_def
  by (intro la.bind la.return law_intros leaves_create leaves_vault leaves_delete leaves_changes)

lemma leaves_Notify_Create: "state_io_rel (leaves_alone d) (Notify_Create t req)"
proof -
  have "state_io_rel (leaves_alone d) generateSecret"
    by (rule state_io_relI) (simp add: generateSecret_def la.law_refl)
  then show ?thesis unfolding Notify_Create_def Let_def
    by (intro la.bind la.get la.return law_intros leaves_insert)
qed

lemma leaves_api:
  "state_io_rel (leaves_alone d) (Notify_SetEnabled t i b)" "state_io_rel (leaves_alone d) (Notify_Delete t i)"
  unfolding Notify_SetEnabled_def Notify_Delete_def
  by (intro la.bind la.return law_intros leaves_delete leaves_changes leaves_vault)+

lemma leaves_run: "state_io_rel (leaves_alone d) m \<Longrightarrow> leaves_alone d w (snd (run_state m w))"
  by (simp add: state_io_rel_def)

lemma leaves_step:
  assumes "notify_step x y" "notify_sound P (snd x) (fst x)"
    and "dl_Status d \<noteq> delivery_pending" "dl_ID d \<notin> dl_ID ` set (snd x)" "rests d (fst x)"
  shows "leaves_alone d (fst x) (fst y) \<and> dl_ID d \<notin> dl_ID ` set (snd y)"
  using assms(1)
proof cases
  case (event w fl evt)
  then show ?thesis using assms(2,4) leaves_event [of w d evt] by (simp add: notify_sound_def)
next
  case (claim now n w due w' fl)
  have "leaves_alone d w w' \<and> dl_ID d \<notin> dl_ID ` set due"
    using claim(3)
  proof (cases rule: claim_cases)
    case (failed e)
    then show ?thesis by simp
  next
    case claimed
    have "rests d w" using assms(5) claim(1) by simp
    then have "dl_ID d \<notin> dl_ID ` set (due_deliveries now n w)" using rests_not_due assms(3) by fastforce
    then show ?thesis using leaves_claimed [OF claimed(2) assms(3)] claimed(1) by auto
  qed
  then show ?thesis using claim assms(4) by auto
next
  case (claim_lost now n w e w' fl)
  have "leaves_alone d w w'"
    using claim_lost(3)
  proof (cases rule: claim_cases)
    case (failed e')
    then show ?thesis using leaves_tells by blast
  next
    case claimed
    then show ?thesis using leaves_claimed [OF claimed(2) assms(3)] by blast
  qed
  then show ?thesis using claim_lost assms(4) by simp
next
  case (retry w xs c ys)
  then have "dl_ID c \<noteq> dl_ID d" using assms(4) by auto
  then show ?thesis using retry assms(4) leaves_retry [of "()" c w] by (auto simp: prod_eq_iff)
next
  case (crash w xs c ys)
  then show ?thesis using assms(4) by (auto simp: la.law_refl)
next
  case (create w fl t req)
  then show ?thesis using assms(4) leaves_run [OF leaves_Notify_Create] by simp
next
  case (enable w fl t i b)
  then show ?thesis using assms(4) leaves_run [OF leaves_api(1)] by simp
next
  case (delete w fl t i)
  then show ?thesis using assms(4) leaves_run [OF leaves_api(2)] by simp
next
  case (environment w now fl os rc rl rd)
  then show ?thesis using assms(4) by (auto intro: leaves_same simp: ids_used_def posts_def)
qed

lemma leaves_reaches:
  assumes "notify_reaches x y" "notify_sound P (snd x) (fst x)"
    and "dl_Status d \<noteq> delivery_pending" "dl_ID d \<notin> dl_ID ` set (snd x)" "rests d (fst x)"
  shows "rests d (fst y) \<and> posts (fst y) (dl_ID d) = posts (fst x) (dl_ID d)
    \<and> dl_ID d \<notin> dl_ID ` set (snd y) \<and> notify_sound P (snd y) (fst y)"
  using assms(1) unfolding notify_reaches_def
proof (induction rule: rtranclp_induct)
  case (step y z)
  then show ?case
    using leaves_step [OF step.hyps(2), of P d] sound_step [OF step.hyps(2), of P] assms(3)
    by (auto simp: leaves_alone_def)
qed (use assms in simp)

end
