(* ===== verification/Notify_Properties.thy ===== *)
theory Notify_Properties
  imports Notify_Safety
begin

text \<open>
  The properties of the notification service and of the vault it takes its secrets from.
\<close>

section \<open>The tables and the messages\<close>




text \<open>
  C28. Every request ever sent went to a URL that names https, a host and no credentials, and no host of the
  platform itself; every mail went to one address without control or separator characters, under a subject
  of one line.
\<close>

theorem messages_go_to_validated_targets:
  assumes "notify_start w0" "notify_reaches (w0, []) (w, fl)"
  shows "(\<forall>r \<in> set (nd_requests w). \<exists>u. nd_parse w0 (hr_Target r) = Inr u \<and> ur_Scheme u = ''https'' \<and> ur_Host u \<noteq> []
        \<and> \<not> ur_HasUser u \<and> to_lower (ur_Hostname u) \<notin> set blocked_hosts
        \<and> \<not> suffix ''.internal'' (to_lower (ur_Hostname u)) \<and> \<not> suffix ''.local'' (to_lower (ur_Hostname u)))
    \<and> (\<forall>m \<in> set (nd_mails w). (\<forall>c \<in> set (ml_To m). byte c \<notin> {13, 10, 0, 44, 59}) \<and> one_line (ml_Subject m))"
proof -
  have sound: "notify_sound (nd_parse w0) fl w" by (rule sound_always [OF assms])
  have "nd_parse w = nd_parse w0" using sound by (simp add: notify_sound_def)
  moreover have "\<exists>u. P raw = Inr u \<and> ur_Scheme u = ''https'' \<and> ur_Host u \<noteq> [] \<and> \<not> ur_HasUser u
      \<and> to_lower (ur_Hostname u) \<notin> set blocked_hosts
      \<and> \<not> suffix ''.internal'' (to_lower (ur_Hostname u)) \<and> \<not> suffix ''.local'' (to_lower (ur_Hostname u))"
    if "ValidateWebhookURL P raw = Inr ()" for P raw
    using ValidateWebhookURL_accepts [OF that] .
  moreover have "\<forall>c \<in> set t. byte c \<notin> {13, 10, 0, 44, 59}" if "validateEmail t = Inr ()" for t
    using that by (auto simp: validateEmail_def list_ex_iff split: if_splits)
  ultimately show ?thesis using sound unfolding notify_sound_def sent_ok_def by metis
qed

section \<open>One attempt\<close>

lemma transportFailure_fields:
  "\<not> ou_Delivered (transportFailure e n at)" "ou_Status (transportFailure e n at) = 0"
  "re_DeadLettered (transportFailure e n at) = (errs_Is e FetchPrivateAddressBlocked \<or> MaxAttempts \<le> n)"
  "re_NextRetryAt (transportFailure e n at)
    = (if errs_Is e FetchPrivateAddressBlocked \<or> MaxAttempts \<le> n then None else Some (at + Backoff n))"
  by (auto simp: transportFailure_def Let_def schedule_def ShouldDeadLetter_def Outcome.defs isBlockedAddress_def)

definition retryable_status :: "int \<Rightarrow> bool" where
  "retryable_status st \<longleftrightarrow> st = 408 \<or> st = 429 \<or> st < 200 \<or> 300 \<le> st \<and> st < 400 \<or> 500 \<le> st"

lemma Classify_fields:
  "ou_Delivered (Classify st n) = (200 \<le> st \<and> st < 300)" "ou_Status (Classify st n) = st"
  "200 \<le> st \<and> st < 300 \<or> ou_Retryable (Classify st n) = retryable_status st"
  by (auto simp: Classify_def Let_def retryable_status_def)

lemma answered_fields:
  "ou_Delivered (answered st raw n at) = (200 \<le> st \<and> st < 300)" "ou_Status (answered st raw n at) = st"
  "\<not> (200 \<le> st \<and> st < 300) \<Longrightarrow> re_DeadLettered (answered st raw n at) = (\<not> retryable_status st \<or> MaxAttempts \<le> n)"
  "re_NextRetryAt (answered st raw n at)
    = (if 200 \<le> st \<and> st < 300 \<or> \<not> retryable_status st \<or> MaxAttempts \<le> n then None else Some (at + Backoff n))"
  using Classify_fields [of st n]
  by (auto simp: answered_def schedule_def ShouldDeadLetter_def Outcome.defs DeliveryResult.defs)

lemma Backoff_schedule:
  "1 \<le> n \<Longrightarrow> n < 5 \<Longrightarrow> Backoff n = [30, 120, 600, 3600] ! nat (n - 1) * second_ns"
proof -
  assume "1 \<le> n" "n < 5"
  then have "n = 1 \<or> n = 2 \<or> n = 3 \<or> n = 4" by arith
  then show ?thesis by (auto simp: Backoff_def Let_def)
qed

lemma run_record_reliable:
  assumes "reliable w" "t \<noteq> []" "1 \<le> n" "List.member delivery_statuses st"
  shows "run_state (record_attempt t i st n rc ca at) w = ((), w\<lparr>nd_deliveries := map (\<lambda>d. if own_delivery t i d
      then d\<lparr>dl_Status := st, dl_Attempt := n, dl_ResponseCode := rc, dl_Error := ca, dl_NextRetryAt := at,
             dl_DeliveredAt := (if st = delivery_delivered then Some (en_clock w) else dl_DeliveredAt d)\<rparr>
      else d) (nd_deliveries w)\<rparr>)"
  using assms by (simp add: record_attempt_def RecordAttempt_def notify_wrapped_def run_WithTenant)

text \<open>What follows from the answer of a receiver at the \<open>n\<close>th attempt.\<close>

definition answer_accepted :: "go_err + int \<times> string \<Rightarrow> bool" where
  "answer_accepted answer = (case answer of Inl _ \<Rightarrow> False | Inr (st, _) \<Rightarrow> 200 \<le> st \<and> st < 300)"

definition tried_again :: "int \<Rightarrow> go_err + int \<times> string \<Rightarrow> bool" where
  "tried_again n answer \<longleftrightarrow> n < 5 \<and> (case answer of Inl e \<Rightarrow> \<not> errs_Is e FetchPrivateAddressBlocked
     | Inr (st, _) \<Rightarrow> retryable_status st)"

definition settled_by :: "go_err + int \<times> string \<Rightarrow> int \<Rightarrow> instant \<Rightarrow> string \<Rightarrow> Delivery \<Rightarrow> Delivery" where
  "settled_by answer n now reason d = d\<lparr>
     dl_Status := (if answer_accepted answer then delivery_delivered else if tried_again n answer then delivery_pending else delivery_dead),
     dl_Attempt := n, dl_ResponseCode := (case answer of Inl _ \<Rightarrow> 0 | Inr (st, _) \<Rightarrow> st), dl_Error := reason,
     dl_NextRetryAt := (if answer_accepted answer \<or> \<not> tried_again n answer then None
       else Some (now + [30, 120, 600, 3600] ! nat (n - 1) * second_ns)),
     dl_DeliveredAt := (if answer_accepted answer then Some now else dl_DeliveredAt d)\<rparr>"

lemma run_Attempt_webhook:
  assumes "reliable w" "t \<noteq> []" "sb_Kind sub = KindWebhook" "1 \<le> n" "n \<le> 5"
    and "Encode (p\<lparr>pa_DeliveryID := i\<rparr>) = Inr body" "nd_parse w (sb_Target sub) = Inr u"
    and "Ref_Path (secret_ref (sb_TenantID sub) (sb_ID sub)) = Inr (sb_SecretRef sub)"
    and "ve_secrets w (sb_SecretRef sub) = Some [(''secret'', secret)]" "secret \<noteq> []"
  defines "req \<equiv> hook_of sub (p\<lparr>pa_DeliveryID := i\<rparr>) body secret (en_clock w)"
  shows "\<exists>reason. run_state (Attempt t sub i p n) w = ((), w\<lparr>nd_requests := nd_requests w @ [req],
    nd_deliveries := map (\<lambda>d. if own_delivery t i d
      then settled_by (nd_receiver w req (length (nd_requests w))) n (en_clock w) reason d else d) (nd_deliveries w)\<rparr>)"
proof -
  let ?p = "p\<lparr>pa_DeliveryID := i\<rparr>"
  let ?v = "w\<lparr>nd_requests := nd_requests w @ [req]\<rparr>"
  let ?answer = "nd_receiver w req (length (nd_requests w))"
  have v: "reliable ?v" using assms(1) by (simp add: reliable_def)
  have res: "run_state (vaultSecrets_Resolve (sb_TenantID sub) (sb_ID sub) (sb_SecretRef sub)) w = (Inr secret, w)"
    using assms(1,8,9) by (simp add: run_Resolve_reliable secret_ref_def)
  define x where "x = (case ?answer of Inl e \<Rightarrow> transportFailure e n (en_clock w)
    | Inr (st, raw) \<Rightarrow> answered st raw n (en_clock w))"
  have deliver: "run_state (Deliver sub ?p n) w = (Inr x, ?v)"
    unfolding run_Deliver [OF assms(3,6) res] using assms(7,10) by (simp add: x_def req_def Let_def split: sum.splits prod.splits)
  have "run_state (Attempt t sub i p n) w = run_state (record_attempt t i
      (if ou_Delivered x then delivery_delivered else if re_DeadLettered x then delivery_dead else delivery_pending)
      (ou_Attempt x) (ou_Status x) (ou_Reason x) (re_NextRetryAt x)) ?v"
    using assms(3) deliver by (simp add: Attempt_def attemptWebhook_def Let_def)
  moreover have "ou_Attempt x = n" by (simp add: x_def transportFailure_def answered_def Let_def split: sum.splits prod.splits)
  ultimately have run: "run_state (Attempt t sub i p n) w = run_state (record_attempt t i
      (if ou_Delivered x then delivery_delivered else if re_DeadLettered x then delivery_dead else delivery_pending)
      n (ou_Status x) (ou_Reason x) (re_NextRetryAt x)) ?v" by simp
  have x: "ou_Delivered x = answer_accepted ?answer" "\<not> answer_accepted ?answer \<Longrightarrow> re_DeadLettered x = (\<not> tried_again n ?answer)"
      "ou_Status x = (case ?answer of Inl _ \<Rightarrow> 0 | Inr (st, _) \<Rightarrow> st)"
      "re_NextRetryAt x = (if answer_accepted ?answer \<or> \<not> tried_again n ?answer then None
         else Some (en_clock w + [30, 120, 600, 3600] ! nat (n - 1) * second_ns))"
    using Backoff_schedule [OF assms(4)]
    by (auto simp: x_def transportFailure_fields answered_fields answer_accepted_def tried_again_def MaxAttempts_def not_le
        split: sum.splits prod.splits)
  have st: "(if ou_Delivered x then delivery_delivered else if re_DeadLettered x then delivery_dead else delivery_pending)
      = (if answer_accepted ?answer then delivery_delivered else if tried_again n ?answer then delivery_pending else delivery_dead)"
    using x(1,2) by simp
  have member: "List.member delivery_statuses (if answer_accepted ?answer then delivery_delivered
      else if tried_again n ?answer then delivery_pending else delivery_dead)"
    by (simp add: delivery_statuses_def)
  show ?thesis
    unfolding run st x(3,4) run_record_reliable [OF v assms(2,4) member]
    by (intro exI [of _ "ou_Reason x"]) (auto simp: settled_by_def)
qed

text \<open>
  C32. What an attempt at a webhook leaves behind when the database answers: one request, signed and addressed
  as the subscription says, and in the delivery's row the attempt and what follows from the answer.
  Success is 2xx; a time-out, a rate limit, a server error or a lost connection is tried again after 30
  seconds, 2 minutes, 10 minutes, an hour, and given up after the fifth attempt; a refusal or an address
  the platform blocks is given up at once.
\<close>

theorem webhook_attempt_records_the_answer:
  assumes "reliable w" "t \<noteq> []" "sb_Kind sub = KindWebhook" "1 \<le> n" "n \<le> 5"
    and "Encode (p\<lparr>pa_DeliveryID := i\<rparr>) = Inr body" "nd_parse w (sb_Target sub) = Inr u"
    and "Ref_Path (secret_ref (sb_TenantID sub) (sb_ID sub)) = Inr (sb_SecretRef sub)"
    and "ve_secrets w (sb_SecretRef sub) = Some [(''secret'', secret)]" "secret \<noteq> []"
  shows "let w' = snd (run_state (Attempt t sub i p n) w);
      req = hook_of sub (p\<lparr>pa_DeliveryID := i\<rparr>) body secret (en_clock w);
      answer = nd_receiver w req (length (nd_requests w))
    in nd_requests w' = nd_requests w @ [req] \<and> nd_mails w' = nd_mails w
      \<and> (\<exists>reason. nd_deliveries w' = map (\<lambda>d. if own_delivery t i d
            then settled_by answer n (en_clock w) reason d else d) (nd_deliveries w))"
  using run_Attempt_webhook [OF assms] by (elim exE) (simp add: Let_def, blast)

section \<open>Fan-out\<close>

text \<open>Calls leave the environment as reliable as it was.\<close>

definition stays_reliable :: "notify_db \<Rightarrow> notify_db \<Rightarrow> bool" where
  "stays_reliable w w' \<longleftrightarrow> (reliable w \<longrightarrow> reliable w')"


lemma sr_after_io [simp]: "stays_reliable w (after_io w)" "stays_reliable w w"
  by (simp_all add: stays_reliable_def)











section \<open>Tenants\<close>














end
