(* ===== verification/Notify_Examples.thy ===== *)
theory Notify_Examples
  imports Notify_Properties
begin

text \<open>
  Concrete runs of the notification service: the properties applied to them, and the runs that show where
  the service does not do what it means to.
\<close>

section \<open>A small service\<close>

definition svc_url :: URL where
  "svc_url = \<lparr>ur_Scheme = ''https'', ur_Host = ''r.example'', ur_HasUser = False, ur_Hostname = ''r.example''\<rparr>"

text \<open>Every receiver answers 500, every mail is taken.\<close>

definition svc_notify :: "io_outcome list \<Rightarrow> notify_db" where
  "svc_notify os = \<lparr>en_outbox = [], en_clock = 0, en_uuid = (\<lambda>n. ''u'' @ itoa n), en_next = 0, en_outcomes = os,
     ve_secrets = Map.empty, nd_subscriptions = [], nd_deliveries = [], nd_requests = [], nd_mails = [],
     nd_receiver = (\<lambda>r n. Inr (500, [])), nd_relay = (\<lambda>m n. None), nd_parse = (\<lambda>s. Inr svc_url),
     nd_random = replicate 32 (CHR ''x'')\<rparr>"

lemma svc_start: "notify_start (svc_notify os)"
  by (auto simp: notify_start_def svc_notify_def inj_def itoa_inj)

definition svc_request :: "string list option \<Rightarrow> SubscriptionRequest" where
  "svc_request events = \<lparr>sq_Kind = KindWebhook, sq_Target = ''https://r.example/h'', sq_Events = events, sq_Secret = replicate 32 (CHR ''k'')\<rparr>"

definition svc_event :: NotifyEventV1 where
  "svc_event = empty_notification\<lparr>ne_Event := EventReportReady, ne_TenantID := ''t'', ne_OccurredAt := ''2026-01-01T00:00:00Z''\<rparr>"

definition svc_sub :: Subscription where
  "svc_sub = \<lparr>sb_ID = ''u0'', sb_TenantID = ''t'', sb_Kind = KindWebhook, sb_Target = ''https://r.example/h'',
     sb_Events = Some [], sb_SecretRef = ''axebom/tenants/t/webhook-secret/u0'', sb_Enabled = True, sb_CreatedBy = []\<rparr>"

text \<open>The service with that one subscription.\<close>

definition svc_ready :: notify_db where
  "svc_ready = (svc_notify [])\<lparr>en_next := 1,
     ve_secrets := [''axebom/tenants/t/webhook-secret/u0'' \<mapsto> [(''secret'', replicate 32 (CHR ''k''))]],
     nd_subscriptions := [\<lparr>sw_Subscription = svc_sub, sw_CreatedAt = 0\<rparr>]\<rparr>"

lemma svc_path [simp]:
  "Ref_Path \<lparr>rf_TenantID = ''t'', rf_Kind = KindWebhookSecret, rf_ID = ''u0''\<rparr> = Inr ''axebom/tenants/t/webhook-secret/u0''"
  by (simp add: Ref_Path_def Ref_validate_def Kind_valid_def path_breaker_def)

lemma svc_uuids [simp]: "itoa 0 = ''0''" "itoa (Suc 0) = ''1''"
  by (simp_all add: itoa.simps char_of_def bit_iff_odd)

lemma svc_valid [simp]: "Subscription_Validate (nd_parse (svc_notify os)) (requested_subscription ''t'' (svc_request (Some []))) = Inr ()"
  by (simp add: Subscription_Validate_def requested_subscription_def svc_request_def ValidateWebhookURL_def svc_notify_def
      svc_url_def to_lower_def lower_char_def blocked_hosts_def pendingRef_def slice_def suffix_def Let_def)

text \<open>The row before its secret is stored, and the service at that moment.\<close>

definition svc_half :: "io_outcome list \<Rightarrow> notify_db" where
  "svc_half os = (svc_notify os)\<lparr>en_next := 1,
     nd_subscriptions := [\<lparr>sw_Subscription = svc_sub\<lparr>sb_SecretRef := pendingRef\<rparr>, sw_CreatedAt = 0\<rparr>]\<rparr>"

definition svc_stored :: "io_outcome list \<Rightarrow> notify_db" where
  "svc_stored os = (svc_half os)\<lparr>
     ve_secrets := [''axebom/tenants/t/webhook-secret/u0'' \<mapsto> [(''secret'', replicate 32 (CHR ''k''))]]\<rparr>"

lemma run_Notify_Create:
  assumes "Subscription_Validate (nd_parse w) (requested_subscription t req) = Inr ()" "sq_Kind req = KindWebhook"
    and "minSecretLen \<le> length (sq_Secret req)"
  shows "run_state (Notify_Create t req) w = run_state (insert_subscription t (requested_subscription t req) (sq_Secret req)) w"
proof -
  have "sq_Secret req \<noteq> []" using assms(3) by (auto simp: minSecretLen_def)
  then show ?thesis using assms by (simp add: Notify_Create_def Let_def requested_subscription_def)
qed

lemma svc_outcome [simp]: "next_outcome (svc_notify (Io_Ok # os)) = Io_Ok" "next_outcome (svc_notify []) = Io_Ok"
  "next_outcome (svc_half (x # os)) = x" "next_outcome (svc_half []) = Io_Ok"
  "next_outcome (svc_stored (x # os)) = x" "next_outcome (svc_stored []) = Io_Ok"
  by (simp_all add: next_outcome_def svc_notify_def svc_half_def svc_stored_def)

lemma svc_after [simp]: "after_io (svc_notify os) = svc_notify (tl os)" "after_io (svc_half os) = svc_half (tl os)"
  "after_io (svc_stored os) = svc_stored (tl os)"
  by (simp_all add: after_io_def svc_notify_def svc_half_def svc_stored_def)

lemma svc_inserted:
  assumes "next_outcome (svc_notify os) = Io_Ok"
  shows "run_state (CreateSubscription ''t'' (requested_subscription ''t'' (svc_request (Some [])))) (svc_notify os)
    = (Inr (svc_sub\<lparr>sb_SecretRef := pendingRef\<rparr>), svc_half (tl os))"
proof -
  have "fresh_id (svc_notify os) = ''u0''" for os by (simp add: fresh_id_def svc_notify_def)
  moreover have "\<not> target_taken t s (svc_notify os)" for t s os by (simp add: target_taken_def svc_notify_def)
  ultimately show ?thesis using assms
    by (simp add: CreateSubscription_def run_WithTenant notify_wrapped_def Let_def)
      (simp add: requested_subscription_def svc_request_def svc_sub_def svc_half_def svc_notify_def drop_id_def)
qed

lemma svc_put:
  "next_outcome (svc_half os) = Io_Ok \<Longrightarrow>
   run_state (Client_Put (secret_ref ''t'' ''u0'') [(''secret'', replicate 32 (CHR ''k''))]) (svc_half os)
   = (Inr ''axebom/tenants/t/webhook-secret/u0'', svc_stored (tl os))"
  by (simp add: client_defs secret_ref_def) (simp add: svc_half_def svc_stored_def svc_notify_def)

lemma svc_pointed:
  "run_state (SetSubscriptionSecretRef ''t'' ''u0'' ''axebom/tenants/t/webhook-secret/u0'') (svc_stored [])
   = (Inr svc_sub, svc_ready)"
proof -
  have row: "nd_subscriptions (svc_stored []) = [\<lparr>sw_Subscription = svc_sub\<lparr>sb_SecretRef := pendingRef\<rparr>, sw_CreatedAt = 0\<rparr>]"
    by (simp add: svc_stored_def svc_half_def)
  have mine: "own_subscription ''t'' ''u0'' \<lparr>sw_Subscription = svc_sub\<lparr>sb_SecretRef := pendingRef\<rparr>, sw_CreatedAt = 0\<rparr>"
    by (simp add: own_subscription_def svc_sub_def)
  show ?thesis
    by (simp add: SetSubscriptionSecretRef_def change_subscription_def run_WithTenant missing_or_def find_subscription_def row mine)
      (simp add: svc_stored_def svc_half_def svc_ready_def svc_notify_def svc_sub_def)
qed

lemma svc_create:
  "snd (run_state (Notify_Create ''t'' (svc_request (Some []))) (svc_notify [])) = svc_ready"
proof -
  have "run_state (Notify_Create ''t'' (svc_request (Some []))) (svc_notify [])
      = run_state (insert_subscription ''t'' (requested_subscription ''t'' (svc_request (Some []))) (replicate 32 (CHR ''k''))) (svc_notify [])"
    using run_Notify_Create [OF svc_valid] by (simp add: svc_request_def minSecretLen_def)
  moreover have "sb_ID (svc_sub\<lparr>sb_SecretRef := pendingRef\<rparr>) = ''u0''" by (simp add: svc_sub_def)
  ultimately show ?thesis
    by (simp add: insert_subscription_def svc_inserted store_secret_def svc_put svc_pointed)
      (simp add: requested_subscription_def svc_request_def)
qed

lemma svc_reached: "notify_reaches (svc_notify [], []) (svc_ready, [])"
  unfolding notify_reaches_def using notify_step.create [of "svc_notify []" "[]" "''t''" "svc_request (Some [])"] svc_create
  by auto

section \<open>An event in it\<close>

definition svc_payload :: Payload where
  "svc_payload = toWebhookPayload svc_event"

text \<open>States of the service that differ from that one in ids, rows, messages and what receivers answer.\<close>

definition svc_like :: "notify_db \<Rightarrow> bool" where
  "svc_like w \<longleftrightarrow> reliable w \<and> nd_parse w = nd_parse svc_ready \<and> ve_secrets w = ve_secrets svc_ready
     \<and> nd_subscriptions w = nd_subscriptions svc_ready \<and> en_uuid w = en_uuid svc_ready \<and> en_clock w = 0"

lemma svc_ready_like: "svc_like svc_ready" "svc_like (svc_ready\<lparr>nd_receiver := rc\<rparr>)"
  by (simp_all add: svc_like_def reliable_def svc_ready_def svc_notify_def)

lemma svc_attempt:
  assumes "svc_like w" "1 \<le> n" "n \<le> 5"
  shows "\<exists>reason req. hr_DeliveryID req = i \<and> run_state (Attempt ''t'' svc_sub i svc_payload n) w
    = ((), w\<lparr>nd_requests := nd_requests w @ [req], nd_deliveries := map (\<lambda>d. if own_delivery ''t'' i d
        then settled_by (nd_receiver w req (length (nd_requests w))) n 0 reason d else d) (nd_deliveries w)\<rparr>)"
proof -
  have sub: "sb_Kind svc_sub = KindWebhook" "sb_TenantID svc_sub = ''t''" "sb_ID svc_sub = ''u0''"
      "sb_SecretRef svc_sub = ''axebom/tenants/t/webhook-secret/u0''"
    by (simp_all add: svc_sub_def)
  have body: "Encode (svc_payload\<lparr>pa_DeliveryID := i\<rparr>) = Inr (json_payload (svc_payload\<lparr>pa_DeliveryID := i\<rparr>))"
    by (simp add: Encode_def svc_payload_def toWebhookPayload_def svc_event_def empty_notification_def
        webhook_Event_Valid_def webhook_Events_def)
  have parse: "nd_parse w (sb_Target svc_sub) = Inr svc_url"
    using assms(1) by (simp add: svc_like_def svc_ready_def svc_notify_def)
  have key: "ve_secrets w (sb_SecretRef svc_sub) = Some [(''secret'', replicate 32 (CHR ''k''))]"
    using assms(1) by (simp add: svc_like_def svc_ready_def sub)
  have path: "Ref_Path (secret_ref (sb_TenantID svc_sub) (sb_ID svc_sub)) = Inr (sb_SecretRef svc_sub)"
    by (simp add: secret_ref_def sub)
  have w: "reliable w" "en_clock w = 0" using assms(1) by (simp_all add: svc_like_def)
  have "''t'' \<noteq> []" "replicate 32 (CHR ''k'') \<noteq> []" by simp_all
  from run_Attempt_webhook [OF w(1) this(1) sub(1) assms(2,3) body parse path key this(2)]
  obtain reason req where req: "req = hook_of svc_sub (svc_payload\<lparr>pa_DeliveryID := i\<rparr>)
      (json_payload (svc_payload\<lparr>pa_DeliveryID := i\<rparr>)) (replicate 32 (CHR ''k'')) (en_clock w)"
    and run: "run_state (Attempt ''t'' svc_sub i svc_payload n) w
    = ((), w\<lparr>nd_requests := nd_requests w @ [req], nd_deliveries := map (\<lambda>d. if own_delivery ''t'' i d
        then settled_by (nd_receiver w req (length (nd_requests w))) n (en_clock w) reason d else d) (nd_deliveries w)\<rparr>)"
    by blast
  have "hr_DeliveryID req = i" by (simp add: req hook_of_def)
  with run show ?thesis unfolding w(2) by blast
qed

text \<open>The delivery of the event when it is enqueued, and the service then.\<close>

definition svc_row :: Delivery where
  "svc_row = \<lparr>dl_ID = ''u1'', dl_TenantID = ''t'', dl_SubscriptionID = ''u0'', dl_EventType = EventReportReady,
     dl_Payload = svc_payload, dl_Attempt = 1, dl_Status = delivery_pending, dl_ResponseCode = 0, dl_Error = [],
     dl_NextRetryAt = None, dl_CreatedAt = 0, dl_DeliveredAt = None\<rparr>"

definition svc_queued :: "int \<Rightarrow> notify_db" where
  "svc_queued st = svc_ready\<lparr>nd_receiver := (\<lambda>r n. Inr (st, [])), en_next := 2, nd_deliveries := [svc_row]\<rparr>"

lemma svc_queued_like: "svc_like (svc_queued st)" "svc_like (svc_queued st\<lparr>nd_deliveries := ds\<rparr>)"
  by (simp_all add: svc_like_def reliable_def svc_queued_def svc_ready_def svc_notify_def)

lemma svc_enqueue:
  "run_state (EnqueueDelivery ''t'' ''u0'' svc_payload) (svc_ready\<lparr>nd_receiver := (\<lambda>r n. Inr (st, []))\<rparr>)
   = (Inr ''u1'', svc_queued st)"
proof -
  let ?w = "svc_ready\<lparr>nd_receiver := (\<lambda>r n. Inr (st, []))\<rparr>"
  have "reliable ?w" using svc_ready_like(2) by (simp add: svc_like_def)
  moreover have "fresh_id ?w = ''u1''" by (simp add: fresh_id_def svc_ready_def svc_notify_def)
  moreover have "list_ex (\<lambda>r. sb_ID (sw_Subscription r) = ''u0'') (nd_subscriptions ?w)"
    by (simp add: svc_ready_def svc_sub_def)
  ultimately show ?thesis
    by (simp add: EnqueueDelivery_def run_WithTenant notify_wrapped_def new_delivery_def svc_queued_def svc_row_def drop_id_def)
      (simp add: svc_ready_def svc_notify_def svc_payload_def toWebhookPayload_def svc_event_def)
qed

lemma svc_handled:
  "\<exists>reason req. hr_DeliveryID req = ''u1'' \<and>
     run_state (Consumer_handle svc_event) (svc_ready\<lparr>nd_receiver := (\<lambda>r n. Inr (st, []))\<rparr>)
     = (Inr (), svc_queued st\<lparr>nd_requests := [req], nd_deliveries := [settled_by (Inr (st, [])) 1 0 reason svc_row]\<rparr>)"
proof -
  let ?w = "svc_ready\<lparr>nd_receiver := (\<lambda>r n. Inr (st, []))\<rparr>"
  have event: "ne_TenantID svc_event = ''t''" "ne_Event svc_event = EventReportReady" "Notify_Validate svc_event = Inr ()"
      "webhook_Event_Valid EventReportReady"
    by (simp_all add: svc_event_def Notify_Validate_def webhook_Event_Valid_def webhook_Events_def)
  have "list_subscriptions ''t'' ?w = [svc_sub]"
    by (simp add: list_subscriptions_def svc_ready_def) (simp add: svc_sub_def)
  moreover have "Matches svc_sub EventReportReady" by (simp add: Matches_def svc_sub_def slice_def)
  moreover have "reliable ?w" using svc_ready_like(2) by (simp add: svc_like_def)
  ultimately have match: "run_state (MatchingSubscriptions ''t'' EventReportReady) ?w = (Inr [svc_sub], ?w)"
    by (simp add: MatchingSubscriptions_def ListSubscriptions_def run_ReadTenant notify_wrapped_def)
  obtain reason req where req: "hr_DeliveryID req = ''u1''"
    and run: "run_state (Attempt ''t'' svc_sub ''u1'' svc_payload 1) (svc_queued st)
      = ((), svc_queued st\<lparr>nd_requests := nd_requests (svc_queued st) @ [req], nd_deliveries := map (\<lambda>d. if own_delivery ''t'' ''u1'' d
        then settled_by (nd_receiver (svc_queued st) req (length (nd_requests (svc_queued st)))) 1 0 reason d else d)
        (nd_deliveries (svc_queued st))\<rparr>)"
    using svc_attempt [OF svc_queued_like(1), of 1 "''u1''" st] by auto
  have fields: "nd_requests (svc_queued st) = []" "nd_deliveries (svc_queued st) = [svc_row]"
      "nd_receiver (svc_queued st) = (\<lambda>r n. Inr (st, []))" "own_delivery ''t'' ''u1'' svc_row"
    by (simp_all add: svc_queued_def svc_ready_def svc_notify_def own_delivery_def svc_row_def)
  have "sb_Kind svc_sub = KindWebhook" "sb_ID svc_sub = ''u0''" by (simp_all add: svc_sub_def)
  then have "run_state (Consumer_handle svc_event) ?w
      = (Inr (), snd (run_state (Attempt ''t'' svc_sub ''u1'' svc_payload 1) (svc_queued st)))"
    by (simp add: Consumer_handle_def event match fan_out_def svc_payload_def [symmetric] svc_enqueue split: prod.splits)
  then have "run_state (Consumer_handle svc_event) ?w = (Inr (), svc_queued st\<lparr>nd_requests := [req],
      nd_deliveries := [settled_by (Inr (st, [])) 1 0 reason svc_row]\<rparr>)"
    using fields(4) unfolding run by (simp add: fields(1-3))
  with req show ?thesis by blast
qed

lemma svc_answering:
  "notify_reaches (svc_notify [], []) (svc_ready\<lparr>nd_receiver := (\<lambda>r n. Inr (st, []))\<rparr>, [])"
proof -
  have "notify_step (svc_ready, []) (svc_ready\<lparr>nd_receiver := (\<lambda>r n. Inr (st, []))\<rparr>, [])"
    using notify_step.environment [where w = svc_ready and now = 0 and fl = "[]" and os = "[]"
        and rc = "\<lambda>r n. Inr (st, [])" and rl = "nd_relay svc_ready" and rd = "nd_random svc_ready"]
    by (simp add: svc_ready_def svc_notify_def)
  then show ?thesis using svc_reached unfolding notify_reaches_def by (meson rtranclp.rtrancl_into_rtrancl)
qed

lemma svc_event_reached:
  "\<exists>w d req. notify_reaches (svc_notify [], []) (w, []) \<and> nd_deliveries w = [d] \<and> dl_ID d = ''u1''
     \<and> dl_Status d = delivery_delivered \<and> nd_requests w = [req] \<and> nd_mails w = [] \<and> hr_DeliveryID req = ''u1''"
proof -
  let ?w = "svc_ready\<lparr>nd_receiver := (\<lambda>r n. Inr (200, []))\<rparr>"
  obtain reason req where req: "hr_DeliveryID req = ''u1''" and run: "run_state (Consumer_handle svc_event) ?w
      = (Inr (), svc_queued 200\<lparr>nd_requests := [req], nd_deliveries := [settled_by (Inr (200, [])) 1 0 reason svc_row]\<rparr>)"
    using svc_handled by blast
  let ?v = "svc_queued 200\<lparr>nd_requests := [req], nd_deliveries := [settled_by (Inr (200, [])) 1 0 reason svc_row]\<rparr>"
  have "notify_step (?w, []) (?v, [])" using notify_step.event [of ?w "[]" svc_event] run by simp
  then have "notify_reaches (svc_notify [], []) (?v, [])"
    using svc_answering unfolding notify_reaches_def by (meson rtranclp.rtrancl_into_rtrancl)
  moreover have "nd_mails ?v = []" by (simp add: svc_queued_def svc_ready_def svc_notify_def)
  ultimately show ?thesis using req
    by (intro exI [of _ ?v] exI [of _ "settled_by (Inr (200, [])) 1 0 reason svc_row"] exI [of _ req])
      (simp add: settled_by_def answer_accepted_def svc_row_def)
qed

section \<open>The properties there\<close>




theorem messages_go_to_validated_targets_witness:
  "\<exists>(w :: notify_db) req u. nd_requests w = [req] \<and> nd_parse (svc_notify []) (hr_Target req) = Inr u \<and> ur_Scheme u = ''https''"
proof -
  obtain w req where w: "notify_reaches (svc_notify [], []) (w, [])" "nd_requests w = [req]"
    using svc_event_reached by blast
  then have "req \<in> set (nd_requests w)" by simp
  from bspec [OF conjunct1 [OF messages_go_to_validated_targets [OF svc_start w(1)]] this]
  obtain u where "nd_parse (svc_notify []) (hr_Target req) = Inr u" "ur_Scheme u = ''https''" by blast
  with w(2) show ?thesis by blast
qed



theorem webhook_attempt_records_the_answer_witness:
  "\<exists>req. nd_requests (snd (run_state (Attempt ''t'' svc_sub ''u1'' svc_payload 5) (svc_queued 500))) = [req]
    \<and> list_all (\<lambda>d. dl_Status d = delivery_dead) (nd_deliveries (snd (run_state (Attempt ''t'' svc_sub ''u1'' svc_payload 5) (svc_queued 500))))"
proof -
  have sub: "sb_Kind svc_sub = KindWebhook" "sb_TenantID svc_sub = ''t''" "sb_ID svc_sub = ''u0''"
      "sb_SecretRef svc_sub = ''axebom/tenants/t/webhook-secret/u0''"
    by (simp_all add: svc_sub_def)
  have body: "Encode (svc_payload\<lparr>pa_DeliveryID := ''u1''\<rparr>) = Inr (json_payload (svc_payload\<lparr>pa_DeliveryID := ''u1''\<rparr>))"
    by (simp add: Encode_def svc_payload_def toWebhookPayload_def svc_event_def empty_notification_def
        webhook_Event_Valid_def webhook_Events_def)
  have state: "reliable (svc_queued 500)" "nd_parse (svc_queued 500) (sb_Target svc_sub) = Inr svc_url"
      "ve_secrets (svc_queued 500) (sb_SecretRef svc_sub) = Some [(''secret'', replicate 32 (CHR ''k''))]"
      "nd_requests (svc_queued 500) = []" "nd_receiver (svc_queued 500) = (\<lambda>r n. Inr (500, []))"
      "nd_deliveries (svc_queued 500) = [svc_row]" "own_delivery ''t'' ''u1'' svc_row"
    by (simp_all add: svc_queued_def svc_ready_def svc_notify_def reliable_def sub own_delivery_def svc_row_def)
  have "''t'' \<noteq> []" "replicate 32 (CHR ''k'') \<noteq> []"
    and path: "Ref_Path (secret_ref (sb_TenantID svc_sub) (sb_ID svc_sub)) = Inr (sb_SecretRef svc_sub)"
    by (simp_all add: secret_ref_def sub)
  from webhook_attempt_records_the_answer [OF state(1) this(1) sub(1) _ _ body state(2) path state(3) this(2), of 5]
  show ?thesis by (auto simp: Let_def state settled_by_def answer_accepted_def tried_again_def)
qed

section \<open>Where it falls short\<close>

text \<open>
  An empty filter is documented as "everything", but a request that leaves the list of events out (or says
  null) never creates a subscription: the nil slice becomes NULL in a column that forbids it.
\<close>

theorem subscription_without_events_is_refused:
  assumes "sq_Events req = None"
  shows "\<exists>e. fst (run_state (Notify_Create t req) w) = Inl e
    \<and> nd_subscriptions (snd (run_state (Notify_Create t req) w)) = nd_subscriptions w"
proof -
  have insert: "\<exists>e. fst (run_state (insert_subscription t (requested_subscription t req) s) v) = Inl e
      \<and> nd_subscriptions (snd (run_state (insert_subscription t (requested_subscription t req) s) v)) = nd_subscriptions v" for s v
  proof -
    have "sb_Events (requested_subscription t req) = None" by (simp add: requested_subscription_def assms)
    then have "\<exists>e. fst (run_state (CreateSubscription t (requested_subscription t req)) v) = Inl e
        \<and> nd_subscriptions (snd (run_state (CreateSubscription t (requested_subscription t req)) v)) = nd_subscriptions v"
      by (simp add: CreateSubscription_def run_WithTenant notify_wrapped_def Let_def)
    then show ?thesis
      by (cases "run_state (CreateSubscription t (requested_subscription t req)) v") (auto simp: insert_subscription_def)
  qed
  have same: "nd_subscriptions (snd (run_state generateSecret v)) = nd_subscriptions v" for v
    by (simp add: generateSecret_def)
  show ?thesis
  proof (cases "Subscription_Validate (nd_parse w) (requested_subscription t req)")
    case (Inl e)
    then show ?thesis by (simp add: Notify_Create_def Let_def)
  next
    case (Inr u)
    show ?thesis
    proof (cases "sb_Kind (requested_subscription t req) = KindWebhook")
      case False
      then show ?thesis using insert [of "[]" w] by (simp add: Notify_Create_def Let_def Inr)
    next
      case True
      obtain secret v where gen: "run_state (if sq_Secret req = [] then generateSecret else ret (sq_Secret req)) w = (secret, v)"
        by fastforce
      then have v: "nd_subscriptions v = nd_subscriptions w" using same [of w] by (auto split: if_splits)
      have "run_state (Notify_Create t req) w = run_state (if length secret < minSecretLen
          then ret (Inl (errs_New ValidationFieldInvalid
            (''a webhook signing secret must be at least '' @ itoa minSecretLen
             @ '' characters; a short secret is brute-forceable against a captured delivery'')))
          else insert_subscription t (requested_subscription t req) secret) v"
        using True gen by (simp add: Notify_Create_def Let_def Inr)
      then show ?thesis using insert [of secret v] v by (cases "length secret < minSecretLen") simp_all
    qed
  qed
qed

theorem subscription_without_events_is_refused_witness:
  "\<exists>e. fst (run_state (Notify_Create ''t'' (svc_request None)) (svc_notify [])) = Inl e"
  using subscription_without_events_is_refused [of "svc_request None" "''t''" "svc_notify []"]
  by (simp add: svc_request_def)

text \<open>
  A webhook whose secret is stored but whose row cannot be pointed at it stays behind, enabled, with a
  reference that no delivery can resolve; a failure one call earlier removes the row.
\<close>

theorem webhook_left_without_its_secret:
  "nd_subscriptions (snd (run_state (Notify_Create ''t'' (svc_request (Some []))) (svc_notify [Io_Ok, Io_Ok, Io_Fails])))
     = [\<lparr>sw_Subscription = svc_sub\<lparr>sb_SecretRef := pendingRef\<rparr>, sw_CreatedAt = 0\<rparr>]
   \<and> nd_subscriptions (snd (run_state (Notify_Create ''t'' (svc_request (Some []))) (svc_notify [Io_Ok, Io_Fails]))) = []
   \<and> (\<exists>e. fst (run_state (Deliver (svc_sub\<lparr>sb_SecretRef := pendingRef\<rparr>) p n) w) = Inl e)"
proof (intro conjI)
  let ?half = "svc_sub\<lparr>sb_SecretRef := pendingRef\<rparr>"
  have create: "run_state (Notify_Create ''t'' (svc_request (Some []))) (svc_notify os)
      = run_state (insert_subscription ''t'' (requested_subscription ''t'' (svc_request (Some []))) (replicate 32 (CHR ''k''))) (svc_notify os)" for os
    using run_Notify_Create [OF svc_valid] by (simp add: svc_request_def minSecretLen_def)
  have half: "sb_ID ?half = ''u0''" "sb_Kind (requested_subscription ''t'' (svc_request (Some []))) = KindWebhook"
    by (simp_all add: svc_sub_def requested_subscription_def svc_request_def)
  have rows: "nd_subscriptions (svc_half os) = [\<lparr>sw_Subscription = ?half, sw_CreatedAt = 0\<rparr>]"
      "nd_subscriptions (svc_stored os) = [\<lparr>sw_Subscription = ?half, sw_CreatedAt = 0\<rparr>]" for os
    by (simp_all add: svc_half_def svc_stored_def)
  show "nd_subscriptions (snd (run_state (Notify_Create ''t'' (svc_request (Some []))) (svc_notify [Io_Ok, Io_Ok, Io_Fails])))
     = [\<lparr>sw_Subscription = ?half, sw_CreatedAt = 0\<rparr>]"
    by (simp add: create insert_subscription_def svc_inserted store_secret_def half svc_put
        SetSubscriptionSecretRef_def change_subscription_def run_WithTenant rows)
  have mine: "own_subscription ''t'' ''u0'' \<lparr>sw_Subscription = ?half, sw_CreatedAt = 0\<rparr>"
    by (simp add: own_subscription_def svc_sub_def)
  show "nd_subscriptions (snd (run_state (Notify_Create ''t'' (svc_request (Some []))) (svc_notify [Io_Ok, Io_Fails]))) = []"
    by (simp add: create insert_subscription_def svc_inserted store_secret_def half client_defs secret_ref_def
        DeleteSubscription_def run_WithTenant rows find_subscription_def mine)
  have "checkOwnership \<lparr>rf_TenantID = ''t'', rf_Kind = KindWebhookSecret, rf_ID = ''u0''\<rparr> pendingRef = Inl ErrRefNotOwned"
    by (simp add: checkOwnership_def pendingRef_def)
  then have "run_state (vaultSecrets_Resolve ''t'' ''u0'' pendingRef) w = (Inl ErrRefNotOwned, w)"
    by (simp add: vaultSecrets_Resolve_def Client_Get_def)
  then show "\<exists>e. fst (run_state (Deliver ?half p n) w) = Inl e"
    by (cases "Encode p") (simp_all add: Deliver_def, simp_all add: svc_sub_def)
qed

text \<open>
  The poller takes any pending row whose retry time is not set, and a row has none from its insert until the
  first attempt is recorded. A poller that ticks in between sends the delivery at once a second time, and the
  recording of the first attempt then hides that: the row says one attempt, two messages are out.
\<close>

theorem claim_during_first_attempt_sends_twice:
  "let (r, w1) = run_state (EnqueueDelivery ''t'' ''u0'' svc_payload) (svc_ready\<lparr>nd_receiver := (\<lambda>r n. Inr (500, []))\<rparr>);
       w2 = snd (run_state Poller_tick w1);
       w3 = snd (run_state (Attempt ''t'' svc_sub ''u1'' svc_payload 1) w2)
   in r = Inr ''u1'' \<and> posts w3 ''u1'' = 2 \<and> map dl_Attempt (nd_deliveries w3) = [1]
      \<and> map dl_Status (nd_deliveries w3) = [delivery_pending]"
proof -
  let ?w1 = "svc_queued 500" and ?busy = "svc_row\<lparr>dl_Status := delivery_processing\<rparr>"
  let ?claimed = "?w1\<lparr>nd_deliveries := [?busy]\<rparr>"
  have rel: "reliable ?w1" "en_clock ?w1 = 0" using svc_queued_like(1) [of 500] by (simp_all add: svc_like_def)
  have rows: "nd_deliveries ?w1 = [svc_row]" "nd_receiver ?w1 = (\<lambda>r n. Inr (500, []))"
      "nd_requests ?w1 = []" "nd_mails ?w1 = []"
    by (simp_all add: svc_queued_def svc_ready_def svc_notify_def)
  have "delivery_due 0 svc_row" by (simp add: delivery_due_def svc_row_def)
  then have "due_deliveries 0 ClaimBatchSize ?w1 = [svc_row]" by (simp add: due_deliveries_def rows ClaimBatchSize_def)
  then have claim: "run_state (ClaimDueDeliveries 0 ClaimBatchSize) ?w1 = (Inr [svc_row], ?claimed)"
    using rel by (simp add: ClaimDueDeliveries_def Db_Call_def claim_due_deliveries_def Let_def notify_wrapped_def rows)
  have row: "dl_TenantID svc_row = ''t''" "dl_SubscriptionID svc_row = ''u0''" "dl_ID svc_row = ''u1''"
      "dl_Payload svc_row = svc_payload" "dl_Attempt svc_row = 1" "dl_NextRetryAt svc_row = None"
    by (simp_all add: svc_row_def)
  have "find_subscription ''t'' ''u0'' ?claimed = Some svc_sub"
    by (simp add: find_subscription_def own_subscription_def svc_queued_def svc_ready_def) (simp add: svc_sub_def)
  moreover have rel': "reliable ?claimed" using rel by (simp add: reliable_def)
  ultimately have get: "run_state (GetSubscription ''t'' ''u0'') ?claimed = (Inr svc_sub, ?claimed)"
    by (simp add: GetSubscription_def run_ReadTenant missing_or_def)
  obtain reason2 req2 where two: "hr_DeliveryID req2 = ''u1''" "run_state (Attempt ''t'' svc_sub ''u1'' svc_payload 2) ?claimed
      = ((), ?claimed\<lparr>nd_requests := [req2], nd_deliveries := [settled_by (Inr (500, [])) 2 0 reason2 ?busy]\<rparr>)"
    using svc_attempt [OF svc_queued_like(2) [of "[?busy]" 500], of 2 "''u1''"] by (auto simp: rows own_delivery_def row)
  let ?w2 = "?claimed\<lparr>nd_requests := [req2], nd_deliveries := [settled_by (Inr (500, [])) 2 0 reason2 ?busy]\<rparr>"
  have tick: "snd (run_state Poller_tick ?w1) = ?w2"
    using two(2) by (simp add: Poller_tick_def run_simps rel claim retry_one_def row get)
  have like: "svc_like ?w2" using svc_queued_like(1) [of 500] by (simp add: svc_like_def reliable_def)
  obtain reason1 req1 where one: "hr_DeliveryID req1 = ''u1''" "run_state (Attempt ''t'' svc_sub ''u1'' svc_payload 1) ?w2
      = ((), ?w2\<lparr>nd_requests := [req2, req1],
          nd_deliveries := [settled_by (Inr (500, [])) 1 0 reason1 (settled_by (Inr (500, [])) 2 0 reason2 ?busy)]\<rparr>)"
    using svc_attempt [OF like, of 1 "''u1''"] by (auto simp: rows own_delivery_def row settled_by_def)
  show ?thesis
    using one two(1) by (simp add: svc_enqueue tick posts_def messages_for_def rows settled_by_def answer_accepted_def
        tried_again_def retryable_status_def)
qed

text \<open>
  A retry whose subscription cannot be read dead-letters the delivery, also when the subscription is there and
  only the database did not answer.
\<close>

theorem lookup_failure_kills_the_delivery:
  assumes "en_outcomes w = [Io_Fails]" "dl_TenantID d \<noteq> []" "1 \<le> dl_Attempt d" "d \<in> set (nd_deliveries w)"
  shows "\<exists>r \<in> set (nd_deliveries (snd (run_state (retry_one () d) w))).
    dl_ID r = dl_ID d \<and> dl_Status r = delivery_dead \<and> nd_requests (snd (run_state (retry_one () d) w)) = nd_requests w"
proof -
  have "next_outcome w = Io_Fails" using assms(1) by (simp add: next_outcome_def)
  then obtain e where get: "run_state (GetSubscription (dl_TenantID d) (dl_SubscriptionID d)) w = (Inl e, after_io w)"
    using assms(2) by (auto simp: GetSubscription_def run_ReadTenant missing_or_def)
  have "reliable (after_io w)" using assms(1) by (simp add: reliable_def after_io_def)
  define f where "f = (\<lambda>x. if own_delivery (dl_TenantID d) (dl_ID d) x
      then x\<lparr>dl_Status := delivery_dead, dl_Attempt := dl_Attempt d, dl_ResponseCode := 0, dl_Error := err_text e,
             dl_NextRetryAt := None\<rparr> else x)"
  have run: "run_state (retry_one () d) w = ((), (after_io w)\<lparr>nd_deliveries := map f (nd_deliveries w)\<rparr>)"
    using assms(2,3) \<open>reliable (after_io w)\<close> unfolding f_def
    by (simp add: retry_one_def get deadLetter_def run_record_reliable delivery_statuses_def cong: if_cong)
  have "f d \<in> set (nd_deliveries (snd (run_state (retry_one () d) w)))" using assms(4) by (simp add: run)
  moreover have "dl_ID (f d) = dl_ID d" "dl_Status (f d) = delivery_dead" by (simp_all add: f_def own_delivery_def)
  moreover have "nd_requests (snd (run_state (retry_one () d) w)) = nd_requests w" by (simp add: run)
  ultimately show ?thesis by blast
qed

theorem lookup_failure_kills_the_delivery_witness:
  "\<exists>r \<in> set (nd_deliveries (snd (run_state (retry_one () svc_row) (svc_queued 200\<lparr>en_outcomes := [Io_Fails]\<rparr>)))).
    dl_ID r = ''u1'' \<and> dl_Status r = delivery_dead"
  using lookup_failure_kills_the_delivery [of "svc_queued 200\<lparr>en_outcomes := [Io_Fails]\<rparr>" svc_row]
  by (auto simp: svc_row_def svc_queued_def)

end
