(* ===== verification/Webhook_Properties.thy ===== *)
theory Webhook_Properties
  imports Webhook Text_Laws
begin

text \<open>
  What the signature of a webhook is worth: the receiver's check accepts what was signed with its secret
  while it is fresh, and nothing else.
\<close>

section \<open>Reading a signature header\<close>

lemma int64_id: "- (2 ^ 63) \<le> n \<Longrightarrow> n < 2 ^ 63 \<Longrightarrow> int64 n = n"
  by (simp add: int64_def signed_take_bit_int_eq_self)

lemma int64_range: "- (2 ^ 63) \<le> int64 n" "int64 n < 2 ^ 63"
  using signed_take_bit_int_greater_eq_minus_exp [of 63 n] signed_take_bit_int_less_exp [of 63 n] by (simp_all add: int64_def)

text \<open>The seconds survive the shift to the year 1 and back, wrapped or not.\<close>

lemma Unix_of_time_Unix:
  assumes "- (2 ^ 63) \<le> n" "n < 2 ^ 63"
  shows "Unix_of (time_Unix n) = n"
proof -
  have wrap: "int64 x mod 2 ^ 64 = x mod 2 ^ 64" for x
    using take_bit_signed_take_bit [of 64 63 x] by (simp add: int64_def take_bit_eq_mod)
  have "(int64 (n + u) - u) mod 2 ^ 64 = n mod 2 ^ 64" for u
    using mod_diff_cong [OF wrap [of "n + u"] refl, of u] by simp
  then have "int64 (int64 (n + u) - u) = int64 n" for u
    by (simp add: int64_def [of n] int64_def [of "_ - _"] signed_take_bit_eq_iff_take_bit_eq take_bit_eq_mod)
  then show ?thesis using assms by (simp add: Unix_of_def time_Unix_def int64_id)
qed

lemma atoi_range: "atoi s = Some n \<Longrightarrow> - (2 ^ 63) \<le> n \<and> n < 2 ^ 63"
  by (auto simp: atoi_def Let_def split: if_splits)

lemma header_parts_range:
  "header_parts ps s u = Inr (mac, n) \<Longrightarrow> - (2 ^ 63) \<le> u \<Longrightarrow> u < 2 ^ 63 \<Longrightarrow> - (2 ^ 63) \<le> n \<and> n < 2 ^ 63"
proof (induction ps s u rule: header_parts.induct)
  case (2 part parts s u)
  then show ?case using atoi_range by (simp split: option.splits if_splits prod.splits)
qed simp

lemma parseHeader_InrD:
  assumes "parseHeader header = Inr (mac, n)"
  shows "mac \<noteq> [] \<and> n \<noteq> 0 \<and> - (2 ^ 63) \<le> n \<and> n < 2 ^ 63"
  using assms header_parts_range [of _ "[]" 0 mac n]
  by (auto simp: parseHeader_def split: sum.splits if_splits)

lemma decimal_graphic: "graphic (decimal n)" "CHR '','' \<notin> set (decimal n)"
proof -
  have "graphic (itoa m)" "CHR '','' \<notin> set (itoa m)" for m
    by (rule digit_graphic [OF itoa_digits]) (rule digit_not [OF itoa_digits], simp add: is_digit_def)
  then show "graphic (decimal n)" "CHR '','' \<notin> set (decimal n)" by (auto simp: decimal_def)
qed

lemma hex_graphic: "graphic (hex_encode s)" "CHR '','' \<notin> set (hex_encode s)"
  using set_hex_encode [of s] by (auto simp: graphic_def list_all_iff)

text \<open>A header in the form that is issued is read back.\<close>

lemma parseHeader_issued:
  assumes "graphic mac" "CHR '','' \<notin> set mac" "mac \<noteq> []" "- (2 ^ 63) \<le> n" "n < 2 ^ 63" "n \<noteq> 0"
  shows "parseHeader (''v1='' @ mac @ '',t='' @ decimal n) = Inr (mac, n)"
proof -
  have parts: "split_on (CHR '','') (''v1='' @ mac @ '',t='' @ decimal n) = [''v1='' @ mac, ''t='' @ decimal n]"
    using split_on_append [of "CHR '',''" "''v1='' @ mac" "''t='' @ decimal n"] assms(2) decimal_graphic(2) [of n]
    by (simp add: split_on_none)
  have "graphic (''v1='' @ mac)" "graphic (''t='' @ decimal n)"
    using assms(1) decimal_graphic(1) [of n] by simp_all
  then have trims: "trim_space (''v1='' @ mac) = ''v1='' @ mac" "trim_space (''t='' @ decimal n) = ''t='' @ decimal n"
    using trim_space_graphic by blast+
  have cuts: "cut_at (CHR ''='') (''v1='' @ mac) = Some (''v1'', mac)"
      "cut_at (CHR ''='') (''t='' @ decimal n) = Some (''t'', decimal n)"
    using cut_at_append [of "CHR ''=''" "''v1''" mac] cut_at_append [of "CHR ''=''" "''t''" "decimal n"] by simp_all
  have "header_parts [''v1='' @ mac, ''t='' @ decimal n] [] 0 = Inr (mac, n)"
    unfolding header_parts.simps trims cuts using assms(4,5) by (simp add: atoi_decimal)
  then show ?thesis unfolding parseHeader_def parts using assms(3,6) by simp
qed

definition mac_of :: "string \<Rightarrow> int \<Rightarrow> string \<Rightarrow> string" where
  "mac_of body unix secret = hex_encode (hmac_sha256 secret (decimal unix @ ''.'' @ body))"

lemma mac_nonempty: "mac_of body unix secret \<noteq> []"
proof -
  have "length (hmac_sha256 secret msg) = 32" for msg by (simp add: hmac_sha256_def Let_def length_sha256)
  then have "length (mac_of body unix secret) = 64" by (simp add: mac_of_def length_hex_encode)
  then show ?thesis by auto
qed

lemma parseHeader_Sign:
  assumes "Unix_of t \<noteq> 0"
  shows "parseHeader (Sign body t secret) = Inr (mac_of body (Unix_of t) secret, Unix_of t)"
proof -
  have "Sign body t secret = ''v1='' @ mac_of body (Unix_of t) secret @ '',t='' @ decimal (Unix_of t)"
    by (simp add: Sign_def mac_of_def Let_def)
  then show ?thesis
    using parseHeader_issued [OF _ _ mac_nonempty _ _ assms] hex_graphic int64_range
    by (simp add: mac_of_def Unix_of_def)
qed

section \<open>What the check accepts\<close>

definition age_at :: "instant \<Rightarrow> int \<Rightarrow> int" where
  "age_at now unix = (let age = time_Sub now (time_Unix unix) in if age < 0 then int64 (- age) else age)"

lemma Verify_iff:
  "Verify body header secret now = Inr () \<longleftrightarrow>
     (\<exists>unix. parseHeader header = Inr (mac_of body unix secret, unix) \<and> age_at now unix \<le> MaxAge)"
proof (cases "parseHeader header")
  case (Inl e)
  then show ?thesis by (simp add: Verify_def)
next
  case (Inr p)
  obtain mac unix where p: "p = (mac, unix)" by fastforce
  have unix: "unix \<noteq> 0" "- (2 ^ 63) \<le> unix" "unix < 2 ^ 63" using parseHeader_InrD Inr p by blast+
  then have "Unix_of (time_Unix unix) = unix" by (simp add: Unix_of_time_Unix)
  then have "parseHeader (Sign body (time_Unix unix) secret) = Inr (mac_of body unix secret, unix)"
    using parseHeader_Sign [of "time_Unix unix" body secret] unix(1) by simp
  then show ?thesis by (auto simp: Verify_def Inr p age_at_def Let_def)
qed

text \<open>Seconds before the year 10000, give or take, on both sides of the epoch, and the ages they have.\<close>

definition calendar_second :: "int \<Rightarrow> bool" where
  "calendar_second n \<longleftrightarrow> - (2 ^ 32) \<le> n \<and> n \<le> 2 ^ 32"

lemma time_Unix_plain: "- (2 ^ 62) \<le> n \<Longrightarrow> n \<le> 2 ^ 62 \<Longrightarrow> time_Unix n = n * second_ns"
  by (simp add: time_Unix_def unix_to_internal_def int64_id)

lemma age_plain:
  assumes "calendar_second n" "calendar_second (now div second_ns)"
  shows "age_at now n = \<bar>now - n * second_ns\<bar>"
proof -
  have n: "- (2 ^ 32) \<le> n" "n \<le> 2 ^ 32" using assms(1) by (simp_all add: calendar_second_def)
  have now: "- (2 ^ 32) \<le> now div second_ns" "now div second_ns \<le> 2 ^ 32"
    using assms(2) by (simp_all add: calendar_second_def)
  have "now = second_ns * (now div second_ns) + now mod second_ns" "0 \<le> now mod second_ns" "now mod second_ns < second_ns"
    by simp_all
  then have "\<bar>now - n * second_ns\<bar> < 2 ^ 63 - 1" using n now by simp
  then show ?thesis using n
    by (simp add: age_at_def time_Unix_plain time_Sub_def int64_id Let_def)
qed

section \<open>The properties\<close>

lemma int64_calendar: "calendar_second n \<Longrightarrow> int64 n = n"
  by (simp add: calendar_second_def int64_id)

text \<open>
  A receiver with the same secret accepts a signature exactly while the second it was issued in is at most
  five minutes away from its own clock, before or after, and otherwise reports the age.
\<close>

theorem verify_accepts_own_signature:
  assumes "calendar_second (t div second_ns)" "t div second_ns \<noteq> 0" "calendar_second (now div second_ns)"
  shows "Verify body (Sign body t secret) secret now =
    (let age = \<bar>now - t div second_ns * second_ns\<bar> in if age \<le> MaxAge then Inr () else Inl (ErrReplay age))"
proof -
  let ?n = "t div second_ns"
  have n: "Unix_of t = ?n" using int64_calendar [OF assms(1)] by (simp add: Unix_of_def)
  have "- (2 ^ 63) \<le> ?n" "?n < 2 ^ 63" using assms(1) by (simp_all add: calendar_second_def)
  then have again: "Unix_of (time_Unix ?n) = ?n" by (rule Unix_of_time_Unix)
  have parsed: "parseHeader (Sign body t secret) = Inr (mac_of body ?n secret, ?n)"
      "parseHeader (Sign body (time_Unix ?n) secret) = Inr (mac_of body ?n secret, ?n)"
    using parseHeader_Sign [of t body secret] parseHeader_Sign [of "time_Unix ?n" body secret] assms(2) n again by simp_all
  show ?thesis
    using age_plain [OF assms(1,3)] by (auto simp: Verify_def parsed age_at_def Let_def)
qed

theorem verify_accepts_own_signature_witness:
  "Verify ''{}'' (Sign ''{}'' (1700000000 * second_ns) ''k'') ''k'' (1700000300 * second_ns) = Inr ()
   \<and> Verify ''{}'' (Sign ''{}'' (1700000000 * second_ns) ''k'') ''k'' (1700000301 * second_ns) = Inl (ErrReplay (301 * second_ns))"
  using verify_accepts_own_signature [of "1700000000 * second_ns" "1700000300 * second_ns" "''{}''" "''k''"]
    verify_accepts_own_signature [of "1700000000 * second_ns" "1700000301 * second_ns" "''{}''" "''k''"]
  by (simp add: calendar_second_def MaxAge_def)



text \<open>
  The check of the age fails open at the end of the range of durations: a signature for a second more than
  292 years ahead is accepted at every time, because the saturated difference is its own negation.
\<close>

theorem far_future_signature_never_expires:
  assumes "2 ^ 34 \<le> unix" "unix \<le> 2 ^ 62" "calendar_second (now div second_ns)"
  shows "Verify body (Sign body (time_Unix unix) secret) secret now = Inr ()"
proof -
  have again: "Unix_of (time_Unix unix) = unix" using assms by (intro Unix_of_time_Unix) simp_all
  have "now div second_ns \<le> 2 ^ 32" using assms(3) by (simp add: calendar_second_def)
  moreover have "now = second_ns * (now div second_ns) + now mod second_ns" "now mod second_ns < second_ns" by simp_all
  ultimately have "now - time_Unix unix \<le> - (2 ^ 63)" using assms(1,2) by (simp add: time_Unix_plain)
  then have "time_Sub now (time_Unix unix) = - (2 ^ 63)" by (simp add: time_Sub_def)
  then have "age_at now unix \<le> MaxAge" by (simp add: age_at_def MaxAge_def int64_def signed_take_bit_eq_if_negative)
  moreover have "parseHeader (Sign body (time_Unix unix) secret) = Inr (mac_of body unix secret, unix)"
    using parseHeader_Sign [of "time_Unix unix" body secret] assms(1) again by simp
  ultimately show ?thesis unfolding Verify_iff by blast
qed

theorem far_future_signature_never_expires_witness:
  "Verify ''{}'' (Sign ''{}'' (time_Unix (2 ^ 34)) ''k'') ''k'' (1700000000 * second_ns) = Inr ()"
  by (rule far_future_signature_never_expires) (simp_all add: calendar_second_def)

end
