(* ===== verification/Share_Link.thy ===== *)
theory Share_Link
  imports Errs Sha256
begin

text \<open>
  \<^verbatim>\<open>services/report/internal/share/share.go\<close>: the tokens of share links, what a link says of a download
  attempt, and the options of a new one; with the part of \<^verbatim>\<open>encoding/base64\<close> it uses
  (\<^verbatim>\<open>RawURLEncoding\<close>, whose decoder skips line breaks and does not look at the unused last bits).
\<close>

section \<open>Base64\<close>

definition b64_alphabet :: string where
  "b64_alphabet = ''ABCDEFGHIJKLMNOPQRSTUVWXYZabcdefghijklmnopqrstuvwxyz0123456789-_''"

definition b64_char :: "nat \<Rightarrow> char" where
  "b64_char n = b64_alphabet ! n"

definition b64_value :: "char \<Rightarrow> nat option" where
  "b64_value c = map_of (zip b64_alphabet [0..<64]) c"

fun b64_encode :: "string \<Rightarrow> string" where
  "b64_encode [] = []"
| "b64_encode [a] = [b64_char (byte a div 4), b64_char (byte a mod 4 * 16)]"
| "b64_encode [a, b] =
     [b64_char (byte a div 4), b64_char (byte a mod 4 * 16 + byte b div 16), b64_char (byte b mod 16 * 4)]"
| "b64_encode (a # b # c # s) =
     [b64_char (byte a div 4), b64_char (byte a mod 4 * 16 + byte b div 16),
      b64_char (byte b mod 16 * 4 + byte c div 64), b64_char (byte c mod 64)] @ b64_encode s"

fun b64_quanta :: "nat list \<Rightarrow> string option" where
  "b64_quanta [] = Some []"
| "b64_quanta [a] = None"
| "b64_quanta [a, b] = Some [char_of (a * 4 + b div 16)]"
| "b64_quanta [a, b, c] = Some [char_of (a * 4 + b div 16), char_of (b mod 16 * 16 + c div 4)]"
| "b64_quanta (a # b # c # d # s) =
     map_option (\<lambda>r. [char_of (a * 4 + b div 16), char_of (b mod 16 * 16 + c div 4), char_of (c mod 4 * 64 + d)] @ r)
       (b64_quanta s)"

definition line_break :: "char \<Rightarrow> bool" where
  "line_break c \<longleftrightarrow> byte c = 10 \<or> byte c = 13"

definition b64_decode :: "string \<Rightarrow> string option" where
  "b64_decode s = Option.bind (those (map b64_value (filter (\<lambda>c. \<not> line_break c) s))) b64_quanta"

section \<open>Tokens\<close>

type_synonym Token = string

definition TokenBytes :: nat where "TokenBytes = 32"

text \<open>The shape of 32 bytes in base64.\<close>

definition tokenChars :: nat where "tokenChars = 43"

definition Token_Hash :: "Token \<Rightarrow> string" where
  "Token_Hash t = hex_encode (sha256 t)"

text \<open>\<^verbatim>\<open>NewToken\<close>, from the bytes that \<^verbatim>\<open>rand.Read\<close> fills in.\<close>

definition NewToken :: "string \<Rightarrow> Token" where
  "NewToken raw = b64_encode raw"

abbreviation ErrMalformedToken :: go_err where "ErrMalformedToken \<equiv> Plain ''share token is malformed'' []"

definition ParseToken :: "string \<Rightarrow> go_err + Token" where
  "ParseToken s =
     (if length s \<noteq> tokenChars then Inl ErrMalformedToken
      else case b64_decode s of
        None \<Rightarrow> Inl ErrMalformedToken
      | Some raw \<Rightarrow> if length raw \<noteq> TokenBytes then Inl ErrMalformedToken else Inr s)"

section \<open>Links\<close>

abbreviation OutcomeGranted :: string where "OutcomeGranted \<equiv> ''granted''"
abbreviation OutcomeExpired :: string where "OutcomeExpired \<equiv> ''expired''"
abbreviation OutcomeRevoked :: string where "OutcomeRevoked \<equiv> ''revoked''"
abbreviation OutcomeExhausted :: string where "OutcomeExhausted \<equiv> ''exhausted''"

definition share_Outcome_Valid :: "string \<Rightarrow> bool" where
  "share_Outcome_Valid r \<longleftrightarrow> r = OutcomeGranted \<or> r = OutcomeExpired \<or> r = OutcomeRevoked \<or> r = OutcomeExhausted"

record Link =
  ln_ID :: string
  ln_TenantID :: string
  ln_ReportID :: string
  ln_ExpiresAt :: "instant option"
  ln_MaxDownloads :: "int option"
  ln_DownloadCount :: int
  ln_RevokedAt :: "instant option"
  ln_CreatedAt :: instant
  ln_CreatedBy :: string

definition Link_Classify :: "Link \<Rightarrow> instant \<Rightarrow> string" where
  "Link_Classify l now =
     (if ln_RevokedAt l \<noteq> None then OutcomeRevoked
      else if (case ln_ExpiresAt l of None \<Rightarrow> False | Some at \<Rightarrow> \<not> now < at) then OutcomeExpired
      else if (case ln_MaxDownloads l of None \<Rightarrow> False | Some n \<Rightarrow> n \<le> ln_DownloadCount l) then OutcomeExhausted
      else OutcomeGranted)"

record share_Options =
  so_ExpiresAt :: "instant option"
  so_MaxDownloads :: "int option"

definition MaxLifetime :: int where
  "MaxLifetime = 90 * 24 * 60 * minute_ns"

text \<open>The difference saturates far above the bound, so it is the plain one here.\<close>

definition share_Validate :: "share_Options \<Rightarrow> instant \<Rightarrow> go_err + unit" where
  "share_Validate opts now =
     (case so_ExpiresAt opts of
        Some at \<Rightarrow>
          if \<not> now < at then Inl (Plain ''the expiry is in the past'' [])
          else if MaxLifetime < at - now
          then Inl (Plain (''the expiry is more than 90 days out; a share link is an unauthenticated credential ''
                 @ ''and must not outlive the reason it was issued'') [])
          else if (case so_MaxDownloads opts of None \<Rightarrow> False | Some n \<Rightarrow> n < 1)
          then Inl (Plain ''the download cap must be at least 1'' []) else Inr ()
      | None \<Rightarrow>
          if (case so_MaxDownloads opts of None \<Rightarrow> False | Some n \<Rightarrow> n < 1)
          then Inl (Plain ''the download cap must be at least 1'' []) else Inr ())"

section \<open>A new token is well formed\<close>

lemma b64_alphabet_facts: "length b64_alphabet = 64" "distinct b64_alphabet" "list_all (\<lambda>c. \<not> line_break c) b64_alphabet"
  by (simp_all add: b64_alphabet_def line_break_def)

lemma b64_value_char:
  assumes "n < 64"
  shows "b64_value (b64_char n) = Some n" "\<not> line_break (b64_char n)"
proof -
  have "map_of (zip b64_alphabet [0..<64]) (b64_alphabet ! n) = Some ([0..<64] ! n)"
    using assms b64_alphabet_facts by (intro map_of_zip_nth) simp_all
  then show "b64_value (b64_char n) = Some n" using assms by (simp add: b64_value_def b64_char_def)
  show "\<not> line_break (b64_char n)"
    using assms b64_alphabet_facts by (auto simp: b64_char_def list_all_length)
qed

lemma byte_bound: "byte c < 256"
  by simp

text \<open>Two numbers packed into one and taken out again.\<close>

lemma packed: "y < k \<Longrightarrow> (x * k + y) div k = x" "y < k \<Longrightarrow> (x * k + y) mod k = y" for x y k :: nat
  by simp_all

lemma b64_parts:
  "byte c div 4 < 64" "byte c div 16 < 16" "byte c div 64 < 4" "byte c mod 4 < 4" "byte c mod 16 < 16" "byte c mod 64 < 64"
  using byte_bound [of c] by (simp_all add: div_less_iff_less_mult)

lemma b64_fit: "x < 4 \<Longrightarrow> y < 16 \<Longrightarrow> x * 16 + y < 64" "x < 16 \<Longrightarrow> y < 4 \<Longrightarrow> x * 4 + y < 64"
    "x < 4 \<Longrightarrow> x * 16 < 64" "x < 16 \<Longrightarrow> x * 4 < 64" for x y :: nat
  by simp_all

lemmas b64_facts = b64_value_char b64_parts b64_fit packed [OF b64_parts(2)] packed [OF b64_parts(3)]

lemma b64_decode_encode: "b64_decode (b64_encode s) = Some s"
proof (induction s rule: b64_encode.induct)
  case (4 a b c s)
  from 4 obtain vs where "those (map b64_value (filter (\<lambda>c. \<not> line_break c) (b64_encode s))) = Some vs" "b64_quanta vs = Some s"
    by (auto simp: b64_decode_def bind_eq_Some_conv)
  then show ?case by (simp add: b64_decode_def b64_facts)
qed (simp_all add: b64_decode_def b64_facts)

lemma length_b64_encode: "length (b64_encode s) = (4 * length s + 2) div 3"
proof (induction s rule: b64_encode.induct)
  case (4 a b c s)
  then show ?case by simp
qed simp_all

text \<open>
  The token of a new link is one the download path accepts: 32 bytes encoded as 43 characters of the URL
  alphabet, which the strict parser takes as they are.
\<close>

theorem new_token_is_accepted:
  assumes "length raw = TokenBytes"
  shows "ParseToken (NewToken raw) = Inr (NewToken raw)"
  using assms by (simp add: ParseToken_def NewToken_def b64_decode_encode length_b64_encode TokenBytes_def tokenChars_def)

theorem new_token_is_accepted_witness:
  "ParseToken (NewToken (replicate 32 (CHR ''k''))) = Inr (NewToken (replicate 32 (CHR ''k'')))"
  by (rule new_token_is_accepted) (simp add: TokenBytes_def)

end
