(* ===== verification/Rfc3339.thy ===== *)
theory Rfc3339
  imports Go_Time Text_Laws "HOL-Library.Monad_Syntax"
begin

text \<open>
  \<^verbatim>\<open>time.Parse(time.RFC3339, s)\<close>, in the order of its layout: the hour may have one digit, a fraction may
  follow the seconds although the layout has none, and a zone may say 24 hours and 60 minutes. What is
  printed is read back to the second.
\<close>

definition two_digits :: "string \<Rightarrow> (int \<times> string) option" where
  "two_digits s = (case s of
     a # b # r \<Rightarrow> if is_digit a \<and> is_digit b then Some (10 * digit_value a + digit_value b, r) else None
   | _ \<Rightarrow> None)"

definition one_or_two_digits :: "string \<Rightarrow> (int \<times> string) option" where
  "one_or_two_digits s = (case s of
     [] \<Rightarrow> None
   | a # r \<Rightarrow> if \<not> is_digit a then None
       else case two_digits s of Some x \<Rightarrow> Some x | None \<Rightarrow> Some (digit_value a, r))"

definition four_digits :: "string \<Rightarrow> (int \<times> string) option" where
  "four_digits s = (if length s < 4 \<or> \<not> list_all is_digit (take 4 s) then None
     else Some (digits_value (take 4 s), drop 4 s))"

definition skip_char :: "char \<Rightarrow> string \<Rightarrow> string option" where
  "skip_char c s = (case s of [] \<Rightarrow> None | d # r \<Rightarrow> if d = c then Some r else None)"

definition within :: "int \<Rightarrow> int \<Rightarrow> int \<Rightarrow> unit option" where
  "within lo hi n = (if lo \<le> n \<and> n \<le> hi then Some () else None)"

definition fraction_of :: "string \<Rightarrow> int \<times> string" where
  "fraction_of s = (case s of
     p # c # r \<Rightarrow>
       if (p = CHR ''.'' \<or> p = CHR '','') \<and> is_digit c
       then let ds = take 9 (takeWhile is_digit (c # r))
            in (digits_value ds * 10 ^ (9 - length ds), dropWhile is_digit (c # r))
       else (0, s)
   | _ \<Rightarrow> (0, s))"

definition zone_of :: "string \<Rightarrow> (int \<times> string) option" where
  "zone_of s = (case s of
     [] \<Rightarrow> None
   | c # r \<Rightarrow>
       if c = CHR ''Z'' then Some (0, r)
       else do {
         (hour, r) \<leftarrow> two_digits r;
         r \<leftarrow> skip_char (CHR '':'') r;
         (minute, r) \<leftarrow> two_digits r;
         _ \<leftarrow> within 0 24 hour;
         _ \<leftarrow> within 0 60 minute;
         if c = CHR ''+'' then Some ((hour * 60 + minute) * 60, r)
         else if c = CHR ''-'' then Some (- ((hour * 60 + minute) * 60), r)
         else None })"

definition parse_rfc3339 :: "string \<Rightarrow> instant option" where
  "parse_rfc3339 s = do {
     (year, s) \<leftarrow> four_digits s;
     s \<leftarrow> skip_char (CHR ''-'') s;
     (month, s) \<leftarrow> two_digits s;
     _ \<leftarrow> within 1 12 month;
     s \<leftarrow> skip_char (CHR ''-'') s;
     (day, s) \<leftarrow> two_digits s;
     s \<leftarrow> skip_char (CHR ''T'') s;
     (hour, s) \<leftarrow> one_or_two_digits s;
     _ \<leftarrow> within 0 23 hour;
     s \<leftarrow> skip_char (CHR '':'') s;
     (minute, s) \<leftarrow> two_digits s;
     _ \<leftarrow> within 0 59 minute;
     s \<leftarrow> skip_char (CHR '':'') s;
     (sec, s) \<leftarrow> two_digits s;
     _ \<leftarrow> within 0 59 sec;
     let (nsec, s) = fraction_of s;
     (offset, s) \<leftarrow> zone_of s;
     _ \<leftarrow> within 1 (month_length year month) day;
     if s = [] then Some ((wall_seconds (Civil year month day) hour minute sec - offset) * second_ns + nsec)
     else None }"

section \<open>What is printed is read back\<close>

lemma two_char: "\<exists>a b. zero_padded 2 n = [a, b] \<and> is_digit a \<and> is_digit b \<and> 10 * digit_value a + digit_value b = n"
  if n: "0 \<le> n" "n < 100"
proof -
  have digit: "is_digit (char_of (48 + k)) \<and> digit_value (char_of (48 + k)) = int k" if "k < 10" for k :: nat
    using that by (simp add: is_digit_def digit_value_def)
  show ?thesis
  proof (cases "n < 10")
    case True
    then have "zero_padded 2 n = [CHR ''0'', char_of (48 + nat n)]"
      using n by (simp add: zero_padded_def Let_def itoa.simps nat_less_iff)
    moreover have "is_digit (CHR ''0'')" "digit_value (CHR ''0'') = 0" by (simp_all add: is_digit_def digit_value_def)
    ultimately show ?thesis using digit [of "nat n"] True n by simp
  next
    case False
    then have "zero_padded 2 n = [char_of (48 + nat n div 10), char_of (48 + nat n mod 10)]"
    proof -
      have "\<not> nat n < 10" "nat n div 10 < 10" using n False by linarith+
      then show ?thesis by (simp add: zero_padded_def Let_def itoa.simps [of "nat n"] itoa.simps [of "nat n div 10"])
    qed
    moreover have "10 * int (nat n div 10) + int (nat n mod 10) = n" using n div_mult_mod_eq [of "nat n" 10] by linarith
    ultimately show ?thesis using digit [of "nat n div 10"] digit [of "nat n mod 10"] n False by simp
  qed
qed

lemma two_digits_padded:
  assumes "0 \<le> n" "n < 100"
  shows "two_digits (zero_padded 2 n @ s) = Some (n, s)" "one_or_two_digits (zero_padded 2 n @ s) = Some (n, s)"
  using two_char [OF assms] by (auto simp: two_digits_def one_or_two_digits_def)

lemma digits_value_zeros: "digits_value (replicate k (CHR ''0'') @ s) = digits_value s"
proof (induction k)
  case (Suc k)
  then show ?case by (simp add: digits_value_def digit_value_def)
qed simp

lemma length_itoa: "n < 10 ^ Suc k \<Longrightarrow> length (itoa n) \<le> Suc k"
proof (induction k arbitrary: n)
  case 0
  then show ?case by (simp add: itoa.simps)
next
  case (Suc k)
  then have "n div 10 < 10 ^ Suc k" by (simp add: less_mult_imp_div_less)
  with Suc.IH [of "n div 10"] show ?case by (subst itoa.simps) simp
qed

lemma four_digits_padded:
  assumes "0 \<le> n" "n < 10000"
  shows "four_digits (zero_padded 4 n @ s) = Some (n, s)"
proof -
  have "length (itoa (nat n)) \<le> 4" using length_itoa [of "nat n" 3] assms by simp
  then have len: "length (zero_padded 4 n) = 4" by (simp add: zero_padded_def Let_def)
  moreover have "list_all is_digit (zero_padded 4 n)"
    using itoa_digits [of "nat n"] by (auto simp: zero_padded_def Let_def list_all_iff is_digit_def)
  moreover have "digits_value (zero_padded 4 n) = n"
    using assms by (simp add: zero_padded_def Let_def digits_value_zeros digits_value_itoa)
  ultimately show ?thesis by (simp add: four_digits_def)
qed

lemma valid_date_ranges:
  assumes "valid_date (Civil y m d)"
  shows "1 \<le> m" "m \<le> 12" "1 \<le> d" "d \<le> month_length y m"
  using assms by (simp_all add: valid_date_def)

theorem parse_reads_printed_time:
  assumes "0 \<le> year_of (wall_date UTC t)" "year_of (wall_date UTC t) \<le> 9999"
  shows "parse_rfc3339 (rfc3339 UTC t) = Some (t - t mod second_ns)"
proof -
  obtain y m d where c: "wall_date UTC t = Civil y m d" by (cases "wall_date UTC t")
  have valid: "valid_date (Civil y m d)" using valid_civil_of c unfolding wall_date_def by metis
  note r = valid_date_ranges [OF this]
  have md: "d < 100" using r month_length_range [of m y] by simp
  let ?u = "wall UTC t"
  have h: "0 \<le> wall_hour UTC t" "wall_hour UTC t \<le> 23" unfolding wall_hour_def
    using pos_mod_bound [of 86400 ?u] pos_mod_sign [of 86400 ?u] by linarith+
  have mi: "0 \<le> wall_minute UTC t" "wall_minute UTC t \<le> 59" unfolding wall_minute_def
    using pos_mod_bound [of 3600 ?u] pos_mod_sign [of 3600 ?u] by linarith+
  have se: "0 \<le> wall_second UTC t" "wall_second UTC t \<le> 59" unfolding wall_second_def
    using pos_mod_bound [of 60 ?u] pos_mod_sign [of 60 ?u] by linarith+
  have off: "offset_at UTC x = 0" for x by (simp add: fixed_zone_simps UTC_def)
  have sum: "wall_seconds (Civil y m d) (wall_hour UTC t) (wall_minute UTC t) (wall_second UTC t) = t div second_ns"
    using wall_reading [of UTC t] c by (simp add: wall_def off)
  have frac: "fraction_of (CHR ''Z'' # s) = (0, CHR ''Z'' # s)" for s by (cases s) (simp_all add: fraction_of_def)
  have t: "t div second_ns * second_ns = t - t mod second_ns" by (simp add: minus_mod_eq_div_mult)
  have "y < 10000" "0 \<le> y" using assms c by simp_all
  then show ?thesis using r md h mi se
    by (simp add: rfc3339_def Let_def off c parse_rfc3339_def four_digits_padded two_digits_padded skip_char_def
        within_def frac zone_of_def sum t)
qed

end
