(* ===== verification/Report_Store.thy ===== *)
theory Report_Store
  imports Share_Link Tenant_Db Rfc3339 Go_Json
begin

text \<open>
  \<^verbatim>\<open>services/report/internal/store\<close> (\<^verbatim>\<open>store.go\<close>, \<^verbatim>\<open>share.go\<close>) with its schema (\<^verbatim>\<open>migrations/report\<close>), and the
  object store of \<^verbatim>\<open>libs/go-shared/platform/blob\<close>: report rows, share links, the log of accesses, and
  artifacts. A NULL text is the empty one, a nil slice the empty list. Row-level security adds the tenant to
  every predicate of a tenant's transaction. Ids are compared as text, which for uuids is their order. Ids in
  requests are taken to be uuids and the texts of a completed render to be ones Postgres stores (valid UTF-8
  without NUL); any other is refused before the statement runs. The user agent of a stranger is not trusted so.
\<close>

section \<open>Rows\<close>

text \<open>A \<^verbatim>\<open>float64\<close> is only carried, so it is its bits.\<close>

type_synonym float64 = "64 word"

record CoverageField =
  cf_FieldID :: string
  cf_Name :: string
  cf_Present :: int
  cf_Declared :: int
  cf_Total :: int
  cf_Weight :: int
  cf_SourcePage :: int

record EngineCoverage =
  ec_EngineID :: string
  ec_Version :: string
  ec_Status :: string
  ec_DatabaseVersion :: string
  ec_Ecosystems :: "string list"
  ec_Diagnostic :: string

abbreviation StatusQueued :: string where "StatusQueued \<equiv> ''queued''"
abbreviation StatusRendering :: string where "StatusRendering \<equiv> ''rendering''"
abbreviation StatusReady :: string where "StatusReady \<equiv> ''ready''"
abbreviation report_StatusFailed :: string where "report_StatusFailed \<equiv> ''failed''"

record Report =
  rp_ID :: string
  rp_TenantID :: string
  rp_ScanID :: string
  rp_BOMDocumentIDs :: "string list"
  rp_BOMType :: string
  rp_Level :: string
  rp_Standard :: string
  rp_Format :: string
  rp_Visibility :: string
  rp_Status :: string
  rp_StorageRef :: string
  rp_SHA256 :: string
  rp_SizeBytes :: int
  rp_Signature :: string
  rp_SigningKeyID :: string
  rp_Truncated :: bool
  rp_TruncationNote :: string
  rp_ProjectName :: string
  rp_BOMGeneratedAt :: string
  rp_LevelNote :: string
  rp_CompletenessPct :: "float64 option"
  rp_DeclarationPct :: "float64 option"
  rp_CoverageFormula :: string
  rp_CoverageFields :: "CoverageField list"
  rp_Engines :: "EngineCoverage list"
  rp_EcosystemsWithNoEngine :: "string list"
  rp_ErrorCode :: string
  rp_CreatedAt :: instant
  rp_UpdatedAt :: instant

record link_row =
  lr_Link :: Link
  lr_TokenHash :: string

record ShareAccess =
  sx_ID :: string
  sx_TenantID :: string
  sx_ShareLinkID :: string
  sx_ReportID :: string
  sx_Outcome :: string
  sx_ClientIP :: string
  sx_UserAgent :: string
  sx_AccessedAt :: instant

section \<open>What renders, signs and stores\<close>

text \<open>
  The canonical BOM as far as the worker reads it. Loading it, the document writers (\<^verbatim>\<open>internal/render\<close>,
  \<^verbatim>\<open>internal/export\<close> and their libraries) and the signer are functions of the environment: they may be
  anything, and anything else at the next step, so what is shown holds for whatever they do.
\<close>

record FieldCoverage =
  fc_FieldID :: string
  fc_Present :: int
  fc_Declared :: int
  fc_Total :: int

record ProfileField =
  pf_ID :: string
  pf_Name :: string
  pf_Weight :: int
  pf_SourcePage :: int

record BOM =
  bm_BOMType :: string
  bm_ProjectName :: string
  bm_GeneratedAt :: string
  bm_LevelNote :: string
  bm_CoverageComputed :: bool
  bm_CompletenessPct :: float64
  bm_DeclarationPct :: float64
  bm_Formula :: string
  bm_Fields :: "FieldCoverage list"
  bm_Engines :: "EngineCoverage list"
  bm_EcosystemsWithNoEngine :: "string list"
  bm_Components :: nat
  bm_Severities :: "string list"

record SheetResult =
  sh_Escaped :: nat
  sh_Truncated :: nat
  sh_ControlStripped :: nat

record renderers =
  rn_Load :: "Report \<Rightarrow> go_err + BOM"
  rn_WritePDF :: "BOM \<Rightarrow> go_err + string \<times> bool \<times> string"
  rn_WriteXLSX :: "BOM \<Rightarrow> go_err + string \<times> SheetResult list"
  rn_Serialize :: "string \<Rightarrow> BOM \<Rightarrow> go_err + string"
  rn_WriteJSON :: "BOM \<Rightarrow> string \<Rightarrow> string \<Rightarrow> go_err + string"
  rn_FieldsFor :: "string \<Rightarrow> ProfileField list"
  rn_Sign :: "Report \<Rightarrow> string \<Rightarrow> go_err + string \<times> string"

text \<open>\<open>rd_ip\<close> is the canonical form \<^verbatim>\<open>net/netip\<close> gives an address, \<open>rd_random\<close> the bytes of each draw.\<close>

record report_db = env +
  rd_reports :: "Report list"
  rd_links :: "link_row list"
  rd_accesses :: "ShareAccess list"
  rd_blobs :: "string \<Rightarrow> string option"
  rd_render :: renderers
  rd_ip :: "string \<Rightarrow> string option"
  rd_random :: "nat \<Rightarrow> string"
  rd_drawn :: nat

section \<open>Reports\<close>

record CreateRequest =
  cq_TenantID :: string
  cq_ScanID :: string
  cq_BOMDocumentIDs :: "string list"
  cq_BOMType :: string
  cq_Level :: string
  cq_Standard :: string
  cq_Format :: string
  cq_Visibility :: string

text \<open>The CHECK constraints of the table.\<close>

definition report_checks :: "Report \<Rightarrow> bool" where
  "report_checks r \<longleftrightarrow> List.member [''top_level'', ''n_level'', ''delivery'', ''transitive'', ''complete''] (rp_Level r)
     \<and> List.member [''SPDX'', ''CycloneDX'', ''native''] (rp_Standard r)
     \<and> List.member [''pdf'', ''xlsx'', ''json'', ''spdx'', ''cyclonedx''] (rp_Format r)
     \<and> List.member [''public'', ''private''] (rp_Visibility r)
     \<and> List.member [StatusQueued, StatusRendering, StatusReady, report_StatusFailed] (rp_Status r)
     \<and> 0 \<le> rp_SizeBytes r"

definition new_report :: "CreateRequest \<Rightarrow> report_db \<Rightarrow> Report" where
  "new_report req w =
     \<lparr>rp_ID = fresh_id w, rp_TenantID = cq_TenantID req, rp_ScanID = cq_ScanID req, rp_BOMDocumentIDs = cq_BOMDocumentIDs req,
      rp_BOMType = cq_BOMType req, rp_Level = cq_Level req, rp_Standard = cq_Standard req, rp_Format = cq_Format req,
      rp_Visibility = cq_Visibility req, rp_Status = StatusQueued, rp_StorageRef = [], rp_SHA256 = [], rp_SizeBytes = 0,
      rp_Signature = [], rp_SigningKeyID = [], rp_Truncated = False, rp_TruncationNote = [], rp_ProjectName = [],
      rp_BOMGeneratedAt = [], rp_LevelNote = [], rp_CompletenessPct = None, rp_DeclarationPct = None,
      rp_CoverageFormula = [], rp_CoverageFields = [], rp_Engines = [], rp_EcosystemsWithNoEngine = [], rp_ErrorCode = [],
      rp_CreatedAt = en_clock w, rp_UpdatedAt = en_clock w\<rparr>"

definition report_wrapped :: "string \<Rightarrow> go_err + 'a \<Rightarrow> go_err + 'a" where
  "report_wrapped msg r = (case r of Inl e \<Rightarrow> Inl (Plain msg [e]) | Inr x \<Rightarrow> Inr x)"

definition Report_Create :: "CreateRequest \<Rightarrow> (report_db, go_err + Report) state" where
  "Report_Create req =
     do { r \<leftarrow> WithTenant (cq_TenantID req) (\<lambda>w.
            if \<not> report_checks (new_report req w) then Inl err_database
            else Inr (new_report req w, (drop_id w)\<lparr>rd_reports := rd_reports w @ [new_report req w]\<rparr>));
          ret (report_wrapped ''create report'' r) }"

definition own_report :: "string \<Rightarrow> string \<Rightarrow> Report \<Rightarrow> bool" where
  "own_report tenantID i r \<longleftrightarrow> rp_TenantID r = tenantID \<and> rp_ID r = i"

definition find_report :: "string \<Rightarrow> string \<Rightarrow> report_db \<Rightarrow> Report option" where
  "find_report tenantID i w = find (own_report tenantID i) (rd_reports w)"

definition Report_Get :: "string \<Rightarrow> string \<Rightarrow> (report_db, go_err + Report) state" where
  "Report_Get tenantID i = ReadTenant tenantID (\<lambda>w. case find_report tenantID i w of
     None \<Rightarrow> Inl ErrNotFound | Some r \<Rightarrow> Inr r)"

definition Report_List :: "string \<Rightarrow> string \<Rightarrow> int \<Rightarrow> string \<Rightarrow> (report_db, go_err + Report list) state" where
  "Report_List tenantID scanID limit cursor =
     (let limit = (if limit \<le> 0 \<or> 200 < limit then 50 else limit) in
      ReadTenant tenantID (\<lambda>w. Inr (take (nat limit) (slice_stable (\<lambda>a b. rp_ID b < rp_ID a)
        (filter (\<lambda>r. rp_TenantID r = tenantID \<and> (scanID = [] \<or> rp_ScanID r = scanID) \<and> (cursor = [] \<or> rp_ID r < cursor))
          (rd_reports w))))))"

record ReportSibling =
  bs_ID :: string
  bs_Format :: string
  bs_Status :: string

definition Report_Siblings :: "string \<Rightarrow> string \<Rightarrow> string \<Rightarrow> string \<Rightarrow> (report_db, go_err + ReportSibling list) state" where
  "Report_Siblings tenantID i scanID bomType =
     ReadTenant tenantID (\<lambda>w. Inr (map (\<lambda>r. \<lparr>bs_ID = rp_ID r, bs_Format = rp_Format r, bs_Status = rp_Status r\<rparr>)
       (slice_stable (\<lambda>a b. rp_Format a < rp_Format b)
         (filter (\<lambda>r. rp_TenantID r = tenantID \<and> rp_ScanID r = scanID \<and> rp_BOMType r = bomType \<and> rp_ID r \<noteq> i)
           (rd_reports w)))))"

text \<open>A conditional update of one row; the trigger \<^verbatim>\<open>touch_updated_at\<close> stamps it.\<close>

definition update_report ::
  "string \<Rightarrow> string \<Rightarrow> (Report \<Rightarrow> bool) \<Rightarrow> (Report \<Rightarrow> Report) \<Rightarrow> report_db \<Rightarrow> go_err + (Report \<times> report_db)" where
  "update_report tenantID i when f w =
     (case find_report tenantID i w of
        None \<Rightarrow> Inl ErrNotFound
      | Some r \<Rightarrow>
          if \<not> when r then Inl ErrNotFound
          else let g = (\<lambda>r. (f r)\<lparr>rp_UpdatedAt := en_clock w\<rparr>)
               in if \<not> report_checks (g r) then Inl err_database
                  else Inr (g r, w\<lparr>rd_reports := map (\<lambda>x. if own_report tenantID i x then g x else x) (rd_reports w)\<rparr>))"

definition ClaimForRender :: "string \<Rightarrow> string \<Rightarrow> (report_db, go_err + Report) state" where
  "ClaimForRender tenantID i = WithTenant tenantID
     (update_report tenantID i (\<lambda>r. rp_Status r = StatusQueued) (\<lambda>r. r\<lparr>rp_Status := StatusRendering\<rparr>))"

record Completion =
  cm_StorageRef :: string
  cm_SHA256 :: string
  cm_SizeBytes :: int
  cm_Signature :: string
  cm_SigningKeyID :: string
  cm_Truncated :: bool
  cm_TruncationNote :: string
  cm_ProjectName :: string
  cm_BOMGeneratedAt :: string
  cm_LevelNote :: string
  cm_CompletenessPct :: "float64 option"
  cm_DeclarationPct :: "float64 option"
  cm_CoverageFormula :: string
  cm_CoverageFields :: "CoverageField list"
  cm_Engines :: "EngineCoverage list"
  cm_EcosystemsWithNoEngine :: "string list"

definition stored_time :: "string \<Rightarrow> string" where
  "stored_time s = (if s = [] then [] else case parse_rfc3339 s of None \<Rightarrow> [] | Some t \<Rightarrow> rfc3339 UTC t)"

definition completed :: "Completion \<Rightarrow> Report \<Rightarrow> Report" where
  "completed c r = r\<lparr>rp_Status := StatusReady, rp_StorageRef := cm_StorageRef c, rp_SHA256 := cm_SHA256 c,
     rp_SizeBytes := cm_SizeBytes c, rp_Signature := cm_Signature c, rp_SigningKeyID := cm_SigningKeyID c,
     rp_Truncated := cm_Truncated c, rp_TruncationNote := cm_TruncationNote c, rp_ProjectName := cm_ProjectName c,
     rp_BOMGeneratedAt := stored_time (cm_BOMGeneratedAt c), rp_LevelNote := cm_LevelNote c,
     rp_CompletenessPct := cm_CompletenessPct c, rp_DeclarationPct := cm_DeclarationPct c,
     rp_CoverageFormula := cm_CoverageFormula c, rp_CoverageFields := cm_CoverageFields c, rp_Engines := cm_Engines c,
     rp_EcosystemsWithNoEngine := cm_EcosystemsWithNoEngine c, rp_ErrorCode := []\<rparr>"

definition MarkReady :: "string \<Rightarrow> string \<Rightarrow> Completion \<Rightarrow> (report_db, go_err + unit) state" where
  "MarkReady tenantID i c =
     do { r \<leftarrow> WithTenant tenantID (update_report tenantID i (\<lambda>r. rp_Status r = StatusRendering) (completed c));
          ret (map_sum id (\<lambda>_. ()) r) }"

definition MarkFailed :: "string \<Rightarrow> string \<Rightarrow> string \<Rightarrow> (report_db, go_err + unit) state" where
  "MarkFailed tenantID i errorCode =
     do { r \<leftarrow> WithTenant tenantID (update_report tenantID i
            (\<lambda>r. rp_Status r = StatusQueued \<or> rp_Status r = StatusRendering)
            (\<lambda>r. r\<lparr>rp_Status := report_StatusFailed, rp_ErrorCode := errorCode\<rparr>));
          ret (map_sum id (\<lambda>_. ()) r) }"

section \<open>Share links\<close>

definition draw_bytes :: "(report_db, string) state" where
  "draw_bytes = State (\<lambda>w. (rd_random w (rd_drawn w), w\<lparr>rd_drawn := Suc (rd_drawn w)\<rparr>))"

text \<open>
  The insert needs the report (a foreign key, which row-level security does not narrow), a hash not yet
  there, and a cap that fits the column (\<^verbatim>\<open>int\<close>).
\<close>

definition new_link :: "string \<Rightarrow> string \<Rightarrow> string \<Rightarrow> share_Options \<Rightarrow> report_db \<Rightarrow> Link" where
  "new_link tenantID reportID createdBy opts w =
     \<lparr>ln_ID = fresh_id w, ln_TenantID = tenantID, ln_ReportID = reportID, ln_ExpiresAt = so_ExpiresAt opts,
      ln_MaxDownloads = so_MaxDownloads opts, ln_DownloadCount = 0, ln_RevokedAt = None, ln_CreatedAt = en_clock w,
      ln_CreatedBy = createdBy\<rparr>"

definition cap_fits :: "int option \<Rightarrow> bool" where
  "cap_fits cap = (case cap of None \<Rightarrow> True | Some n \<Rightarrow> 0 < n \<and> n < 2 ^ 31)"

definition insert_link ::
  "string \<Rightarrow> string \<Rightarrow> string \<Rightarrow> share_Options \<Rightarrow> string \<Rightarrow> report_db \<Rightarrow> go_err + (Link \<times> report_db)" where
  "insert_link tenantID reportID createdBy opts h w =
     (if \<not> list_ex (\<lambda>r. rp_ID r = reportID) (rd_reports w) \<or> list_ex (\<lambda>l. lr_TokenHash l = h) (rd_links w)
         \<or> \<not> cap_fits (so_MaxDownloads opts)
      then Inl err_database
      else Inr (new_link tenantID reportID createdBy opts w, (drop_id w)\<lparr>rd_links := rd_links w @
             [\<lparr>lr_Link = new_link tenantID reportID createdBy opts w, lr_TokenHash = h\<rparr>]\<rparr>))"

definition CreateShareLink ::
  "string \<Rightarrow> string \<Rightarrow> string \<Rightarrow> share_Options \<Rightarrow> instant \<Rightarrow> (report_db, go_err + Token \<times> Link) state" where
  "CreateShareLink tenantID reportID createdBy opts now =
     (case share_Validate opts now of
        Inl e \<Rightarrow> ret (Inl e)
      | Inr _ \<Rightarrow>
          do { raw \<leftarrow> draw_bytes;
               let token = NewToken raw;
               r \<leftarrow> WithTenant tenantID (insert_link tenantID reportID createdBy opts (Token_Hash token));
               ret (map_sum id (Pair token) (report_wrapped ''create share link'' r)) })"

definition ListShareLinks :: "string \<Rightarrow> string \<Rightarrow> (report_db, go_err + Link list) state" where
  "ListShareLinks tenantID reportID = ReadTenant tenantID (\<lambda>w. Inr (map lr_Link
     (slice_stable (\<lambda>a b. ln_ID (lr_Link b) < ln_ID (lr_Link a))
       (filter (\<lambda>l. ln_TenantID (lr_Link l) = tenantID \<and> ln_ReportID (lr_Link l) = reportID) (rd_links w)))))"

definition own_link :: "string \<Rightarrow> string \<Rightarrow> link_row \<Rightarrow> bool" where
  "own_link tenantID i l \<longleftrightarrow> ln_TenantID (lr_Link l) = tenantID \<and> ln_ID (lr_Link l) = i"

definition revoked_row :: "instant \<Rightarrow> link_row \<Rightarrow> link_row" where
  "revoked_row now l = l\<lparr>lr_Link := (lr_Link l)\<lparr>ln_RevokedAt := coalesce (ln_RevokedAt (lr_Link l)) (Some now)\<rparr>\<rparr>"

definition RevokeShareLink :: "string \<Rightarrow> string \<Rightarrow> (report_db, go_err + unit) state" where
  "RevokeShareLink tenantID i = WithTenant tenantID (\<lambda>w.
     if \<not> list_ex (own_link tenantID i) (rd_links w) then Inl ErrNotFound
     else Inr ((), w\<lparr>rd_links := map (\<lambda>l. if own_link tenantID i l then revoked_row (en_clock w) l else l) (rd_links w)\<rparr>))"

record Claim =
  cl_ShareLinkID :: string
  cl_TenantID :: string
  cl_ReportID :: string
  cl_Outcome :: string
  cl_ExpiresAt :: "instant option"
  cl_MaxDownloads :: "int option"
  cl_DownloadCount :: int

definition claim_of :: "Link \<Rightarrow> string \<Rightarrow> Claim" where
  "claim_of l r = \<lparr>cl_ShareLinkID = ln_ID l, cl_TenantID = ln_TenantID l, cl_ReportID = ln_ReportID l,
     cl_Outcome = r, cl_ExpiresAt = ln_ExpiresAt l, cl_MaxDownloads = ln_MaxDownloads l, cl_DownloadCount = ln_DownloadCount l\<rparr>"

text \<open>
  \<^verbatim>\<open>report.claim_share_download\<close>: one conditional update, and only when it changed nothing a look at why.
\<close>

definition claimable :: "string \<Rightarrow> instant \<Rightarrow> link_row \<Rightarrow> bool" where
  "claimable h now l \<longleftrightarrow> lr_TokenHash l = h \<and> ln_RevokedAt (lr_Link l) = None
     \<and> (case ln_ExpiresAt (lr_Link l) of None \<Rightarrow> True | Some at \<Rightarrow> now < at)
     \<and> (case ln_MaxDownloads (lr_Link l) of None \<Rightarrow> True | Some n \<Rightarrow> ln_DownloadCount (lr_Link l) < n)"

definition counted :: "Link \<Rightarrow> Link" where
  "counted l = l\<lparr>ln_DownloadCount := ln_DownloadCount l + 1\<rparr>"

definition claim_share_download :: "string \<Rightarrow> report_db \<Rightarrow> go_err + (Claim option \<times> report_db)" where
  "claim_share_download h w =
     (case find (claimable h (en_clock w)) (rd_links w) of
        Some l \<Rightarrow>
          if 2 ^ 31 - 1 \<le> ln_DownloadCount (lr_Link l) then Inl err_database
          else Inr (Some (claim_of (counted (lr_Link l)) OutcomeGranted),
                 w\<lparr>rd_links := map (\<lambda>x. if claimable h (en_clock w) x then x\<lparr>lr_Link := counted (lr_Link x)\<rparr> else x) (rd_links w)\<rparr>)
      | None \<Rightarrow>
          (case find (\<lambda>l. lr_TokenHash l = h) (rd_links w) of
             None \<Rightarrow> Inr (None, w)
           | Some l \<Rightarrow> Inr (Some (claim_of (lr_Link l)
                 (if ln_RevokedAt (lr_Link l) \<noteq> None then OutcomeRevoked
                  else if (case ln_ExpiresAt (lr_Link l) of None \<Rightarrow> False | Some at \<Rightarrow> at \<le> en_clock w) then OutcomeExpired
                  else OutcomeExhausted)), w)))"

abbreviation ErrUnknownToken :: go_err where "ErrUnknownToken \<equiv> Plain ''no share link matches this token'' []"

definition ClaimDownload :: "Token \<Rightarrow> (report_db, go_err + Claim) state" where
  "ClaimDownload token =
     do { r \<leftarrow> Db_Call (claim_share_download (Token_Hash token));
          ret (case r of
            Inl e \<Rightarrow> Inl (Plain ''claim share download'' [e])
          | Inr None \<Rightarrow> Inl ErrUnknownToken
          | Inr (Some c) \<Rightarrow>
              if \<not> share_Outcome_Valid (cl_Outcome c)
              then Inl (Plain (''claim_share_download returned outcome '' @ quoted (cl_Outcome c)) [])
              else Inr c) }"

section \<open>The log of accesses\<close>

definition normalizeIP :: "(string \<Rightarrow> string option) \<Rightarrow> string \<Rightarrow> string" where
  "normalizeIP ip raw = (if raw = [] then [] else case ip raw of None \<Rightarrow> [] | Some s \<Rightarrow> s)"

text \<open>
  \<^verbatim>\<open>report.record_share_access\<close>. A text argument must be valid UTF-8 without NUL, and \<^verbatim>\<open>left\<close> counts its characters.
\<close>

definition pg_text :: "string \<Rightarrow> bool" where
  "pg_text s \<longleftrightarrow> valid_utf8 s \<and> list_all (\<lambda>c. byte c \<noteq> 0) s"

definition pg_left :: "nat \<Rightarrow> string \<Rightarrow> string" where
  "pg_left n s = concat (map fst (take n (runes s)))"

definition access_row :: "Link \<Rightarrow> string \<Rightarrow> string \<Rightarrow> string \<Rightarrow> report_db \<Rightarrow> ShareAccess" where
  "access_row l r ip ua w = \<lparr>sx_ID = fresh_id w, sx_TenantID = ln_TenantID l, sx_ShareLinkID = ln_ID l,
     sx_ReportID = ln_ReportID l, sx_Outcome = r, sx_ClientIP = ip, sx_UserAgent = pg_left 512 ua, sx_AccessedAt = en_clock w\<rparr>"

definition record_share_access :: "string \<Rightarrow> string \<Rightarrow> string \<Rightarrow> string \<Rightarrow> report_db \<Rightarrow> go_err + (string option \<times> report_db)" where
  "record_share_access i r ip ua w =
     (if \<not> pg_text ua then Inl err_database
      else case find (\<lambda>l. ln_ID (lr_Link l) = i) (rd_links w) of
        None \<Rightarrow> Inr (None, w)
      | Some l \<Rightarrow> Inr (Some (fresh_id w), (drop_id w)\<lparr>rd_accesses := rd_accesses w @ [access_row (lr_Link l) r ip ua w]\<rparr>))"

definition RecordShareAccess :: "string \<Rightarrow> string \<Rightarrow> string \<Rightarrow> string \<Rightarrow> (report_db, go_err + unit) state" where
  "RecordShareAccess linkID r clientIP userAgent =
     (if \<not> share_Outcome_Valid r then ret (Inl (Plain (''refusing to audit an unknown outcome '' @ quoted r) []))
      else do { w \<leftarrow> State_Monad.get;
                x \<leftarrow> Db_Call (record_share_access linkID r (normalizeIP (rd_ip w) clientIP) userAgent);
                ret (case x of
                  Inl e \<Rightarrow> Inl (Plain ''record share access'' [e])
                | Inr None \<Rightarrow> Inl ErrNotFound
                | Inr (Some _) \<Rightarrow> Inr ()) })"

definition ListShareAccess :: "string \<Rightarrow> string \<Rightarrow> int \<Rightarrow> (report_db, go_err + ShareAccess list) state" where
  "ListShareAccess tenantID linkID limit =
     (let limit = (if limit \<le> 0 \<or> 500 < limit then 100 else limit) in
      ReadTenant tenantID (\<lambda>w. Inr (take (nat limit)
        (slice_stable (\<lambda>a b. sx_AccessedAt b < sx_AccessedAt a \<or> sx_AccessedAt b = sx_AccessedAt a \<and> sx_ID b < sx_ID a)
          (filter (\<lambda>a. sx_TenantID a = tenantID \<and> sx_ShareLinkID a = linkID) (rd_accesses w))))))"

definition GetReportForShare :: "Claim \<Rightarrow> (report_db, go_err + Report) state" where
  "GetReportForShare c = Report_Get (cl_TenantID c) (cl_ReportID c)"

section \<open>Artifacts\<close>

record Object =
  ob_Key :: string
  ob_SHA256 :: string
  ob_Size :: int

definition validateKey :: "string \<Rightarrow> go_err option" where
  "validateKey key =
     (if key = [] then Some (Plain ''blob: empty key'' [])
      else if has_prefix key ''/'' then Some (Plain (''blob: key '' @ quoted key @ '' must be relative'') [])
      else if contains key ''..'' then Some (Plain (''blob: key '' @ quoted key @ '' contains a parent-directory reference'') [])
      else if list_ex (\<lambda>c. byte c \<in> {0, 10, 13}) key then Some (Plain ''blob: key contains a control character'' [])
      else if 1024 < length key then Some (Plain ''blob: key exceeds 1024 bytes'' [])
      else None)"

definition DefaultMaxBytes :: nat where "DefaultMaxBytes = 512 * 2 ^ 20"

text \<open>
  An upload that is too large is removed again. The server may fail before it has the object, or have it and
  not say so.
\<close>

definition blob_Put :: "string \<Rightarrow> string \<Rightarrow> (report_db, go_err + Object) state" where
  "blob_Put key body = (case validateKey key of
     Some e \<Rightarrow> ret (Inl e)
   | None \<Rightarrow> State (\<lambda>w.
       let failed = Inl (Plain (''put '' @ quoted key) []);
           stored = (after_io w)\<lparr>rd_blobs := (rd_blobs w)(key \<mapsto> take (DefaultMaxBytes + 1) body)\<rparr>
       in case next_outcome w of
            Io_Fails \<Rightarrow> (failed, after_io w)
          | Io_AckLost \<Rightarrow> (failed, stored)
          | Io_Ok \<Rightarrow>
              if DefaultMaxBytes < length body
              then (Inl (Plain ''upload exceeds the maximum allowed size'' []), (after_io w)\<lparr>rd_blobs := (rd_blobs w)(key := None)\<rparr>)
              else (Inr \<lparr>ob_Key = key, ob_SHA256 = hex_encode (sha256 body), ob_Size = int (length body)\<rparr>, stored)))"

definition blob_Get :: "string \<Rightarrow> (report_db, go_err + string) state" where
  "blob_Get key = (case validateKey key of
     Some e \<Rightarrow> ret (Inl e)
   | None \<Rightarrow> State (\<lambda>w.
       (if next_outcome w \<noteq> Io_Ok then Inl (Plain (''get '' @ quoted key) [])
        else case rd_blobs w key of None \<Rightarrow> Inl ErrNotFound | Some body \<Rightarrow> Inr body, after_io w)))"

end
