(* ===== verification/Bom_Level.thy ===== *)
theory Bom_Level
  imports Errs
begin

text \<open>
  \<^verbatim>\<open>services/report/internal/level/level.go\<close>: a BOM narrowed to a level of CERT-In, and what the narrowing
  left out. \<^verbatim>\<open>sort.Slice\<close> leaves the order of equal keys open; here it is that of the list.
\<close>

section \<open>Levels\<close>

abbreviation TopLevel :: string where "TopLevel \<equiv> ''top_level''"
abbreviation Complete :: string where "Complete \<equiv> ''complete''"

definition BOMLevels :: "string list" where
  "BOMLevels = [''top_level'', ''n_level'', ''delivery'', ''transitive'', ''complete'']"

definition level_Valid :: "string \<Rightarrow> bool" where
  "level_Valid l \<longleftrightarrow> l = TopLevel \<or> l = Complete"

definition level_Known :: "string \<Rightarrow> bool" where
  "level_Known l \<longleftrightarrow> list_ex (\<lambda>v. v = l) BOMLevels"

section \<open>Projection\<close>

record Component =
  co_Key :: string
  co_Depth :: "int option"
  co_IsDirect :: bool
  co_IsOrphan :: bool
  co_Scope :: string

record Projection =
  pj_Level :: string
  pj_Components :: "Component list"
  pj_ExcludedTransitive :: nat
  pj_ExcludedOrphans :: nat
  pj_ExcludedByScope :: nat
  pj_Note :: string

definition Projection_Total :: "Projection \<Rightarrow> nat" where
  "Projection_Total p = length (pj_Components p)"

definition ExcludedTotal :: "Projection \<Rightarrow> nat" where
  "ExcludedTotal p = pj_ExcludedTransitive p + pj_ExcludedOrphans p + pj_ExcludedByScope p"

definition project_one :: "string \<Rightarrow> Projection \<Rightarrow> Component \<Rightarrow> Projection" where
  "project_one l out c =
     (if co_Scope c = ''excluded'' then out\<lparr>pj_ExcludedByScope := pj_ExcludedByScope out + 1\<rparr>
      else if l = Complete then out\<lparr>pj_Components := pj_Components out @ [c]\<rparr>
      else if co_IsOrphan c \<or> co_Depth c = None then out\<lparr>pj_ExcludedOrphans := pj_ExcludedOrphans out + 1\<rparr>
      else if 1 < the (co_Depth c) then out\<lparr>pj_ExcludedTransitive := pj_ExcludedTransitive out + 1\<rparr>
      else out\<lparr>pj_Components := pj_Components out @ [c]\<rparr>)"

definition level_note :: "Projection \<Rightarrow> string" where
  "level_note p =
     (if ExcludedTotal p = 0 then []
      else if pj_Level p = TopLevel then
        ''This is a Top-Level BOM: it lists '' @ itoa (Projection_Total p) @ '' direct dependencies and omits ''
        @ itoa (pj_ExcludedTransitive p) @ '' transitive ones.''
        @ (if 0 < pj_ExcludedOrphans p
           then '' A further '' @ itoa (pj_ExcludedOrphans p) @ '' component(s) could not be placed in the dependency ''
             @ ''tree and are omitted here; they appear in the Complete BOM.'' else [])
        @ (if 0 < pj_ExcludedByScope p
           then '' '' @ itoa (pj_ExcludedByScope p) @ '' component(s) are out of the configured scope.'' else [])
      else
        ''This is a Complete BOM listing '' @ itoa (Projection_Total p) @ '' components.''
        @ (if 0 < pj_ExcludedByScope p
           then '' '' @ itoa (pj_ExcludedByScope p) @ '' component(s) are out of the configured scope and are not listed.''
           else []))"

definition Project :: "Component list \<Rightarrow> string \<Rightarrow> go_err + Projection" where
  "Project components l =
     (if \<not> level_Valid l
      then Inl (Plain (''level '' @ quoted l @ '' is not implemented; CERT-In '' @ bytes [194, 167]
        @ ''3.1 also defines n-Level, Delivery and Transitive, and rendering one of those as Complete would mislabel the report'') [])
      else
        let out = foldl (project_one l) \<lparr>pj_Level = l, pj_Components = [], pj_ExcludedTransitive = 0,
                    pj_ExcludedOrphans = 0, pj_ExcludedByScope = 0, pj_Note = []\<rparr> components;
            out = out\<lparr>pj_Components := slice_stable (\<lambda>a b. co_Key a < co_Key b) (pj_Components out)\<rparr>
        in Inr (out\<lparr>pj_Note := level_note out\<rparr>))"

definition OrphanNote :: "Component list \<Rightarrow> string" where
  "OrphanNote components =
     (let orphans = length (filter (\<lambda>c. co_IsOrphan c \<or> co_Depth c = None) components)
      in if orphans = 0 then []
         else itoa orphans @ '' component(s) are not reachable from any dependency root. They are listed with an unknown ''
           @ ''depth rather than assumed to be direct dependencies, which would overstate the direct-dependency count.'')"

section \<open>Nothing disappears\<close>

text \<open>Which components a level lists, and why it leaves another out.\<close>

definition listed :: "string \<Rightarrow> Component \<Rightarrow> bool" where
  "listed l c \<longleftrightarrow> co_Scope c \<noteq> ''excluded''
     \<and> (l = Complete \<or> \<not> co_IsOrphan c \<and> (\<exists>d. co_Depth c = Some d \<and> d \<le> 1))"

definition unplaced :: "string \<Rightarrow> Component \<Rightarrow> bool" where
  "unplaced l c \<longleftrightarrow> co_Scope c \<noteq> ''excluded'' \<and> l \<noteq> Complete \<and> (co_IsOrphan c \<or> co_Depth c = None)"

definition too_deep :: "string \<Rightarrow> Component \<Rightarrow> bool" where
  "too_deep l c \<longleftrightarrow> co_Scope c \<noteq> ''excluded'' \<and> l \<noteq> Complete \<and> \<not> unplaced l c \<and> \<not> listed l c"

lemma project_all:
  "foldl (project_one l) out cs = out\<lparr>
     pj_Components := pj_Components out @ filter (listed l) cs,
     pj_ExcludedTransitive := pj_ExcludedTransitive out + length (filter (too_deep l) cs),
     pj_ExcludedOrphans := pj_ExcludedOrphans out + length (filter (unplaced l) cs),
     pj_ExcludedByScope := pj_ExcludedByScope out + length (filter (\<lambda>c. co_Scope c = ''excluded'') cs)\<rparr>"
proof (induction cs arbitrary: out)
  case (Cons c cs)
  have "foldl (project_one l) out (c # cs) = foldl (project_one l) (project_one l out c) cs" by simp
  also have "\<dots> = out\<lparr>
     pj_Components := pj_Components out @ filter (listed l) (c # cs),
     pj_ExcludedTransitive := pj_ExcludedTransitive out + length (filter (too_deep l) (c # cs)),
     pj_ExcludedOrphans := pj_ExcludedOrphans out + length (filter (unplaced l) (c # cs)),
     pj_ExcludedByScope := pj_ExcludedByScope out + length (filter (\<lambda>c. co_Scope c = ''excluded'') (c # cs))\<rparr>"
    unfolding Cons.IH by (cases "co_Depth c") (simp_all add: project_one_def listed_def unplaced_def too_deep_def)
  finally show ?case .
qed simp

text \<open>The components of a BOM, split by what a level does with them.\<close>

lemma level_partition:
  "length cs = length (filter (listed l) cs) + length (filter (too_deep l) cs) + length (filter (unplaced l) cs)
     + length (filter (\<lambda>c. co_Scope c = ''excluded'') cs)"
  by (induction cs) (auto simp: listed_def unplaced_def too_deep_def)

lemma sorted_keys: "sorted (map co_Key (slice_stable (\<lambda>a b. co_Key a < co_Key b) cs))"
  using key_less.sorted_slice_stable [of co_Key cs] by (simp add: sorted_map not_less)

lemma level_note_iff: "level_note p = [] \<longleftrightarrow> ExcludedTotal p = 0"
  by (simp add: level_note_def)

lemma Project_Inr:
  "level_Valid l \<Longrightarrow> \<exists>p. Project cs l = Inr p \<and> pj_Level p = l
     \<and> pj_Components p = slice_stable (\<lambda>a b. co_Key a < co_Key b) (filter (listed l) cs)
     \<and> pj_ExcludedTransitive p = length (filter (too_deep l) cs)
     \<and> pj_ExcludedOrphans p = length (filter (unplaced l) cs)
     \<and> pj_ExcludedByScope p = length (filter (\<lambda>c. co_Scope c = ''excluded'') cs)
     \<and> (pj_Note p = [] \<longleftrightarrow> ExcludedTotal p = 0)"
proof -
  assume l: "level_Valid l"
  define q where "q = \<lparr>pj_Level = l, pj_Components = slice_stable (\<lambda>a b. co_Key a < co_Key b) (filter (listed l) cs),
    pj_ExcludedTransitive = length (filter (too_deep l) cs), pj_ExcludedOrphans = length (filter (unplaced l) cs),
    pj_ExcludedByScope = length (filter (\<lambda>c. co_Scope c = ''excluded'') cs), pj_Note = []\<rparr>"
  have p: "Project cs l = Inr (q\<lparr>pj_Note := level_note q\<rparr>)"
    unfolding Project_def q_def project_all Let_def using l by simp
  have "ExcludedTotal (q\<lparr>pj_Note := level_note q\<rparr>) = ExcludedTotal q" by (simp add: ExcludedTotal_def)
  with p show ?thesis using level_note_iff [of q]
    by (intro exI [of _ "q\<lparr>pj_Note := level_note q\<rparr>"]) (simp add: q_def)
qed

text \<open>
  C26. A report at a level lists, in the order of their keys, exactly the components that belong to it (at the
  top level those placed at depth one or less, at the complete level all), it counts every other one
  under the reason it was left out, and says so in its note whenever it left one out.
\<close>

theorem projection_accounts_for_every_component:
  assumes "level_Valid l"
  shows "\<exists>p. Project cs l = Inr p \<and> mset (pj_Components p) = mset (filter (listed l) cs)
    \<and> sorted (map co_Key (pj_Components p))
    \<and> Projection_Total p + ExcludedTotal p = length cs
    \<and> pj_ExcludedOrphans p = length (filter (unplaced l) cs)
    \<and> (pj_Note p = [] \<longleftrightarrow> Projection_Total p = length cs)"
proof -
  obtain p where p: "Project cs l = Inr p"
      "pj_Components p = slice_stable (\<lambda>a b. co_Key a < co_Key b) (filter (listed l) cs)"
      "pj_ExcludedTransitive p = length (filter (too_deep l) cs)"
      "pj_ExcludedOrphans p = length (filter (unplaced l) cs)"
      "pj_ExcludedByScope p = length (filter (\<lambda>c. co_Scope c = ''excluded'') cs)"
      "pj_Note p = [] \<longleftrightarrow> ExcludedTotal p = 0"
    using Project_Inr [OF assms, of cs] by (elim exE conjE) (rule that)
  have "sorted (map co_Key (pj_Components p))" unfolding p(2) by (rule sorted_keys)
  moreover have "Projection_Total p + ExcludedTotal p = length cs"
    using level_partition [of cs l] by (simp add: Projection_Total_def ExcludedTotal_def p)
  ultimately show ?thesis using p by auto
qed

theorem projection_accounts_for_every_component_witness:
  "let deep = \<lparr>co_Key = ''b'', co_Depth = Some 2, co_IsDirect = False, co_IsOrphan = False, co_Scope = ''required''\<rparr>;
       lost = deep\<lparr>co_Key := ''a'', co_Depth := None, co_IsOrphan := True\<rparr>
   in \<exists>p. Project [deep, lost] ''top_level'' = Inr p \<and> Projection_Total p = 0 \<and> pj_ExcludedOrphans p = 1 \<and> pj_Note p \<noteq> []"
  using projection_accounts_for_every_component [of TopLevel
      "[\<lparr>co_Key = ''b'', co_Depth = Some 2, co_IsDirect = False, co_IsOrphan = False, co_Scope = ''required''\<rparr>,
        \<lparr>co_Key = ''a'', co_Depth = None, co_IsDirect = False, co_IsOrphan = True, co_Scope = ''required''\<rparr>]"]
  by (auto simp: level_Valid_def listed_def unplaced_def Projection_Total_def)

end
