(* ===== verification/Report_Service.thy ===== *)
theory Report_Service
  imports Report_Store Bom_Level
begin

text \<open>
  \<^verbatim>\<open>services/report/internal/service/service.go\<close>: what may be asked for, queueing, share links and the
  anonymous claim, with the publisher of render jobs (\<^verbatim>\<open>internal/worker/queue.go\<close>). Logging is left out; the
  queue is there (it is missing in tests only).
\<close>

section \<open>Requests\<close>

definition AllBOMTypes :: "string list" where
  "AllBOMTypes = [''SBOM'', ''CBOM'', ''QBOM'', ''AIBOM'', ''HBOM'']"

definition ParseBOMType :: "string \<Rightarrow> go_err + string" where
  "ParseBOMType s = (case first_some (\<lambda>t. if s = t then Some t else None) AllBOMTypes of
     Some t \<Rightarrow> Inr t
   | None \<Rightarrow> Inl (Plain (''unknown BOM type '' @ quoted s @ '' (want one of ['' @ join '' '' AllBOMTypes @ ''])'') []))"

definition parseLevel :: "string \<Rightarrow> go_err + string" where
  "parseLevel raw =
     (if raw = [] then Inr TopLevel
      else if level_Valid raw then Inr raw
      else if level_Known raw
      then Inl (errs_New ValidationFieldInvalid (''level '' @ quoted raw @ '' is defined by CERT-In '' @ bytes [194, 167]
             @ ''3.1 but this build does not produce it; available levels are '' @ quoted TopLevel @ '' and '' @ quoted Complete))
      else Inl (errs_New ValidationFieldInvalid (''level '' @ quoted raw @ '' is not a CERT-In BOM level'')))"

definition report_formats :: "string list" where
  "report_formats = [''pdf'', ''xlsx'', ''json'', ''spdx'', ''cyclonedx'']"

definition parseFormat :: "string \<Rightarrow> go_err + string" where
  "parseFormat raw =
     (if List.member report_formats raw then Inr raw
      else if raw = [] then Inl (errs_New ValidationFieldRequired ''format is required'')
      else Inl (errs_New ValidationFieldInvalid (''format '' @ quoted raw
             @ '' is not produced; want one of pdf, xlsx, json, spdx, cyclonedx'')))"

definition implied_standard :: "(string \<times> string) list" where
  "implied_standard = [(''spdx'', ''SPDX''), (''cyclonedx'', ''CycloneDX'')]"

definition parseStandard :: "string \<Rightarrow> string \<Rightarrow> go_err + string" where
  "parseStandard raw format =
     (let implied = (case map_of implied_standard format of None \<Rightarrow> [] | Some s \<Rightarrow> s) in
      if raw = [] then (if implied \<noteq> [] then Inr implied else Inr ''native'')
      else if raw \<noteq> ''SPDX'' \<and> raw \<noteq> ''CycloneDX'' \<and> raw \<noteq> ''native''
      then Inl (errs_New ValidationFieldInvalid (''standard '' @ quoted raw @ '' is unknown; want SPDX, CycloneDX or native''))
      else if implied \<noteq> [] \<and> raw \<noteq> implied
      then Inl (errs_New ValidationFieldInvalid (''format '' @ quoted format @ '' always produces '' @ implied
             @ '', but standard '' @ quoted raw @ '' was requested''))
      else Inr raw)"

section \<open>Queueing\<close>

definition RenderJob_Validate :: "RenderJobV1 \<Rightarrow> go_err + unit" where
  "RenderJob_Validate j =
     (if rj_TenantID j = [] then Inl (Plain ''render job has no tenant id'' [])
      else if rj_ReportID j = [] then Inl (Plain ''render job has no report id'' [])
      else Inr ())"

definition SubjectRender :: string where "SubjectRender = ''report.render.requested''"
definition RenderJobSchema :: string where "RenderJobSchema = ''axebom.report.render/v1''"

definition PublishRender :: "string \<Rightarrow> string \<Rightarrow> (report_db, go_err + unit) state" where
  "PublishRender tenantID reportID =
     do { now \<leftarrow> time_now;
          let job = \<lparr>rj_Schema = RenderJobSchema, rj_TenantID = tenantID, rj_ReportID = reportID,
                     rj_RequestedAt = rfc3339 UTC now\<rparr>;
          case RenderJob_Validate job of
            Inl e \<Rightarrow> ret (Inl e)
          | Inr _ \<Rightarrow> Bus_Publish SubjectRender reportID (PRender job) }"

text \<open>The request after validation, or why it is refused.\<close>

definition validate_request :: "CreateRequest \<Rightarrow> go_err + CreateRequest" where
  "validate_request req =
     (if cq_ScanID req = [] then Inl (errs_New ValidationFieldRequired ''scan_id is required'')
      else case ParseBOMType (cq_BOMType req) of
        Inl e \<Rightarrow> Inl (errs_New ValidationFieldInvalid (err_text e))
      | Inr bomType \<Rightarrow>
      case parseLevel (cq_Level req) of Inl e \<Rightarrow> Inl e | Inr lvl \<Rightarrow>
      case parseFormat (cq_Format req) of Inl e \<Rightarrow> Inl e | Inr format \<Rightarrow>
      case parseStandard (cq_Standard req) format of Inl e \<Rightarrow> Inl e | Inr standard \<Rightarrow>
      let visibility = (if cq_Visibility req = [] then ''private'' else cq_Visibility req) in
      if visibility \<noteq> ''public'' \<and> visibility \<noteq> ''private''
      then Inl (errs_New ValidationFieldInvalid (''visibility must be '' @ quoted ''public'' @ '' or '' @ quoted ''private''))
      else Inr (req\<lparr>cq_BOMType := bomType, cq_Level := lvl, cq_Standard := standard, cq_Format := format,
                   cq_Visibility := visibility\<rparr>))"

definition Queue :: "CreateRequest \<Rightarrow> (report_db, go_err + Report) state" where
  "Queue req = (case validate_request req of
     Inl e \<Rightarrow> ret (Inl e)
   | Inr req \<Rightarrow>
       do { r \<leftarrow> Report_Create req;
            case r of
              Inl e \<Rightarrow> ret (Inl e)
            | Inr report \<Rightarrow>
                do { p \<leftarrow> PublishRender (cq_TenantID req) (rp_ID report);
                     case p of
                       Inr _ \<Rightarrow> ret (Inr report)
                     | Inl e \<Rightarrow>
                         do { _ \<leftarrow> MarkFailed (cq_TenantID req) (rp_ID report) InternalDependency;
                              ret (Inl (errs_Wrap e InternalDependency
                                ''the report was recorded but could not be queued for rendering'')) } } })"

section \<open>Reading\<close>

definition service_Siblings :: "string \<Rightarrow> Report \<Rightarrow> (report_db, go_err + ReportSibling list) state" where
  "service_Siblings tenantID r = Report_Siblings tenantID (rp_ID r) (rp_ScanID r) (rp_BOMType r)"

definition Open :: "Report \<Rightarrow> (report_db, go_err + string) state" where
  "Open report =
     (if rp_StorageRef report = [] then ret (Inl (errs_New ReportRenderFailed ''this report has no stored artifact''))
      else do { r \<leftarrow> blob_Get (rp_StorageRef report);
                ret (case r of
                  Inl e \<Rightarrow> Inl (errs_Wrap e InternalDependency ''the rendered artifact could not be read from object storage'')
                | Inr body \<Rightarrow> Inr body) })"

section \<open>Share links\<close>

definition service_Share ::
  "string \<Rightarrow> string \<Rightarrow> string \<Rightarrow> share_Options \<Rightarrow> instant \<Rightarrow> (report_db, go_err + Token \<times> Link) state" where
  "service_Share tenantID reportID createdBy opts now =
     do { r \<leftarrow> Report_Get tenantID reportID;
          case r of
            Inl e \<Rightarrow> ret (Inl e)
          | Inr report \<Rightarrow>
              if rp_Status report \<noteq> StatusReady
              then ret (Inl (errs_New ValidationFieldInvalid (''this report is '' @ rp_Status report
                     @ ''; only a ready report can be shared'')))
              else do { r \<leftarrow> CreateShareLink tenantID reportID createdBy opts now;
                        ret (case r of
                          Inl e \<Rightarrow> Inl (errs_Wrap e ValidationFieldInvalid ''the share link could not be created'')
                        | Inr x \<Rightarrow> Inr x) } }"

definition ListShares :: "string \<Rightarrow> string \<Rightarrow> (report_db, go_err + Link list) state" where
  "ListShares tenantID reportID =
     do { r \<leftarrow> Report_Get tenantID reportID;
          case r of Inl e \<Rightarrow> ret (Inl e) | Inr _ \<Rightarrow> ListShareLinks tenantID reportID }"

definition ClaimShared :: "Token \<Rightarrow> string \<Rightarrow> string \<Rightarrow> (report_db, go_err + Claim) state" where
  "ClaimShared token clientIP userAgent =
     do { r \<leftarrow> ClaimDownload token;
          case r of
            Inl e \<Rightarrow> ret (Inl e)
          | Inr claim \<Rightarrow>
              do { _ \<leftarrow> RecordShareAccess (cl_ShareLinkID claim) (cl_Outcome claim) clientIP userAgent;
                   ret (Inr claim) } }"

section \<open>Rendering\<close>

definition file_extension :: "string \<Rightarrow> string" where
  "file_extension format = (if format = ''spdx'' then ''spdx.json'' else if format = ''cyclonedx'' then ''cdx.json'' else format)"

definition StorageKey :: "string \<Rightarrow> string \<Rightarrow> string \<Rightarrow> string" where
  "StorageKey tenantID reportID format = ''reports/'' @ tenantID @ ''/'' @ reportID @ ''.'' @ file_extension format"

definition service_Fail :: "string \<Rightarrow> string \<Rightarrow> go_err \<Rightarrow> (report_db, go_err + unit) state" where
  "service_Fail tenantID reportID cause =
     MarkFailed tenantID reportID (case err_code (errs_From cause) of Some c \<Rightarrow> c | None \<Rightarrow> [])"

end
