(* ===== verification/Report_Worker.thy ===== *)
theory Report_Worker
  imports Report_Service
begin

text \<open>
  \<^verbatim>\<open>services/report/internal/worker\<close>: rendering one report (\<^verbatim>\<open>worker.go\<close>) and the consumer of render jobs
  (\<^verbatim>\<open>queue.go\<close>). The signer and the notifier may be missing. Signing and its JSON are one function of the
  environment, whose digest check is here.
\<close>

record Worker =
  wk_signs :: bool
  wk_notifies :: bool
  wk_frontendURL :: string

section \<open>What is recorded of a BOM\<close>

definition severityCounts :: "string list \<Rightarrow> nat \<times> nat" where
  "severityCounts severities =
     (length (filter (\<lambda>s. to_lower s = ''critical'') severities), length (filter (\<lambda>s. to_lower s = ''high'') severities))"

definition unavailableEngineNames :: "EngineCoverage list \<Rightarrow> string list" where
  "unavailableEngineNames engines = map ec_EngineID (filter (\<lambda>e. ec_Status e = ''unavailable'') engines)"

definition coverageOrNil :: "bool \<Rightarrow> float64 \<Rightarrow> float64 option" where
  "coverageOrNil computed pct = (if \<not> computed then None else Some pct)"

text \<open>A map keeps the last of equal keys.\<close>

definition enrich_field :: "ProfileField list \<Rightarrow> FieldCoverage \<Rightarrow> CoverageField" where
  "enrich_field profile fc =
     (let cf = \<lparr>cf_FieldID = fc_FieldID fc, cf_Name = [], cf_Present = fc_Present fc, cf_Declared = fc_Declared fc,
                cf_Total = fc_Total fc, cf_Weight = 0, cf_SourcePage = 0\<rparr>
      in case map_of (rev (map (\<lambda>f. (pf_ID f, f)) profile)) (fc_FieldID fc) of
           None \<Rightarrow> cf
         | Some pf \<Rightarrow> cf\<lparr>cf_Name := pf_Name pf, cf_Weight := pf_Weight pf, cf_SourcePage := pf_SourcePage pf\<rparr>)"

definition enrichCoverageFields :: "ProfileField list \<Rightarrow> FieldCoverage list \<Rightarrow> CoverageField list" where
  "enrichCoverageFields profile = map (enrich_field profile)"

section \<open>The artifact\<close>

definition writerNote :: "SheetResult list \<Rightarrow> string" where
  "writerNote sheets =
     (let escaped = sum_list (map sh_Escaped sheets); truncated = sum_list (map sh_Truncated sheets);
          stripped = sum_list (map sh_ControlStripped sheets)
      in join '' ''
           ((if 0 < escaped then [itoa escaped @ '' cell value(s) began with a spreadsheet formula character and were ''
               @ ''prefixed with an apostrophe so they cannot execute on open. This means a name in your dependency tree ''
               @ ''is shaped like an attack.''] else [])
            @ (if 0 < truncated then [itoa truncated @ '' value(s) exceeded a spreadsheet cell's 32,767-character limit ''
               @ ''and were cut; the full values are in the JSON export.''] else [])
            @ (if 0 < stripped then [itoa stripped @ '' value(s) contained characters that are not representable in a ''
               @ ''spreadsheet and were replaced with U+FFFD.''] else [])))"

definition wrap_render :: "string \<Rightarrow> go_err + 'a \<Rightarrow> go_err + 'a" where
  "wrap_render msg r = (case r of Inl e \<Rightarrow> Inl (errs_Wrap e ReportRenderFailed msg) | Inr x \<Rightarrow> Inr x)"

definition renderArtifact :: "renderers \<Rightarrow> Report \<Rightarrow> BOM \<Rightarrow> go_err + string \<times> bool \<times> string" where
  "renderArtifact rn r bom =
     (if rp_Format r = ''pdf'' then rn_WritePDF rn bom
      else if rp_Format r = ''xlsx'' then
        map_sum id (\<lambda>(body, sheets). (body, False, writerNote sheets)) (rn_WriteXLSX rn bom)
      else if rp_Format r = ''spdx'' \<or> rp_Format r = ''cyclonedx'' then
        map_sum id (\<lambda>doc. (doc, False, [])) (wrap_render ''serializing the standard document'' (rn_Serialize rn (rp_Format r) bom))
      else if rp_Format r = ''json'' then
        (case wrap_render ''serializing the SPDX document for the bundle'' (rn_Serialize rn ''spdx'' bom) of
           Inl e \<Rightarrow> Inl e
         | Inr spdx \<Rightarrow>
         case wrap_render ''serializing the CycloneDX document for the bundle'' (rn_Serialize rn ''cyclonedx'' bom) of
           Inl e \<Rightarrow> Inl e
         | Inr cdx \<Rightarrow>
           map_sum id (\<lambda>bundle. (bundle, False, []))
             (wrap_render ''building the JSON bundle'' (rn_WriteJSON rn bom spdx cdx)))
      else Inl (errs_New ReportRenderFailed (''no renderer for format '' @ quoted (rp_Format r))))"

definition sign :: "Worker \<Rightarrow> renderers \<Rightarrow> Report \<Rightarrow> Object \<Rightarrow> string \<Rightarrow> go_err + string \<times> string" where
  "sign wk rn r obj artifact =
     (if \<not> wk_signs wk then Inr ([], [])
      else case rn_Sign rn r artifact of
        Inl e \<Rightarrow> Inl e
      | Inr (envelope, keyID) \<Rightarrow>
          if ob_SHA256 obj \<noteq> [] \<and> ob_SHA256 obj \<noteq> hex_encode (sha256 artifact)
          then Inl (Plain (''the stored artifact's digest ('' @ ob_SHA256 obj @ '') differs from the signed one ('' 
                 @ hex_encode (sha256 artifact) @ ''); the bytes changed between rendering and storage'') [])
          else Inr (envelope, keyID))"

section \<open>Rendering a report\<close>

definition report_ready_event :: "Worker \<Rightarrow> string \<Rightarrow> Report \<Rightarrow> BOM \<Rightarrow> instant \<Rightarrow> NotifyEventV1" where
  "report_ready_event wk tenantID report bom now =
     empty_notification\<lparr>ne_Schema := NotifyEventSchema, ne_Event := ''report.ready'', ne_TenantID := tenantID,
       ne_ProjectName := bm_ProjectName bom, ne_ScanID := rp_ScanID report, ne_ReportID := rp_ID report,
       ne_Status := StatusReady, ne_Components := int (bm_Components bom), ne_Findings := int (length (bm_Severities bom)),
       ne_Critical := int (fst (severityCounts (bm_Severities bom))), ne_High := int (snd (severityCounts (bm_Severities bom))),
       ne_EnginesUnavailable := int (length (unavailableEngineNames (bm_Engines bom))),
       ne_UnavailableEngines := unavailableEngineNames (bm_Engines bom),
       ne_URL := wk_frontendURL wk @ ''/reports/'' @ rp_ID report, ne_OccurredAt := rfc3339 UTC now\<rparr>"

definition publishReportReady :: "Worker \<Rightarrow> string \<Rightarrow> Report \<Rightarrow> BOM \<Rightarrow> (report_db, unit) state" where
  "publishReportReady wk tenantID report bom =
     (if \<not> wk_notifies wk \<or> wk_frontendURL wk = [] then ret ()
      else do { now \<leftarrow> time_now;
                let evt = report_ready_event wk tenantID report bom now;
                _ \<leftarrow> Bus_Publish (Notify_Subject evt) (ne_ReportID evt) (PNotify evt);
                ret () })"

definition completion_of :: "renderers \<Rightarrow> BOM \<Rightarrow> Object \<Rightarrow> string \<times> string \<Rightarrow> bool \<Rightarrow> string \<Rightarrow> Completion" where
  "completion_of rn bom obj seal truncated note =
     \<lparr>cm_StorageRef = ob_Key obj, cm_SHA256 = ob_SHA256 obj, cm_SizeBytes = ob_Size obj, cm_Signature = fst seal,
      cm_SigningKeyID = snd seal, cm_Truncated = truncated, cm_TruncationNote = note, cm_ProjectName = bm_ProjectName bom,
      cm_BOMGeneratedAt = bm_GeneratedAt bom, cm_LevelNote = bm_LevelNote bom,
      cm_CompletenessPct = coverageOrNil (bm_CoverageComputed bom) (bm_CompletenessPct bom),
      cm_DeclarationPct = coverageOrNil (bm_CoverageComputed bom) (bm_DeclarationPct bom),
      cm_CoverageFormula = bm_Formula bom,
      cm_CoverageFields = enrichCoverageFields (rn_FieldsFor rn (bm_BOMType bom)) (bm_Fields bom),
      cm_Engines = bm_Engines bom, cm_EcosystemsWithNoEngine = bm_EcosystemsWithNoEngine bom\<rparr>"

text \<open>Up to the upload.\<close>

definition store_artifact ::
  "string \<Rightarrow> string \<Rightarrow> Report \<Rightarrow> (report_db, go_err + BOM \<times> (string \<times> bool \<times> string) \<times> Object) state" where
  "store_artifact tenantID reportID report =
     do { w \<leftarrow> State_Monad.get;
          case rn_Load (rd_render w) report of
            Inl e \<Rightarrow> ret (Inl (errs_Wrap e ReportRenderFailed ''the normalized BOM could not be read''))
          | Inr bom \<Rightarrow>
          case renderArtifact (rd_render w) report bom of
            Inl e \<Rightarrow> ret (Inl e)
          | Inr out \<Rightarrow>
              do { r \<leftarrow> blob_Put (StorageKey tenantID reportID (rp_Format report)) (fst out);
                   ret (case r of
                     Inl e \<Rightarrow> Inl (errs_Wrap e InternalDependency ''the rendered artifact could not be stored'')
                   | Inr obj \<Rightarrow> Inr (bom, out, obj)) } }"

text \<open>What follows the upload: the signature, whose failure only leaves it out, and the row.\<close>

definition finish_render ::
  "Worker \<Rightarrow> string \<Rightarrow> string \<Rightarrow> Report \<Rightarrow> BOM \<times> (string \<times> bool \<times> string) \<times> Object \<Rightarrow> (report_db, go_err + unit) state" where
  "finish_render wk tenantID reportID report stored =
     (case stored of (bom, (artifact, truncated, note), obj) \<Rightarrow>
      do { w \<leftarrow> State_Monad.get;
           let seal = (case sign wk (rd_render w) report obj artifact of Inl _ \<Rightarrow> ([], []) | Inr s \<Rightarrow> s);
           r \<leftarrow> MarkReady tenantID reportID (completion_of (rd_render w) bom obj seal truncated note);
           case r of
             Inl e \<Rightarrow> ret (Inl e)
           | Inr _ \<Rightarrow> do { _ \<leftarrow> publishReportReady wk tenantID report bom; ret (Inr ()) } })"

definition render_report :: "Worker \<Rightarrow> string \<Rightarrow> string \<Rightarrow> Report \<Rightarrow> (report_db, go_err + unit) state" where
  "render_report wk tenantID reportID report =
     do { r \<leftarrow> store_artifact tenantID reportID report;
          case r of
            Inl e \<Rightarrow> ret (Inl e)
          | Inr stored \<Rightarrow> finish_render wk tenantID reportID report stored }"

text \<open>The deferred marker runs when anything after the claim failed.\<close>

definition render_claimed :: "Worker \<Rightarrow> string \<Rightarrow> string \<Rightarrow> Report \<Rightarrow> (report_db, go_err + unit) state" where
  "render_claimed wk tenantID reportID report =
     do { r \<leftarrow> render_report wk tenantID reportID report;
          case r of
            Inr _ \<Rightarrow> ret (Inr ())
          | Inl e \<Rightarrow> do { _ \<leftarrow> service_Fail tenantID reportID e; ret (Inl e) } }"

definition Worker_Render :: "Worker \<Rightarrow> string \<Rightarrow> string \<Rightarrow> (report_db, go_err + unit) state" where
  "Worker_Render wk tenantID reportID =
     do { r \<leftarrow> ClaimForRender tenantID reportID;
          case r of
            Inl _ \<Rightarrow> ret (Inr ())
          | Inr report \<Rightarrow> render_claimed wk tenantID reportID report }"

section \<open>The consumer\<close>

definition retryable :: "go_err \<Rightarrow> bool" where
  "retryable err = errs_Is err InternalDependency"

text \<open>An answer with \<open>ErrRetry\<close> asks for the job again; every other answer ends it.\<close>

definition Render_handle :: "Worker \<Rightarrow> RenderJobV1 \<Rightarrow> (report_db, go_err + unit) state" where
  "Render_handle wk job = (case RenderJob_Validate job of
     Inl e \<Rightarrow> ret (Inl e)
   | Inr _ \<Rightarrow>
       do { r \<leftarrow> Worker_Render wk (rj_TenantID job) (rj_ReportID job);
            ret (case r of
              Inr _ \<Rightarrow> Inr ()
            | Inl e \<Rightarrow> if retryable e then Inl (Plain [] [ErrRetry, e]) else Inr ()) })"

end
