(* ===== verification/Report_Api.thy ===== *)
theory Report_Api
  imports Report_Worker Authz
begin

text \<open>
  The HTTP surface of the report service: \<^verbatim>\<open>internal/handler/handler.go\<close> with \<^verbatim>\<open>routes.go\<close>, after the body is
  decoded and the tenant, the role and the user are known. An answer is what goes over the wire: a document or
  the bytes of an artifact with their headers.
\<close>

section \<open>Documents\<close>

record report_response =
  rr_ID :: string
  rr_ScanID :: string
  rr_BOMType :: string
  rr_Level :: string
  rr_Standard :: string
  rr_Format :: string
  rr_Visibility :: string
  rr_Status :: string
  rr_SHA256 :: string
  rr_SizeBytes :: int
  rr_SigningKeyID :: string
  rr_Truncated :: bool
  rr_TruncationNote :: string
  rr_ProjectName :: string
  rr_GeneratedAt :: string
  rr_LevelNote :: string
  rr_CompletenessPct :: "float64 option"
  rr_DeclarationPct :: "float64 option"
  rr_CoverageFormula :: string
  rr_CoverageFields :: "CoverageField list"
  rr_Engines :: "EngineCoverage list"
  rr_EcosystemsWithNoEngine :: "string list"
  rr_Siblings :: "ReportSibling list"
  rr_ErrorCode :: string
  rr_CreatedAt :: string
  rr_UpdatedAt :: string

definition report_toResponse :: "Report \<Rightarrow> ReportSibling list \<Rightarrow> report_response" where
  "report_toResponse r siblings =
     \<lparr>rr_ID = rp_ID r, rr_ScanID = rp_ScanID r, rr_BOMType = rp_BOMType r, rr_Level = rp_Level r,
      rr_Standard = rp_Standard r, rr_Format = rp_Format r, rr_Visibility = rp_Visibility r, rr_Status = rp_Status r,
      rr_SHA256 = rp_SHA256 r, rr_SizeBytes = rp_SizeBytes r, rr_SigningKeyID = rp_SigningKeyID r,
      rr_Truncated = rp_Truncated r, rr_TruncationNote = rp_TruncationNote r, rr_ProjectName = rp_ProjectName r,
      rr_GeneratedAt = rp_BOMGeneratedAt r, rr_LevelNote = rp_LevelNote r, rr_CompletenessPct = rp_CompletenessPct r,
      rr_DeclarationPct = rp_DeclarationPct r, rr_CoverageFormula = rp_CoverageFormula r,
      rr_CoverageFields = rp_CoverageFields r, rr_Engines = rp_Engines r,
      rr_EcosystemsWithNoEngine = rp_EcosystemsWithNoEngine r, rr_Siblings = siblings, rr_ErrorCode = rp_ErrorCode r,
      rr_CreatedAt = rfc3339 UTC (rp_CreatedAt r), rr_UpdatedAt = rfc3339 UTC (rp_UpdatedAt r)\<rparr>"

record share_response =
  sp_ID :: string
  sp_ReportID :: string
  sp_ExpiresAt :: "string option"
  sp_MaxDownloads :: "int option"
  sp_DownloadCount :: int
  sp_RevokedAt :: "string option"
  sp_State :: string
  sp_CreatedAt :: string
  sp_Token :: string
  sp_URL :: string

definition toShareResponse :: "Link \<Rightarrow> instant \<Rightarrow> share_response" where
  "toShareResponse l now =
     \<lparr>sp_ID = ln_ID l, sp_ReportID = ln_ReportID l, sp_ExpiresAt = map_option (rfc3339 UTC) (ln_ExpiresAt l),
      sp_MaxDownloads = ln_MaxDownloads l, sp_DownloadCount = ln_DownloadCount l,
      sp_RevokedAt = map_option (rfc3339 UTC) (ln_RevokedAt l), sp_State = Link_Classify l now,
      sp_CreatedAt = rfc3339 UTC (ln_CreatedAt l), sp_Token = [], sp_URL = []\<rparr>"

record access_response =
  ax_Outcome :: string
  ax_ClientIP :: string
  ax_UserAgent :: string
  ax_AccessedAt :: string

definition access_response_of :: "ShareAccess \<Rightarrow> access_response" where
  "access_response_of e = \<lparr>ax_Outcome = sx_Outcome e, ax_ClientIP = sx_ClientIP e, ax_UserAgent = sx_UserAgent e,
     ax_AccessedAt = rfc3339 UTC (sx_AccessedAt e)\<rparr>"

section \<open>Reports\<close>

definition report_mapNotFound :: "go_err \<Rightarrow> go_err" where
  "report_mapNotFound err = (if errors_Is err ErrNotFound then errs_New NotFoundReport ''no such report'' else err)"

definition Api_Create :: "CreateRequest \<Rightarrow> (report_db, go_err + report_response) state" where
  "Api_Create req = do { r \<leftarrow> Queue req; ret (map_sum id (\<lambda>r. report_toResponse r []) r) }"

definition Api_Get :: "string \<Rightarrow> string \<Rightarrow> (report_db, go_err + report_response) state" where
  "Api_Get tenantID i =
     do { r \<leftarrow> Report_Get tenantID i;
          case r of
            Inl e \<Rightarrow> ret (Inl (report_mapNotFound e))
          | Inr report \<Rightarrow>
              do { s \<leftarrow> service_Siblings tenantID report;
                   ret (Inr (report_toResponse report (case s of Inl _ \<Rightarrow> [] | Inr xs \<Rightarrow> xs))) } }"

text \<open>A limit that is no number, or out of range, ends up at the default.\<close>

definition query_limit :: "string \<Rightarrow> int" where
  "query_limit s = (case atoi s of None \<Rightarrow> 0 | Some n \<Rightarrow> n)"

definition Api_List :: "string \<Rightarrow> string \<Rightarrow> string \<Rightarrow> string \<Rightarrow> (report_db, go_err + report_response list) state" where
  "Api_List tenantID scanID limit cursor =
     do { r \<leftarrow> Report_List tenantID scanID (query_limit limit) cursor;
          ret (map_sum id (map (\<lambda>r. report_toResponse r [])) r) }"

section \<open>Downloads\<close>

definition mediaType :: "string \<Rightarrow> string" where
  "mediaType format =
     (if format = ''pdf'' then ''application/pdf''
      else if format = ''xlsx'' then ''application/vnd.openxmlformats-officedocument.spreadsheetml.sheet''
      else if format = ''spdx'' then ''application/spdx+json''
      else if format = ''cyclonedx'' then ''application/vnd.cyclonedx+json; version=1.6''
      else ''application/json'')"

definition filename_byte :: "char \<Rightarrow> bool" where
  "filename_byte c \<longleftrightarrow> (97 \<le> byte c \<and> byte c \<le> 122) \<or> (65 \<le> byte c \<and> byte c \<le> 90) \<or> is_digit c
     \<or> c \<in> {CHR ''-'', CHR ''_''}"

definition safeFilenamePart :: "string \<Rightarrow> string" where
  "safeFilenamePart s =
     (if s = [] then ''report''
      else let out = map (\<lambda>c. if filename_byte c then c else CHR ''-'') (take 128 s)
           in if out = [] then ''report'' else out)"

definition filename :: "Report \<Rightarrow> string" where
  "filename r = ''axebom-'' @ safeFilenamePart (rp_ID r) @ ''.'' @ file_extension (rp_Format r)"

definition download_headers :: "Report \<Rightarrow> (string \<times> string) list" where
  "download_headers report =
     [(''Content-Type'', mediaType (rp_Format report)),
      (''Content-Disposition'', ''attachment; filename='' @ quoted (filename report)),
      (''X-Content-Type-Options'', ''nosniff''),
      (''Cache-Control'', ''no-store, no-cache, must-revalidate, private''),
      (''Pragma'', ''no-cache'')]
     @ (if 0 < rp_SizeBytes report then [(''Content-Length'', decimal (rp_SizeBytes report))] else [])
     @ (if rp_SHA256 report \<noteq> [] then [(''X-AxeBOM-SHA256'', rp_SHA256 report)] else [])
     @ (if rp_SigningKeyID report \<noteq> [] then [(''X-AxeBOM-Signing-Key'', rp_SigningKeyID report)] else [])
     @ (if rp_Truncated report then [(''X-AxeBOM-Truncated'', ''true'')] else [])"

type_synonym download = "(string \<times> string) list \<times> string"

definition stream :: "Report \<Rightarrow> (report_db, go_err + download) state" where
  "stream report =
     (if rp_Status report \<noteq> StatusReady
      then ret (Inl (errs_New ReportRenderFailed (''this report is '' @ rp_Status report @ '', not ready to download'')))
      else do { r \<leftarrow> Open report; ret (map_sum id (Pair (download_headers report)) r) })"

definition Api_Download :: "string \<Rightarrow> Role \<Rightarrow> string \<Rightarrow> (report_db, go_err + download) state" where
  "Api_Download tenantID role i =
     do { r \<leftarrow> Report_Get tenantID i;
          case r of
            Inl e \<Rightarrow> ret (Inl (report_mapNotFound e))
          | Inr report \<Rightarrow>
              let d = CanDownloadReport role (rp_Visibility report)
              in if \<not> Allowed d then ret (Inl (errs_New PermReportPrivate (Reason d))) else stream report }"

definition Api_Signature :: "string \<Rightarrow> string \<Rightarrow> (report_db, go_err + download) state" where
  "Api_Signature tenantID i =
     do { r \<leftarrow> Report_Get tenantID i;
          ret (case r of
            Inl e \<Rightarrow> Inl (report_mapNotFound e)
          | Inr report \<Rightarrow>
              if rp_Signature report = []
              then Inl (errs_New NotFoundReport ''this report has no signature; it may not have finished rendering'')
              else Inr ([(''Content-Disposition'', ''attachment; filename='' @ quoted (filename report @ ''.sig.json'')),
                         (''Cache-Control'', ''no-store''), (''Content-Type'', ''application/json'')], rp_Signature report)) }"

section \<open>Share links\<close>

record share_request =
  sr_Expires :: "string option"
  sr_Downloads :: "int option"

definition Api_Share :: "string \<Rightarrow> string \<Rightarrow> string \<Rightarrow> share_request \<Rightarrow> (report_db, go_err + share_response) state" where
  "Api_Share tenantID userID i req =
     (case (case sr_Expires req of
              None \<Rightarrow> Inr None
            | Some s \<Rightarrow> (case parse_rfc3339 s of
                None \<Rightarrow> Inl (errs_New ValidationFieldInvalid ''expires_at must be an RFC3339 timestamp in UTC'')
              | Some t \<Rightarrow> Inr (Some t))) of
        Inl e \<Rightarrow> ret (Inl e)
      | Inr at \<Rightarrow>
          do { now \<leftarrow> time_now;
               r \<leftarrow> service_Share tenantID i userID \<lparr>so_ExpiresAt = at, so_MaxDownloads = sr_Downloads req\<rparr> now;
               now \<leftarrow> time_now;
               ret (case r of
                 Inl e \<Rightarrow> Inl (report_mapNotFound e)
               | Inr (token, link) \<Rightarrow>
                   Inr ((toShareResponse link now)\<lparr>sp_Token := token, sp_URL := ''/shared/'' @ token\<rparr>)) })"

definition Api_ListShares :: "string \<Rightarrow> string \<Rightarrow> (report_db, go_err + share_response list) state" where
  "Api_ListShares tenantID i =
     do { r \<leftarrow> ListShares tenantID i;
          now \<leftarrow> time_now;
          ret (map_sum report_mapNotFound (map (\<lambda>l. toShareResponse l now)) r) }"

definition Api_Revoke :: "string \<Rightarrow> string \<Rightarrow> (report_db, go_err + unit) state" where
  "Api_Revoke tenantID i = do { r \<leftarrow> RevokeShareLink tenantID i; ret (map_sum report_mapNotFound id r) }"

definition Api_ShareAccessLog :: "string \<Rightarrow> string \<Rightarrow> string \<Rightarrow> (report_db, go_err + access_response list) state" where
  "Api_ShareAccessLog tenantID i limit =
     do { r \<leftarrow> ListShareAccess tenantID i (query_limit limit);
          ret (map_sum report_mapNotFound (map access_response_of) r) }"

section \<open>The anonymous download\<close>

definition refusal :: "string \<Rightarrow> go_err" where
  "refusal r =
     (if r = OutcomeExpired then errs_New ReportShareExpired ''this share link has expired''
      else if r = OutcomeRevoked then errs_New ReportShareRevoked ''this share link has been revoked''
      else if r = OutcomeExhausted then errs_New ReportShareExpired ''this share link has reached its download limit''
      else errs_New NotFoundReport ''no such report'')"

definition notFoundShare :: go_err where
  "notFoundShare = errs_New NotFoundReport ''no such share link''"

text \<open>What follows a granted claim.\<close>

definition serve_shared :: "Claim \<Rightarrow> (report_db, go_err + download) state" where
  "serve_shared claim =
     do { r \<leftarrow> GetReportForShare claim;
          case r of Inl e \<Rightarrow> ret (Inl (report_mapNotFound e)) | Inr report \<Rightarrow> stream report }"

definition Api_Shared :: "string \<Rightarrow> string \<Rightarrow> string \<Rightarrow> (report_db, go_err + download) state" where
  "Api_Shared path clientIP userAgent =
     (case ParseToken path of
        Inl _ \<Rightarrow> ret (Inl notFoundShare)
      | Inr token \<Rightarrow>
          do { r \<leftarrow> ClaimShared token clientIP userAgent;
               case r of
                 Inl e \<Rightarrow> ret (Inl (if errors_Is e ErrUnknownToken then notFoundShare else e))
               | Inr claim \<Rightarrow>
                   if cl_Outcome claim \<noteq> OutcomeGranted then ret (Inl (refusal (cl_Outcome claim)))
                   else serve_shared claim })"

section \<open>Routes\<close>

text \<open>The guarded routes and what each demands; \<^verbatim>\<open>GET /shared/{token}\<close> is the public one.\<close>

definition report_routes :: "(string \<times> Permission) list" where
  "report_routes =
     [(''POST /v1/reports'', (ResourceReport, ActionCreate)),
      (''GET /v1/reports'', (ResourceReport, ActionList)),
      (''GET /v1/reports/{id}'', (ResourceReport, ActionRead)),
      (''GET /v1/reports/{id}/download'', (ResourceReport, ActionDownload)),
      (''GET /v1/reports/{id}/signature'', (ResourceReport, ActionRead)),
      (''POST /v1/reports/{id}/shares'', (ResourceShareLink, ActionShare)),
      (''GET /v1/reports/{id}/shares'', (ResourceShareLink, ActionRead)),
      (''DELETE /v1/shares/{share_id}'', (ResourceShareLink, ActionDelete)),
      (''GET /v1/shares/{share_id}/accesses'', (ResourceShareLink, ActionRead)),
      (''POST /v1/csaf/{projectId}/advisories'', (ResourceCSAF, ActionCreate)),
      (''GET /v1/csaf/{projectId}/advisories'', (ResourceCSAF, ActionRead))]"

end
