(* ===== verification/Report_Laws.thy ===== *)
theory Report_Laws
  imports Report_Api
begin

text \<open>
  What the operations of the report service can change: a render touches its own row and its own artifact, the
  operations on links touch the links, and a claim counts one download of one link.
\<close>

section \<open>Fields\<close>

lemma rd_after_io [simp]:
  "rd_reports (after_io w) = rd_reports w" "rd_links (after_io w) = rd_links w"
  "rd_accesses (after_io w) = rd_accesses w" "rd_blobs (after_io w) = rd_blobs w"
  "rd_render (after_io w) = rd_render w" "rd_ip (after_io w) = rd_ip w"
  "rd_random (after_io w) = rd_random w" "rd_drawn (after_io w) = rd_drawn w"
  by (simp_all add: after_io_def)

lemma rd_drop_id [simp]:
  "rd_reports (drop_id w) = rd_reports w" "rd_links (drop_id w) = rd_links w"
  "rd_accesses (drop_id w) = rd_accesses w" "rd_blobs (drop_id w) = rd_blobs w"
  "rd_render (drop_id w) = rd_render w" "rd_ip (drop_id w) = rd_ip w"
  "rd_random (drop_id w) = rd_random w" "rd_drawn (drop_id w) = rd_drawn w"
  "en_next (drop_id w) = Suc (en_next w)"
  by (simp_all add: drop_id_def)

lemma fresh_after_io [simp]: "fresh_id (after_io w) = fresh_id w"
  by (simp add: fresh_id_def)

section \<open>Nothing but I/O\<close>

text \<open>\<open>keeps_links\<close>: links, their log and the ids are as before; \<open>quiet\<close>: reports and artifacts too.\<close>

definition keeps_links :: "report_db \<Rightarrow> report_db \<Rightarrow> bool" where
  "keeps_links w v \<longleftrightarrow> rd_links v = rd_links w \<and> rd_accesses v = rd_accesses w
     \<and> en_uuid v = en_uuid w \<and> en_next v = en_next w \<and> en_clock v = en_clock w"

definition quiet :: "report_db \<Rightarrow> report_db \<Rightarrow> bool" where
  "quiet w v \<longleftrightarrow> keeps_links w v \<and> rd_reports v = rd_reports w \<and> rd_blobs v = rd_blobs w"

lemma quiet_refl [simp]: "quiet w w" "quiet w (after_io w)" "quiet w (w\<lparr>en_outbox := ms\<rparr>)"
    "quiet w ((after_io w)\<lparr>en_outbox := ms\<rparr>)" "quiet w (w\<lparr>rd_drawn := n\<rparr>)"
  by (simp_all add: quiet_def keeps_links_def)

lemma quiet_trans [trans]: "quiet u v \<Longrightarrow> quiet v w \<Longrightarrow> quiet u w"
  by (simp add: quiet_def keeps_links_def)

lemma keeps_links_trans [trans]: "keeps_links u v \<Longrightarrow> keeps_links v w \<Longrightarrow> keeps_links u w"
  by (simp add: keeps_links_def)

lemma quiet_reads: "run_state (ReadTenant t q) w = (x, v) \<Longrightarrow> quiet w v"
  by (auto simp: run_ReadTenant split: if_splits)

lemma quiet_publishes: "run_state (Bus_Publish s i p) w = (x, v) \<Longrightarrow> quiet w v"
  by (auto simp: Bus_Publish_def Let_def split: io_outcome.splits)

lemma quiet_gets: "run_state (blob_Get key) w = (x, v) \<Longrightarrow> quiet w v"
  by (auto simp: blob_Get_def split: option.splits if_splits)

lemma quiet_Get: "run_state (Report_Get t i) w = (x, v) \<Longrightarrow> quiet w v"
  unfolding Report_Get_def by (rule quiet_reads)

lemma quiet_PublishRender: "run_state (PublishRender t i) w = (x, v) \<Longrightarrow> quiet w v"
  by (auto simp: PublishRender_def Let_def run_simps dest: quiet_publishes split: sum.splits)

lemma quiet_publishReportReady: "run_state (publishReportReady wk t r b) w = (x, v) \<Longrightarrow> quiet w v"
  by (auto simp: publishReportReady_def Let_def run_simps dest: quiet_publishes split: if_splits prod.splits)

lemma quiet_Open: "run_state (Open r) w = (x, v) \<Longrightarrow> quiet w v"
  by (auto simp: Open_def run_simps dest: quiet_gets split: if_splits prod.splits)

lemma quiet_stream: "run_state (stream r) w = (x, v) \<Longrightarrow> quiet w v"
  by (auto simp: stream_def run_simps dest: quiet_Open split: if_splits prod.splits)

lemma stream_Inr:
  assumes "run_state (stream r) w = (Inr d, v)"
  shows "rp_Status r = StatusReady \<and> rd_blobs w (rp_StorageRef r) = Some (snd d) \<and> fst d = download_headers r"
  using assms by (auto simp: stream_def Open_def blob_Get_def run_simps split: if_splits option.splits sum.splits)

lemma quiet_serve: "run_state (serve_shared c) w = (x, v) \<Longrightarrow> quiet w v"
  by (auto simp: serve_shared_def GetReportForShare_def run_simps
      dest: quiet_Get quiet_stream intro: quiet_trans split: prod.splits sum.splits)

section \<open>Rows of reports\<close>

text \<open>\<open>amends t i g\<close>: the rows with that key become what \<open>g\<close> makes of them.\<close>

definition amends :: "string \<Rightarrow> string \<Rightarrow> (Report \<Rightarrow> Report) \<Rightarrow> report_db \<Rightarrow> report_db \<Rightarrow> bool" where
  "amends t i g w v \<longleftrightarrow> keeps_links w v \<and> rd_blobs v = rd_blobs w
     \<and> rd_reports v = map (\<lambda>y. if own_report t i y then g y else y) (rd_reports w)"

text \<open>
  A conditional update of a report does nothing and fails, or it changes a row that meets the condition. When the
  acknowledgement is lost it does so and still fails.
\<close>

lemma update_cases:
  assumes "run_state (WithTenant t (update_report t i P f)) w = (x, v)"
  obtains (no) e where "x = Inl e" "quiet w v"
    | (yes) r g where "g = (\<lambda>r. (f r)\<lparr>rp_UpdatedAt := en_clock w\<rparr>)" "find_report t i w = Some r" "P r"
        "report_checks (g r)" "amends t i g w v" "x = Inr (g r) \<or> (\<exists>e. x = Inl e)"
proof (cases "t = [] \<or> next_outcome w = Io_Fails")
  case True
  then show ?thesis using assms by (auto simp: run_WithTenant split: if_splits intro: no)
next
  case False
  define g where "g = (\<lambda>r. (f r)\<lparr>rp_UpdatedAt := en_clock w\<rparr>)"
  have find: "find_report t i (after_io w) = find_report t i w" by (simp add: find_report_def)
  show ?thesis
  proof (cases "find_report t i w")
    case None
    then show ?thesis using False assms by (auto simp: run_WithTenant update_report_def find intro: no)
  next
    case (Some r)
    show ?thesis
    proof (cases "P r \<and> report_checks (g r)")
      case True
      have "amends t i g w v" "x = Inr (g r) \<or> (\<exists>e. x = Inl e)"
        using False Some True assms
        by (auto simp: run_WithTenant update_report_def find Let_def g_def [symmetric] amends_def keeps_links_def
            split: if_splits)
      then show ?thesis using True Some by (intro yes [of g r]) (simp_all add: g_def)
    next
      case no': False
      then show ?thesis using False Some assms
        by (auto simp: run_WithTenant update_report_def find Let_def g_def [symmetric] split: if_splits intro: no)
    qed
  qed
qed

section \<open>Operations on reports\<close>

text \<open>A new row, under the next id.\<close>

definition inserts :: "CreateRequest \<Rightarrow> report_db \<Rightarrow> report_db \<Rightarrow> bool" where
  "inserts q w v \<longleftrightarrow> rd_reports v = rd_reports w @ [new_report q w] \<and> report_checks (new_report q w)
     \<and> rd_links v = rd_links w \<and> rd_accesses v = rd_accesses w \<and> rd_blobs v = rd_blobs w
     \<and> en_uuid v = en_uuid w \<and> en_next v = Suc (en_next w) \<and> en_clock v = en_clock w"

lemma new_report_after_io [simp]: "new_report q (after_io w) = new_report q w"
  by (simp add: new_report_def)

lemma Create_cases:
  assumes "run_state (Report_Create q) w = (x, v)"
  obtains (no) e where "x = Inl e" "quiet w v"
    | (yes) "inserts q w v" "x = Inr (new_report q w) \<or> (\<exists>e. x = Inl e)" "cq_TenantID q \<noteq> []"
  using assms
  by (auto simp: Report_Create_def run_WithTenant run_simps report_wrapped_def inserts_def split: if_splits intro: no yes)

lemma Claim_cases:
  assumes "run_state (ClaimForRender t i) w = (x, v)"
  obtains (no) e where "x = Inl e" "quiet w v"
    | (yes) r g where "g = (\<lambda>r. r\<lparr>rp_Status := StatusRendering, rp_UpdatedAt := en_clock w\<rparr>)"
        "find_report t i w = Some r" "rp_Status r = StatusQueued" "report_checks (g r)" "amends t i g w v"
        "x = Inr (g r) \<or> (\<exists>e. x = Inl e)"
  using assms unfolding ClaimForRender_def by (elim update_cases) (auto intro: no yes)

lemma MarkReady_cases:
  assumes "run_state (MarkReady t i c) w = (x, v)"
  obtains (no) e where "x = Inl e" "quiet w v"
    | (yes) r g where "g = (\<lambda>r. (completed c r)\<lparr>rp_UpdatedAt := en_clock w\<rparr>)"
        "find_report t i w = Some r" "rp_Status r = StatusRendering" "report_checks (g r)" "amends t i g w v"
proof -
  obtain y where run: "run_state (WithTenant t (update_report t i (\<lambda>r. rp_Status r = StatusRendering) (completed c))) w = (y, v)"
      "x = map_sum id (\<lambda>_. ()) y"
    using assms by (auto simp: MarkReady_def run_simps split: prod.splits)
  from run(1) show ?thesis by (cases rule: update_cases) (auto simp: run(2) intro: no yes)
qed

lemma MarkFailed_cases:
  assumes "run_state (MarkFailed t i code) w = (x, v)"
  obtains (no) e where "x = Inl e" "quiet w v"
    | (yes) r g where "g = (\<lambda>r. r\<lparr>rp_Status := report_StatusFailed, rp_ErrorCode := code, rp_UpdatedAt := en_clock w\<rparr>)"
        "find_report t i w = Some r" "rp_Status r = StatusQueued \<or> rp_Status r = StatusRendering"
        "report_checks (g r)" "amends t i g w v"
proof -
  obtain y where run: "run_state (WithTenant t (update_report t i
        (\<lambda>r. rp_Status r = StatusQueued \<or> rp_Status r = StatusRendering)
        (\<lambda>r. r\<lparr>rp_Status := report_StatusFailed, rp_ErrorCode := code\<rparr>))) w = (y, v)"
      "x = map_sum id (\<lambda>_. ()) y"
    using assms by (auto simp: MarkFailed_def run_simps split: prod.splits)
  from run(1) show ?thesis by (cases rule: update_cases) (auto simp: run(2) intro: no yes)
qed

text \<open>An upload changes one artifact; when it succeeds the artifact is there whole, under the digest it returns.\<close>

definition uploads :: "string \<Rightarrow> report_db \<Rightarrow> report_db \<Rightarrow> bool" where
  "uploads key w v \<longleftrightarrow> keeps_links w v \<and> rd_reports v = rd_reports w \<and> (\<forall>k. k \<noteq> key \<longrightarrow> rd_blobs v k = rd_blobs w k)"

definition object_of :: "string \<Rightarrow> string \<Rightarrow> Object" where
  "object_of key body = \<lparr>ob_Key = key, ob_SHA256 = hex_encode (sha256 body), ob_Size = int (length body)\<rparr>"

lemma quiet_uploads: "quiet w v \<Longrightarrow> uploads key w v"
  by (simp add: quiet_def uploads_def)

lemma Put_effect:
  assumes "run_state (blob_Put key body) w = (x, v)"
  shows "uploads key w v" "x = Inr obj \<Longrightarrow> obj = object_of key body \<and> rd_blobs v key = Some body"
  using assms by (auto simp: blob_Put_def uploads_def keeps_links_def object_of_def Let_def
      split: option.splits io_outcome.splits if_splits)

lemma store_artifact_effect:
  assumes "run_state (store_artifact t i r) w = (x, v)"
  shows "uploads (StorageKey t i (rp_Format r)) w v"
    and "x = Inr (bom, out, obj) \<Longrightarrow> obj = object_of (StorageKey t i (rp_Format r)) (fst out)
      \<and> rd_blobs v (StorageKey t i (rp_Format r)) = Some (fst out)"
  using assms by (auto simp: store_artifact_def run_simps Let_def quiet_uploads
      dest: Put_effect split: sum.splits prod.splits)

text \<open>The end of a render changes the row as \<open>MarkReady\<close> does.\<close>

lemma finish_cases:
  assumes "run_state (finish_render wk t i r (bom, out, obj)) w = (x, v)"
  obtains (no) e where "x = Inl e" "quiet w v"
    | (yes) r g c where "cm_StorageRef c = ob_Key obj" "cm_SHA256 c = ob_SHA256 obj" "cm_SizeBytes c = ob_Size obj"
        "g = (\<lambda>r. (completed c r)\<lparr>rp_UpdatedAt := en_clock w\<rparr>)"
        "find_report t i w = Some r" "rp_Status r = StatusRendering" "report_checks (g r)" "amends t i g w v"
proof -
  obtain artifact cut why where out: "out = (artifact, cut, why)" by (cases out)
  define c where "c = completion_of (rd_render w) bom obj
      (case sign wk (rd_render w) r obj artifact of Inl _ \<Rightarrow> ([], []) | Inr s \<Rightarrow> s) cut why"
  have c: "cm_StorageRef c = ob_Key obj" "cm_SHA256 c = ob_SHA256 obj" "cm_SizeBytes c = ob_Size obj"
    by (simp_all add: c_def completion_of_def)
  obtain y u where ready: "run_state (MarkReady t i c) w = (y, u)" by (cases "run_state (MarkReady t i c) w")
  have uv: "(\<exists>e. y = Inl e \<and> x = Inl e \<and> v = u) \<or> y = Inr () \<and> quiet u v"
    using assms ready unfolding finish_render_def out
    by (auto simp: run_simps Let_def c_def [symmetric] dest: quiet_publishReportReady split: sum.splits prod.splits)
  from ready show ?thesis
  proof (cases rule: MarkReady_cases)
    case no': (no e)
    then show ?thesis using uv by (auto intro: no)
  next
    case (yes r g)
    have "amends t i g w v" using uv yes(5)
      by (auto simp: amends_def quiet_def keeps_links_def)
    then show ?thesis using c yes that(2) by blast
  qed
qed

section \<open>Operations on links\<close>

definition keeps_reports :: "report_db \<Rightarrow> report_db \<Rightarrow> bool" where
  "keeps_reports w v \<longleftrightarrow> rd_reports v = rd_reports w \<and> rd_blobs v = rd_blobs w \<and> en_uuid v = en_uuid w
     \<and> en_next w \<le> en_next v \<and> en_clock v = en_clock w"

lemma quiet_keeps_reports: "quiet w v \<Longrightarrow> keeps_reports w v"
  by (simp add: quiet_def keeps_links_def keeps_reports_def)

text \<open>A granted claim counts one download of every row it matches, and a token has one.\<close>

definition counts :: "string \<Rightarrow> report_db \<Rightarrow> report_db \<Rightarrow> bool" where
  "counts h w v \<longleftrightarrow> keeps_reports w v \<and> en_next v = en_next w \<and> rd_accesses v = rd_accesses w
     \<and> rd_links v = map (\<lambda>x. if claimable h (en_clock w) x then x\<lparr>lr_Link := counted (lr_Link x)\<rparr> else x) (rd_links w)"

lemma ClaimDownload_cases:
  assumes "run_state (ClaimDownload token) w = (x, v)"
  obtains (no) "quiet w v" "\<And>c. x = Inr c \<Longrightarrow> cl_Outcome c \<noteq> OutcomeGranted"
    | (yes) l where "find (claimable (Token_Hash token) (en_clock w)) (rd_links w) = Some l"
        "counts (Token_Hash token) w v"
        "x = Inr (claim_of (counted (lr_Link l)) OutcomeGranted) \<or> (\<exists>e. x = Inl e)"
proof (cases "find (claimable (Token_Hash token) (en_clock w)) (rd_links w)")
  case None
  then have "quiet w v \<and> (\<forall>c. x = Inr c \<longrightarrow> cl_Outcome c \<noteq> OutcomeGranted)"
    using assms
    by (auto simp: ClaimDownload_def Db_Call_def claim_share_download_def run_simps claim_of_def
        split: if_splits option.splits)
  then show ?thesis using no by blast
next
  case (Some l)
  show ?thesis
  proof (cases "next_outcome w = Io_Fails \<or> 2 ^ 31 - 1 \<le> ln_DownloadCount (lr_Link l)")
    case True
    then have "quiet w v \<and> (\<exists>e. x = Inl e)"
      using assms Some by (auto simp: ClaimDownload_def Db_Call_def claim_share_download_def run_simps split: if_splits)
    then show ?thesis using no by blast
  next
    case False
    have "counts (Token_Hash token) w v \<and> (x = Inr (claim_of (counted (lr_Link l)) OutcomeGranted) \<or> (\<exists>e. x = Inl e))"
      using assms Some False
      by (auto simp: ClaimDownload_def Db_Call_def claim_share_download_def run_simps counts_def keeps_reports_def
          claim_of_def share_Outcome_Valid_def split: if_splits)
    then show ?thesis using Some yes by blast
  qed
qed

text \<open>A claim is about a link that is there.\<close>

definition claim_of_link :: "report_db \<Rightarrow> Claim \<Rightarrow> bool" where
  "claim_of_link w c \<longleftrightarrow> (\<exists>l \<in> lr_Link ` set (rd_links w). cl_ShareLinkID c = ln_ID l
     \<and> cl_TenantID c = ln_TenantID l \<and> cl_ReportID c = ln_ReportID l)"

lemma claim_share_matches:
  assumes "claim_share_download h w = Inr (Some c, v)"
  shows "claim_of_link v c \<and> en_clock v = en_clock w \<and> rd_accesses v = rd_accesses w \<and> en_outcomes v = en_outcomes w
    \<and> map (ln_ID \<circ> lr_Link) (rd_links v) = map (ln_ID \<circ> lr_Link) (rd_links w)"
proof (cases "find (claimable h (en_clock w)) (rd_links w)")
  case None
  then show ?thesis using assms
    by (auto simp: claim_share_download_def claim_of_link_def claim_of_def find_Some_iff split: option.splits)
next
  case (Some l)
  define f where "f = (\<lambda>x. if claimable h (en_clock w) x then x\<lparr>lr_Link := counted (lr_Link x)\<rparr> else x)"
  from Some have l: "l \<in> set (rd_links w)" "claimable h (en_clock w) l" by (auto simp: find_Some_iff in_set_conv_nth)
  have v: "v = w\<lparr>rd_links := map f (rd_links w)\<rparr>" "c = claim_of (counted (lr_Link l)) OutcomeGranted"
    using assms Some by (auto simp: claim_share_download_def f_def split: if_splits)
  have "counted (lr_Link l) = lr_Link (f l)" using l(2) by (simp add: f_def)
  then have "counted (lr_Link l) \<in> lr_Link ` set (rd_links v)" using l(1) by (simp add: v(1))
  then have "claim_of_link v c" by (auto simp: claim_of_link_def v(2) claim_of_def)
  moreover have "ln_ID (lr_Link (f x)) = ln_ID (lr_Link x)" for x by (simp add: f_def counted_def)
  ultimately show ?thesis by (simp add: v(1))
qed

lemma claim_matches:
  assumes "run_state (ClaimDownload token) w = (Inr c, v)"
  shows "claim_of_link v c" "share_Outcome_Valid (cl_Outcome c)" "en_clock v = en_clock w" "rd_accesses v = rd_accesses w"
    "map (ln_ID \<circ> lr_Link) (rd_links v) = map (ln_ID \<circ> lr_Link) (rd_links w)" "reliable w \<Longrightarrow> reliable v"
proof -
  have "claim_share_download (Token_Hash token) (after_io w) = Inr (Some c, v)" "share_Outcome_Valid (cl_Outcome c)"
    using assms by (auto simp: ClaimDownload_def Db_Call_def run_simps split: if_splits sum.splits option.splits)
  from claim_share_matches [OF this(1)] this(2)
  show "claim_of_link v c" "share_Outcome_Valid (cl_Outcome c)" "en_clock v = en_clock w" "rd_accesses v = rd_accesses w"
    "map (ln_ID \<circ> lr_Link) (rd_links v) = map (ln_ID \<circ> lr_Link) (rd_links w)" "reliable w \<Longrightarrow> reliable v"
    by (simp_all add: reliable_def after_io_def)
qed

text \<open>An audit row more, or nothing.\<close>

definition logs :: "report_db \<Rightarrow> report_db \<Rightarrow> bool" where
  "logs w v \<longleftrightarrow> keeps_reports w v \<and> rd_links v = rd_links w \<and> (\<exists>xs. rd_accesses v = rd_accesses w @ xs)"

lemma logs_RecordShareAccess: "run_state (RecordShareAccess i r ip ua) w = (x, v) \<Longrightarrow> logs w v"
  by (auto simp: RecordShareAccess_def Db_Call_def record_share_access_def run_simps logs_def keeps_reports_def
      split: if_splits option.splits)

text \<open>A new link, for a ready report of the tenant.\<close>

definition links_new :: "string \<Rightarrow> string \<Rightarrow> string \<Rightarrow> share_Options \<Rightarrow> string \<Rightarrow> report_db \<Rightarrow> report_db \<Rightarrow> bool" where
  "links_new t i u opts h w v \<longleftrightarrow> keeps_reports w v \<and> rd_accesses v = rd_accesses w \<and> en_next v = Suc (en_next w)
     \<and> rd_links v = rd_links w @ [\<lparr>lr_Link = new_link t i u opts w, lr_TokenHash = h\<rparr>]
     \<and> list_all (\<lambda>l. lr_TokenHash l \<noteq> h) (rd_links w) \<and> cap_fits (so_MaxDownloads opts)
     \<and> (\<exists>r \<in> set (rd_reports w). own_report t i r \<and> rp_Status r = StatusReady)"

lemma new_link_fields [simp]:
  "new_link t i u opts (after_io w) = new_link t i u opts w" "new_link t i u opts (w\<lparr>rd_drawn := n\<rparr>) = new_link t i u opts w"
  by (simp_all add: new_link_def fresh_id_def)

lemma rd_drawn_fields [simp]:
  "rd_reports (w\<lparr>rd_drawn := n\<rparr>) = rd_reports w" "next_outcome (w\<lparr>rd_drawn := n\<rparr>) = next_outcome w"
  by (simp_all add: next_outcome_def)

lemma CreateShareLink_cases:
  assumes "run_state (CreateShareLink t i u opts now) w = (x, v)"
    and "\<exists>r \<in> set (rd_reports w). own_report t i r \<and> rp_Status r = StatusReady"
  obtains (no) e where "x = Inl e" "quiet w v"
    | (yes) h where "links_new t i u opts h w v" "share_Validate opts now = Inr ()"
proof (cases "share_Validate opts now")
  case (Inl e)
  then show ?thesis using assms by (auto simp: CreateShareLink_def run_simps intro: no)
next
  case (Inr z)
  define w1 where "w1 = w\<lparr>rd_drawn := Suc (rd_drawn w)\<rparr>"
  define h where "h = Token_Hash (NewToken (rd_random w (rd_drawn w)))"
  obtain r where run: "run_state (WithTenant t (insert_link t i u opts h)) w1 = (r, v)"
      and x: "x = map_sum id (Pair (NewToken (rd_random w (rd_drawn w)))) (report_wrapped ''create share link'' r)"
    using assms(1) Inr
    by (auto simp: CreateShareLink_def draw_bytes_def run_simps Let_def w1_def h_def split: prod.splits)
  show ?thesis
  proof (cases "t = [] \<or> next_outcome w = Io_Fails \<or> \<not> list_ex (\<lambda>r. rp_ID r = i) (rd_reports w)
      \<or> list_ex (\<lambda>l. lr_TokenHash l = h) (rd_links w) \<or> \<not> cap_fits (so_MaxDownloads opts)")
    case True
    have quiet: "quiet w w1" "quiet w (after_io w1)"
      unfolding w1_def by (simp_all add: quiet_def keeps_links_def)
    have "(\<exists>e. r = Inl e) \<and> (v = w1 \<or> v = after_io w1)"
      using run True unfolding run_WithTenant by (auto simp: insert_link_def w1_def split: if_splits)
    then show ?thesis using quiet x by (auto simp: report_wrapped_def intro: no)
  next
    case False
    then have "links_new t i u opts h w v"
      using run assms(2) unfolding run_WithTenant
      by (auto simp: insert_link_def w1_def links_new_def keeps_reports_def list_all_iff list_ex_iff split: if_splits)
    then show ?thesis using Inr by (intro yes) simp_all
  qed
qed

lemma find_report_SomeD:
  "find_report t i w = Some r \<Longrightarrow> r \<in> set (rd_reports w) \<and> rp_TenantID r = t \<and> rp_ID r = i"
  by (auto simp: find_report_def own_report_def find_Some_iff in_set_conv_nth)

lemma Get_Inr:
  "run_state (Report_Get t i) w = (Inr r, v) \<Longrightarrow> find_report t i w = Some r \<and> quiet w v"
  by (auto simp: Report_Get_def run_ReadTenant find_report_def split: if_splits option.splits)

lemma Share_cases:
  assumes "run_state (Api_Share t u i req) w = (x, v)"
  obtains (no) "quiet w v"
    | (yes) h opts where "links_new t i u opts h w v" "share_Validate opts (en_clock w) = Inr ()"
proof (cases "\<exists>opts y. run_state (service_Share t i u opts (en_clock w)) w = (y, v)")
  case False
  then have "v = w" using assms
    by (auto simp: Api_Share_def run_simps split: option.splits sum.splits prod.splits)
  then show ?thesis using no by simp
next
  case True
  then obtain opts y where run: "run_state (service_Share t i u opts (en_clock w)) w = (y, v)" by blast
  obtain r u1 where get: "run_state (Report_Get t i) w = (r, u1)" by (cases "run_state (Report_Get t i) w")
  have q: "quiet w u1" using get by (rule quiet_Get)
  show ?thesis
  proof (cases "\<exists>rep. r = Inr rep \<and> rp_Status rep = StatusReady")
    case False
    then have "v = u1" using run get by (auto simp: service_Share_def run_simps split: sum.splits if_splits)
    then show ?thesis using q no by simp
  next
    case True
    then obtain rep where rep: "r = Inr rep" "rp_Status rep = StatusReady" by blast
    obtain z where link: "run_state (CreateShareLink t i u opts (en_clock w)) u1 = (z, v)"
      using run get rep by (auto simp: service_Share_def run_simps split: prod.splits)
    have "\<exists>r \<in> set (rd_reports u1). own_report t i r \<and> rp_Status r = StatusReady"
      using get rep q by (auto simp: quiet_def own_report_def dest!: Get_Inr find_report_SomeD)
    with link show ?thesis
    proof (cases rule: CreateShareLink_cases)
      case (no e)
      with quiet_trans [OF q this(2)] show ?thesis using that(1) by simp
    next
      case (yes h)
      have "new_link t i u opts u1 = new_link t i u opts w"
        using q by (simp add: new_link_def fresh_id_def quiet_def keeps_links_def)
      with yes q have "links_new t i u opts h w v"
        by (simp add: links_new_def quiet_def keeps_links_def keeps_reports_def)
      then show ?thesis using yes that(2) by blast
    qed
  qed
qed

definition revokes :: "string \<Rightarrow> string \<Rightarrow> report_db \<Rightarrow> report_db \<Rightarrow> bool" where
  "revokes t i w v \<longleftrightarrow> keeps_reports w v \<and> en_next v = en_next w \<and> rd_accesses v = rd_accesses w
     \<and> rd_links v = map (\<lambda>l. if own_link t i l then revoked_row (en_clock w) l else l) (rd_links w)"

lemma Revoke_cases:
  assumes "run_state (RevokeShareLink t i) w = (x, v)"
  obtains (no) "quiet w v" | (yes) "revokes t i w v"
  using assms
  by (auto simp: RevokeShareLink_def run_WithTenant revokes_def keeps_reports_def split: if_splits intro: no yes)

text \<open>What is sent after a granted claim.\<close>

lemma serve_Inr:
  assumes "run_state (serve_shared c) w = (Inr d, v)"
  shows "\<exists>r. find_report (cl_TenantID c) (cl_ReportID c) w = Some r \<and> rp_Status r = StatusReady
    \<and> rd_blobs w (rp_StorageRef r) = Some (snd d) \<and> fst d = download_headers r"
proof -
  obtain x u where get: "run_state (Report_Get (cl_TenantID c) (cl_ReportID c)) w = (x, u)"
    by (cases "run_state (Report_Get (cl_TenantID c) (cl_ReportID c)) w")
  then obtain r where r: "x = Inr r" "run_state (stream r) u = (Inr d, v)"
    using assms by (cases x) (auto simp: serve_shared_def GetReportForShare_def run_simps)
  from get r(1) have "find_report (cl_TenantID c) (cl_ReportID c) w = Some r" "quiet w u" using Get_Inr by auto
  with stream_Inr [OF r(2)] show ?thesis by (auto simp: quiet_def)
qed

end
