(* ===== verification/Report_Steps.thy ===== *)
theory Report_Steps
  imports Report_Laws
begin

text \<open>
  The report service as a system: requests, renders, anonymous downloads and the environment in any order, one
  transaction, upload or stream at a time, with what is under way next to the database. A process may die with
  what it holds. Requests that only read change nothing and are part of the environment's step.
\<close>

section \<open>Tasks\<close>

text \<open>
  The middle of \<open>Queue\<close> (the row is there; or its publication failed), of \<open>Render\<close> (claimed; the artifact
  stored; failed) and of a download (claimed; logged and granted).
\<close>

datatype task =
    Publishing string string
  | Unqueued string string
  | Rendering string string Report
  | Stored string string Report BOM "string \<times> bool \<times> string" Object
  | Failing string string go_err
  | Recording Claim string string
  | Serving Claim

text \<open>The database, the tasks, and what has been sent: the claim and the bytes.\<close>

type_synonym report_sys = "report_db \<times> task list \<times> (Claim \<times> string) list"

section \<open>Steps\<close>

inductive report_step :: "Worker \<Rightarrow> report_sys \<Rightarrow> report_sys \<Rightarrow> bool" for wk where
  request: "validate_request req = Inr q \<Longrightarrow> run_state (Report_Create q) w = (Inr r, w')
    \<Longrightarrow> report_step wk (w, ts, s) (w', ts @ [Publishing (cq_TenantID req) (rp_ID r)], s)"
| request_failed: "validate_request req = Inr q \<Longrightarrow> run_state (Report_Create q) w = (Inl e, w')
    \<Longrightarrow> report_step wk (w, ts, s) (w', ts, s)"
| publish: "run_state (PublishRender t i) w = (Inr u, w')
    \<Longrightarrow> report_step wk (w, xs @ Publishing t i # ys, s) (w', xs @ ys, s)"
| publish_failed: "run_state (PublishRender t i) w = (Inl e, w')
    \<Longrightarrow> report_step wk (w, xs @ Publishing t i # ys, s) (w', xs @ Unqueued t i # ys, s)"
| unqueue: "report_step wk (w, xs @ Unqueued t i # ys, s)
    (snd (run_state (MarkFailed t i InternalDependency) w), xs @ ys, s)"
| claim: "run_state (ClaimForRender t i) w = (Inr r, w')
    \<Longrightarrow> report_step wk (w, ts, s) (w', ts @ [Rendering t i r], s)"
| claim_failed: "run_state (ClaimForRender t i) w = (Inl e, w') \<Longrightarrow> report_step wk (w, ts, s) (w', ts, s)"
| upload: "run_state (store_artifact t i r) w = (Inr (bom, out, obj), w')
    \<Longrightarrow> report_step wk (w, xs @ Rendering t i r # ys, s) (w', xs @ Stored t i r bom out obj # ys, s)"
| upload_failed: "run_state (store_artifact t i r) w = (Inl e, w')
    \<Longrightarrow> report_step wk (w, xs @ Rendering t i r # ys, s) (w', xs @ Failing t i e # ys, s)"
| finish: "run_state (finish_render wk t i r (bom, out, obj)) w = (Inr u, w')
    \<Longrightarrow> report_step wk (w, xs @ Stored t i r bom out obj # ys, s) (w', xs @ ys, s)"
| finish_failed: "run_state (finish_render wk t i r (bom, out, obj)) w = (Inl e, w')
    \<Longrightarrow> report_step wk (w, xs @ Stored t i r bom out obj # ys, s) (w', xs @ Failing t i e # ys, s)"
| give_up: "report_step wk (w, xs @ Failing t i e # ys, s) (snd (run_state (service_Fail t i e) w), xs @ ys, s)"
| crash: "report_step wk (w, xs @ x # ys, s) (w, xs @ ys, s)"
| share: "report_step wk (w, ts, s) (snd (run_state (Api_Share t u i sreq) w), ts, s)"
| revoke: "report_step wk (w, ts, s) (snd (run_state (Api_Revoke t i) w), ts, s)"
| take: "run_state (ClaimDownload token) w = (Inr c, w')
    \<Longrightarrow> report_step wk (w, ts, s) (w', ts @ [Recording c ip ua], s)"
| take_failed: "run_state (ClaimDownload token) w = (Inl e, w') \<Longrightarrow> report_step wk (w, ts, s) (w', ts, s)"
| log_access: "report_step wk (w, xs @ Recording c ip ua # ys, s)
    (snd (run_state (RecordShareAccess (cl_ShareLinkID c) (cl_Outcome c) ip ua) w),
     xs @ (if cl_Outcome c = OutcomeGranted then [Serving c] else []) @ ys, s)"
| serve: "run_state (serve_shared c) w = (Inr d, w')
    \<Longrightarrow> report_step wk (w, xs @ Serving c # ys, s) (w', xs @ ys, s @ [(c, snd d)])"
| serve_failed: "run_state (serve_shared c) w = (Inl e, w')
    \<Longrightarrow> report_step wk (w, xs @ Serving c # ys, s) (w', xs @ ys, s)"
| environment: "en_clock w \<le> now \<Longrightarrow> report_step wk (w, ts, s)
    (w\<lparr>en_clock := now, en_outcomes := os, rd_render := rn, rd_ip := ip, rd_random := rd\<rparr>, ts, s)"

definition report_reaches :: "Worker \<Rightarrow> report_sys \<Rightarrow> report_sys \<Rightarrow> bool" where
  "report_reaches wk = (report_step wk)\<^sup>*\<^sup>*"

lemma report_reaches_refl [simp]: "report_reaches wk y y"
  by (simp add: report_reaches_def)

lemma report_reaches_trans [trans]: "report_reaches wk x y \<Longrightarrow> report_reaches wk y z \<Longrightarrow> report_reaches wk x z"
  unfolding report_reaches_def by (rule rtranclp_trans)

lemma report_step_reaches: "report_step wk x y \<Longrightarrow> report_reaches wk x y"
  unfolding report_reaches_def by (rule r_into_rtranclp)

section \<open>The handlers are made of steps\<close>

lemma Queue_is_steps: "report_reaches wk (w, ts, s) (snd (run_state (Queue req) w), ts, s)"
proof (cases "validate_request req")
  case (Inl e)
  then show ?thesis by (simp add: Queue_def run_simps)
next
  case (Inr q)
  then have t: "cq_TenantID q = cq_TenantID req"
    by (auto simp: validate_request_def Let_def split: if_splits sum.splits)
  obtain x w1 where create: "run_state (Report_Create q) w = (x, w1)" by (cases "run_state (Report_Create q) w")
  show ?thesis
  proof (cases x)
    case (Inl e)
    then show ?thesis using report_step.request_failed [OF Inr] create
      by (auto simp: Queue_def run_simps Inr intro: report_step_reaches)
  next
    case x: (Inr r)
    note made = report_step_reaches [OF report_step.request [OF Inr create [unfolded x], of wk ts s]]
    obtain y w2 where pub: "run_state (PublishRender (cq_TenantID req) (rp_ID r)) w1 = (y, w2)"
      by (cases "run_state (PublishRender (cq_TenantID req) (rp_ID r)) w1")
    show ?thesis
    proof (cases y)
      case (Inr u)
      note made
      also have "report_reaches wk (w1, ts @ [Publishing (cq_TenantID req) (rp_ID r)], s) (w2, ts, s)"
        using report_step.publish [of "cq_TenantID req" "rp_ID r" w1 u w2 wk ts "[]" s] pub Inr
        by (auto intro: report_step_reaches)
      finally show ?thesis using create pub x Inr t \<open>validate_request req = Inr q\<close> by (simp add: Queue_def run_simps)
    next
      case (Inl e)
      note made
      also have "report_reaches wk (w1, ts @ [Publishing (cq_TenantID req) (rp_ID r)], s)
          (w2, ts @ [Unqueued (cq_TenantID req) (rp_ID r)], s)"
        using report_step.publish_failed [of "cq_TenantID req" "rp_ID r" w1 e w2 wk ts "[]" s] pub Inl
        by (auto intro: report_step_reaches)
      also have "report_reaches wk (w2, ts @ [Unqueued (cq_TenantID req) (rp_ID r)], s)
          (snd (run_state (MarkFailed (cq_TenantID req) (rp_ID r) InternalDependency) w2), ts, s)"
        using report_step.unqueue [of wk w2 ts "cq_TenantID req" "rp_ID r" "[]" s] by (auto intro: report_step_reaches)
      finally show ?thesis using create pub x Inl t \<open>validate_request req = Inr q\<close>
        by (auto simp: Queue_def run_simps split: prod.splits)
    qed
  qed
qed

lemma failing_steps:
  "report_reaches wk (w, ts @ [Failing t i e], s) (snd (run_state (service_Fail t i e) w), ts, s)"
  using report_step.give_up [of wk w ts t i e "[]" s] by (auto intro: report_step_reaches)

lemma render_claimed_is_steps:
  "report_reaches wk (w, ts @ [Rendering t i r], s) (snd (run_state (render_claimed wk t i r) w), ts, s)"
proof -
  obtain x w1 where store: "run_state (store_artifact t i r) w = (x, w1)" by (cases "run_state (store_artifact t i r) w")
  show ?thesis
  proof (cases x)
    case (Inl e)
    have "report_reaches wk (w, ts @ [Rendering t i r], s) (w1, ts @ [Failing t i e], s)"
      using report_step.upload_failed [of t i r w e w1 wk ts "[]" s] store Inl by (auto intro: report_step_reaches)
    also note failing_steps
    finally show ?thesis using store Inl by (auto simp: render_claimed_def render_report_def run_simps split: prod.splits)
  next
    case (Inr st)
    obtain bom out obj where st: "st = (bom, out, obj)" by (cases st)
    have up: "report_reaches wk (w, ts @ [Rendering t i r], s) (w1, ts @ [Stored t i r bom out obj], s)"
      using report_step.upload [of t i r w bom out obj w1 wk ts "[]" s] store Inr st by (auto intro: report_step_reaches)
    obtain y w2 where fin: "run_state (finish_render wk t i r (bom, out, obj)) w1 = (y, w2)"
      by (cases "run_state (finish_render wk t i r (bom, out, obj)) w1")
    show ?thesis
    proof (cases y)
      case (Inr u)
      note up
      also have "report_reaches wk (w1, ts @ [Stored t i r bom out obj], s) (w2, ts, s)"
        using report_step.finish [of wk t i r bom out obj w1 u w2 ts "[]" s] fin Inr by (auto intro: report_step_reaches)
      finally show ?thesis using store \<open>x = Inr st\<close> st fin Inr
        by (simp add: render_claimed_def render_report_def run_simps)
    next
      case (Inl e)
      note up
      also have "report_reaches wk (w1, ts @ [Stored t i r bom out obj], s) (w2, ts @ [Failing t i e], s)"
        using report_step.finish_failed [of wk t i r bom out obj w1 e w2 ts "[]" s] fin Inl
        by (auto intro: report_step_reaches)
      also note failing_steps
      finally show ?thesis using store \<open>x = Inr st\<close> st fin Inl
        by (auto simp: render_claimed_def render_report_def run_simps split: prod.splits)
    qed
  qed
qed

lemma Render_is_steps: "report_reaches wk (w, ts, s) (snd (run_state (Worker_Render wk t i) w), ts, s)"
proof -
  obtain x w1 where claim: "run_state (ClaimForRender t i) w = (x, w1)" by (cases "run_state (ClaimForRender t i) w")
  show ?thesis
  proof (cases x)
    case (Inl e)
    then show ?thesis using report_step.claim_failed [of t i w e w1] claim
      by (auto simp: Worker_Render_def run_simps intro: report_step_reaches)
  next
    case (Inr r)
    have "report_reaches wk (w, ts, s) (w1, ts @ [Rendering t i r], s)"
      using report_step.claim [of t i w r w1] claim Inr by (auto intro: report_step_reaches)
    also note render_claimed_is_steps
    finally show ?thesis using claim Inr by (simp add: Worker_Render_def run_simps)
  qed
qed

text \<open>What a request for a shared report sends.\<close>

definition sent_by :: "string \<Rightarrow> string \<Rightarrow> string \<Rightarrow> report_db \<Rightarrow> (Claim \<times> string) list" where
  "sent_by path ip ua w = (case ParseToken path of Inl _ \<Rightarrow> [] | Inr token \<Rightarrow>
     case run_state (ClaimShared token ip ua) w of
       (Inl _, _) \<Rightarrow> []
     | (Inr c, v) \<Rightarrow> if cl_Outcome c \<noteq> OutcomeGranted then []
         else case fst (run_state (serve_shared c) v) of Inl _ \<Rightarrow> [] | Inr d \<Rightarrow> [(c, snd d)])"

lemma Shared_is_steps:
  "report_reaches wk (w, ts, s) (snd (run_state (Api_Shared path ip ua) w), ts, s @ sent_by path ip ua w)"
proof (cases "ParseToken path")
  case (Inl e)
  then show ?thesis by (simp add: Api_Shared_def sent_by_def run_simps)
next
  case (Inr token)
  obtain x w1 where claim: "run_state (ClaimDownload token) w = (x, w1)" by (cases "run_state (ClaimDownload token) w")
  show ?thesis
  proof (cases x)
    case (Inl e)
    then show ?thesis using report_step.take_failed [of token w e w1] claim Inr
      by (auto simp: Api_Shared_def ClaimShared_def sent_by_def run_simps intro: report_step_reaches)
  next
    case c: (Inr c)
    obtain y w2 where rec: "run_state (RecordShareAccess (cl_ShareLinkID c) (cl_Outcome c) ip ua) w1 = (y, w2)"
      by (cases "run_state (RecordShareAccess (cl_ShareLinkID c) (cl_Outcome c) ip ua) w1")
    have run: "run_state (ClaimShared token ip ua) w = (Inr c, w2)"
      using claim c rec by (simp add: ClaimShared_def run_simps)
    have "report_reaches wk (w, ts, s) (w1, ts @ [Recording c ip ua], s)"
      using report_step.take [of token w c w1] claim c by (auto intro: report_step_reaches)
    also have "report_reaches wk (w1, ts @ [Recording c ip ua], s)
        (w2, ts @ (if cl_Outcome c = OutcomeGranted then [Serving c] else []), s)"
      using report_step.log_access [of wk w1 ts c ip ua "[]" s] rec by (auto intro: report_step_reaches)
    finally have taken: "report_reaches wk (w, ts, s)
        (w2, ts @ (if cl_Outcome c = OutcomeGranted then [Serving c] else []), s)" .
    show ?thesis
    proof (cases "cl_Outcome c = OutcomeGranted")
      case False
      then show ?thesis using taken run Inr by (simp add: Api_Shared_def sent_by_def run_simps)
    next
      case True
      obtain d w3 where serve: "run_state (serve_shared c) w2 = (d, w3)" by (cases "run_state (serve_shared c) w2")
      have "report_reaches wk (w2, ts @ [Serving c], s)
          (w3, ts, s @ (case d of Inl _ \<Rightarrow> [] | Inr d \<Rightarrow> [(c, snd d)]))"
        using report_step.serve [of c w2 _ w3 wk ts "[]" s] report_step.serve_failed [of c w2 _ w3 wk ts "[]" s] serve
        by (cases d) (auto intro: report_step_reaches)
      with taken True have "report_reaches wk (w, ts, s)
          (w3, ts, s @ (case d of Inl _ \<Rightarrow> [] | Inr d \<Rightarrow> [(c, snd d)]))"
        by (auto intro: report_reaches_trans)
      then show ?thesis using run serve True Inr by (simp add: Api_Shared_def sent_by_def run_simps)
    qed
  qed
qed

end
