(* ===== verification/Report_Safety.thy ===== *)
theory Report_Safety
  imports Report_Steps
begin

text \<open>
  What holds in every reachable state of the report service: ids are unique, a report under way is rendered by
  one task, a ready report is whole in the object store and never changes again, and every link has counted at
  least the downloads granted through it.
\<close>

section \<open>Storage keys\<close>

definition plain_name :: "string \<Rightarrow> bool" where
  "plain_name i \<longleftrightarrow> list_all (\<lambda>c. c \<noteq> CHR ''/'' \<and> c \<noteq> CHR ''.'') i"

lemma checked_format: "report_checks r \<Longrightarrow> rp_Format r \<in> {''pdf'', ''xlsx'', ''json'', ''spdx'', ''cyclonedx''}"
  by (simp add: report_checks_def)

lemma extension_has_no_slash:
  "f \<in> {''pdf'', ''xlsx'', ''json'', ''spdx'', ''cyclonedx''} \<Longrightarrow> CHR ''/'' \<notin> set (file_extension f)"
  by (auto simp: file_extension_def)

lemma takeWhile_front: "\<forall>c \<in> set xs. P c \<Longrightarrow> \<not> P y \<Longrightarrow> takeWhile P (xs @ y # ys) = xs"
  by (induction xs) simp_all

lemma StorageKey_id:
  assumes "plain_name i" "plain_name j" "CHR ''/'' \<notin> set (file_extension f)" "CHR ''/'' \<notin> set (file_extension g)"
    and "StorageKey t i f = StorageKey u j g"
  shows "i = j"
proof -
  have split: "takeWhile (\<lambda>c. c \<noteq> CHR ''/'') (rev (StorageKey t i f)) = rev (i @ CHR ''.'' # file_extension f)"
    if "plain_name i" "CHR ''/'' \<notin> set (file_extension f)" for t i f
  proof -
    have "rev (StorageKey t i f) = rev (i @ CHR ''.'' # file_extension f) @ CHR ''/'' # rev (''reports/'' @ t)"
      by (simp add: StorageKey_def)
    moreover have "\<forall>c \<in> set (rev (i @ CHR ''.'' # file_extension f)). c \<noteq> CHR ''/''"
      using that by (auto simp: plain_name_def list_all_iff)
    ultimately show ?thesis using takeWhile_front [of "rev (i @ CHR ''.'' # file_extension f)" "\<lambda>c. c \<noteq> CHR ''/''"] by simp
  qed
  have "rev (i @ CHR ''.'' # file_extension f) = rev (j @ CHR ''.'' # file_extension g)"
    using split [OF assms(1,3), of t] split [OF assms(2,4), of u] assms(5) by simp
  then have eq: "i @ CHR ''.'' # file_extension f = j @ CHR ''.'' # file_extension g" by (simp only: rev_is_rev_conv)
  have name: "takeWhile (\<lambda>c. c \<noteq> CHR ''.'') (i @ CHR ''.'' # e) = i" if "plain_name i" for i e
    using that by (intro takeWhile_front) (auto simp: plain_name_def list_all_iff)
  show ?thesis using name [OF assms(1), of "file_extension f"] name [OF assms(2), of "file_extension g"] eq by simp
qed

section \<open>The invariant of reports\<close>

definition given_ids :: "report_db \<Rightarrow> string set" where
  "given_ids w = en_uuid w ` {..<en_next w}"

text \<open>The report that a task renders.\<close>

fun renders :: "task \<Rightarrow> string option" where
  "renders (Rendering t i r) = Some i"
| "renders (Stored t i r bom out obj) = Some i"
| "renders x = None"

definition in_render :: "task list \<Rightarrow> string list" where
  "in_render ts = List.map_filter renders ts"

lemma in_render_simps [simp]:
  "in_render [] = []" "in_render (xs @ ys) = in_render xs @ in_render ys"
  "in_render (Publishing t i # ts) = in_render ts" "in_render (Unqueued t i # ts) = in_render ts"
  "in_render (Failing t i e # ts) = in_render ts" "in_render (Recording c ip ua # ts) = in_render ts"
  "in_render (Serving c # ts) = in_render ts" "in_render (Rendering t i r # ts) = i # in_render ts"
  "in_render (Stored t i r bom out obj # ts) = i # in_render ts"
  by (simp_all add: in_render_def List.map_filter_def)

text \<open>The artifact of a row is stored whole, under the digest and the size the row records.\<close>

definition stored_whole :: "report_db \<Rightarrow> Report \<Rightarrow> bool" where
  "stored_whole w r \<longleftrightarrow> rp_StorageRef r = StorageKey (rp_TenantID r) (rp_ID r) (rp_Format r)
     \<and> (\<exists>body. rd_blobs w (rp_StorageRef r) = Some body \<and> rp_SHA256 r = hex_encode (sha256 body)
          \<and> rp_SizeBytes r = int (length body))"

definition report_ok :: "report_db \<Rightarrow> Report \<Rightarrow> bool" where
  "report_ok w r \<longleftrightarrow> rp_ID r \<in> given_ids w \<and> report_checks r \<and> (rp_Status r = StatusReady \<longrightarrow> stored_whole w r)"

definition row_under_way :: "report_db \<Rightarrow> string \<Rightarrow> string \<Rightarrow> Report \<Rightarrow> bool" where
  "row_under_way w t i r \<longleftrightarrow> (\<exists>y \<in> set (rd_reports w). own_report t i y \<and> rp_Format y = rp_Format r
     \<and> (rp_Status y = StatusRendering \<or> rp_Status y = report_StatusFailed))"

fun task_ok :: "report_db \<Rightarrow> task \<Rightarrow> bool" where
  "task_ok w (Rendering t i r) = row_under_way w t i r"
| "task_ok w (Stored t i r bom out obj) = (row_under_way w t i r
     \<and> obj = object_of (StorageKey t i (rp_Format r)) (fst out)
     \<and> rd_blobs w (StorageKey t i (rp_Format r)) = Some (fst out))"
| "task_ok w x = True"

definition reports_ok :: "task list \<Rightarrow> report_db \<Rightarrow> bool" where
  "reports_ok ts w \<longleftrightarrow> inj (en_uuid w) \<and> (\<forall>n. plain_name (en_uuid w n)) \<and> distinct (map rp_ID (rd_reports w))
     \<and> list_all (report_ok w) (rd_reports w) \<and> distinct (in_render ts) \<and> list_all (task_ok w) ts"

text \<open>A row that is ready or failed stays, and with a ready row its artifact.\<close>

definition keeps_final :: "report_db \<Rightarrow> report_db \<Rightarrow> bool" where
  "keeps_final w v \<longleftrightarrow> (\<forall>r \<in> set (rd_reports w). (rp_Status r = StatusReady \<or> rp_Status r = report_StatusFailed)
     \<longrightarrow> r \<in> set (rd_reports v) \<and> (rp_Status r = StatusReady \<longrightarrow> rd_blobs v (rp_StorageRef r) = rd_blobs w (rp_StorageRef r)))"

lemma keeps_final_trans: "keeps_final u v \<Longrightarrow> keeps_final v w \<Longrightarrow> keeps_final u w"
  unfolding keeps_final_def by metis

lemma task_ok_cong: "rd_reports v = rd_reports w \<Longrightarrow> rd_blobs v = rd_blobs w \<Longrightarrow> task_ok v x = task_ok w x"
  by (cases x) (simp_all add: row_under_way_def)

lemma keeps_reports_ok:
  assumes "keeps_reports w v" "reports_ok ts w"
  shows "reports_ok ts v" "keeps_final w v"
proof -
  have "given_ids w \<subseteq> given_ids v" using assms(1) by (auto simp: given_ids_def keeps_reports_def)
  then have "report_ok v r" if "report_ok w r" for r
    using that assms(1) by (auto simp: report_ok_def stored_whole_def keeps_reports_def)
  then show "reports_ok ts v" using assms task_ok_cong [of v w]
    by (auto simp: reports_ok_def keeps_reports_def list_all_iff)
  show "keeps_final w v" using assms(1) by (simp add: keeps_final_def keeps_reports_def)
qed

lemma quiet_reports_ok:
  assumes "quiet w v" "reports_ok ts w"
  shows "reports_ok ts v" "keeps_final w v"
  using keeps_reports_ok [OF quiet_keeps_reports [OF assms(1)] assms(2)] .

lemma reports_ok_env:
  assumes "reports_ok ts w" "rd_reports v = rd_reports w" "rd_blobs v = rd_blobs w" "en_uuid v = en_uuid w" "en_next v = en_next w"
  shows "reports_ok ts v"
proof -
  have "report_ok v = report_ok w" using assms(2-) by (simp add: report_ok_def stored_whole_def given_ids_def fun_eq_iff)
  moreover have "task_ok v = task_ok w" using task_ok_cong [OF assms(2,3)] by (simp add: fun_eq_iff)
  ultimately show ?thesis using assms by (simp add: reports_ok_def)
qed

lemma reports_ok_less: "reports_ok (xs @ x # ys) w \<Longrightarrow> reports_ok (xs @ ys) w"
  by (cases x) (auto simp: reports_ok_def)

lemma reports_ok_idle:
  "renders x = None \<Longrightarrow> renders y = None \<Longrightarrow> reports_ok (xs @ x # ys) w \<Longrightarrow> reports_ok (xs @ y # ys) w"
  "renders y = None \<Longrightarrow> reports_ok ts w \<Longrightarrow> reports_ok (ts @ [y]) w"
  by (cases x; cases y; simp add: reports_ok_def) (cases y; simp add: reports_ok_def)

section \<open>Changes of reports\<close>

lemma only_row:
  assumes "reports_ok ts w" "find_report t i w = Some r" "y \<in> set (rd_reports w)" "rp_ID y = i"
  shows "y = r"
  using assms find_report_SomeD [OF assms(2)] by (auto simp: reports_ok_def distinct_map inj_on_def)

lemma inserts_ok:
  assumes "inserts q w v" "reports_ok ts w"
  shows "reports_ok ts v" "keeps_final w v"
proof -
  have v: "rd_reports v = rd_reports w @ [new_report q w]" "report_checks (new_report q w)" "rd_blobs v = rd_blobs w"
      "en_uuid v = en_uuid w" "en_next v = Suc (en_next w)"
    using assms(1) by (simp_all add: inserts_def)
  have new: "rp_ID (new_report q w) = en_uuid w (en_next w)" "rp_Status (new_report q w) = StatusQueued"
    by (simp_all add: new_report_def fresh_id_def)
  have fresh: "en_uuid w (en_next w) \<notin> given_ids w"
    using assms(2) by (auto simp: given_ids_def reports_ok_def dest: injD)
  have used: "given_ids v = insert (en_uuid w (en_next w)) (given_ids w)"
    using v by (auto simp: given_ids_def lessThan_Suc)
  have "en_uuid w (en_next w) \<notin> rp_ID ` set (rd_reports w)"
    using fresh assms(2) by (auto simp: reports_ok_def list_all_iff report_ok_def)
  moreover have "report_ok v r" if "report_ok w r" for r
    using that v used by (auto simp: report_ok_def stored_whole_def)
  moreover have "report_ok v (new_report q w)" using v new used by (simp add: report_ok_def)
  moreover have "task_ok v x" if "task_ok w x" for x
    using that v by (cases x) (auto simp: row_under_way_def)
  ultimately show "reports_ok ts v" using assms(2) v new by (auto simp: reports_ok_def list_all_iff)
  show "keeps_final w v" using v by (simp add: keeps_final_def)
qed

text \<open>A row that was not final becomes one with the same key, and what is under way allows it.\<close>

lemma amends_ok:
  assumes amends: "amends t i g w v" and ok: "reports_ok ts w" and find: "find_report t i w = Some r"
    and open_row: "rp_Status r \<noteq> StatusReady" "rp_Status r \<noteq> report_StatusFailed"
    and same: "rp_ID (g r) = i" "rp_TenantID (g r) = t" "rp_Format (g r) = rp_Format r" "report_checks (g r)"
    and ready: "rp_Status (g r) = StatusReady \<Longrightarrow> stored_whole w (g r)"
    and tasks: "i \<in> set (in_render ts) \<Longrightarrow> rp_Status (g r) = StatusRendering \<or> rp_Status (g r) = report_StatusFailed"
  shows "reports_ok ts v" "keeps_final w v"
proof -
  have v: "rd_blobs v = rd_blobs w" "en_uuid v = en_uuid w" "en_next v = en_next w"
      "rd_reports v = map (\<lambda>y. if own_report t i y then g y else y) (rd_reports w)"
    using amends by (simp_all add: amends_def keeps_links_def)
  note r = find_report_SomeD [OF find]
  have own: "own_report t i y \<longleftrightarrow> y = r" if "y \<in> set (rd_reports w)" for y
    using only_row [OF ok find that] r by (auto simp: own_report_def)
  have rows: "rd_reports v = map (\<lambda>y. if y = r then g r else y) (rd_reports w)"
    using own by (simp add: v(4) cong: map_cong)
  have in_v: "g r \<in> set (rd_reports v)" "y \<noteq> r \<Longrightarrow> y \<in> set (rd_reports w) \<Longrightarrow> y \<in> set (rd_reports v)" for y
    using r by (auto simp: rows)
  have "map rp_ID (rd_reports v) = map rp_ID (rd_reports w)" using r same by (simp add: rows)
  then have "distinct (map rp_ID (rd_reports v))" using ok by (simp add: reports_ok_def)
  moreover have okv: "report_ok v y = report_ok w y" "stored_whole v y = stored_whole w y" for y
    using v by (simp_all add: report_ok_def stored_whole_def given_ids_def)
  moreover have "report_ok w (g r)"
    using ok r same ready by (auto simp: report_ok_def reports_ok_def list_all_iff)
  then have "list_all (report_ok v) (rd_reports v)"
    using ok okv by (auto simp: rows reports_ok_def list_all_iff)
  moreover have "task_ok v x" if x: "x \<in> set ts" for x
  proof -
    have way: "row_under_way v t' j r'" if "row_under_way w t' j r'" "j \<in> set (in_render ts)" for t' j r'
    proof -
      obtain y where y: "y \<in> set (rd_reports w)" "own_report t' j y" "rp_Format y = rp_Format r'"
          "rp_Status y = StatusRendering \<or> rp_Status y = report_StatusFailed"
        using \<open>row_under_way w t' j r'\<close> by (auto simp: row_under_way_def)
      show ?thesis
      proof (cases "y = r")
        case True
        then have "j = i" "t' = t" using y r by (auto simp: own_report_def)
        then show ?thesis using True y same tasks that(2) in_v(1)
          unfolding row_under_way_def by (intro bexI [of _ "g r"]) (auto simp: own_report_def)
      next
        case False
        then show ?thesis using y in_v(2) unfolding row_under_way_def by blast
      qed
    qed
    have "task_ok w x" using ok x by (auto simp: reports_ok_def list_all_iff)
    moreover have "j \<in> set (in_render ts)" if "renders x = Some j" for j
      using x that by (auto simp: in_render_def List.map_filter_def intro!: image_eqI [of _ _ x])
    ultimately show ?thesis using way v by (cases x) auto
  qed
  ultimately show "reports_ok ts v" using ok v(2) unfolding reports_ok_def by (simp add: list_all_iff)
  show "keeps_final w v" unfolding keeps_final_def v(1) using open_row in_v(2) by metis
qed

text \<open>An upload for the report that a task renders touches no other report's artifact.\<close>

lemma row_plain:
  "reports_ok ts w \<Longrightarrow> r \<in> set (rd_reports w) \<Longrightarrow> plain_name (rp_ID r) \<and> CHR ''/'' \<notin> set (file_extension (rp_Format r))"
  using extension_has_no_slash [OF checked_format]
  by (auto simp: reports_ok_def list_all_iff report_ok_def given_ids_def)

lemma under_way_plain:
  "reports_ok ts w \<Longrightarrow> row_under_way w t i r \<Longrightarrow> plain_name i \<and> CHR ''/'' \<notin> set (file_extension (rp_Format r))"
  unfolding row_under_way_def using row_plain [of ts w] by (metis own_report_def)

lemma uploads_ok:
  assumes up: "uploads (StorageKey t i (rp_Format r)) w v" and ok: "reports_ok (xs @ Rendering t i r # ys) w"
  shows "reports_ok (xs @ ys) v" "row_under_way v t i r" "keeps_final w v"
proof -
  have v: "rd_reports v = rd_reports w" "en_uuid v = en_uuid w" "given_ids v = given_ids w"
      "\<And>k. k \<noteq> StorageKey t i (rp_Format r) \<Longrightarrow> rd_blobs v k = rd_blobs w k"
    using up by (simp_all add: uploads_def keeps_links_def given_ids_def)
  have way: "row_under_way w t i r" using ok by (simp add: reports_ok_def)
  note plain = under_way_plain [OF ok way]
  obtain y0 where y0: "y0 \<in> set (rd_reports w)" "rp_ID y0 = i" "rp_Status y0 \<noteq> StatusReady"
    using way by (auto simp: row_under_way_def own_report_def)
  have other: "rd_blobs v (StorageKey t' j f) = rd_blobs w (StorageKey t' j f)"
    if "plain_name j" "CHR ''/'' \<notin> set (file_extension f)" "j \<noteq> i" for t' j f
    using v(4) StorageKey_id [of j i f "rp_Format r" t' t] that plain by blast
  have ready: "rp_ID y \<noteq> i" if "y \<in> set (rd_reports w)" "rp_Status y = StatusReady" for y
    using that y0 ok by (auto simp: reports_ok_def distinct_map inj_on_def)
  have whole: "stored_whole v y \<and> rd_blobs v (rp_StorageRef y) = rd_blobs w (rp_StorageRef y)"
    if y: "y \<in> set (rd_reports w)" "rp_Status y = StatusReady" for y
  proof -
    have "stored_whole w y" using ok y by (auto simp: reports_ok_def list_all_iff report_ok_def)
    then show ?thesis using other [of "rp_ID y" "rp_Format y" "rp_TenantID y"] row_plain [OF ok y(1)] ready [OF y]
      by (auto simp: stored_whole_def)
  qed
  have rows: "list_all (report_ok v) (rd_reports v)"
    using ok whole by (auto simp: reports_ok_def list_all_iff report_ok_def v)
  have "task_ok v x" if x: "x \<in> set (xs @ ys)" for x
  proof -
    have "task_ok w x" using ok x by (auto simp: reports_ok_def list_all_iff)
    moreover have "j \<noteq> i" if "renders x = Some j" for j
      using x that ok
      by (auto simp: reports_ok_def in_render_def List.map_filter_def image_iff)
    moreover have "row_under_way v = row_under_way w" by (simp add: row_under_way_def v(1) fun_eq_iff)
    ultimately show ?thesis using other under_way_plain [OF ok] by (cases x) auto
  qed
  then show "reports_ok (xs @ ys) v" using ok rows v by (simp add: reports_ok_def list_all_iff)
  show "row_under_way v t i r" using way by (simp add: row_under_way_def v)
  show "keeps_final w v" using whole by (simp add: keeps_final_def v)
qed

section \<open>Every step keeps the invariant of reports\<close>

lemma MarkFailed_ok:
  assumes "reports_ok ts w"
  shows "reports_ok ts (snd (run_state (MarkFailed t i code) w)) \<and> keeps_final w (snd (run_state (MarkFailed t i code) w))"
proof -
  obtain x v where run: "run_state (MarkFailed t i code) w = (x, v)" by (cases "run_state (MarkFailed t i code) w")
  then have "reports_ok ts v \<and> keeps_final w v"
  proof (cases rule: MarkFailed_cases)
    case (no e)
    then show ?thesis using quiet_reports_ok assms by blast
  next
    case (yes r g)
    from yes(1) yes(2) [THEN find_report_SomeD] have
      "rp_ID (g r) = i" "rp_TenantID (g r) = t" "rp_Format (g r) = rp_Format r" "rp_Status (g r) = report_StatusFailed"
      by simp_all
    then show ?thesis using amends_ok [OF yes(5) assms yes(2)] yes(3,4) by auto
  qed
  then show ?thesis by (simp add: run)
qed

lemma claim_ok:
  assumes "run_state (ClaimForRender t i) w = (x, v)" "reports_ok ts w"
  shows "reports_ok ts v" "keeps_final w v" "x = Inr r \<Longrightarrow> reports_ok (ts @ [Rendering t i r]) v"
proof -
  have "reports_ok ts v \<and> keeps_final w v \<and> (x = Inr r \<longrightarrow> reports_ok (ts @ [Rendering t i r]) v)"
    using assms(1)
  proof (cases rule: Claim_cases)
    case (no e)
    then show ?thesis using quiet_reports_ok assms(2) by blast
  next
    case (yes q g)
    note found = yes(2) [THEN find_report_SomeD]
    from yes(1) found have g: "rp_ID (g q) = i" "rp_TenantID (g q) = t" "rp_Format (g q) = rp_Format q"
        "rp_Status (g q) = StatusRendering"
      by simp_all
    then have kept: "reports_ok ts v" "keeps_final w v" using amends_ok [OF yes(5) assms(2) yes(2)] yes(3,4) by auto
    have "g q \<in> set (rd_reports v)"
      using yes(5) found by (auto simp: amends_def own_report_def image_iff intro!: bexI [of _ q])
    then have "row_under_way v t i (g q)" using g by (auto simp: row_under_way_def own_report_def)
    moreover have "i \<notin> set (in_render ts)"
    proof
      assume "i \<in> set (in_render ts)"
      then obtain y where y: "y \<in> set ts" "renders y = Some i" by (auto simp: in_render_def List.map_filter_def)
      then have "task_ok w y" using assms(2) by (auto simp: reports_ok_def list_all_iff)
      with y(2) obtain t' r' where "row_under_way w t' i r'" by (cases y) auto
      then obtain z where "z \<in> set (rd_reports w)" "rp_ID z = i" "rp_Status z = StatusRendering \<or> rp_Status z = report_StatusFailed"
        by (auto simp: row_under_way_def own_report_def)
      then show False using only_row [OF assms(2) yes(2)] yes(3) by auto
    qed
    ultimately show ?thesis using kept yes(6) by (auto simp: reports_ok_def)
  qed
  then show "reports_ok ts v" "keeps_final w v" "x = Inr r \<Longrightarrow> reports_ok (ts @ [Rendering t i r]) v" by auto
qed

lemma upload_ok:
  assumes run: "run_state (store_artifact t i r) w = (x, v)" and ok: "reports_ok (xs @ Rendering t i r # ys) w"
  shows "keeps_final w v" "reports_ok (xs @ Failing t i e # ys) v"
    and "x = Inr (bom, out, obj) \<Longrightarrow> reports_ok (xs @ Stored t i r bom out obj # ys) v"
proof -
  note up = uploads_ok [OF store_artifact_effect(1) [OF run] ok]
  show "keeps_final w v" "reports_ok (xs @ Failing t i e # ys) v" using up(1,3) by (simp_all add: reports_ok_def)
  show "reports_ok (xs @ Stored t i r bom out obj # ys) v" if "x = Inr (bom, out, obj)"
    using up(1,2) store_artifact_effect(2) [OF run that] ok by (auto simp: reports_ok_def)
qed

lemma finish_ok:
  assumes run: "run_state (finish_render wk t i r (bom, out, obj)) w = (x, v)"
    and ok: "reports_ok (xs @ Stored t i r bom out obj # ys) w"
  shows "reports_ok (xs @ ys) v \<and> keeps_final w v"
  using run
proof (cases rule: finish_cases)
  case (no e)
  then show ?thesis using quiet_reports_ok reports_ok_less [OF ok] by blast
next
  case (yes q g c)
  note found = yes(5) [THEN find_report_SomeD]
  have task: "row_under_way w t i r" "obj = object_of (StorageKey t i (rp_Format r)) (fst out)"
      "rd_blobs w (StorageKey t i (rp_Format r)) = Some (fst out)"
    using ok by (auto simp: reports_ok_def)
  from task(1) obtain y where "y \<in> set (rd_reports w)" "rp_ID y = i" "rp_Format y = rp_Format r"
    by (auto simp: row_under_way_def own_report_def)
  then have format: "rp_Format q = rp_Format r" using only_row [OF ok yes(5)] by auto
  from yes(4) found have g: "rp_ID (g q) = i" "rp_TenantID (g q) = t" "rp_Format (g q) = rp_Format q"
    by (simp_all add: completed_def)
  have "stored_whole w (g q)"
    using task found format yes(1-4) by (simp add: stored_whole_def completed_def object_of_def)
  moreover have "i \<notin> set (in_render (xs @ ys))" using ok by (simp add: reports_ok_def)
  ultimately show ?thesis
    using amends_ok [OF yes(8) reports_ok_less [OF ok] yes(5)] yes(6,7) g by auto
qed

theorem report_step_safe:
  assumes "report_step wk y z" "reports_ok (fst (snd y)) (fst y)"
  shows "reports_ok (fst (snd z)) (fst z) \<and> keeps_final (fst y) (fst z)"
  using assms
proof (cases rule: report_step.cases)
  case (request req q w r v ts s)
  from request(4) assms request(1,2) show ?thesis
    by (elim Create_cases) (auto dest: inserts_ok quiet_reports_ok intro: reports_ok_idle(2) simp: reports_ok_idle)
next
  case (request_failed req q w e v ts s)
  from request_failed(4) assms request_failed(1,2) show ?thesis
    by (elim Create_cases) (auto dest: inserts_ok quiet_reports_ok)
next
  case (publish t i w u v xs ys s)
  then show ?thesis using assms(2) quiet_reports_ok [OF quiet_PublishRender [OF publish(3)] reports_ok_less] by auto
next
  case (publish_failed t i w e v xs ys s)
  then show ?thesis
    using assms(2) quiet_reports_ok [OF quiet_PublishRender [OF publish_failed(3)]] reports_ok_idle(1) [of "Publishing t i" "Unqueued t i"]
    by auto
next
  case (unqueue w xs t i ys s)
  then show ?thesis using assms(2) MarkFailed_ok [OF reports_ok_less, of xs "Unqueued t i" ys w] by auto
next
  case (claim t i w r v ts s)
  then show ?thesis using assms(2) claim_ok by auto
next
  case (claim_failed t i w e v ts s)
  then show ?thesis using assms(2) claim_ok(1,2) by auto
next
  case (upload t i r w bom out obj v xs ys s)
  then show ?thesis using assms(2) upload_ok(1,3) by auto
next
  case (upload_failed t i r w e v xs ys s)
  then show ?thesis using assms(2) upload_ok(1,2) by auto
next
  case (finish t i r bom out obj w u v xs ys s)
  then show ?thesis using assms(2) finish_ok by auto
next
  case (finish_failed t i r bom out obj w e v xs ys s)
  then have "reports_ok (xs @ ys) v \<and> keeps_final w v" using assms(2) finish_ok by auto
  then show ?thesis using finish_failed by (simp add: reports_ok_def)
next
  case (give_up w xs t i e ys s)
  then show ?thesis using assms(2) MarkFailed_ok [OF reports_ok_less, of xs "Failing t i e" ys w] by (auto simp: service_Fail_def)
next
  case (crash w xs x ys s)
  then show ?thesis using assms(2) by (auto dest: reports_ok_less simp: keeps_final_def)
next
  case (share w ts s t u i sreq)
  have "keeps_reports w (snd (run_state (Api_Share t u i sreq) w))"
    by (rule Share_cases [of t u i sreq w "fst (run_state (Api_Share t u i sreq) w)"])
      (auto simp: links_new_def dest: quiet_keeps_reports)
  then show ?thesis using assms(2) keeps_reports_ok share by auto
next
  case (revoke w ts s t i)
  have "keeps_reports w (snd (run_state (RevokeShareLink t i) w))"
    by (rule Revoke_cases [of t i w "fst (run_state (RevokeShareLink t i) w)"])
      (auto simp: revokes_def dest: quiet_keeps_reports)
  then show ?thesis using assms(2) keeps_reports_ok revoke by (auto simp: Api_Revoke_def run_simps split: prod.splits)
next
  case (take token w c v ts s ip ua)
  then have "keeps_reports w v" by (auto elim!: ClaimDownload_cases simp: counts_def dest: quiet_keeps_reports)
  then show ?thesis using assms(2) keeps_reports_ok take reports_ok_idle(2) by auto
next
  case (take_failed token w e v ts s)
  then have "keeps_reports w v" by (auto elim!: ClaimDownload_cases simp: counts_def dest: quiet_keeps_reports)
  then show ?thesis using assms(2) keeps_reports_ok take_failed by auto
next
  case (log_access w xs c ip ua ys s)
  have "keeps_reports w (snd (run_state (RecordShareAccess (cl_ShareLinkID c) (cl_Outcome c) ip ua) w))"
    using logs_RecordShareAccess [of "cl_ShareLinkID c" "cl_Outcome c" ip ua w] by (metis logs_def prod.collapse)
  then show ?thesis using assms(2) keeps_reports_ok log_access reports_ok_less reports_ok_idle(1) [of "Recording c ip ua" "Serving c"]
    by auto
next
  case (serve c w d v xs ys s)
  then show ?thesis using assms(2) quiet_reports_ok [OF quiet_serve [OF serve(3)] reports_ok_less] by auto
next
  case (serve_failed c w e v xs ys s)
  then show ?thesis using assms(2) quiet_reports_ok [OF quiet_serve [OF serve_failed(3)] reports_ok_less] by auto
next
  case (environment w now ts s rd ip rn os)
  have "reports_ok ts (w\<lparr>en_clock := now, en_outcomes := os, rd_render := rn, rd_ip := ip, rd_random := rd\<rparr>)"
    by (rule reports_ok_env) (use assms(2) environment in simp_all)
  then show ?thesis using environment by (simp add: keeps_final_def)
qed

end
