(* ===== verification/Share_Safety.thy ===== *)
theory Share_Safety
  imports Report_Safety
begin

text \<open>
  The invariant of share links: whatever has been granted through a link has been counted in its row, and what
  is sent is the artifact of the report the link is for; and no step grants anything through a link that is
  revoked or expired.
\<close>

section \<open>Downloads granted\<close>

text \<open>The granted claim a task holds.\<close>

fun grant_of :: "task \<Rightarrow> Claim option" where
  "grant_of (Recording c ip ua) = (if cl_Outcome c = OutcomeGranted then Some c else None)"
| "grant_of (Serving c) = Some c"
| "grant_of x = None"

definition grants :: "task list \<Rightarrow> Claim list" where
  "grants ts = List.map_filter grant_of ts"

lemma grants_simps [simp]:
  "grants [] = []" "grants (xs @ ys) = grants xs @ grants ys"
  "grants (x # ts) = (case grant_of x of None \<Rightarrow> grants ts | Some c \<Rightarrow> c # grants ts)"
  by (simp_all add: grants_def List.map_filter_def split: option.splits)

text \<open>How many downloads were granted through a link and not dropped: under way, or sent.\<close>

definition granted :: "string \<Rightarrow> task list \<Rightarrow> (Claim \<times> string) list \<Rightarrow> nat" where
  "granted i ts s = length (filter (\<lambda>c. cl_ShareLinkID c = i) (grants ts @ map fst s))"

lemma granted_idle: "grant_of x = None \<Longrightarrow> granted i (xs @ x # ys) s = granted i (xs @ ys) s"
  by (simp add: granted_def)

lemma granted_drop: "granted i (xs @ ys) s \<le> granted i (xs @ x # ys) s"
  by (simp add: granted_def split: option.splits)

section \<open>The invariant\<close>

text \<open>What was sent with a claim.\<close>

definition sent_whole :: "report_db \<Rightarrow> Claim \<times> string \<Rightarrow> bool" where
  "sent_whole w x \<longleftrightarrow> (\<exists>r \<in> set (rd_reports w). rp_ID r = cl_ReportID (fst x) \<and> rp_TenantID r = cl_TenantID (fst x)
     \<and> rp_Status r = StatusReady \<and> rp_SHA256 r = hex_encode (sha256 (snd x)))"

text \<open>The count is within the cap and covers what was granted.\<close>

definition link_ok :: "task list \<Rightarrow> (Claim \<times> string) list \<Rightarrow> Link \<Rightarrow> bool" where
  "link_ok ts s l \<longleftrightarrow> int (granted (ln_ID l) ts s) \<le> ln_DownloadCount l
     \<and> (case ln_MaxDownloads l of None \<Rightarrow> True | Some n \<Rightarrow> ln_DownloadCount l \<le> n)"

definition links_distinct :: "report_db \<Rightarrow> bool" where
  "links_distinct w \<longleftrightarrow> inj (en_uuid w) \<and> distinct (map (ln_ID \<circ> lr_Link) (rd_links w))
     \<and> distinct (map lr_TokenHash (rd_links w)) \<and> (\<forall>l \<in> lr_Link ` set (rd_links w). ln_ID l \<in> given_ids w)"

definition links_ok :: "report_sys \<Rightarrow> bool" where
  "links_ok y \<longleftrightarrow> (case y of (w, ts, s) \<Rightarrow> links_distinct w
     \<and> (\<forall>l \<in> lr_Link ` set (rd_links w). link_ok ts s l)
     \<and> (\<forall>c \<in> set (grants ts @ map fst s). claim_of_link w c) \<and> list_all (sent_whole w) s)"

lemma links_okI:
  "links_distinct w \<Longrightarrow> (\<And>l. l \<in> lr_Link ` set (rd_links w) \<Longrightarrow> link_ok ts s l)
    \<Longrightarrow> (\<And>c. c \<in> set (grants ts @ map fst s) \<Longrightarrow> claim_of_link w c) \<Longrightarrow> list_all (sent_whole w) s \<Longrightarrow> links_ok (w, ts, s)"
  unfolding links_ok_def prod.case by blast

lemma links_okD:
  assumes "links_ok (w, ts, s)"
  shows "links_distinct w" "l \<in> lr_Link ` set (rd_links w) \<Longrightarrow> link_ok ts s l"
    "c \<in> set (grants ts @ map fst s) \<Longrightarrow> claim_of_link w c" "list_all (sent_whole w) s"
  using assms unfolding links_ok_def prod.case by blast+

text \<open>A link that grants nothing any more stays so, and what was granted through it does not grow.\<close>

definition barred :: "instant \<Rightarrow> Link \<Rightarrow> bool" where
  "barred now l \<longleftrightarrow> ln_RevokedAt l \<noteq> None \<or> (\<exists>at. ln_ExpiresAt l = Some at \<and> at \<le> now)"

definition keeps_barred :: "report_sys \<Rightarrow> report_sys \<Rightarrow> bool" where
  "keeps_barred y z \<longleftrightarrow> (\<forall>l \<in> lr_Link ` set (rd_links (fst y)). barred (en_clock (fst y)) l \<longrightarrow>
     (\<exists>k \<in> lr_Link ` set (rd_links (fst z)). ln_ID k = ln_ID l \<and> barred (en_clock (fst z)) k
        \<and> granted (ln_ID l) (fst (snd z)) (snd (snd z)) \<le> granted (ln_ID l) (fst (snd y)) (snd (snd y))))"

section \<open>Steps that leave the links\<close>

text \<open>Fewer grants, more reports, the same links.\<close>

lemma same_links_ok:
  assumes ok: "links_ok (w, ts, s)" and rows: "rd_links v = rd_links w" "en_uuid v = en_uuid w" "en_next w \<le> en_next v"
    and final: "keeps_final w v" and clock: "en_clock w \<le> en_clock v"
    and less: "\<And>i. granted i us s' \<le> granted i ts s" "set (grants us @ map fst s') \<subseteq> set (grants ts @ map fst s)"
    and sent: "list_all (sent_whole v) s' \<or> s' = s"
  shows "links_ok (v, us, s') \<and> keeps_barred (w, ts, s) (v, us, s')"
proof -
  have "given_ids w \<subseteq> given_ids v" using rows by (auto simp: given_ids_def)
  then have "links_distinct v" using ok rows by (auto simp: links_ok_def links_distinct_def)
  moreover have "link_ok us s' l" if "link_ok ts s l" for l
    using that less(1) [of "ln_ID l"] by (simp add: link_ok_def)
  moreover have "claim_of_link v = claim_of_link w" by (simp add: claim_of_link_def rows fun_eq_iff)
  moreover have "sent_whole v x" if "sent_whole w x" for x
    using that final unfolding sent_whole_def keeps_final_def by blast
  ultimately have "links_ok (v, us, s')"
    using links_okD [OF ok] less(2) sent by (intro links_okI) (auto simp only: rows(1) list_all_iff subset_iff)
  moreover have "barred (en_clock v) l" if "barred (en_clock w) l" for l
    using that clock by (auto simp: barred_def)
  then have "keeps_barred (w, ts, s) (v, us, s')" using less(1) by (auto simp: keeps_barred_def rows)
  ultimately show ?thesis ..
qed

text \<open>One row changes, to one with the same key.\<close>

lemma links_ok_map:
  assumes ok: "links_ok (w, ts, s)" and rows: "rd_links v = map (\<lambda>x. x\<lparr>lr_Link := f x\<rparr>) (rd_links w)"
    and kept: "keeps_reports w v"
    and same: "\<And>x. ln_ID (f x) = ln_ID (lr_Link x)" "\<And>x. ln_TenantID (f x) = ln_TenantID (lr_Link x)"
      "\<And>x. ln_ReportID (f x) = ln_ReportID (lr_Link x)"
    and link: "\<And>x. x \<in> set (rd_links w) \<Longrightarrow> link_ok us s (f x)"
    and bar: "\<And>x. x \<in> set (rd_links w) \<Longrightarrow> barred (en_clock w) (lr_Link x)
      \<Longrightarrow> barred (en_clock w) (f x) \<and> granted (ln_ID (lr_Link x)) us s \<le> granted (ln_ID (lr_Link x)) ts s"
    and claims: "\<And>c. c \<in> set (grants us) \<Longrightarrow> claim_of_link w c"
  shows "links_ok (v, us, s) \<and> keeps_barred (w, ts, s) (v, us, s)"
proof -
  have v: "rd_reports v = rd_reports w" "en_uuid v = en_uuid w" "given_ids w \<subseteq> given_ids v" "en_clock v = en_clock w"
    using kept by (auto simp: keeps_reports_def given_ids_def)
  have "map (ln_ID \<circ> lr_Link) (rd_links v) = map (ln_ID \<circ> lr_Link) (rd_links w)"
      "map lr_TokenHash (rd_links v) = map lr_TokenHash (rd_links w)"
    by (simp_all add: rows same)
  then have "distinct (map (ln_ID \<circ> lr_Link) (rd_links v))" "distinct (map lr_TokenHash (rd_links v))"
    using ok unfolding links_ok_def links_distinct_def by simp_all
  moreover have "\<forall>l \<in> lr_Link ` set (rd_links v). ln_ID l \<in> given_ids v"
    using ok v(3) by (auto simp: links_ok_def links_distinct_def rows same)
  ultimately have "links_distinct v" using ok v(2) unfolding links_ok_def links_distinct_def by simp
  moreover have "claim_of_link v c" if "claim_of_link w c" for c
    using that by (auto simp: claim_of_link_def rows same)
  moreover have "sent_whole v = sent_whole w" by (simp add: sent_whole_def v fun_eq_iff)
  moreover have "link_ok us s l" if "l \<in> lr_Link ` set (rd_links v)" for l using link that by (auto simp: rows)
  moreover have "claim_of_link w c" if "c \<in> set (grants us @ map fst s)" for c
    using that claims links_okD(3) [OF ok, of c] by auto
  ultimately have "links_ok (v, us, s)" using links_okD(4) [OF ok] by (intro links_okI) simp_all
  moreover have "keeps_barred (w, ts, s) (v, us, s)"
    using bar same by (auto simp: keeps_barred_def rows v(4))
  ultimately show ?thesis ..
qed

lemma revokes_ok:
  assumes ok: "links_ok (w, ts, s)" and revokes: "revokes t i w v"
  shows "links_ok (v, ts, s) \<and> keeps_barred (w, ts, s) (v, ts, s)"
proof (rule links_ok_map [OF ok])
  define f where "f x = lr_Link (if own_link t i x then revoked_row (en_clock w) x else x)" for x
  show "rd_links v = map (\<lambda>x. x\<lparr>lr_Link := f x\<rparr>) (rd_links w)" "keeps_reports w v"
    using revokes by (auto simp: revokes_def f_def revoked_row_def)
  show "ln_ID (f x) = ln_ID (lr_Link x)" "ln_TenantID (f x) = ln_TenantID (lr_Link x)"
      "ln_ReportID (f x) = ln_ReportID (lr_Link x)" for x
    by (simp_all add: f_def revoked_row_def)
  show "link_ok ts s (f x)" if "x \<in> set (rd_links w)" for x
    using ok that by (auto simp: links_ok_def f_def revoked_row_def link_ok_def split: option.splits)
  show "barred (en_clock w) (f x) \<and> granted (ln_ID (lr_Link x)) ts s \<le> granted (ln_ID (lr_Link x)) ts s"
    if "barred (en_clock w) (lr_Link x)" for x
    using that by (auto simp: f_def revoked_row_def barred_def coalesce_def split: option.splits)
  show "claim_of_link w c" if "c \<in> set (grants ts)" for c using ok that by (auto simp: links_ok_def)
qed

text \<open>A granted claim counts one for the one link with that hash.\<close>

lemma find_claimable:
  assumes "links_distinct w" "find (claimable h now) (rd_links w) = Some l" "x \<in> set (rd_links w)"
  shows "claimable h now x \<longleftrightarrow> x = l" "ln_ID (lr_Link x) = ln_ID (lr_Link l) \<longleftrightarrow> x = l"
proof -
  have l: "l \<in> set (rd_links w)" "claimable h now l" using assms(2) by (auto simp: find_Some_iff in_set_conv_nth)
  show "claimable h now x \<longleftrightarrow> x = l"
    using assms(1,3) l by (auto simp: links_distinct_def distinct_map inj_on_def claimable_def)
  show "ln_ID (lr_Link x) = ln_ID (lr_Link l) \<longleftrightarrow> x = l"
    using assms(1,3) l by (auto simp: links_distinct_def distinct_map inj_on_def)
qed

lemma counts_ok:
  assumes ok: "links_ok (w, ts, s)" and counts: "counts h w v"
    and find: "find (claimable h (en_clock w)) (rd_links w) = Some l"
    and us: "us = ts \<or> us = ts @ [Recording (claim_of (counted (lr_Link l)) OutcomeGranted) ip ua]"
  shows "links_ok (v, us, s) \<and> keeps_barred (w, ts, s) (v, us, s)"
proof (rule links_ok_map [OF ok])
  define f where "f x = (if claimable h (en_clock w) x then counted (lr_Link x) else lr_Link x)" for x
  have d: "links_distinct w" using ok by (simp add: links_ok_def)
  have l: "l \<in> set (rd_links w)" "claimable h (en_clock w) l" using find by (auto simp: find_Some_iff in_set_conv_nth)
  show "rd_links v = map (\<lambda>x. x\<lparr>lr_Link := f x\<rparr>) (rd_links w)" "keeps_reports w v"
    using counts by (auto simp: counts_def f_def)
  show "ln_ID (f x) = ln_ID (lr_Link x)" "ln_TenantID (f x) = ln_TenantID (lr_Link x)"
      "ln_ReportID (f x) = ln_ReportID (lr_Link x)" for x
    by (simp_all add: f_def counted_def)
  have more: "granted j us s \<le> granted j ts s + (if j = ln_ID (lr_Link l) then 1 else 0)" for j
    using us by (auto simp: granted_def claim_of_def counted_def)
  show "link_ok us s (f x)" if x: "x \<in> set (rd_links w)" for x
  proof -
    have "link_ok ts s (lr_Link x)" using ok x by (auto simp: links_ok_def)
    then show ?thesis using more [of "ln_ID (lr_Link x)"] find_claimable [OF d find x] l(2)
      by (auto simp: link_ok_def f_def counted_def claimable_def split: option.splits)
  qed
  show "barred (en_clock w) (f x) \<and> granted (ln_ID (lr_Link x)) us s \<le> granted (ln_ID (lr_Link x)) ts s"
    if x: "x \<in> set (rd_links w)" "barred (en_clock w) (lr_Link x)" for x
  proof -
    have "x \<noteq> l" using l(2) x(2) by (auto simp: barred_def claimable_def)
    then show ?thesis using more [of "ln_ID (lr_Link x)"] find_claimable [OF d find x(1)] x(2) by (auto simp: f_def)
  qed
  show "claim_of_link w c" if c: "c \<in> set (grants us)" for c
  proof -
    have "claim_of_link w (claim_of (counted (lr_Link l)) OutcomeGranted)"
      using l(1) by (auto simp: claim_of_link_def claim_of_def counted_def)
    then show ?thesis using c us ok by (auto simp: links_ok_def split: if_splits)
  qed
qed

text \<open>A new link: nothing was granted through it yet.\<close>

lemma links_new_ok:
  assumes ok: "links_ok (w, ts, s)" and new: "links_new t i u opts h w v"
  shows "links_ok (v, ts, s) \<and> keeps_barred (w, ts, s) (v, ts, s)"
proof -
  have v: "rd_reports v = rd_reports w" "en_uuid v = en_uuid w" "en_next v = Suc (en_next w)" "en_clock v = en_clock w"
      "rd_links v = rd_links w @ [\<lparr>lr_Link = new_link t i u opts w, lr_TokenHash = h\<rparr>]"
      "list_all (\<lambda>l. lr_TokenHash l \<noteq> h) (rd_links w)" "cap_fits (so_MaxDownloads opts)"
    using new by (simp_all add: links_new_def keeps_reports_def)
  have id: "ln_ID (new_link t i u opts w) = en_uuid w (en_next w)" by (simp add: new_link_def fresh_id_def)
  have d: "links_distinct w" using ok by (simp add: links_ok_def)
  have fresh: "en_uuid w (en_next w) \<notin> given_ids w"
    using d by (auto simp: given_ids_def links_distinct_def dest: injD)
  have used: "given_ids v = insert (en_uuid w (en_next w)) (given_ids w)"
    using v by (auto simp: given_ids_def lessThan_Suc)
  have old: "ln_ID k \<noteq> en_uuid w (en_next w)" if "k \<in> lr_Link ` set (rd_links w)" for k
    using d that fresh by (auto simp: links_distinct_def)
  have none: "granted (en_uuid w (en_next w)) ts s = 0"
  proof -
    have "cl_ShareLinkID c \<noteq> en_uuid w (en_next w)" if "c \<in> set (grants ts @ map fst s)" for c
      using links_okD(3) [OF ok that] old unfolding claim_of_link_def by metis
    then show ?thesis by (simp add: granted_def filter_empty_conv)
  qed
  have "links_distinct v"
    using d v(1-6) id used old unfolding links_distinct_def
    by (auto simp: list_all_iff simp flip: id) (metis image_eqI)
  moreover have "link_ok ts s (new_link t i u opts w)"
    using none id v(7) by (auto simp: link_ok_def new_link_def cap_fits_def split: option.splits)
  moreover have "claim_of_link v c" if "claim_of_link w c" for c using that by (auto simp: claim_of_link_def v(5))
  moreover have "sent_whole v = sent_whole w" by (simp add: sent_whole_def v fun_eq_iff)
  moreover have "lr_Link ` set (rd_links v) = insert (new_link t i u opts w) (lr_Link ` set (rd_links w))" by (simp add: v(5))
  ultimately have "links_ok (v, ts, s)" using links_okD [OF ok] by (intro links_okI) auto
  then show ?thesis by (auto simp: keeps_barred_def v(4,5))
qed

section \<open>Every step keeps the invariant of links\<close>

definition links_same :: "report_db \<Rightarrow> report_db \<Rightarrow> bool" where
  "links_same w v \<longleftrightarrow> rd_links v = rd_links w \<and> en_uuid v = en_uuid w \<and> en_next w \<le> en_next v \<and> en_clock v = en_clock w"

lemma links_same_changes:
  "quiet w v \<Longrightarrow> links_same w v" "amends t i g w v \<Longrightarrow> links_same w v" "inserts q w v \<Longrightarrow> links_same w v"
  "uploads key w v \<Longrightarrow> links_same w v" "logs w v \<Longrightarrow> links_same w v"
  by (simp_all add: links_same_def quiet_def keeps_links_def amends_def inserts_def uploads_def logs_def keeps_reports_def)

lemma links_same_runs:
  "run_state (Report_Create q) w = (x, v) \<Longrightarrow> links_same w v"
  "run_state (PublishRender t i) w = (y, v) \<Longrightarrow> links_same w v"
  "links_same w (snd (run_state (MarkFailed t i code) w))"
  "run_state (ClaimForRender t i) w = (x, v) \<Longrightarrow> links_same w v"
  "run_state (store_artifact t i r) w = (st, v) \<Longrightarrow> links_same w v"
  "run_state (finish_render wk t i r (bom, out, obj)) w = (y, v) \<Longrightarrow> links_same w v"
  "links_same w (snd (run_state (RecordShareAccess j oc ip ua) w))"
  "run_state (serve_shared c) w = (z, v) \<Longrightarrow> links_same w v"
proof -
  show "run_state (Report_Create q) w = (x, v) \<Longrightarrow> links_same w v"
    by (erule Create_cases) (auto dest: links_same_changes)
  show "run_state (PublishRender t i) w = (y, v) \<Longrightarrow> links_same w v"
    by (auto dest: quiet_PublishRender links_same_changes)
  show "links_same w (snd (run_state (MarkFailed t i code) w))"
    by (rule MarkFailed_cases [of t i code w "fst (run_state (MarkFailed t i code) w)"]) (auto dest: links_same_changes)
  show "run_state (ClaimForRender t i) w = (x, v) \<Longrightarrow> links_same w v"
    by (erule Claim_cases) (auto dest: links_same_changes)
  show "run_state (store_artifact t i r) w = (st, v) \<Longrightarrow> links_same w v"
    by (auto dest: store_artifact_effect(1) links_same_changes)
  show "run_state (finish_render wk t i r (bom, out, obj)) w = (y, v) \<Longrightarrow> links_same w v"
    by (erule finish_cases) (auto dest: links_same_changes)
  show "links_same w (snd (run_state (RecordShareAccess j oc ip ua) w))"
    using logs_RecordShareAccess [of j oc ip ua w] links_same_changes(5) by (metis prod.collapse)
  show "run_state (serve_shared c) w = (z, v) \<Longrightarrow> links_same w v"
    by (auto dest: quiet_serve links_same_changes)
qed

lemma links_step:
  assumes "y = (w, ts, s)" "z = (v, us, s)" "links_ok y" "keeps_final (fst y) (fst z)" "links_same w v"
    and "\<And>i. granted i us s \<le> granted i ts s" "set (grants us) \<subseteq> set (grants ts)"
  shows "links_ok z \<and> keeps_barred y z"
  unfolding assms(1,2) using assms by (intro same_links_ok) (auto simp: links_same_def)

theorem share_step_safe:
  assumes step: "report_step wk y z" and safe: "reports_ok (fst (snd y)) (fst y)" and ok: "links_ok y"
  shows "links_ok z \<and> keeps_barred y z"
proof -
  have final: "keeps_final (fst y) (fst z)" using report_step_safe [OF step safe] by blast
  show ?thesis
    using step
  proof (cases rule: report_step.cases)
    case (request req q w r v ts s)
    show ?thesis by (rule links_step [OF request(1,2) ok final links_same_runs(1) [OF request(4)]]) (auto simp: granted_def split: option.splits)
  next
    case (request_failed req q w e v ts s)
    show ?thesis by (rule links_step [OF request_failed(1,2) ok final links_same_runs(1) [OF request_failed(4)]]) (auto simp: granted_def split: option.splits)
  next
    case (publish t i w u v xs ys s)
    show ?thesis by (rule links_step [OF publish(1,2) ok final links_same_runs(2) [OF publish(3)]]) (auto simp: granted_def split: option.splits)
  next
    case (publish_failed t i w e v xs ys s)
    show ?thesis by (rule links_step [OF publish_failed(1,2) ok final links_same_runs(2) [OF publish_failed(3)]]) (auto simp: granted_def split: option.splits)
  next
    case (unqueue w xs t i ys s)
    show ?thesis by (rule links_step [OF unqueue(1,2) ok final links_same_runs(3)]) (auto simp: granted_def split: option.splits)
  next
    case (claim t i w r v ts s)
    show ?thesis by (rule links_step [OF claim(1,2) ok final links_same_runs(4) [OF claim(3)]]) (auto simp: granted_def split: option.splits)
  next
    case (claim_failed t i w e v ts s)
    show ?thesis by (rule links_step [OF claim_failed(1,2) ok final links_same_runs(4) [OF claim_failed(3)]]) (auto simp: granted_def split: option.splits)
  next
    case (upload t i r w bom out obj v xs ys s)
    show ?thesis by (rule links_step [OF upload(1,2) ok final links_same_runs(5) [OF upload(3)]]) (auto simp: granted_def split: option.splits)
  next
    case (upload_failed t i r w e v xs ys s)
    show ?thesis by (rule links_step [OF upload_failed(1,2) ok final links_same_runs(5) [OF upload_failed(3)]]) (auto simp: granted_def split: option.splits)
  next
    case (finish t i r bom out obj w u v xs ys s)
    show ?thesis by (rule links_step [OF finish(1,2) ok final links_same_runs(6) [OF finish(3)]]) (auto simp: granted_def split: option.splits)
  next
    case (finish_failed t i r bom out obj w e v xs ys s)
    show ?thesis by (rule links_step [OF finish_failed(1,2) ok final links_same_runs(6) [OF finish_failed(3)]]) (auto simp: granted_def split: option.splits)
  next
    case (give_up w xs t i e ys s)
    show ?thesis by (rule links_step [OF give_up(1) give_up(2) [unfolded service_Fail_def] ok final links_same_runs(3)]) (auto simp: granted_def split: option.splits)
  next
    case (crash w xs x ys s)
    show ?thesis by (rule links_step [OF crash(1,2) ok final links_same_changes(1) [OF quiet_refl(1)]]) (auto simp: granted_def split: option.splits)
  next
    case (share w ts s t u i sreq)
    obtain x v where run: "run_state (Api_Share t u i sreq) w = (x, v)" by (cases "run_state (Api_Share t u i sreq) w")
    then have "links_ok (v, ts, s) \<and> keeps_barred (w, ts, s) (v, ts, s)"
    proof (cases rule: Share_cases)
      case no
      show ?thesis using links_step [OF share(1,2) ok final] links_same_changes(1) [OF no] run share by simp
    next
      case (yes h opts)
      then show ?thesis using links_new_ok ok share by blast
    qed
    then show ?thesis using share run by simp
  next
    case (revoke w ts s t i)
    obtain x v where run: "run_state (RevokeShareLink t i) w = (x, v)" by (cases "run_state (RevokeShareLink t i) w")
    have v: "snd (run_state (Api_Revoke t i) w) = v" using run by (simp add: Api_Revoke_def run_simps)
    from run have "links_ok (v, ts, s) \<and> keeps_barred (w, ts, s) (v, ts, s)"
    proof (cases rule: Revoke_cases)
      case no
      show ?thesis using links_step [OF revoke(1,2) ok final] links_same_changes(1) [OF no] v revoke by simp
    next
      case yes
      then show ?thesis using revokes_ok ok revoke by blast
    qed
    then show ?thesis using revoke v by simp
  next
    case (take token w c v ts s ip ua)
    from take(3) have "links_ok (v, ts @ [Recording c ip ua], s) \<and> keeps_barred (w, ts, s) (v, ts @ [Recording c ip ua], s)"
    proof (cases rule: ClaimDownload_cases)
      case no
      then have "links_ok z \<and> keeps_barred y z"
        using links_step [OF take(1,2) ok final links_same_changes(1) [OF no(1)]] by (simp add: granted_def)
      then show ?thesis using take by simp
    next
      case (yes l)
      then show ?thesis using counts_ok [OF _ yes(2,1)] ok take by auto
    qed
    then show ?thesis using take by simp
  next
    case (take_failed token w e v ts s)
    from take_failed(3) have "links_ok (v, ts, s) \<and> keeps_barred (w, ts, s) (v, ts, s)"
    proof (cases rule: ClaimDownload_cases)
      case no
      have "links_ok z \<and> keeps_barred y z"
        using links_step [OF take_failed(1,2) ok final links_same_changes(1) [OF no(1)]] by simp
      then show ?thesis using take_failed by simp
    next
      case (yes l)
      then show ?thesis using counts_ok [OF _ yes(2,1)] ok take_failed by auto
    qed
    then show ?thesis using take_failed by simp
  next
    case (log_access w xs c ip ua ys s)
    show ?thesis by (rule links_step [OF log_access(1,2) ok final links_same_runs(7)]) (auto simp: granted_def split: option.splits)
  next
    case (serve c w d v xs ys s)
    then obtain r where r: "find_report (cl_TenantID c) (cl_ReportID c) w = Some r" "rp_Status r = StatusReady"
        "rd_blobs w (rp_StorageRef r) = Some (snd d)"
      using serve_Inr by blast
    note found = r(1) [THEN find_report_SomeD]
    then have "stored_whole w r" using safe serve(1) r(2) by (auto simp: reports_ok_def list_all_iff report_ok_def)
    then have "sent_whole v (c, snd d)"
      using found r final serve(1,2) unfolding sent_whole_def keeps_final_def by (auto simp: stored_whole_def)
    moreover have "sent_whole v x" if "x \<in> set s" for x
      using that ok final serve(1,2) unfolding links_ok_def keeps_final_def sent_whole_def
      by (auto simp: list_all_iff) blast
    ultimately have sent: "list_all (sent_whole v) (s @ [(c, snd d)])" by (auto simp: list_all_iff)
    have "links_ok (v, xs @ ys, s @ [(c, snd d)]) \<and> keeps_barred (w, xs @ Serving c # ys, s) (v, xs @ ys, s @ [(c, snd d)])"
      using sent ok final serve links_same_runs(8) [OF serve(3)]
      by (intro same_links_ok) (auto simp: granted_def links_same_def)
    then show ?thesis using serve by simp
  next
    case (serve_failed c w e v xs ys s)
    show ?thesis by (rule links_step [OF serve_failed(1,2) ok final links_same_runs(8) [OF serve_failed(3)]]) (auto simp: granted_def split: option.splits)
  next
    case (environment w now ts s rd ip rn os)
    show ?thesis unfolding environment(1,2) using environment ok final by (intro same_links_ok) auto
  qed
qed

end
