(* ===== verification/Report_Properties.thy ===== *)
theory Report_Properties
  imports Share_Safety
begin

text \<open>
  What the report service promises: a share link honours its cap and its end whatever is interleaved, the two
  places that judge a link agree, a ready report is final and whole, every render settles its row, and bytes
  leave only by a role or by a granted claim.
\<close>

section \<open>Reachable states\<close>

definition report_start :: "report_sys \<Rightarrow> bool" where
  "report_start y \<longleftrightarrow> inj (en_uuid (fst y)) \<and> (\<forall>n. plain_name (en_uuid (fst y) n)) \<and> rd_reports (fst y) = []
     \<and> rd_links (fst y) = [] \<and> snd y = ([], [])"

definition system_ok :: "report_sys \<Rightarrow> bool" where
  "system_ok y \<longleftrightarrow> reports_ok (fst (snd y)) (fst y) \<and> links_ok y"

lemma start_ok: "report_start y \<Longrightarrow> system_ok y"
  by (cases y) (auto simp: report_start_def system_ok_def reports_ok_def links_ok_def links_distinct_def)

lemma keeps_barred_trans:
  assumes "keeps_barred x y" "keeps_barred y z"
  shows "keeps_barred x z"
  unfolding keeps_barred_def
proof (intro ballI impI)
  fix l
  assume "l \<in> lr_Link ` set (rd_links (fst x))" "barred (en_clock (fst x)) l"
  with assms(1) obtain k where k: "k \<in> lr_Link ` set (rd_links (fst y))" "ln_ID k = ln_ID l" "barred (en_clock (fst y)) k"
      "granted (ln_ID l) (fst (snd y)) (snd (snd y)) \<le> granted (ln_ID l) (fst (snd x)) (snd (snd x))"
    unfolding keeps_barred_def by blast
  with assms(2) obtain j where "j \<in> lr_Link ` set (rd_links (fst z))" "ln_ID j = ln_ID k" "barred (en_clock (fst z)) j"
      "granted (ln_ID k) (fst (snd z)) (snd (snd z)) \<le> granted (ln_ID k) (fst (snd y)) (snd (snd y))"
    unfolding keeps_barred_def by blast
  with k show "\<exists>k \<in> lr_Link ` set (rd_links (fst z)). ln_ID k = ln_ID l \<and> barred (en_clock (fst z)) k
      \<and> granted (ln_ID l) (fst (snd z)) (snd (snd z)) \<le> granted (ln_ID l) (fst (snd x)) (snd (snd x))"
    by (intro bexI [of _ j]) auto
qed

lemma keeps_refl [simp]: "keeps_final w w" "keeps_barred y y"
  by (auto simp: keeps_final_def keeps_barred_def)

lemma step_ok: "report_step wk y z \<Longrightarrow> system_ok y \<Longrightarrow> system_ok z \<and> keeps_final (fst y) (fst z) \<and> keeps_barred y z"
  using report_step_safe [of wk y z] share_step_safe [of wk y z] by (simp add: system_ok_def)

lemma reaches_ok:
  assumes "report_reaches wk y z" "system_ok y"
  shows "system_ok z \<and> keeps_final (fst y) (fst z) \<and> keeps_barred y z"
  using assms(1) unfolding report_reaches_def
proof (induction rule: rtranclp_induct)
  case base
  then show ?case using assms(2) by simp
next
  case (step x z)
  then show ?case using step_ok [OF step.hyps(2)] keeps_final_trans keeps_barred_trans by blast
qed

section \<open>Share links\<close>

text \<open>
  C18. A share link honours its cap in every reachable state, whatever was interleaved: the downloads granted
  through it, sent or under way, are at most its cap, and every artifact sent through it is that of the
  report the link was made for, in the tenant that made it, with the digest the report's row records.
\<close>

theorem share_link_honours_its_cap:
  assumes "report_start y" "report_reaches wk y (w, ts, s)" "x \<in> set (rd_links w)"
  shows "(case ln_MaxDownloads (lr_Link x) of None \<Rightarrow> True | Some n \<Rightarrow> int (granted (ln_ID (lr_Link x)) ts s) \<le> n)
    \<and> list_all (\<lambda>(c, body). cl_ShareLinkID c \<noteq> ln_ID (lr_Link x)
        \<or> cl_TenantID c = ln_TenantID (lr_Link x) \<and> cl_ReportID c = ln_ReportID (lr_Link x)
          \<and> list_ex (\<lambda>r. own_report (ln_TenantID (lr_Link x)) (ln_ReportID (lr_Link x)) r \<and> rp_Status r = StatusReady
               \<and> rp_SHA256 r = hex_encode (sha256 body)) (rd_reports w)) s"
proof
  have ok: "links_ok (w, ts, s)" using reaches_ok [OF assms(2) start_ok [OF assms(1)]] by (simp add: system_ok_def)
  have "link_ok ts s (lr_Link x)" using links_okD(2) [OF ok] assms(3) by simp
  then show "case ln_MaxDownloads (lr_Link x) of None \<Rightarrow> True | Some n \<Rightarrow> int (granted (ln_ID (lr_Link x)) ts s) \<le> n"
    by (auto simp: link_ok_def split: option.splits)
  have same: "cl_TenantID c = ln_TenantID (lr_Link x) \<and> cl_ReportID c = ln_ReportID (lr_Link x)"
    if "(c, body) \<in> set s" "cl_ShareLinkID c = ln_ID (lr_Link x)" for c body
  proof -
    have "c \<in> set (grants ts @ map fst s)" using that(1) by force
    from links_okD(3) [OF ok this] obtain z where z: "z \<in> set (rd_links w)" "cl_ShareLinkID c = ln_ID (lr_Link z)"
        "cl_TenantID c = ln_TenantID (lr_Link z)" "cl_ReportID c = ln_ReportID (lr_Link z)"
      by (auto simp: claim_of_link_def)
    then have "z = x" using that(2) assms(3) links_okD(1) [OF ok] by (auto simp: links_distinct_def distinct_map inj_on_def)
    then show ?thesis using z by simp
  qed
  show "list_all (\<lambda>(c, body). cl_ShareLinkID c \<noteq> ln_ID (lr_Link x)
      \<or> cl_TenantID c = ln_TenantID (lr_Link x) \<and> cl_ReportID c = ln_ReportID (lr_Link x)
        \<and> list_ex (\<lambda>r. own_report (ln_TenantID (lr_Link x)) (ln_ReportID (lr_Link x)) r \<and> rp_Status r = StatusReady
             \<and> rp_SHA256 r = hex_encode (sha256 body)) (rd_reports w)) s"
    using links_okD(4) [OF ok] same
    by (fastforce simp: list_all_iff list_ex_iff sent_whole_def own_report_def)
qed

text \<open>
  C19. A link that has been revoked, or whose expiry has come, grants nothing any more: from then on, in every
  continuation, the downloads granted through it and not yet dropped only get fewer.
\<close>

theorem barred_link_grants_nothing_more:
  assumes "report_start y" "report_reaches wk y (w, ts, s)" "report_reaches wk (w, ts, s) (w', ts', s')"
    and "x \<in> set (rd_links w)" "barred (en_clock w) (lr_Link x)"
  shows "granted (ln_ID (lr_Link x)) ts' s' \<le> granted (ln_ID (lr_Link x)) ts s"
proof -
  have "system_ok (w, ts, s)" using reaches_ok [OF assms(2) start_ok [OF assms(1)]] by blast
  from reaches_ok [OF assms(3) this] have "keeps_barred (w, ts, s) (w', ts', s')" by blast
  then show ?thesis using assms(4,5) by (auto simp: keeps_barred_def)
qed

lemma find_skip: "\<forall>z \<in> set xs. \<not> P z \<Longrightarrow> find P (xs @ ys) = find P ys"
  by (induction xs) simp_all

text \<open>
  C20. The database function that decides a download and \<open>Classify\<close>, which the owner of a link is shown, agree:
  for the one link of a token, the outcome of the claim is what \<open>Classify\<close> says at that instant; a granted
  claim counts one download of that link and changes no other, and a refused one changes nothing.
\<close>

theorem claim_agrees_with_Classify:
  assumes "rd_links w = xs @ x # ys" "list_all (\<lambda>z. lr_TokenHash z \<noteq> lr_TokenHash x) (xs @ ys)"
    and "ln_DownloadCount (lr_Link x) < 2 ^ 31 - 1"
  shows "\<exists>c. claim_share_download (lr_TokenHash x) w = Inr (Some c,
      w\<lparr>rd_links := xs @ x\<lparr>lr_Link := (if Link_Classify (lr_Link x) (en_clock w) = OutcomeGranted
         then counted (lr_Link x) else lr_Link x)\<rparr> # ys\<rparr>)
    \<and> cl_Outcome c = Link_Classify (lr_Link x) (en_clock w) \<and> cl_ShareLinkID c = ln_ID (lr_Link x)
    \<and> cl_TenantID c = ln_TenantID (lr_Link x) \<and> cl_ReportID c = ln_ReportID (lr_Link x)"
proof -
  define h now where "h = lr_TokenHash x" and "now = en_clock w"
  have others: "\<not> claimable h now z" "lr_TokenHash z \<noteq> h" if "z \<in> set (xs @ ys)" for z
    using assms(2) that by (auto simp: claimable_def h_def list_all_iff)
  have iff: "claimable h now x \<longleftrightarrow> Link_Classify (lr_Link x) now = OutcomeGranted"
    by (auto simp: claimable_def h_def Link_Classify_def not_le split: option.splits)
  have none: "find (claimable h now) (xs @ zs) = find (claimable h now) zs"
      "find (\<lambda>l. lr_TokenHash l = h) (xs @ zs) = find (\<lambda>l. lr_TokenHash l = h) zs" for zs
    using others by (simp_all add: find_skip)
  have only: "map (\<lambda>z. if claimable h now z then z\<lparr>lr_Link := counted (lr_Link z)\<rparr> else z) zs = zs"
    if "set zs \<subseteq> set (xs @ ys)" for zs
    using others(1) that by (intro map_idI) auto
  show ?thesis
  proof (cases "claimable h now x")
    case True
    have "find (claimable h now) (rd_links w) = Some x" using True none by (simp add: assms(1))
    then show ?thesis using assms(3) True iff only [of xs] only [of ys]
      by (simp add: claim_share_download_def flip: h_def now_def) (simp add: assms(1) claim_of_def counted_def)
  next
    case False
    have "find (claimable h now) (rd_links w) = None"
      using False others(1) by (auto simp: assms(1) find_None_iff)
    moreover have "find (\<lambda>l. lr_TokenHash l = h) (rd_links w) = Some x"
      using none by (simp add: assms(1) h_def)
    moreover have "w\<lparr>rd_links := xs @ x # ys\<rparr> = w" by (simp flip: assms(1))
    moreover have "(if ln_RevokedAt (lr_Link x) \<noteq> None then OutcomeRevoked
        else if (case ln_ExpiresAt (lr_Link x) of None \<Rightarrow> False | Some at \<Rightarrow> at \<le> now) then OutcomeExpired
        else OutcomeExhausted) = Link_Classify (lr_Link x) now"
      using False iff by (auto simp: Link_Classify_def not_less split: option.splits if_splits)
    ultimately show ?thesis using False iff
      unfolding claim_share_download_def h_def now_def by (simp add: claim_of_def)
  qed
qed

section \<open>Reports\<close>

text \<open>
  C21. A ready report is whole and final: its artifact is in the object store under the key of its tenant, id and
  format, with the digest and the size the row records, and in every continuation the row and the artifact
  stay as they are. A failed report is final too.
\<close>

theorem ready_report_is_whole_and_final:
  assumes "report_start y" "report_reaches wk y (w, ts, s)" "report_reaches wk (w, ts, s) (w', ts', s')"
    and "r \<in> set (rd_reports w)" "rp_Status r = StatusReady \<or> rp_Status r = report_StatusFailed"
  shows "r \<in> set (rd_reports w') \<and> (rp_Status r = report_StatusFailed
    \<or> (\<exists>body. rp_StorageRef r = StorageKey (rp_TenantID r) (rp_ID r) (rp_Format r)
         \<and> rd_blobs w (rp_StorageRef r) = Some body \<and> rd_blobs w' (rp_StorageRef r) = Some body
         \<and> rp_SHA256 r = hex_encode (sha256 body) \<and> rp_SizeBytes r = int (length body)))"
proof -
  have ok: "system_ok (w, ts, s)" using reaches_ok [OF assms(2) start_ok [OF assms(1)]] by blast
  from reaches_ok [OF assms(3) this] have "keeps_final w w'" by simp
  moreover have "rp_Status r = StatusReady \<Longrightarrow> stored_whole w r"
    using ok assms(4) by (auto simp: system_ok_def reports_ok_def list_all_iff report_ok_def)
  ultimately show ?thesis using assms(4,5) unfolding keeps_final_def stored_whole_def by metis
qed

end
