(* ===== verification/Report_Outcomes.thy ===== *)
theory Report_Outcomes
  imports Report_Laws
begin

text \<open>
  What single requests and renders do: accepted requests can be rendered, a render settles its row on every
  branch, bytes leave by a role or a granted claim only, and a claim is audited under the tenant of the link.
\<close>

section \<open>Requests\<close>

lemma ParseBOMType_Inr: "ParseBOMType s = Inr t \<Longrightarrow> t = s \<and> List.member AllBOMTypes s"
  by (auto simp: ParseBOMType_def AllBOMTypes_def split: if_splits option.splits)

lemma parseLevel_Inr: "parseLevel s = Inr l \<Longrightarrow> level_Valid l"
  by (auto simp: parseLevel_def level_Valid_def split: if_splits)

lemma parseFormat_Inr: "parseFormat s = Inr f \<Longrightarrow> f = s \<and> List.member report_formats f"
  by (auto simp: parseFormat_def split: if_splits)

lemma parseStandard_Inr:
  "parseStandard s f = Inr x \<Longrightarrow> List.member [''SPDX'', ''CycloneDX'', ''native''] x
     \<and> (case map_of implied_standard f of None \<Rightarrow> s = [] \<and> x = ''native'' \<or> x = s | Some i \<Rightarrow> x = i)"
  by (auto simp: parseStandard_def Let_def implied_standard_def split: if_splits)

lemma parseStandard_fixed:
  "List.member [''SPDX'', ''CycloneDX'', ''native''] x
    \<Longrightarrow> (case map_of implied_standard f of None \<Rightarrow> True | Some i \<Rightarrow> x = i) \<Longrightarrow> parseStandard x f = Inr x"
  by (auto simp: parseStandard_def Let_def implied_standard_def split: if_splits)

lemma validate_request_Inr:
  assumes "validate_request req = Inr q"
  shows "cq_ScanID q \<noteq> []" "ParseBOMType (cq_BOMType req) = Inr (cq_BOMType q)"
    "parseLevel (cq_Level req) = Inr (cq_Level q)" "parseFormat (cq_Format req) = Inr (cq_Format q)"
    "parseStandard (cq_Standard req) (cq_Format q) = Inr (cq_Standard q)"
    "cq_Visibility q = ''public'' \<or> cq_Visibility q = ''private''"
  using assms by (auto simp: validate_request_def Let_def split: if_splits sum.splits)

text \<open>
  C23. A request the service accepts can be rendered: its row passes every check of the table, its level is one
  \<open>Project\<close> produces, its standard is the one its format implies, some writer is responsible for its format
  (when the writers succeed so does the render), and accepting it again changes nothing.
\<close>

theorem accepted_request_can_be_rendered:
  assumes "validate_request req = Inr q"
    and "\<And>b. \<exists>x. rn_WritePDF rn b = Inr x" "\<And>b. \<exists>x. rn_WriteXLSX rn b = Inr x"
      "\<And>f b. \<exists>x. rn_Serialize rn f b = Inr x" "\<And>b s c. \<exists>x. rn_WriteJSON rn b s c = Inr x"
  shows "report_checks (new_report q w) \<and> (\<exists>p. Project cs (cq_Level q) = Inr p)
    \<and> (case map_of implied_standard (cq_Format q) of None \<Rightarrow> True | Some i \<Rightarrow> cq_Standard q = i)
    \<and> (\<exists>out. renderArtifact rn (new_report q w) bom = Inr out) \<and> validate_request q = Inr q"
proof -
  note parsed = validate_request_Inr [OF assms(1)]
  note bom = ParseBOMType_Inr [OF parsed(2)] and level = parseLevel_Inr [OF parsed(3)] and format = parseFormat_Inr [OF parsed(4)]
    and standard = parseStandard_Inr [OF parsed(5)]
  have "report_checks (new_report q w)"
    using level format standard parsed(6)
    by (auto simp: report_checks_def new_report_def level_Valid_def report_formats_def)
  moreover have "\<exists>p. Project cs (cq_Level q) = Inr p" using level Project_Inr [of "cq_Level q" cs] by auto
  moreover have "case map_of implied_standard (cq_Format q) of None \<Rightarrow> True | Some i \<Rightarrow> cq_Standard q = i"
    using standard by (auto split: option.splits)
  moreover have "\<exists>out. renderArtifact rn (new_report q w) bom = Inr out"
  proof -
    have "rp_Format (new_report q w) = cq_Format q" by (simp add: new_report_def)
    moreover obtain pdf xlsx spdx cdx where "rn_WritePDF rn bom = Inr pdf" "rn_WriteXLSX rn bom = Inr xlsx"
        "rn_Serialize rn ''spdx'' bom = Inr spdx" "rn_Serialize rn ''cyclonedx'' bom = Inr cdx"
      using assms(2-4) by metis
    moreover obtain json where "rn_WriteJSON rn bom spdx cdx = Inr json" using assms(5) by metis
    ultimately show ?thesis using format
      by (cases pdf; cases xlsx) (auto simp: renderArtifact_def report_formats_def wrap_render_def)
  qed
  moreover have "validate_request q = Inr q"
  proof -
    have "ParseBOMType (cq_BOMType q) = Inr (cq_BOMType q)" using parsed(2) bom by simp
    moreover have "parseLevel (cq_Level q) = Inr (cq_Level q)" using level by (auto simp: parseLevel_def level_Valid_def)
    moreover have "parseFormat (cq_Format q) = Inr (cq_Format q)" using format by (auto simp: parseFormat_def)
    moreover have "parseStandard (cq_Standard q) (cq_Format q) = Inr (cq_Standard q)"
      using standard by (intro parseStandard_fixed) (auto split: option.splits)
    ultimately have "validate_request q = Inr (q\<lparr>cq_BOMType := cq_BOMType q, cq_Level := cq_Level q,
        cq_Standard := cq_Standard q, cq_Format := cq_Format q, cq_Visibility := cq_Visibility q\<rparr>)"
      using parsed(1,6) by (auto simp: validate_request_def Let_def)
    then show ?thesis by simp
  qed
  ultimately show ?thesis by blast
qed

section \<open>Renders\<close>

definition set_row :: "string \<Rightarrow> string \<Rightarrow> (Report \<Rightarrow> Report) \<Rightarrow> report_db \<Rightarrow> report_db" where
  "set_row t i g w = w\<lparr>rd_reports := map (\<lambda>y. if own_report t i y then g y else y) (rd_reports w)\<rparr>"

lemma find_map_if:
  "\<forall>y. P y \<longrightarrow> P (g y) \<Longrightarrow> find P (map (\<lambda>y. if P y then g y else y) xs) = map_option g (find P xs)"
  by (induction xs) auto

lemma find_set_row:
  "find_report t i w = Some r \<Longrightarrow> \<forall>y. rp_ID (g y) = rp_ID y \<and> rp_TenantID (g y) = rp_TenantID y
    \<Longrightarrow> find_report t i (set_row t i g w) = Some (g r)"
  using find_map_if [of "own_report t i" g "rd_reports w"] by (simp add: find_report_def set_row_def own_report_def)

lemma set_row_fields [simp]:
  "reliable (set_row t i g w) = reliable w" "en_clock (set_row t i g w) = en_clock w"
  "rd_render (set_row t i g w) = rd_render w" "rd_blobs (set_row t i g w) = rd_blobs w"
  by (simp_all add: set_row_def reliable_def)

lemma run_update:
  assumes "reliable w" "t \<noteq> []" "find_report t i w = Some r" "P r" "report_checks ((f r)\<lparr>rp_UpdatedAt := en_clock w\<rparr>)"
  shows "run_state (WithTenant t (update_report t i P f)) w
    = (Inr ((f r)\<lparr>rp_UpdatedAt := en_clock w\<rparr>), set_row t i (\<lambda>r. (f r)\<lparr>rp_UpdatedAt := en_clock w\<rparr>) w)"
  using assms by (simp add: run_WithTenant update_report_def Let_def set_row_def)

lemma run_claim:
  assumes "reliable w" "t \<noteq> []" "find_report t i w = Some r" "rp_Status r = StatusQueued" "report_checks r"
  shows "run_state (ClaimForRender t i) w
    = (Inr (r\<lparr>rp_Status := StatusRendering, rp_UpdatedAt := en_clock w\<rparr>),
       set_row t i (\<lambda>r. r\<lparr>rp_Status := StatusRendering, rp_UpdatedAt := en_clock w\<rparr>) w)"
  unfolding ClaimForRender_def using assms by (subst run_update) (simp_all add: report_checks_def)

lemma run_Fail:
  assumes "reliable w" "t \<noteq> []" "find_report t i w = Some r" "rp_Status r = StatusRendering" "report_checks r"
  shows "run_state (service_Fail t i e) w = (Inr (), set_row t i (\<lambda>r. r\<lparr>rp_Status := report_StatusFailed,
     rp_ErrorCode := (case err_code (errs_From e) of Some c \<Rightarrow> c | None \<Rightarrow> []), rp_UpdatedAt := en_clock w\<rparr>) w)"
  unfolding service_Fail_def MarkFailed_def using assms
  by (simp add: run_simps, subst run_update) (simp_all add: report_checks_def)

lemma checks_completed:
  "report_checks r \<Longrightarrow> 0 \<le> cm_SizeBytes c \<Longrightarrow> report_checks ((completed c r)\<lparr>rp_UpdatedAt := now\<rparr>)"
  unfolding report_checks_def completed_def by auto

lemma run_Ready:
  assumes "reliable w" "t \<noteq> []" "find_report t i w = Some r" "rp_Status r = StatusRendering" "report_checks r"
    and "0 \<le> cm_SizeBytes c"
  shows "run_state (MarkReady t i c) w = (Inr (), set_row t i (\<lambda>r. (completed c r)\<lparr>rp_UpdatedAt := en_clock w\<rparr>) w)"
  unfolding MarkReady_def using assms
  by (simp add: run_simps, subst run_update) (auto intro: checks_completed)

text \<open>What the environment makes of a claimed report.\<close>

definition artifact_of :: "renderers \<Rightarrow> Report \<Rightarrow> go_err + BOM \<times> (string \<times> bool \<times> string)" where
  "artifact_of rn r = (case rn_Load rn r of
     Inl e \<Rightarrow> Inl (errs_Wrap e ReportRenderFailed ''the normalized BOM could not be read'')
   | Inr bom \<Rightarrow> map_sum id (Pair bom) (renderArtifact rn r bom))"

lemma run_store_artifact:
  assumes "reliable w" "validateKey (StorageKey t i (rp_Format r)) = None"
  shows "run_state (store_artifact t i r) w = (case artifact_of (rd_render w) r of
      Inl e \<Rightarrow> (Inl e, w)
    | Inr (bom, out) \<Rightarrow>
        if DefaultMaxBytes < length (fst out)
        then (Inl (errs_Wrap (Plain ''upload exceeds the maximum allowed size'' []) InternalDependency
                ''the rendered artifact could not be stored''),
              w\<lparr>rd_blobs := (rd_blobs w)(StorageKey t i (rp_Format r) := None)\<rparr>)
        else (Inr (bom, out, object_of (StorageKey t i (rp_Format r)) (fst out)),
              w\<lparr>rd_blobs := (rd_blobs w)(StorageKey t i (rp_Format r) \<mapsto> fst out)\<rparr>))"
  using assms by (auto simp: store_artifact_def artifact_of_def blob_Put_def object_of_def run_simps Let_def
      split: sum.splits prod.splits)

lemma find_report_blobs [simp]:
  "find_report t i (w\<lparr>rd_blobs := b\<rparr>) = find_report t i w" "reliable (w\<lparr>rd_blobs := b\<rparr>) = reliable w"
  by (simp_all add: find_report_def reliable_def)

lemma run_finish:
  assumes "reliable w" "t \<noteq> []" "find_report t i w = Some q" "rp_Status q = StatusRendering" "report_checks q"
    and obj: "obj = object_of key (fst out)"
  shows "\<exists>v c. run_state (finish_render wk t i r (bom, out, obj)) w = (Inr (), v) \<and> rd_blobs v = rd_blobs w
    \<and> find_report t i v = Some ((completed c q)\<lparr>rp_UpdatedAt := en_clock w\<rparr>)
    \<and> cm_StorageRef c = key \<and> cm_SHA256 c = hex_encode (sha256 (fst out)) \<and> cm_SizeBytes c = int (length (fst out))"
proof -
  obtain artifact cut why where out: "out = (artifact, cut, why)" by (cases out)
  define c where "c = completion_of (rd_render w) bom obj
      (case sign wk (rd_render w) r obj artifact of Inl _ \<Rightarrow> ([], []) | Inr s \<Rightarrow> s) cut why"
  have c: "cm_StorageRef c = key" "cm_SHA256 c = hex_encode (sha256 (fst out))" "cm_SizeBytes c = int (length (fst out))"
    by (simp_all add: c_def completion_of_def obj object_of_def out)
  define u where "u = set_row t i (\<lambda>r. (completed c r)\<lparr>rp_UpdatedAt := en_clock w\<rparr>) w"
  have ready: "run_state (MarkReady t i c) w = (Inr (), u)"
    unfolding u_def using assms(1-5) c by (intro run_Ready) simp_all
  obtain x v where event: "run_state (publishReportReady wk t r bom) u = (x, v)" by (cases "run_state (publishReportReady wk t r bom) u")
  have "quiet u v" using event by (rule quiet_publishReportReady)
  then have "rd_blobs v = rd_blobs w" "find_report t i v = find_report t i u"
    by (simp_all add: quiet_def find_report_def u_def)
  moreover have "find_report t i u = Some ((completed c q)\<lparr>rp_UpdatedAt := en_clock w\<rparr>)"
    unfolding u_def using assms(3) by (rule find_set_row) (simp add: completed_def)
  moreover have "run_state (finish_render wk t i r (bom, out, obj)) w = (Inr (), v)"
    using ready event by (simp add: finish_render_def out run_simps Let_def flip: c_def)
  ultimately show ?thesis using c by (intro exI [of _ v] exI [of _ c]) simp
qed

text \<open>A claimed report whose artifact could not be stored ends as failed.\<close>

lemma failed_render:
  assumes "run_state (store_artifact t i r) w = (Inl e, v)" "reliable v" "t \<noteq> []" "find_report t i v = Some r"
    and "rp_Status r = StatusRendering" "report_checks r"
  shows "\<exists>u q. run_state (render_claimed wk t i r) w = (Inl e, u) \<and> find_report t i u = Some q \<and> reliable u
    \<and> rp_Status q = report_StatusFailed \<and> Some (rp_ErrorCode q) = err_code (errs_From e)"
proof -
  obtain c where c: "err_code (errs_From e) = Some c" using errs_From_coded [of e] by auto
  define g where "g = (\<lambda>r. r\<lparr>rp_Status := report_StatusFailed, rp_ErrorCode := c, rp_UpdatedAt := en_clock v\<rparr> :: Report)"
  have "run_state (service_Fail t i e) v = (Inr (), set_row t i g v)" using run_Fail [OF assms(2-6)] c by (simp add: g_def)
  moreover have "find_report t i (set_row t i g v) = Some (g r)" using assms(4) by (rule find_set_row) (simp add: g_def)
  ultimately show ?thesis using assms(1,2) c
    by (auto simp: render_claimed_def render_report_def run_simps g_def intro!: exI [of _ "set_row t i g v"])
qed

text \<open>One whose artifact was stored ends as ready, with its digest.\<close>

lemma successful_render:
  assumes "run_state (store_artifact t i r) w = (Inr (bom, out, object_of key (fst out)), v)" "reliable v" "t \<noteq> []"
    and "find_report t i v = Some r" "rp_Status r = StatusRendering" "report_checks r" "rd_blobs v key = Some (fst out)"
  shows "\<exists>u q. run_state (render_claimed wk t i r) w = (Inr (), u) \<and> find_report t i u = Some q
    \<and> rp_Status q = StatusReady \<and> rp_SHA256 q = hex_encode (sha256 (fst out)) \<and> rp_SizeBytes q = int (length (fst out))
    \<and> rd_blobs u (rp_StorageRef q) = Some (fst out)"
proof -
  obtain u c where u: "run_state (finish_render wk t i r (bom, out, object_of key (fst out))) v = (Inr (), u)"
      "rd_blobs u = rd_blobs v" "find_report t i u = Some ((completed c r)\<lparr>rp_UpdatedAt := en_clock v\<rparr>)"
      "cm_StorageRef c = key" "cm_SHA256 c = hex_encode (sha256 (fst out))" "cm_SizeBytes c = int (length (fst out))"
    using run_finish [OF assms(2-6) refl, where wk = wk and r = r and bom = bom and key = key and out = out] by blast
  then have "run_state (render_claimed wk t i r) w = (Inr (), u)"
    using assms(1) by (simp add: render_claimed_def render_report_def run_simps)
  then show ?thesis using u assms(7) by (auto simp: completed_def)
qed

text \<open>The claim of a queued report with the database up.\<close>

lemma claimed_row:
  assumes "reliable w" "t \<noteq> []" "find_report t i w = Some r" "rp_Status r = StatusQueued" "report_checks r"
  obtains v where "run_state (ClaimForRender t i) w = (Inr (r\<lparr>rp_Status := StatusRendering, rp_UpdatedAt := en_clock w\<rparr>), v)"
    "reliable v" "rd_render v = rd_render w"
    "find_report t i v = Some (r\<lparr>rp_Status := StatusRendering, rp_UpdatedAt := en_clock w\<rparr>)"
    "report_checks (r\<lparr>rp_Status := StatusRendering, rp_UpdatedAt := en_clock w\<rparr>)"
  using run_claim [OF assms] assms(1,5)
    find_set_row [OF assms(3), of "\<lambda>r. r\<lparr>rp_Status := StatusRendering, rp_UpdatedAt := en_clock w\<rparr>"]
  by (intro that) (simp_all add: report_checks_def)

text \<open>
  C22. A render settles its row on every branch. With the database up, the row of a queued report ends as
  ready, with the digest, the size and the key of what was stored, exactly when the BOM loads, the document is
  written and it fits; otherwise the row ends as failed with the code of the error, which the caller gets.
\<close>

theorem render_settles_the_row:
  assumes "reliable w" "t \<noteq> []" "find_report t i w = Some r" "rp_Status r = StatusQueued" "report_checks r"
    and "validateKey (StorageKey t i (rp_Format r)) = None"
  shows "\<exists>res v q. run_state (Worker_Render wk t i) w = (res, v) \<and> find_report t i v = Some q \<and>
    (case artifact_of (rd_render w) (r\<lparr>rp_Status := StatusRendering, rp_UpdatedAt := en_clock w\<rparr>) of
       Inl e \<Rightarrow> res = Inl e \<and> rp_Status q = report_StatusFailed \<and> Some (rp_ErrorCode q) = err_code (errs_From e)
     | Inr (bom, body, note) \<Rightarrow>
         if DefaultMaxBytes < length body
         then (\<exists>e. res = Inl e \<and> retryable e) \<and> rp_Status q = report_StatusFailed \<and> rp_ErrorCode q = InternalDependency
         else res = Inr () \<and> rp_Status q = StatusReady \<and> rp_SHA256 q = hex_encode (sha256 body)
            \<and> rp_SizeBytes q = int (length body) \<and> rd_blobs v (rp_StorageRef q) = Some body)"
proof -
  define claimed where "claimed = r\<lparr>rp_Status := StatusRendering, rp_UpdatedAt := en_clock w\<rparr>"
  define key where "key = StorageKey t i (rp_Format r)"
  obtain w1 where claim: "run_state (ClaimForRender t i) w = (Inr claimed, w1)" "reliable w1" "rd_render w1 = rd_render w"
      "find_report t i w1 = Some claimed" "report_checks claimed"
    using claimed_row [OF assms(1-5)] unfolding claimed_def by blast
  have render: "run_state (Worker_Render wk t i) w = run_state (render_claimed wk t i claimed) w1"
    using claim(1) by (simp add: Worker_Render_def run_simps)
  have fmt: "rp_Format claimed = rp_Format r" "rp_Status claimed = StatusRendering" by (simp_all add: claimed_def)
  note store = run_store_artifact [OF claim(2), of t i claimed, unfolded fmt(1) claim(3), OF assms(6)]
  show ?thesis
  proof (cases "artifact_of (rd_render w) claimed")
    case (Inl e)
    from failed_render [OF _ claim(2) assms(2) claim(4) fmt(2) claim(5), of w1 e wk]
    show ?thesis using Inl store render by (auto simp flip: claimed_def)
  next
    case (Inr x)
    obtain bom body note' where x: "x = (bom, body, note')" by (cases x)
    show ?thesis
    proof (cases "DefaultMaxBytes < length body")
      case True
      let ?e = "errs_Wrap (Plain ''upload exceeds the maximum allowed size'' []) InternalDependency
                ''the rendered artifact could not be stored''"
      have "retryable ?e" "err_code (errs_From ?e) = Some InternalDependency"
        by (simp_all add: retryable_def errs_Is_def errs_Wrap_def errs_From_def)
      moreover note failed_render [of t i claimed w1 ?e "w1\<lparr>rd_blobs := (rd_blobs w1)(key := None)\<rparr>" wk]
      ultimately show ?thesis using Inr x True store render claim assms(2) fmt(2)
        by (auto simp: key_def simp flip: claimed_def)
    next
      case False
      have "run_state (store_artifact t i claimed) w1
          = (Inr (bom, (body, note'), object_of key body), w1\<lparr>rd_blobs := (rd_blobs w1)(key \<mapsto> body)\<rparr>)"
        using store Inr x False by (simp add: key_def)
      then show ?thesis
        using successful_render [of t i claimed w1 bom "(body, note')" key "w1\<lparr>rd_blobs := (rd_blobs w1)(key \<mapsto> body)\<rparr>" wk]
          Inr x False render claim assms(2) fmt(2) by (auto simp flip: claimed_def)
    qed
  qed
qed

text \<open>A job for a report that is not queued is acknowledged and changes nothing.\<close>

lemma redelivery_does_nothing:
  assumes "reliable w" "find_report t i w = Some r" "rp_Status r \<noteq> StatusQueued" "t \<noteq> []"
  shows "run_state (Worker_Render wk t i) w = (Inr (), w)"
  using assms by (simp add: Worker_Render_def ClaimForRender_def run_WithTenant update_report_def run_simps)

lemma outcomes_fields [simp]:
  "find_report t i (w\<lparr>en_outcomes := os\<rparr>) = find_report t i w" "find_report t i (after_io w) = find_report t i w"
  by (simp_all add: find_report_def)

text \<open>
  C25. A render whose upload fails is not repeated. The row is marked failed before the job is handed back for
  another delivery, which then finds nothing to claim and is acknowledged: the report stays failed.
\<close>

theorem failed_upload_is_not_repeated:
  assumes "en_outcomes w = [Io_Ok, Io_Fails]" "find_report t i w = Some r" "rp_Status r = StatusQueued" "report_checks r"
    and "validateKey (StorageKey t i (rp_Format r)) = None" "t \<noteq> []" "i \<noteq> []"
    and "artifact_of (rd_render w) (r\<lparr>rp_Status := StatusRendering, rp_UpdatedAt := en_clock w\<rparr>) = Inr x"
    and "rj_TenantID job = t" "rj_ReportID job = i"
  shows "\<exists>e v q. run_state (Render_handle wk job) w = (Inl e, v) \<and> errors_Is e ErrRetry
    \<and> find_report t i v = Some q \<and> rp_Status q = report_StatusFailed
    \<and> run_state (Render_handle wk job) v = (Inr (), v)"
proof -
  define claimed where "claimed = r\<lparr>rp_Status := StatusRendering, rp_UpdatedAt := en_clock w\<rparr>"
  define g :: "Report \<Rightarrow> Report" where "g = (\<lambda>r. r\<lparr>rp_Status := StatusRendering, rp_UpdatedAt := en_clock w\<rparr>)"
  define w1 where "w1 = set_row t i g (after_io w)"
  define w2 where "w2 = after_io w1"
  obtain bom body note' where x: "x = (bom, body, note')" by (cases x)
  have claim: "run_state (ClaimForRender t i) w = (Inr claimed, w1)"
    using assms by (simp add: ClaimForRender_def run_WithTenant update_report_def next_outcome_def w1_def set_row_def g_def
        claimed_def report_checks_def Let_def)
  have w1: "en_outcomes w1 = [Io_Fails]" "rd_render w1 = rd_render w"
    using assms(1) by (simp_all add: w1_def set_row_def after_io_def)
  have row: "find_report t i w1 = Some claimed" "rp_Status claimed = StatusRendering" "report_checks claimed" "rp_Format claimed = rp_Format r"
    using find_set_row [of t i "after_io w" r g] assms(2,4)
    by (simp_all add: w1_def claimed_def g_def report_checks_def)
  let ?e = "errs_Wrap (Plain (''put '' @ quoted (StorageKey t i (rp_Format r))) []) InternalDependency
                ''the rendered artifact could not be stored''"
  have store: "run_state (store_artifact t i claimed) w1 = (Inl ?e, w2)"
    using assms(5,8) w1 row(4) unfolding claimed_def [symmetric] x
    by (auto simp: store_artifact_def artifact_of_def blob_Put_def run_simps Let_def next_outcome_def w2_def
        split: sum.splits prod.splits)
  define v where "v = set_row t i (\<lambda>r. r\<lparr>rp_Status := report_StatusFailed, rp_ErrorCode := InternalDependency,
    rp_UpdatedAt := en_clock w2\<rparr>) w2"
  have w2: "reliable w2" "find_report t i w2 = Some claimed"
    using w1 row(1) by (simp_all add: w2_def reliable_def after_io_def find_report_def)
  have code: "err_code (errs_From ?e) = Some InternalDependency" by (simp add: errs_Wrap_def errs_From_def)
  have "run_state (service_Fail t i ?e) w2 = (Inr (), v)"
    using run_Fail [OF w2(1) assms(6) w2(2) row(2,3), of ?e] unfolding code v_def by simp
  then have "run_state (Worker_Render wk t i) w = (Inl ?e, v)"
    using claim store by (simp add: Worker_Render_def render_claimed_def render_report_def run_simps)
  then have first: "run_state (Render_handle wk job) w = (Inl (Plain [] [ErrRetry, ?e]), v)"
    using assms(6,7,9,10)
    by (simp add: Render_handle_def RenderJob_Validate_def run_simps retryable_def errs_Is_def errs_Wrap_def)
  have failed: "find_report t i v = Some (claimed\<lparr>rp_Status := report_StatusFailed, rp_ErrorCode := InternalDependency,
      rp_UpdatedAt := en_clock w2\<rparr>)"
    unfolding v_def by (rule find_set_row) (simp_all add: w2(2))
  have "reliable v" using w2(1) by (simp add: v_def)
  from redelivery_does_nothing [OF this failed _ assms(6), of wk]
  have "run_state (Render_handle wk job) v = (Inr (), v)"
    using assms(6,7,9,10) by (simp add: Render_handle_def RenderJob_Validate_def run_simps)
  with first failed show ?thesis by (intro exI conjI) auto
qed

text \<open>
  A failing claim is taken for a claim by another worker. When the database is down, or the acknowledgement
  of the claim is lost, the job is acknowledged all the same and the report stays queued, or rendering with
  nobody rendering it.
\<close>

theorem failed_claim_is_acknowledged:
  assumes "en_outcomes w = [out]" "out \<noteq> Io_Ok" "find_report t i w = Some r" "rp_Status r = StatusQueued" "report_checks r"
    and "t \<noteq> []" "i \<noteq> []" "rj_TenantID job = t" "rj_ReportID job = i"
  shows "\<exists>v q. run_state (Render_handle wk job) w = (Inr (), v) \<and> reliable v \<and> find_report t i v = Some q
    \<and> rp_Status q = (if out = Io_Fails then StatusQueued else StatusRendering)"
proof -
  define g :: "Report \<Rightarrow> Report" where "g = (\<lambda>r. r\<lparr>rp_Status := StatusRendering, rp_UpdatedAt := en_clock w\<rparr>)"
  have g: "report_checks (g r)" using assms(5) by (simp add: g_def report_checks_def)
  have "run_state (Render_handle wk job) w
      = (Inr (), if out = Io_Fails then after_io w else set_row t i g (after_io w))"
    using assms g by (cases out) (simp_all add: Render_handle_def RenderJob_Validate_def Worker_Render_def ClaimForRender_def
        run_WithTenant update_report_def next_outcome_def set_row_def g_def Let_def run_simps)
  moreover have "find_report t i (set_row t i g (after_io w)) = Some (g r)"
    by (rule find_set_row) (simp_all add: g_def assms(3))
  moreover have "reliable (after_io w)" using assms(1) by (simp add: reliable_def after_io_def)
  ultimately show ?thesis using assms(2-4) by (cases out) (auto simp: g_def)
qed

section \<open>Downloads\<close>

text \<open>
  A signed in member downloads a report of the own tenant only, when it is ready, and a private one only
  with the role of an analyst at least; the bytes are those the row refers to, and nothing changes.
\<close>

theorem private_report_needs_an_analyst:
  assumes "run_state (Api_Download t role i) w = (Inr d, v)"
  shows "\<exists>r. find_report t i w = Some r \<and> rp_Status r = StatusReady \<and> rd_blobs w (rp_StorageRef r) = Some (snd d)
    \<and> (rp_Visibility r = VisibilityPrivate \<longrightarrow> rank RoleAnalyst \<le> rank role) \<and> quiet w v"
proof -
  obtain x u where get: "run_state (Report_Get t i) w = (x, u)" by (cases "run_state (Report_Get t i) w")
  then obtain r where r: "x = Inr r" "Allowed (CanDownloadReport role (rp_Visibility r))" "run_state (stream r) u = (Inr d, v)"
    using assms by (cases x) (auto simp: Api_Download_def Let_def run_simps split: if_splits)
  from get r(1) have found: "find_report t i w = Some r" "quiet w u" using Get_Inr by auto
  have "rp_Visibility r = VisibilityPrivate \<longrightarrow> rank RoleAnalyst \<le> rank role"
    using r(2) by (auto simp: CanDownloadReport_def Let_def deny_def not_less split: if_splits)
  then show ?thesis using stream_Inr [OF r(3)] found quiet_trans [OF found(2) quiet_stream [OF r(3)]]
    by (auto simp: quiet_def)
qed

text \<open>
  C24. An anonymous download succeeds only through a live link: the path is a token whose hash a link has, the
  link is neither revoked nor expired nor used up at that instant, and the bytes are the artifact of its ready
  report in the tenant of the link.
\<close>

theorem shared_download_needs_a_live_link:
  assumes "run_state (Api_Shared path ip ua) w = (Inr d, v)"
  shows "\<exists>l \<in> set (rd_links w). claimable (Token_Hash path) (en_clock w) l
    \<and> (\<exists>r. find_report (ln_TenantID (lr_Link l)) (ln_ReportID (lr_Link l)) w = Some r \<and> rp_Status r = StatusReady
         \<and> rd_blobs w (rp_StorageRef r) = Some (snd d))"
proof -
  have token: "ParseToken path = Inr path"
    using assms by (auto simp: Api_Shared_def ParseToken_def run_simps split: if_splits option.splits)
  obtain x w1 where claim: "run_state (ClaimDownload path) w = (x, w1)" by (cases "run_state (ClaimDownload path) w")
  then obtain c where c: "x = Inr c" using assms token
    by (cases x) (auto simp: Api_Shared_def ClaimShared_def run_simps)
  obtain y w2 where rec: "run_state (RecordShareAccess (cl_ShareLinkID c) (cl_Outcome c) ip ua) w1 = (y, w2)"
    by (cases "run_state (RecordShareAccess (cl_ShareLinkID c) (cl_Outcome c) ip ua) w1")
  have granted: "cl_Outcome c = OutcomeGranted" and serve: "run_state (serve_shared c) w2 = (Inr d, v)"
    using assms token claim c rec by (auto simp: Api_Shared_def ClaimShared_def run_simps split: if_splits)
  have same: "rd_reports w2 = rd_reports w1" "rd_blobs w2 = rd_blobs w1"
    using logs_RecordShareAccess [OF rec] by (simp_all add: logs_def keeps_reports_def)
  from claim show ?thesis
  proof (cases rule: ClaimDownload_cases)
    case no
    then show ?thesis using c granted by simp
  next
    case (yes l)
    then have l: "l \<in> set (rd_links w)" "claimable (Token_Hash path) (en_clock w) l"
      by (auto simp: find_Some_iff in_set_conv_nth)
    have "cl_TenantID c = ln_TenantID (lr_Link l)" "cl_ReportID c = ln_ReportID (lr_Link l)"
      using yes(3) c by (auto simp: claim_of_def counted_def)
    with serve_Inr [OF serve] yes(2) same l show ?thesis
      by (auto simp: counts_def keeps_reports_def find_report_def)
  qed
qed

text \<open>
  With the database up, every claim, granted or refused, is logged once: under the tenant, the report and
  the link it was for, with its outcome and its instant, and at most 512 characters of the user agent.
\<close>

theorem every_claim_is_logged:
  assumes "reliable w" "distinct (map (ln_ID \<circ> lr_Link) (rd_links w))" "pg_text ua"
    and "run_state (ClaimShared token ip ua) w = (Inr c, v)"
  shows "\<exists>a. rd_accesses v = rd_accesses w @ [a] \<and> sx_TenantID a = cl_TenantID c \<and> sx_ShareLinkID a = cl_ShareLinkID c
    \<and> sx_ReportID a = cl_ReportID c \<and> sx_Outcome a = cl_Outcome c \<and> sx_AccessedAt a = en_clock w
    \<and> sx_UserAgent a = pg_left 512 ua"
proof -
  obtain w1 where claim: "run_state (ClaimDownload token) w = (Inr c, w1)"
      and v: "v = snd (run_state (RecordShareAccess (cl_ShareLinkID c) (cl_Outcome c) ip ua) w1)"
    using assms(4) by (auto simp: ClaimShared_def run_simps split: prod.splits sum.splits)
  note same = claim_matches [OF claim]
  from same(1) obtain l where l: "l \<in> set (rd_links w1)" "cl_ShareLinkID c = ln_ID (lr_Link l)"
      "cl_TenantID c = ln_TenantID (lr_Link l)" "cl_ReportID c = ln_ReportID (lr_Link l)"
    by (auto simp: claim_of_link_def)
  have "distinct (map (ln_ID \<circ> lr_Link) (rd_links w1))" using assms(2) same(5) by simp
  then have "z = l" if "z \<in> set (rd_links w1)" "ln_ID (lr_Link z) = cl_ShareLinkID c" for z
    using that l by (auto simp: distinct_map inj_on_def)
  then have "find (\<lambda>l. ln_ID (lr_Link l) = cl_ShareLinkID c) (rd_links w1) = Some l"
    using l(1,2) by (metis (mono_tags, lifting) find_None_iff find_Some_iff not_None_eq nth_mem)
  then show ?thesis using assms(1,3) same(2-4,6) l v
    by (simp add: RecordShareAccess_def Db_Call_def record_share_access_def access_row_def run_simps)
qed

text \<open>
  What the log misses: a user agent that is no valid UTF-8 text makes the insert fail, and the download
  goes on without an entry.
\<close>

theorem malformed_user_agent_is_not_logged:
  assumes "\<not> pg_text ua" "run_state (ClaimDownload token) w = (Inr c, w1)"
  shows "fst (run_state (ClaimShared token ip ua) w) = Inr c
    \<and> rd_accesses (snd (run_state (ClaimShared token ip ua) w)) = rd_accesses w"
  using assms(1,2) claim_matches(2,4) [OF assms(2)]
  by (simp add: ClaimShared_def RecordShareAccess_def Db_Call_def record_share_access_def run_simps)

end
