(* ===== verification/Report_Examples.thy ===== *)
theory Report_Examples
  imports Report_Properties Report_Outcomes
begin

text \<open>
  A run of the report service from its start: a report is queued, rendered, shared with a cap of one download,
  and downloaded. It and its variants are the inputs at which the properties are applied.
\<close>

section \<open>A report\<close>

definition acme_ids :: "nat \<Rightarrow> string" where
  "acme_ids n = replicate (Suc n) (CHR ''a'')"

lemma acme_ids_ok: "inj acme_ids" "plain_name (acme_ids n)"
  by (auto simp: acme_ids_def inj_def plain_name_def list_all_iff dest: arg_cong [where f = length])

definition acme_bom :: BOM where
  "acme_bom = \<lparr>bm_BOMType = ''SBOM'', bm_ProjectName = ''p'', bm_GeneratedAt = [], bm_LevelNote = [],
     bm_CoverageComputed = False, bm_CompletenessPct = 0, bm_DeclarationPct = 0, bm_Formula = [], bm_Fields = [],
     bm_Engines = [], bm_EcosystemsWithNoEngine = [], bm_Components = 0, bm_Severities = []\<rparr>"

definition acme_writers :: renderers where
  "acme_writers = \<lparr>rn_Load = (\<lambda>_. Inr acme_bom), rn_WritePDF = (\<lambda>_. Inr (''pdf'', False, [])),
     rn_WriteXLSX = (\<lambda>_. Inr (''xlsx'', [])), rn_Serialize = (\<lambda>_ _. Inr ''doc''), rn_WriteJSON = (\<lambda>_ _ _. Inr ''json''),
     rn_FieldsFor = (\<lambda>_. []), rn_Sign = (\<lambda>_ _. Inr (''sig'', ''key''))\<rparr>"

definition acme_start :: report_db where
  "acme_start = \<lparr>en_outbox = [], en_clock = 0, en_uuid = acme_ids, en_next = 0, en_outcomes = [], rd_reports = [],
     rd_links = [], rd_accesses = [], rd_blobs = (\<lambda>_. None), rd_render = acme_writers, rd_ip = (\<lambda>_. None),
     rd_random = (\<lambda>_. replicate 32 (CHR ''k'')), rd_drawn = 0\<rparr>"

definition acme_worker :: Worker where
  "acme_worker = \<lparr>wk_signs = True, wk_notifies = False, wk_frontendURL = []\<rparr>"

definition acme_request :: CreateRequest where
  "acme_request = \<lparr>cq_TenantID = ''t'', cq_ScanID = ''s'', cq_BOMDocumentIDs = [], cq_BOMType = ''SBOM'', cq_Level = ''complete'',
     cq_Standard = ''native'', cq_Format = ''pdf'', cq_Visibility = ''private''\<rparr>"

definition acme_report :: Report where
  "acme_report = new_report acme_request acme_start"

definition acme_queued :: report_db where
  "acme_queued = acme_start\<lparr>en_next := 1, rd_reports := [acme_report], en_outbox := [\<lparr>ms_Subject = SubjectRender, ms_MsgID = ''a'',
     ms_Payload = PRender \<lparr>rj_Schema = RenderJobSchema, rj_TenantID = ''t'', rj_ReportID = ''a'', rj_RequestedAt = rfc3339 UTC 0\<rparr>\<rparr>]\<rparr>"

lemma acme_start_ok: "report_start (acme_start, [], [])"
  by (simp add: report_start_def acme_start_def acme_ids_ok)

lemma acme_request_ok: "validate_request acme_request = Inr acme_request"
  by (simp add: validate_request_def acme_request_def ParseBOMType_def AllBOMTypes_def parseLevel_def level_Valid_def
      parseFormat_def report_formats_def parseStandard_def implied_standard_def)

lemma acme_queue: "run_state (Queue acme_request) acme_start = (Inr acme_report, acme_queued)"
proof -
  have check: "report_checks (new_report acme_request acme_start)"
    by (simp add: report_checks_def new_report_def acme_request_def)
  have "reliable acme_start" by (simp add: reliable_def acme_start_def)
  then have "run_state (Report_Create acme_request) acme_start
      = (Inr acme_report, (drop_id acme_start)\<lparr>rd_reports := [acme_report]\<rparr>)"
    using check by (simp add: Report_Create_def run_WithTenant run_simps report_wrapped_def acme_report_def)
      (simp add: acme_request_def acme_start_def)
  then show ?thesis unfolding Queue_def acme_request_ok
    by (simp add: run_simps PublishRender_def RenderJob_Validate_def Bus_Publish_def next_outcome_def after_io_def drop_id_def
        acme_queued_def acme_start_def acme_request_def acme_report_def new_report_def fresh_id_def acme_ids_def Let_def)
qed

section \<open>Its artifact\<close>

definition acme_key :: string where
  "acme_key = StorageKey ''t'' ''a'' ''pdf''"

definition acme_done :: Report where
  "acme_done = completed (completion_of acme_writers acme_bom (object_of acme_key ''pdf'') (''sig'', ''key'') False [])
     (acme_report\<lparr>rp_Status := StatusRendering\<rparr>)"

definition acme_ready :: report_db where
  "acme_ready = acme_queued\<lparr>rd_reports := [acme_done], rd_blobs := [acme_key \<mapsto> ''pdf'']\<rparr>"

lemma acme_key_ok: "validateKey (StorageKey ''t'' ''a'' ''pdf'') = None"
  by (simp add: validateKey_def StorageKey_def file_extension_def contains_def sublist_Cons_right)

lemma acme_key_nonempty: "acme_key \<noteq> []"
  by (simp add: acme_key_def StorageKey_def)

lemma acme_fields:
  "rp_ID acme_report = ''a''" "rp_TenantID acme_report = ''t''" "rp_Format acme_report = ''pdf''"
  "rp_Status acme_report = StatusQueued" "rp_UpdatedAt acme_report = 0" "report_checks acme_report"
  "find_report ''t'' ''a'' acme_queued = Some acme_report" "reliable acme_queued"
  by (simp_all add: acme_report_def new_report_def acme_request_def acme_start_def fresh_id_def acme_ids_def report_checks_def
      acme_queued_def find_report_def own_report_def reliable_def)

lemma acme_render: "run_state (Worker_Render acme_worker ''t'' ''a'') acme_queued = (Inr (), acme_ready)"
proof -
  define claimed where "claimed = acme_report\<lparr>rp_Status := StatusRendering, rp_UpdatedAt := 0\<rparr>"
  define w1 where "w1 = acme_queued\<lparr>rd_reports := [claimed]\<rparr>"
  define w2 where "w2 = w1\<lparr>rd_blobs := [acme_key \<mapsto> ''pdf'']\<rparr>"
  have clock: "en_clock acme_queued = 0" "rd_render acme_queued = acme_writers" "rd_blobs acme_queued = (\<lambda>_. None)" "en_clock acme_start = 0"
    by (simp_all add: acme_queued_def acme_start_def)
  have claim: "run_state (ClaimForRender ''t'' ''a'') acme_queued = (Inr claimed, w1)"
    using run_claim [OF acme_fields(8) _ acme_fields(7,4,6)] acme_fields
    by (simp add: clock claimed_def w1_def set_row_def acme_queued_def own_report_def)
  have fields: "reliable w1" "rp_Format claimed = ''pdf''" "rd_render w1 = acme_writers" "rd_blobs w1 = (\<lambda>_. None)"
    using acme_fields clock by (simp_all add: w1_def claimed_def reliable_def)
  have "artifact_of acme_writers claimed = Inr (acme_bom, (''pdf'', False, []))"
    by (simp add: artifact_of_def acme_writers_def renderArtifact_def fields)
  then have store: "run_state (store_artifact ''t'' ''a'' claimed) w1
      = (Inr (acme_bom, (''pdf'', False, []), object_of acme_key ''pdf''), w2)"
    using run_store_artifact [OF fields(1), of "''t''" "''a''" claimed] acme_key_ok
    by (simp add: fields DefaultMaxBytes_def w2_def acme_key_def)
  have seal: "sign acme_worker acme_writers claimed (object_of acme_key ''pdf'') ''pdf'' = Inr (''sig'', ''key'')"
    by (simp add: sign_def acme_worker_def acme_writers_def object_of_def)
  have row: "find_report ''t'' ''a'' w2 = Some claimed" "rp_Status claimed = StatusRendering" "report_checks claimed" "reliable w2"
      "en_clock w2 = 0" "rd_render w2 = acme_writers" "rd_reports w2 = [claimed]"
    using acme_fields fields clock
    by (simp_all add: w2_def w1_def find_report_def own_report_def claimed_def report_checks_def reliable_def)
  define c where "c = completion_of acme_writers acme_bom (object_of acme_key ''pdf'') (''sig'', ''key'') False []"
  have "run_state (MarkReady ''t'' ''a'' c) w2 = (Inr (), set_row ''t'' ''a'' (\<lambda>r. (completed c r)\<lparr>rp_UpdatedAt := 0\<rparr>) w2)"
    using run_Ready [OF row(4) _ row(1,2,3), of c] by (simp add: row(5) c_def completion_of_def object_of_def)
  moreover have "set_row ''t'' ''a'' (\<lambda>r. (completed c r)\<lparr>rp_UpdatedAt := 0\<rparr>) w2 = acme_ready"
    using row(7) acme_fields(1,2,5)
    by (simp add: set_row_def own_report_def w2_def w1_def claimed_def acme_ready_def acme_done_def completed_def flip: c_def)
  ultimately have "run_state (MarkReady ''t'' ''a'' c) w2 = (Inr (), acme_ready)" by simp
  then have "run_state (finish_render acme_worker ''t'' ''a'' claimed (acme_bom, (''pdf'', False, []), object_of acme_key ''pdf'')) w2
      = (Inr (), acme_ready)"
    by (simp add: finish_render_def run_simps Let_def seal publishReportReady_def row(6) flip: c_def)
      (simp add: acme_worker_def run_simps)
  then show ?thesis using claim store by (simp add: Worker_Render_def render_claimed_def render_report_def run_simps)
qed

section \<open>Its link\<close>

definition acme_token :: Token where
  "acme_token = NewToken (replicate 32 (CHR ''k''))"

definition acme_options :: share_Options where
  "acme_options = \<lparr>so_ExpiresAt = None, so_MaxDownloads = Some 1\<rparr>"

definition acme_link :: link_row where
  "acme_link = \<lparr>lr_Link = \<lparr>ln_ID = ''aa'', ln_TenantID = ''t'', ln_ReportID = ''a'', ln_ExpiresAt = None, ln_MaxDownloads = Some 1,
     ln_DownloadCount = 0, ln_RevokedAt = None, ln_CreatedAt = 0, ln_CreatedBy = ''u''\<rparr>, lr_TokenHash = Token_Hash acme_token\<rparr>"

definition acme_shared :: report_db where
  "acme_shared = acme_ready\<lparr>en_next := 2, rd_drawn := 1, rd_links := [acme_link]\<rparr>"

lemma acme_ready_fields:
  "reliable acme_ready" "en_clock acme_ready = 0" "find_report ''t'' ''a'' acme_ready = Some acme_done"
  "rp_Status acme_done = StatusReady" "rp_ID acme_done = ''a''" "rp_TenantID acme_done = ''t''" "rd_reports acme_ready = [acme_done]"
  "rd_links acme_ready = []" "rd_drawn acme_ready = 0" "rd_random acme_ready n = replicate 32 (CHR ''k'')" "en_next acme_ready = 1"
  "fresh_id acme_ready = ''aa''" "fresh_id (acme_ready\<lparr>rd_drawn := m\<rparr>) = ''aa''" "rd_accesses acme_ready = []" "rd_blobs acme_ready acme_key = Some ''pdf''"
  "rp_StorageRef acme_done = acme_key" "rp_Visibility acme_done = ''private''"
  using acme_fields
  by (simp_all add: acme_ready_def acme_queued_def acme_start_def reliable_def find_report_def own_report_def acme_done_def
      completed_def fresh_id_def acme_ids_def completion_of_def object_of_def acme_report_def new_report_def acme_request_def)

lemma acme_share:
  "snd (run_state (Api_Share ''t'' ''u'' ''a'' \<lparr>sr_Expires = None, sr_Downloads = Some 1\<rparr>) acme_ready) = acme_shared"
proof -
  have get: "run_state (Report_Get ''t'' ''a'') acme_ready = (Inr acme_done, acme_ready)"
    using acme_ready_fields by (simp add: Report_Get_def run_ReadTenant)
  have "new_link ''t'' ''a'' ''u'' acme_options (acme_ready\<lparr>rd_drawn := 1\<rparr>) = lr_Link acme_link"
    using acme_ready_fields by (simp add: new_link_def acme_options_def acme_link_def)
  moreover have "reliable (acme_ready\<lparr>rd_drawn := 1\<rparr>)" using acme_ready_fields(1) by (simp add: reliable_def)
  ultimately have "run_state (WithTenant ''t'' (insert_link ''t'' ''a'' ''u'' acme_options (Token_Hash acme_token)))
      (acme_ready\<lparr>rd_drawn := 1\<rparr>) = (Inr (lr_Link acme_link), acme_shared)"
    using acme_ready_fields by (simp add: run_WithTenant insert_link_def acme_options_def cap_fits_def drop_id_def acme_shared_def)
      (simp add: acme_link_def)
  then have "run_state (CreateShareLink ''t'' ''a'' ''u'' acme_options 0) acme_ready
      = (Inr (acme_token, lr_Link acme_link), acme_shared)"
    using acme_ready_fields by (simp add: CreateShareLink_def share_Validate_def draw_bytes_def run_simps Let_def report_wrapped_def
        acme_options_def flip: acme_token_def One_nat_def)
  then show ?thesis using get acme_ready_fields
    by (simp add: Api_Share_def service_Share_def run_simps acme_options_def)
qed

section \<open>Its download\<close>

definition acme_claim :: Claim where
  "acme_claim = claim_of (counted (lr_Link acme_link)) OutcomeGranted"

definition acme_agent :: string where
  "acme_agent = ''curl''"

definition acme_used :: link_row where
  "acme_used = acme_link\<lparr>lr_Link := counted (lr_Link acme_link)\<rparr>"

definition acme_taken :: report_db where
  "acme_taken = acme_shared\<lparr>rd_links := [acme_used]\<rparr>"

lemma acme_shared_fields:
  "reliable acme_shared" "en_clock acme_shared = 0" "rd_links acme_shared = [acme_link]" "reliable acme_taken"
  "find_report ''t'' ''a'' acme_shared = Some acme_done" "find_report ''t'' ''a'' acme_taken = Some acme_done"
  "rd_blobs acme_taken acme_key = Some ''pdf''" "rd_accesses acme_shared = []"
  using acme_ready_fields by (simp_all add: acme_shared_def acme_taken_def reliable_def find_report_def)

lemma acme_claims: "run_state (ClaimDownload acme_token) acme_shared = (Inr acme_claim, acme_taken)"
proof -
  have "claimable (Token_Hash acme_token) 0 acme_link" by (simp add: claimable_def acme_link_def)
  moreover have "ln_DownloadCount (lr_Link acme_link) = 0" by (simp add: acme_link_def)
  ultimately show ?thesis using acme_shared_fields
    by (simp add: ClaimDownload_def Db_Call_def claim_share_download_def run_simps acme_claim_def acme_taken_def acme_used_def
        claim_of_def share_Outcome_Valid_def)
qed

text \<open>The steps of the run.\<close>

lemma acme_reaches_ready: "report_reaches acme_worker (acme_start, [], []) (acme_ready, [], [])"
proof -
  have "report_reaches acme_worker (acme_start, [], []) (acme_queued, [], [])"
    using Queue_is_steps [of acme_worker acme_start "[]" "[]" acme_request] by (simp add: acme_queue)
  also have "report_reaches acme_worker (acme_queued, [], []) (acme_ready, [], [])"
    using Render_is_steps [of acme_worker acme_queued "[]" "[]" "''t''" "''a''"] by (simp add: acme_render)
  finally show ?thesis .
qed

lemma acme_reaches_shared: "report_reaches acme_worker (acme_start, [], []) (acme_shared, [], [])"
  using report_reaches_trans [OF acme_reaches_ready report_step_reaches [OF report_step.share
      [of acme_worker acme_ready "[]" "[]" "''t''" "''u''" "''a''" "\<lparr>sr_Expires = None, sr_Downloads = Some 1\<rparr>"]]]
  by (simp add: acme_share)

lemma acme_takes: "report_reaches acme_worker (acme_shared, [], []) (acme_taken, [Recording acme_claim [] acme_agent], [])"
  using report_step.take [OF acme_claims, of acme_worker "[]" "[]" "[]" acme_agent] by (simp add: report_step_reaches)

definition acme_logged :: report_db where
  "acme_logged = (drop_id acme_taken)\<lparr>rd_accesses := [access_row (lr_Link acme_used) OutcomeGranted [] acme_agent acme_taken]\<rparr>"

lemma acme_agent_ok: "pg_text acme_agent"
  by code_simp

lemma acme_claim_fields:
  "cl_ShareLinkID acme_claim = ''aa''" "cl_Outcome acme_claim = OutcomeGranted" "cl_TenantID acme_claim = ''t''"
  "cl_ReportID acme_claim = ''a''" "ln_ID (lr_Link acme_used) = ''aa''" "rd_links acme_taken = [acme_used]"
  "rd_accesses acme_taken = []" "rd_ip acme_taken = (\<lambda>_. None)"
  by (simp_all add: acme_claim_def claim_of_def counted_def acme_link_def acme_used_def acme_taken_def acme_shared_def
      acme_ready_def acme_queued_def acme_start_def)

lemma acme_logs: "run_state (RecordShareAccess ''aa'' OutcomeGranted [] acme_agent) acme_taken = (Inr (), acme_logged)"
  using acme_shared_fields(4) acme_claim_fields acme_agent_ok
  by (simp add: RecordShareAccess_def Db_Call_def record_share_access_def run_simps share_Outcome_Valid_def acme_logged_def
      normalizeIP_def)

lemma acme_serves_logged:
  "run_state (serve_shared acme_claim) acme_logged = (Inr (download_headers acme_done, ''pdf''), acme_logged)"
proof -
  have "reliable acme_logged" "find_report ''t'' ''a'' acme_logged = Some acme_done" "rd_blobs acme_logged acme_key = Some ''pdf''"
    using acme_shared_fields by (simp_all add: acme_logged_def reliable_def find_report_def drop_id_def)
  moreover have "validateKey acme_key = None" unfolding acme_key_def by (rule acme_key_ok)
  ultimately show ?thesis using acme_ready_fields acme_key_nonempty acme_claim_fields
    by (simp add: serve_shared_def GetReportForShare_def Report_Get_def run_ReadTenant stream_def Open_def blob_Get_def run_simps)
qed

lemma acme_reaches_sent: "report_reaches acme_worker (acme_start, [], []) (acme_logged, [], [(acme_claim, ''pdf'')])"
proof -
  note acme_reaches_shared
  also note acme_takes
  also have "report_reaches acme_worker (acme_taken, [Recording acme_claim [] acme_agent], []) (acme_logged, [Serving acme_claim], [])"
    using report_step.log_access [of acme_worker acme_taken "[]" acme_claim "[]" acme_agent "[]" "[]"] acme_logs acme_claim_fields
    by (simp add: report_step_reaches)
  also have "report_reaches acme_worker (acme_logged, [Serving acme_claim], []) (acme_logged, [], [(acme_claim, ''pdf'')])"
  proof -
    show ?thesis using report_step.serve [OF acme_serves_logged, of acme_worker "[]" "[]" "[]"]
      by (simp add: report_step_reaches)
  qed
  finally show ?thesis .
qed

section \<open>The properties at this run\<close>

theorem share_link_honours_its_cap_witness:
  "report_reaches acme_worker (acme_start, [], []) (acme_logged, [], [(acme_claim, ''pdf'')])
    \<and> int (granted ''aa'' [] [(acme_claim, ''pdf'')]) \<le> 1 \<and> rp_SHA256 acme_done = hex_encode (sha256 ''pdf'')"
proof -
  have links: "acme_used \<in> set (rd_links acme_logged)" "rd_reports acme_logged = [acme_done]"
    using acme_claim_fields(6) acme_ready_fields(7)
    by (simp_all add: acme_logged_def drop_id_def acme_taken_def acme_shared_def)
  have used: "ln_MaxDownloads (lr_Link acme_used) = Some 1" "ln_ID (lr_Link acme_used) = ''aa''"
      "ln_TenantID (lr_Link acme_used) = ''t''" "ln_ReportID (lr_Link acme_used) = ''a''"
    by (simp_all add: acme_used_def counted_def acme_link_def)
  from share_link_honours_its_cap [OF acme_start_ok acme_reaches_sent links(1)] show ?thesis
    using acme_reaches_sent by (simp add: used acme_claim_fields links(2))
qed

theorem barred_link_grants_nothing_more_witness:
  "\<exists>(w :: report_db) x. x \<in> set (rd_links w) \<and> barred (en_clock w) (lr_Link x)
    \<and> report_reaches acme_worker (acme_start, [], []) (w, [Recording acme_claim [] acme_agent], [])
    \<and> granted ''aa'' [] [] \<le> granted ''aa'' [Recording acme_claim [] acme_agent] []"
proof -
  define w where "w = acme_taken\<lparr>rd_links := [revoked_row 0 acme_used]\<rparr>"
  have clock: "en_clock acme_taken = 0" using acme_shared_fields(2) by (simp add: acme_taken_def)
  have "own_link ''t'' ''aa'' acme_used" by (simp add: own_link_def acme_used_def counted_def acme_link_def)
  then have "snd (run_state (Api_Revoke ''t'' ''aa'') acme_taken) = w"
    using acme_shared_fields(4) acme_claim_fields(6) clock
    by (simp add: Api_Revoke_def RevokeShareLink_def run_WithTenant run_simps w_def)
  then have "report_reaches acme_worker (acme_taken, [Recording acme_claim [] acme_agent], []) (w, [Recording acme_claim [] acme_agent], [])"
    using report_step.revoke [of acme_worker acme_taken "[Recording acme_claim [] acme_agent]" "[]" "''t''" "''aa''"]
    by (simp add: report_step_reaches)
  with acme_reaches_shared acme_takes have reach:
    "report_reaches acme_worker (acme_start, [], []) (w, [Recording acme_claim [] acme_agent], [])"
    by (blast intro: report_reaches_trans)
  have crash: "report_reaches acme_worker (w, [Recording acme_claim [] acme_agent], []) (w, [], [])"
    using report_step.crash [of acme_worker w "[]" _ "[]" "[]"] by (simp add: report_step_reaches)
  have row: "revoked_row 0 acme_used \<in> set (rd_links w)" "barred (en_clock w) (lr_Link (revoked_row 0 acme_used))"
      "ln_ID (lr_Link (revoked_row 0 acme_used)) = ''aa''"
    using acme_claim_fields(5) by (simp_all add: w_def barred_def revoked_row_def coalesce_def split: option.splits)
  show ?thesis using barred_link_grants_nothing_more [OF acme_start_ok reach crash row(1,2)] row reach by auto
qed

theorem claim_agrees_with_Classify_witness:
  "\<exists>c. claim_share_download (lr_TokenHash acme_link) acme_shared = Inr (Some c, acme_taken) \<and> cl_Outcome c = OutcomeGranted"
proof -
  have "Link_Classify (lr_Link acme_link) 0 = OutcomeGranted" by (simp add: Link_Classify_def acme_link_def)
  moreover have "ln_DownloadCount (lr_Link acme_link) < 2 ^ 31 - 1" by (simp add: acme_link_def)
  ultimately show ?thesis
    using claim_agrees_with_Classify [of acme_shared "[]" acme_link "[]"] acme_shared_fields
    by (auto simp: acme_taken_def acme_used_def)
qed

theorem ready_report_is_whole_and_final_witness:
  "acme_done \<in> set (rd_reports acme_shared) \<and> rd_blobs acme_shared acme_key = Some ''pdf''
    \<and> rp_SHA256 acme_done = hex_encode (sha256 ''pdf'') \<and> rp_SizeBytes acme_done = 3"
proof -
  have "report_reaches acme_worker (acme_ready, [], []) (acme_shared, [], [])"
    using report_step.share [of acme_worker acme_ready "[]" "[]" "''t''" "''u''" "''a''" "\<lparr>sr_Expires = None, sr_Downloads = Some 1\<rparr>"]
    by (simp add: acme_share report_step_reaches)
  from ready_report_is_whole_and_final [OF acme_start_ok acme_reaches_ready this, of acme_done] acme_ready_fields
  show ?thesis by auto
qed

theorem accepted_request_can_be_rendered_witness:
  "report_checks (new_report acme_request acme_start) \<and> validate_request acme_request = Inr acme_request"
proof -
  have "\<exists>x. rn_WritePDF acme_writers b = Inr x" "\<exists>x. rn_WriteXLSX acme_writers b = Inr x"
      "\<exists>x. rn_Serialize acme_writers f b = Inr x" "\<exists>x. rn_WriteJSON acme_writers b s c = Inr x" for f b s c
    by (auto simp: acme_writers_def intro: exI [of _ False])
  from accepted_request_can_be_rendered [OF acme_request_ok this, of acme_start "[]" acme_bom] show ?thesis by blast
qed

theorem render_settles_the_row_witness:
  "\<exists>(v :: report_db) q. run_state (Worker_Render acme_worker ''t'' ''a'') acme_queued = (Inr (), v)
    \<and> find_report ''t'' ''a'' v = Some q \<and> rp_Status q = StatusReady"
proof -
  have "artifact_of (rd_render acme_queued) (acme_report\<lparr>rp_Status := StatusRendering, rp_UpdatedAt := en_clock acme_queued\<rparr>)
      = Inr (acme_bom, (''pdf'', False, []))"
    using acme_fields(3) by (simp add: acme_queued_def acme_start_def artifact_of_def acme_writers_def renderArtifact_def)
  then show ?thesis
    using render_settles_the_row [OF acme_fields(8) _ acme_fields(7,4,6), of acme_worker] acme_key_ok acme_fields(3)
    by (auto simp: DefaultMaxBytes_def)
qed

theorem failed_upload_is_not_repeated_witness:
  "\<exists>(v :: report_db) q. run_state (Render_handle acme_worker \<lparr>rj_Schema = [], rj_TenantID = ''t'', rj_ReportID = ''a'', rj_RequestedAt = []\<rparr>) v
      = (Inr (), v) \<and> find_report ''t'' ''a'' v = Some q \<and> rp_Status q = report_StatusFailed"
proof -
  have "artifact_of (rd_render acme_queued) (acme_report\<lparr>rp_Status := StatusRendering, rp_UpdatedAt := en_clock acme_queued\<rparr>)
      = Inr (acme_bom, (''pdf'', False, []))"
    using acme_fields(3) by (simp add: acme_queued_def acme_start_def artifact_of_def acme_writers_def renderArtifact_def)
  then show ?thesis
    using failed_upload_is_not_repeated [of "acme_queued\<lparr>en_outcomes := [Io_Ok, Io_Fails]\<rparr>" "''t''" "''a''" acme_report _
        "\<lparr>rj_Schema = [], rj_TenantID = ''t'', rj_ReportID = ''a'', rj_RequestedAt = []\<rparr>" acme_worker] acme_key_ok acme_fields
    by auto
qed

theorem failed_claim_is_acknowledged_witness:
  "\<exists>(v :: report_db) q. find_report ''t'' ''a'' v = Some q \<and> rp_Status q = StatusRendering \<and> reliable v
    \<and> run_state (Render_handle acme_worker \<lparr>rj_Schema = [], rj_TenantID = ''t'', rj_ReportID = ''a'', rj_RequestedAt = []\<rparr>)
        (acme_queued\<lparr>en_outcomes := [Io_AckLost]\<rparr>) = (Inr (), v)"
  using failed_claim_is_acknowledged [of "acme_queued\<lparr>en_outcomes := [Io_AckLost]\<rparr>" Io_AckLost "''t''" "''a''" acme_report
      "\<lparr>rj_Schema = [], rj_TenantID = ''t'', rj_ReportID = ''a'', rj_RequestedAt = []\<rparr>" acme_worker] acme_fields
  by auto

lemma acme_open: "run_state (stream acme_done) acme_ready = (Inr (download_headers acme_done, ''pdf''), acme_ready)"
proof -
  have "validateKey acme_key = None" unfolding acme_key_def by (rule acme_key_ok)
  then show ?thesis using acme_ready_fields acme_key_nonempty by (simp add: stream_def Open_def blob_Get_def run_simps)
qed

theorem private_report_needs_an_analyst_witness:
  "fst (run_state (Api_Download ''t'' RoleAnalyst ''a'') acme_ready) = Inr (download_headers acme_done, ''pdf'')
    \<and> rank RoleAnalyst \<le> rank RoleAnalyst \<and> rp_Visibility acme_done = VisibilityPrivate"
proof -
  have "run_state (Api_Download ''t'' RoleAnalyst ''a'') acme_ready = (Inr (download_headers acme_done, ''pdf''), acme_ready)"
    using acme_ready_fields acme_open
    by (simp add: Api_Download_def Report_Get_def run_ReadTenant run_simps Let_def CanDownloadReport_def Allow_def matrix_def
        at_least_def rank_def Role_Valid_def AllRoles_def)
  with private_report_needs_an_analyst [OF this] acme_ready_fields show ?thesis by auto
qed

theorem every_claim_is_logged_witness:
  "\<exists>a. rd_accesses acme_logged = [a] \<and> sx_TenantID a = ''t'' \<and> sx_Outcome a = OutcomeGranted"
proof -
  have "run_state (ClaimShared acme_token [] acme_agent) acme_shared = (Inr acme_claim, acme_logged)"
    using acme_claims acme_logs acme_claim_fields by (simp add: ClaimShared_def run_simps)
  from every_claim_is_logged [OF acme_shared_fields(1) _ acme_agent_ok this] acme_shared_fields(3,8) acme_claim_fields
  show ?thesis by auto
qed

theorem shared_download_needs_a_live_link_witness:
  "fst (run_state (Api_Shared acme_token [] acme_agent) acme_shared) = Inr (download_headers acme_done, ''pdf'')
    \<and> (\<exists>l. l \<in> set (rd_links acme_shared) \<and> claimable (Token_Hash acme_token) 0 l)"
proof -
  have "run_state (ClaimShared acme_token [] acme_agent) acme_shared = (Inr acme_claim, acme_logged)"
    using acme_claims acme_logs acme_claim_fields by (simp add: ClaimShared_def run_simps)
  moreover have "run_state (serve_shared acme_claim) acme_logged = (Inr (download_headers acme_done, ''pdf''), acme_logged)"
    by (rule acme_serves_logged)
  moreover have "ParseToken acme_token = Inr acme_token"
    by (simp add: acme_token_def ParseToken_def NewToken_def b64_decode_encode length_b64_encode TokenBytes_def tokenChars_def)
  ultimately have "run_state (Api_Shared acme_token [] acme_agent) acme_shared = (Inr (download_headers acme_done, ''pdf''), acme_logged)"
    using acme_claim_fields by (simp add: Api_Shared_def run_simps)
  with shared_download_needs_a_live_link [OF this] acme_shared_fields(2) show ?thesis by auto
qed

end
