(* ===== verification/Spec2Isabelle.thy ===== *)
theory Spec2Isabelle
  imports Authz Sandbox_Policy Vex_Store Scan_Creation Scheduler_Examples Notify_Examples Webhook_Properties Report_Examples
begin

text \<open>
  AxeBOM scans source trees with a set of external engines and turns what they report into bills of
  material. This development models the part of its Go code that decides: which engines run, in which
  order jobs are sent and results recorded, when a scan is over, which scans are started by the clock, who
  may do what, which statement about a vulnerability is in force, and who is told of it.

  The program. A request to the scan service becomes a scan with one run per engine and one producer
  job (\<^verbatim>\<open>orchestr/orchestrator.go\<close>). The fetcher answers with a pinned commit; the orchestrator then
  fans the engine jobs out, holding back an engine that consumes another engine's output
  (\<^verbatim>\<open>orchestr/dependent.go\<close>). Each result is upserted, the scan's status recomputed and, once every
  SBOM engine is done, a normalize trigger published and claimed (\<^verbatim>\<open>orchestr/normalize_trigger.go\<close>).
  A reaper times out runs that never report (\<^verbatim>\<open>orchestr/reaper.go\<close>). All of it happens through the
  store (\<^verbatim>\<open>orchestr/store.go\<close>) inside tenant transactions, and over a message bus. The campaign service
  starts scans on cron schedules (\<^verbatim>\<open>services/campaign\<close>): several instances poll the due campaigns and
  claim an occurrence each before they run it. The notification service (\<^verbatim>\<open>services/notification\<close>)
  turns events of the other services into signed webhook requests and mails, with secrets kept in a
  vault (\<^verbatim>\<open>libs/go-shared/vault\<close>), and retries what was not taken. The report service (\<^verbatim>\<open>services/report\<close>)
  queues a report, renders it in a worker, keeps the artifact in an object store, and hands it out by role or
  through share links with a cap and an end, which need no account.

  Theories, from the bottom.
  \<^item> \<open>Prelude\<close>: fact collections, Go's stable sort, programs that thread a state, two-state laws.
    \<open>Go_Text\<close>, \<open>Text_Laws\<close>: the functions of Go's \<^verbatim>\<open>strings\<close>, \<^verbatim>\<open>strconv\<close> and \<^verbatim>\<open>utf8\<close> the code calls and
    their laws; a Go string is the list of its bytes. \<open>Go_Time\<close>: instants, zones and the calendar of
    \<^verbatim>\<open>time\<close>. \<open>Sha256\<close>, \<open>Go_Json\<close>, \<open>Go_Url\<close>: hashing, writing JSON, what is read of a URL.
  \<^item> \<open>Errs\<close> (\<^verbatim>\<open>platform/errs/errs.go\<close>): coded errors and wrapping. \<open>Events\<close> (\<^verbatim>\<open>events/*.go\<close>): the
    envelopes and their validation, and how a scan's status follows from its engines'.
  \<^item> \<open>Registry\<close> (\<^verbatim>\<open>policy/registry.go\<close>), \<open>Engine_Policy\<close> (\<^verbatim>\<open>policy/store.go\<close>): the engines, the rules
    for combining them, and the tenants' overrides.
  \<^item> \<open>Authz\<close> (\<^verbatim>\<open>authz/matrix.go\<close>), \<open>Sandbox_Policy\<close> (\<^verbatim>\<open>sandbox/policy.go\<close>): decisions without state.
  \<^item> \<open>Vex\<close> (\<^verbatim>\<open>vex/vex.go\<close>), \<open>Vex_Store\<close> (\<^verbatim>\<open>orchestr/vex_store.go\<close>): statements and their history.
  \<^item> \<open>Tenant_Db\<close> (\<^verbatim>\<open>platform/db/tenant.go\<close>): a transaction is a function on the database that either
    yields a value and a new state or an error; \<open>WithTenant\<close> runs it atomically and may also fail at
    its start or commit. The environment record carries the clock, the source of fresh identifiers,
    the outbox of published messages, and a schedule of faults, so that a theorem about every
    environment covers every pattern of failures.
  \<^item> \<open>Scan_Store\<close>: the tables of the scan schema and every statement of \<^verbatim>\<open>store.go\<close> on them.
    \<open>Orchestrator\<close>, \<open>Scan_Handlers\<close>: the orchestrator's operations, the handlers of its messages, the
    reaper and the state-changing API handlers, each the whole handler.
  \<^item> \<open>Scan_Laws\<close>: what a two-state relation owes to be kept by every statement; from that it is kept by
    every handler (locales \<open>scan_law\<close> and \<open>system_law\<close>), with \<open>step\<close> and \<open>reach\<close> the system's
    transitions. \<open>Scan_Invariants\<close> interprets them: source pinned once, schema, tenant isolation,
    well-formed messages, claims after publication. \<open>Scan_Properties\<close>: what each handler achieves.
    \<open>Scan_Creation\<close>: creation of a scan, and the histories in which the code falls short of its
    comments. \<open>Scan_Example\<close>: a concrete history for the witnesses.
  \<^item> \<open>Cron_Schedule\<close> (\<^verbatim>\<open>schedule/schedule.go\<close>): parsing a line, the search for the next run in a zone,
    catching up after downtime. \<open>Cron_Text\<close> shows that parsing reads back what was written, \<open>Cron_Zones\<close>
    what the search does around changes of the clock, \<open>Cron_Properties\<close> that it finds the least match and
    when it gives up, \<open>Cron_Examples\<close> has the witnesses and the runs that get lost.
  \<^item> \<open>Campaign_Store\<close> (\<^verbatim>\<open>campaign/internal/store/store.go\<close>), \<open>Scheduler\<close> (\<^verbatim>\<open>scheduler.go\<close>, \<^verbatim>\<open>trigger.go\<close>,
    \<^verbatim>\<open>deps.go\<close>): the tables, claiming an occurrence, one tick. \<open>Scheduler_Steps\<close> cuts a tick into the atomic
    calls whose interleavings other instances see; \<open>Scheduler_Safety\<close>: no occurrence is dispatched twice
    in any interleaving; \<open>Scheduler_Dispatch\<close>: what a tick achieves; \<open>Scheduler_Examples\<close>: witnesses.
  \<^item> \<open>Vault\<close> (\<^verbatim>\<open>vault/vault.go\<close>): references, paths and the two stores, under one locale
    (\<open>secret_store\<close>). \<open>Webhook\<close>, \<open>Webhook_Properties\<close> (\<^verbatim>\<open>webhook/webhook.go\<close>): payloads, signatures and their
    check, retries. \<open>Email\<close> (\<^verbatim>\<open>email/email.go\<close>).
  \<^item> \<open>Notify_Store\<close>, \<open>Delivery\<close>, \<open>Notify_Api\<close>: the notification service's tables, one delivery attempt, the
    consumer and the poller, and the HTTP handlers. \<open>Notify_Laws\<close>: what each call leaves behind.
    \<open>Notify_Steps\<close>: the service as a step relation whose states carry the rows that pollers hold, and an
    invariant of all reachable states. \<open>Notify_Safety\<close>, \<open>Notify_Properties\<close>: what follows.
    \<open>Notify_Examples\<close>: witnesses, and where the service falls short.
  \<^item> \<open>Rfc3339\<close>: reading a time. \<open>Share_Link\<close> (\<^verbatim>\<open>share/share.go\<close>): tokens and the judgement of a link.
    \<open>Bom_Level\<close> (\<^verbatim>\<open>level/level.go\<close>): what a level of a bill lists and leaves out. \<open>Report_Store\<close> (\<^verbatim>\<open>store/store.go\<close>,
    \<^verbatim>\<open>store/share.go\<close>, \<^verbatim>\<open>migrations/report\<close>, \<^verbatim>\<open>platform/blob/blob.go\<close>): reports, links, accesses, artifacts.
    \<open>Report_Service\<close> (\<^verbatim>\<open>service/service.go\<close>), \<open>Report_Worker\<close> (\<^verbatim>\<open>worker/*.go\<close>), \<open>Report_Api\<close>
    (\<^verbatim>\<open>handler/handler.go\<close>, \<^verbatim>\<open>routes.go\<close>): requests, renders, and the HTTP handlers. \<open>Report_Laws\<close>: what each
    call changes. \<open>Report_Outcomes\<close>: what single requests and renders achieve, on every branch.
    \<open>Report_Steps\<close>: the service as a step relation, one transaction, upload or stream at a time, with the
    tasks under way beside the database; the handlers are shown to be made of its steps. \<open>Report_Safety\<close>,
    \<open>Share_Safety\<close>: the invariants of reports and of links; \<open>Report_Properties\<close>: what follows.
    \<open>Report_Examples\<close>: witnesses.

  Bounds. Loops over finite lists are recursion on the list, and the code's own bounds (days searched for
  a next run, occurrences tracked, attempts, batch sizes) are the definitions' bounds; no fuel is added.
  Identifiers are strings numbered by a counter, so that fresh ones differ. Times are integers (Go counts
  nanoseconds); where 64 bits matter, as in the age of a signature, the wrap is written out.

  Not modelled. HTTP and the decoding of JSON, SQL engines, row-level security as such (the tenant predicate
  of each statement is), message consumption and redelivery timing, the HTML part and the encoding of
  mails, and the services listed as not modelled in the manifest: how documents are laid out and signed and
  where their content is read, identity, project inventories, fetching, container execution. How a URL is
  parsed, the zone database, the loader of a report's bill, its writers and its signer are parameters.
  In the notification service's steps the consumer's handling of one event is one step, a poller's claim and
  each of its retries are steps of their own.
\<close>

end
